(* ===== verification/FD_Prelude.thy ===== *)
theory FD_Prelude
  imports Main "HOL-Library.Word"
begin

text \<open>
  Shared vocabulary of the development.

  The C integers are modelled as \<open>int\<close> with the conversion of each width written out:
  \<open>u8\<close>, \<open>u16\<close>, \<open>u32\<close>, \<open>u64\<close> reduce to an unsigned range and \<open>s32\<close>, \<open>s64\<close> to a two's
  complement range. Bytes are \<open>8 word\<close>. Byte strings in memory order are lists; an address
  space (an image file, a mapped region) is a function from addresses to bytes, read with
  \<open>mem_bytes\<close> and written with \<open>mem_write\<close>. \<open>le_of\<close>/\<open>to_le\<close> and \<open>be_of\<close>/\<open>to_be\<close> are the
  two byte orders.
\<close>

unbundle bit_operations_syntax

type_synonym byte = "8 word"

named_theorems wraps \<open>conversions that are the identity on values in range\<close>
named_theorems mem \<open>reads and writes of address spaces\<close>

section \<open>Integer conversions\<close>

definition u8 :: "int \<Rightarrow> int" where "u8 x = x mod 256"
definition u16 :: "int \<Rightarrow> int" where "u16 x = x mod 65536"
definition u32 :: "int \<Rightarrow> int" where "u32 x = x mod 4294967296"
definition u64 :: "int \<Rightarrow> int" where "u64 x = x mod 18446744073709551616"
definition s32 :: "int \<Rightarrow> int" where
  "s32 x = (x + 2147483648) mod 4294967296 - 2147483648"
definition s64 :: "int \<Rightarrow> int" where
  "s64 x = (x + 9223372036854775808) mod 18446744073709551616 - 9223372036854775808"

lemma u8_id [wraps]: "0 \<le> x \<Longrightarrow> x < 256 \<Longrightarrow> u8 x = x"
  by (simp add: u8_def)

lemma u16_id [wraps]: "0 \<le> x \<Longrightarrow> x < 65536 \<Longrightarrow> u16 x = x"
  by (simp add: u16_def)

lemma u32_id [wraps]: "0 \<le> x \<Longrightarrow> x < 4294967296 \<Longrightarrow> u32 x = x"
  by (simp add: u32_def)

lemma u64_id [wraps]: "0 \<le> x \<Longrightarrow> x < 18446744073709551616 \<Longrightarrow> u64 x = x"
  by (simp add: u64_def)

lemma s32_id [wraps]: "-2147483648 \<le> x \<Longrightarrow> x < 2147483648 \<Longrightarrow> s32 x = x"
  by (simp add: s32_def)

lemma s64_id [wraps]:
  "-9223372036854775808 \<le> x \<Longrightarrow> x < 9223372036854775808 \<Longrightarrow> s64 x = x"
  by (simp add: s64_def)

lemma s64_high:
  assumes "9223372036854775808 \<le> x" "x < 18446744073709551616"
  shows "s64 x = x - 18446744073709551616"
proof -
  have "(x + 9223372036854775808) mod 18446744073709551616 =
        (x - 9223372036854775808) mod 18446744073709551616"
    by (simp add: mod_eq_dvd_iff)
  also have "\<dots> = x - 9223372036854775808" using assms by (intro mod_pos_pos_trivial) auto
  finally show ?thesis by (simp add: s64_def)
qed

lemma s32_high:
  assumes "2147483648 \<le> x" "x < 4294967296"
  shows "s32 x = x - 4294967296"
proof -
  have "(x + 2147483648) mod 4294967296 = (x - 2147483648) mod 4294967296"
    by (simp add: mod_eq_dvd_iff)
  also have "\<dots> = x - 2147483648" using assms by (intro mod_pos_pos_trivial) auto
  finally show ?thesis by (simp add: s32_def)
qed

lemma u8_range: "0 \<le> u8 x" "u8 x < 256"
  by (simp_all add: u8_def)

lemma u16_range: "0 \<le> u16 x" "u16 x < 65536"
  by (simp_all add: u16_def)

lemma u32_range: "0 \<le> u32 x" "u32 x < 4294967296"
  by (simp_all add: u32_def)

lemma u64_range: "0 \<le> u64 x" "u64 x < 18446744073709551616"
  by (simp_all add: u64_def)

lemma s32_range: "-2147483648 \<le> s32 x" "s32 x < 2147483648"
  by (simp_all add: s32_def)

lemma s64_range: "-9223372036854775808 \<le> s64 x" "s64 x < 9223372036854775808"
  by (simp_all add: s64_def)

lemma s64_bits: "s64 x = signed_take_bit 63 x"
  by (simp add: s64_def signed_take_bit_eq_take_bit_shift take_bit_eq_mod)

lemma s64_or: "s64 (a OR b) = s64 a OR s64 b"
  by (auto simp: s64_bits bit_eq_iff bit_simps)

lemma u32_bits: "u32 x = take_bit 32 x"
  by (simp add: u32_def take_bit_eq_mod)

lemma uint_byte: "0 \<le> uint (b :: byte)" "uint (b :: byte) < 256"
  using uint_lt2p [of b] by simp_all

lemma uint_byte_ge_neg [simp]: "- numeral k \<le> uint (b :: byte)"
  by (rule order_trans [OF _ uint_byte(1)]) simp

lemma byte_of_uint [simp]: "word_of_int (uint (b :: byte)) = b"
  by simp

lemma byte_eq_iff: "(a :: byte) = b \<longleftrightarrow> uint a = uint b"
  by (rule word_uint_eq_iff)

lemma sint_byte: "sint (b :: byte) = (if uint b < 128 then uint b else uint b - 256)"
proof (cases "uint b < 128")
  case True
  have "- (2 ^ 7) \<le> uint b"
    by (rule order_trans [OF _ uint_byte(1)]) simp
  with True have "signed_take_bit 7 (uint b) = uint b"
    by (intro signed_take_bit_int_eq_self) simp_all
  with True show ?thesis by (simp add: sint_uint)
next
  case False
  have "signed_take_bit 7 (uint b) = signed_take_bit 7 (uint b - 256)"
    by (simp add: signed_take_bit_eq_iff_take_bit_eq take_bit_eq_mod)
  also have "\<dots> = uint b - 256" using False uint_byte(2) [of b]
    by (intro signed_take_bit_int_eq_self) simp_all
  finally show ?thesis using False by (simp add: sint_uint)
qed

text \<open>Or-ing a value into the free low bits is addition.\<close>

lemma or_low_bits:
  fixes a b :: int
  assumes "0 \<le> b" "b < 2 ^ m"
  shows "push_bit m a OR b = push_bit m a + b"
proof -
  have "b = take_bit m b" using assms by (simp add: take_bit_int_eq_self)
  then have "push_bit m a AND b = push_bit m a AND take_bit m b" by simp
  also have "\<dots> = 0" by (auto simp: bit_eq_iff bit_simps)
  finally show ?thesis by (simp add: disjunctive_add_eq_or)
qed

lemma or_shifted_byte:
  fixes a b :: int
  assumes "0 \<le> b" "b < 256"
  shows "push_bit (k + 8) a OR push_bit k b = push_bit k (256 * a + b)"
proof -
  have "push_bit (k + 8) a OR push_bit k b = push_bit k (push_bit 8 a OR b)"
    by (simp add: push_bit_or push_bit_push_bit)
  also have "\<dots> = push_bit k (256 * a + b)"
    using or_low_bits [of b 8 a] assms by (simp add: push_bit_eq_mult mult.commute)
  finally show ?thesis .
qed

section \<open>Byte orders\<close>

fun le_of :: "byte list \<Rightarrow> int" where
  "le_of [] = 0"
| "le_of (b # bs) = uint b + 256 * le_of bs"

fun to_le :: "nat \<Rightarrow> int \<Rightarrow> byte list" where
  "to_le 0 x = []"
| "to_le (Suc n) x = word_of_int (x mod 256) # to_le n (x div 256)"

definition be_of :: "byte list \<Rightarrow> int" where "be_of bs = le_of (rev bs)"
definition to_be :: "nat \<Rightarrow> int \<Rightarrow> byte list" where "to_be n x = rev (to_le n x)"

lemma length_to_le [simp]: "length (to_le n x) = n"
  by (induction n x rule: to_le.induct) auto

lemma length_to_be [simp]: "length (to_be n x) = n"
  by (simp add: to_be_def)

lemma le_of_range: "0 \<le> le_of bs \<and> le_of bs < 256 ^ length bs"
proof (induction bs)
  case Nil
  then show ?case by simp
next
  case (Cons b bs)
  have "le_of bs + 1 \<le> 256 ^ length bs" using Cons.IH by simp
  then have "256 * le_of bs + 256 \<le> 256 * 256 ^ length bs" by simp
  with Cons.IH uint_byte [of b] show ?case by simp
qed

lemma be_of_range: "0 \<le> be_of bs \<and> be_of bs < 256 ^ length bs"
  using le_of_range [of "rev bs"] by (simp add: be_of_def)

lemma le_of_to_le: "le_of (to_le n x) = x mod 256 ^ n"
proof (induction n x rule: to_le.induct)
  case (1 x)
  then show ?case by simp
next
  case (2 n x)
  have "uint (word_of_int (x mod 256) :: byte) = x mod 256"
    by (simp add: uint_word_of_int)
  moreover have "x mod (256 * 256 ^ n) = 256 * (x div 256 mod 256 ^ n) + x mod 256"
    by (rule zmod_zmult2_eq) simp
  ultimately show ?case using 2 by simp
qed

lemma to_le_le_of: "to_le (length bs) (le_of bs) = bs"
proof (induction bs)
  case Nil
  then show ?case by simp
next
  case (Cons b bs)
  have "(uint b + 256 * le_of bs) div 256 = le_of bs"
    using uint_byte [of b] by simp
  moreover have "(uint b + 256 * le_of bs) mod 256 = uint b"
    using uint_byte [of b] by simp
  ultimately show ?case using Cons by simp
qed

lemma be_of_to_be: "be_of (to_be n x) = x mod 256 ^ n"
  by (simp add: be_of_def to_be_def le_of_to_le)

lemma to_be_be_of: "to_be (length bs) (be_of bs) = bs"
proof -
  have "rev (to_le (length (rev bs)) (le_of (rev bs))) = rev (rev bs)"
    by (simp only: to_le_le_of)
  then show ?thesis by (simp add: be_of_def to_be_def)
qed

lemma to_be_inj:
  assumes "0 \<le> x" "x < 256 ^ n" "0 \<le> y" "y < 256 ^ n" "to_be n x = to_be n y"
  shows "x = y"
proof -
  have "x = be_of (to_be n x)" using assms(1,2) by (simp add: be_of_to_be)
  also have "\<dots> = be_of (to_be n y)" by (simp only: assms(5))
  also have "\<dots> = y" using assms(3,4) by (simp add: be_of_to_be)
  finally show ?thesis .
qed

lemma le_of_append: "le_of (xs @ ys) = le_of xs + 256 ^ length xs * le_of ys"
  by (induction xs) (auto simp: algebra_simps)

lemma le_of_replicate_0 [simp]: "le_of (replicate n 0) = 0"
  by (induction n) auto

section \<open>Address spaces\<close>

definition mem_bytes :: "(int \<Rightarrow> byte) \<Rightarrow> int \<Rightarrow> nat \<Rightarrow> byte list" where
  "mem_bytes f off n = map (\<lambda>i. f (off + int i)) [0..<n]"

definition mem_write :: "(int \<Rightarrow> byte) \<Rightarrow> int \<Rightarrow> byte list \<Rightarrow> int \<Rightarrow> byte" where
  "mem_write f off bs = (\<lambda>i. if off \<le> i \<and> i < off + int (length bs)
                             then bs ! nat (i - off) else f i)"

lemma length_mem_bytes [simp]: "length (mem_bytes f off n) = n"
  by (simp add: mem_bytes_def)

lemma nth_mem_bytes [simp]: "i < n \<Longrightarrow> mem_bytes f off n ! i = f (off + int i)"
  by (simp add: mem_bytes_def)

lemma mem_bytes_0 [simp]: "mem_bytes f off 0 = []"
  by (simp add: mem_bytes_def)

lemma mem_bytes_Suc: "mem_bytes f off (Suc n) = f off # mem_bytes f (off + 1) n"
  by (rule nth_equalityI) (auto simp: nth_Cons algebra_simps split: nat.splits)

lemma mem_bytes_4: "mem_bytes f off 4 = [f off, f (off + 1), f (off + 2), f (off + 3)]"
  by (simp add: mem_bytes_def upt_conv_Cons)

lemma mem_bytes_cong:
  "(\<And>i. off \<le> i \<Longrightarrow> i < off + int n \<Longrightarrow> f i = g i) \<Longrightarrow> mem_bytes f off n = mem_bytes g off n"
  by (simp add: mem_bytes_def)

lemma mem_bytes_eq_iff:
  "mem_bytes f off n = bs \<longleftrightarrow>
     length bs = n \<and> (\<forall>i. off \<le> i \<and> i < off + int n \<longrightarrow> f i = bs ! nat (i - off))"
proof
  assume eq: "mem_bytes f off n = bs"
  have "f i = bs ! nat (i - off)" if "off \<le> i" "i < off + int n" for i
  proof -
    have "mem_bytes f off n ! nat (i - off) = f (off + int (nat (i - off)))"
      using that by (intro nth_mem_bytes) linarith
    then show ?thesis using that eq by simp
  qed
  with eq show "length bs = n \<and> (\<forall>i. off \<le> i \<and> i < off + int n \<longrightarrow> f i = bs ! nat (i - off))"
    by auto
next
  assume "length bs = n \<and> (\<forall>i. off \<le> i \<and> i < off + int n \<longrightarrow> f i = bs ! nat (i - off))"
  then show "mem_bytes f off n = bs"
    by (intro nth_equalityI) auto
qed

lemma mem_bytes_append:
  "mem_bytes f off m @ mem_bytes f (off + int m) n = mem_bytes f off (m + n)"
  by (rule nth_equalityI) (auto simp: nth_append algebra_simps)

lemma take_mem_bytes [mem]: "m \<le> n \<Longrightarrow> take m (mem_bytes f off n) = mem_bytes f off m"
  by (rule nth_equalityI) auto

lemma drop_mem_bytes [mem]:
  "m \<le> n \<Longrightarrow> drop m (mem_bytes f off n) = mem_bytes f (off + int m) (n - m)"
  by (rule nth_equalityI) (auto simp: algebra_simps)

lemma mem_write_in [mem]:
  "off \<le> i \<Longrightarrow> i < off + int (length bs) \<Longrightarrow> mem_write f off bs i = bs ! nat (i - off)"
  by (simp add: mem_write_def)

lemma mem_write_out [mem]:
  "i < off \<or> off + int (length bs) \<le> i \<Longrightarrow> mem_write f off bs i = f i"
  by (auto simp: mem_write_def)

lemma mem_write_Nil [simp]: "mem_write f off [] = f"
  by (rule ext, rule mem_write_out) auto

lemma mem_bytes_write_same [mem]: "mem_bytes (mem_write f off bs) off (length bs) = bs"
  by (rule nth_equalityI) (auto simp: mem_write_def)

lemma mem_bytes_write_disjoint [mem]:
  "off + int (length bs) \<le> o2 \<or> o2 + int n \<le> off \<Longrightarrow>
     mem_bytes (mem_write f off bs) o2 n = mem_bytes f o2 n"
  by (rule mem_bytes_cong) (auto simp: mem_write_def)

lemma mem_write_bytes_id [mem]: "mem_write f off (mem_bytes f off n) = f"
  by (rule ext) (auto simp: mem_write_def)

lemma mem_write_append:
  "mem_write f off (xs @ ys) = mem_write (mem_write f off xs) (off + int (length xs)) ys"
  by (rule ext) (auto simp: mem_write_def nth_append intro!: arg_cong [where f = "(!) ys"])

lemma mem_write_commute:
  "off + int (length bs) \<le> o2 \<or> o2 + int (length cs) \<le> off \<Longrightarrow>
     mem_write (mem_write f off bs) o2 cs = mem_write (mem_write f o2 cs) off bs"
  by (rule ext) (auto simp: mem_write_def)

section \<open>Small list facts\<close>

text \<open>\<open>overlay old new\<close>: the buffer after its first bytes were overwritten by \<open>new\<close>.\<close>

definition overlay :: "byte list \<Rightarrow> byte list \<Rightarrow> byte list" where
  "overlay old new = take (length old) (new @ drop (length new) old)"

lemma length_overlay [simp]: "length (overlay old new) = length old"
  by (simp add: overlay_def)

lemma overlay_full [simp]: "length new = length old \<Longrightarrow> overlay old new = new"
  by (simp add: overlay_def)

lemma overlay_Nil [simp]: "overlay old [] = old"
  by (simp add: overlay_def)

lemma replicate_eq_4: "replicate 4 x = [x, x, x, x]"
  by (simp add: numeral_eq_Suc)

lemma replicate_append_take:
  "m \<le> n \<Longrightarrow> replicate m x @ drop m (replicate n x) = replicate n x"
  by (simp flip: replicate_add)

section \<open>Strings\<close>

text \<open>Comparison of the C library that ignores the case of ASCII letters.\<close>

definition lower :: "char \<Rightarrow> char" where
  "lower c = (let n = (of_char c :: nat) in if 65 \<le> n \<and> n \<le> 90 then char_of (n + 32) else c)"

definition stricmp :: "string \<Rightarrow> string \<Rightarrow> bool" where
  "stricmp a b \<longleftrightarrow> map lower a = map lower b"

section \<open>Statuses of the kernel drivers\<close>

text \<open>The statuses the drivers set or test for; \<open>STATUS_OTHER\<close> stands for every other error
  code.\<close>

datatype ntstatus =
    STATUS_SUCCESS | STATUS_DEVICE_BUSY | STATUS_DRIVER_INTERNAL_ERROR
  | STATUS_INSUFFICIENT_RESOURCES | STATUS_NO_MEMORY | STATUS_INVALID_PARAMETER
  | STATUS_INVALID_DEVICE_REQUEST | STATUS_END_OF_FILE | STATUS_BUFFER_TOO_SMALL
  | STATUS_PENDING | STATUS_INVALID_BUFFER_SIZE | STATUS_CONNECTION_RESET | STATUS_CANCELLED
  | STATUS_IO_DEVICE_ERROR | STATUS_BUFFER_OVERFLOW | STATUS_CONNECTION_REFUSED
  | STATUS_DEVICE_REMOVED | STATUS_DEVICE_DOES_NOT_EXIST | STATUS_MEDIA_WRITE_PROTECTED
  | STATUS_PIPE_BROKEN | STATUS_PIPE_DISCONNECTED | STATUS_PORT_DISCONNECTED
  | STATUS_REMOTE_DISCONNECT | STATUS_END_OF_MEDIA | STATUS_ACCESS_DENIED
  | STATUS_OBJECT_NAME_NOT_FOUND | STATUS_NOT_SUPPORTED | STATUS_OBJECT_NAME_COLLISION
  | STATUS_INTERNAL_ERROR | STATUS_SHARING_VIOLATION | STATUS_RESOURCE_IN_USE
  | STATUS_OTHER int

definition NT_SUCCESS :: "ntstatus \<Rightarrow> bool" where
  "NT_SUCCESS s \<longleftrightarrow> s = STATUS_SUCCESS"

lemma NT_SUCCESS_simps [simp]: "NT_SUCCESS STATUS_SUCCESS" "s \<noteq> STATUS_SUCCESS \<Longrightarrow> \<not> NT_SUCCESS s"
  by (simp_all add: NT_SUCCESS_def)

end
