(* ===== verification/FD_Store.thy ===== *)
theory FD_Store
  imports FD_Prelude
begin

text \<open>
  The interface between a virtual disk's backing store and the code that serves requests on
  it. \<open>disk_reader\<close> is what a reader relies on: a read inside the store returns the store's
  bytes, reports the whole length and changes nothing observable. \<open>disk_store\<close> extends it
  with writes. The result types are those of the code's routines: the byte count (or -1),
  the caller's buffer afterwards, the new state, and \<open>None\<close> for a call that does not return.
  The providers (raw image files, dynamic VHD images, the physical-memory file) interpret the
  locales in their own theories.
\<close>

text \<open>Running a list of writes, and the same writes on a flat byte array.\<close>

fun wr_all :: "('s \<Rightarrow> byte list \<Rightarrow> int \<Rightarrow> (int \<times> 's) option) \<Rightarrow> 's \<Rightarrow> (int \<times> byte list) list \<Rightarrow> 's option" where
  "wr_all wr s [] = Some s"
| "wr_all wr s ((off, bs) # ws) =
     (case wr s bs off of None \<Rightarrow> None | Some (n, s') \<Rightarrow> wr_all wr s' ws)"

fun flat_all :: "(int \<Rightarrow> byte) \<Rightarrow> (int \<times> byte list) list \<Rightarrow> int \<Rightarrow> byte" where
  "flat_all f [] = f"
| "flat_all f ((off, bs) # ws) = flat_all (mem_write f off bs) ws"

text \<open>A transfer the store takes: not empty, inside its length, within a C \<open>LONG\<close>.\<close>

definition fits :: "int \<Rightarrow> int \<Rightarrow> nat \<Rightarrow> bool" where
  "fits len off n \<longleftrightarrow> 0 \<le> off \<and> 0 < n \<and> off + int n \<le> len \<and> n < 2147483648"

lemma fits_mono: "fits len off n \<Longrightarrow> 0 < m \<Longrightarrow> m \<le> n \<Longrightarrow> fits len off m"
  by (auto simp: fits_def)

locale disk_reader =
  fixes rd :: "'s \<Rightarrow> byte list \<Rightarrow> int \<Rightarrow> (int \<times> byte list \<times> 's) option"
    and get :: "'s \<Rightarrow> int \<Rightarrow> byte"
    and len :: "'s \<Rightarrow> int"
    and inv :: "'s \<Rightarrow> bool"
  assumes rd_ok: "inv s \<Longrightarrow> fits (len s) off (length io) \<Longrightarrow>
     \<exists>s'. rd s io off = Some (int (length io), mem_bytes (get s) off (length io), s') \<and>
          inv s' \<and> get s' = get s \<and> len s' = len s"
begin

lemma rd_bytes:
  assumes "inv s" "fits (len s) off (length io)" "rd s io off = Some (n, bs, s')"
  shows "n = int (length io)" "bs = mem_bytes (get s) off (length io)"
    "inv s'" "get s' = get s" "len s' = len s"
  using rd_ok [OF assms(1,2)] assms(3) by auto

lemma rd_returns:
  "inv s \<Longrightarrow> fits (len s) off (length io) \<Longrightarrow> \<exists>n bs s'. rd s io off = Some (n, bs, s')"
  using rd_ok by blast

text \<open>Two reads in a row see the same bytes; a read in two halves sees what one read sees.\<close>

lemma rd_twice:
  assumes "inv s" "fits (len s) off (length io)" "rd s io off = Some (n, bs, s1)"
    "length io2 = length io"
  shows "\<exists>s2. rd s1 io2 off = Some (n, bs, s2)"
proof -
  note a = rd_bytes [OF assms(1-3)]
  show ?thesis using rd_ok [of s1 off io2] a assms(2,4) by auto
qed

lemma rd_split:
  assumes "inv s" "io1 \<noteq> []" "io2 \<noteq> []" "fits (len s) off (length io1 + length io2)"
    "rd s io1 off = Some (n1, b1, s1)" "rd s1 io2 (off + int (length io1)) = Some (n2, b2, s2)"
  shows "b1 @ b2 = mem_bytes (get s) off (length io1 + length io2)"
proof -
  have f1: "fits (len s) off (length io1)" and
    f2: "fits (len s) (off + int (length io1)) (length io2)"
    using assms(2-4) by (auto simp: fits_def)
  note a = rd_bytes [OF assms(1) f1 assms(5)]
  have "b2 = mem_bytes (get s1) (off + int (length io1)) (length io2)"
    using rd_bytes(2) [OF a(3) _ assms(6)] f2 a(5) by simp
  with a show ?thesis by (simp add: mem_bytes_append)
qed

end

locale disk_store = disk_reader rd get len inv
  for rd :: "'s \<Rightarrow> byte list \<Rightarrow> int \<Rightarrow> (int \<times> byte list \<times> 's) option" and get len inv +
  fixes wr :: "'s \<Rightarrow> byte list \<Rightarrow> int \<Rightarrow> (int \<times> 's) option"
  assumes wr_ok: "inv s \<Longrightarrow> fits (len s) off (length bs) \<Longrightarrow>
     \<exists>s'. wr s bs off = Some (int (length bs), s') \<and>
          inv s' \<and> get s' = mem_write (get s) off bs \<and> len s' = len s"
begin

lemma wr_bytes:
  assumes "inv s" "fits (len s) off (length bs)" "wr s bs off = Some (n, s')"
  shows "n = int (length bs)" "inv s'" "get s' = mem_write (get s) off bs" "len s' = len s"
  using wr_ok [OF assms(1,2)] assms(3) by auto

lemma read_after_write:
  assumes "inv s" "fits (len s) off (length bs)" "wr s bs off = Some (n, s1)"
    "length io = length bs"
  shows "\<exists>s2. rd s1 io off = Some (int (length bs), bs, s2)"
proof -
  note w = wr_bytes [OF assms(1-3)]
  have "fits (len s1) off (length io)" using assms(2,4) w(4) by simp
  from rd_ok [OF w(2) this] w(3) assms(4) show ?thesis by (auto simp: mem)
qed

lemma read_disjoint_after_write:
  assumes "inv s" "fits (len s) off (length bs)" "wr s bs off = Some (n, s1)"
    "fits (len s) o2 (length io)" "off + int (length bs) \<le> o2 \<or> o2 + int (length io) \<le> off"
  shows "\<exists>s2. rd s1 io o2 = Some (int (length io), mem_bytes (get s) o2 (length io), s2)"
proof -
  note w = wr_bytes [OF assms(1-3)]
  have "fits (len s1) o2 (length io)" using assms(4) w(4) by simp
  from rd_ok [OF w(2) this] w(3) assms(5) show ?thesis by (auto simp: mem)
qed

lemma wr_all_flat:
  assumes "inv s" "\<And>off bs. (off, bs) \<in> set ws \<Longrightarrow> fits (len s) off (length bs)"
  shows "\<exists>s'. wr_all wr s ws = Some s' \<and> inv s' \<and> get s' = flat_all (get s) ws \<and> len s' = len s"
  using assms
proof (induction ws arbitrary: s)
  case Nil
  then show ?case by simp
next
  case (Cons w ws)
  obtain off bs where w: "w = (off, bs)" by (cases w)
  from Cons.prems w have "fits (len s) off (length bs)" by simp
  with wr_ok Cons.prems(1) obtain s1 where s1: "wr s bs off = Some (int (length bs), s1)"
    "inv s1" "get s1 = mem_write (get s) off bs" "len s1 = len s" by blast
  with Cons.IH [of s1] Cons.prems(2) obtain s' where
    "wr_all wr s1 ws = Some s'" "inv s'" "get s' = flat_all (get s1) ws" "len s' = len s1"
    by auto
  with s1 w show ?case by simp
qed

lemma read_after_writes:
  assumes "inv s" "\<And>off bs. (off, bs) \<in> set ws \<Longrightarrow> fits (len s) off (length bs)"
    "wr_all wr s ws = Some s1" "fits (len s) off (length io)"
  shows "\<exists>s2. rd s1 io off =
           Some (int (length io), mem_bytes (flat_all (get s) ws) off (length io), s2)"
proof -
  obtain s' where "wr_all wr s ws = Some s'" "inv s'" "get s' = flat_all (get s) ws"
    "len s' = len s" using wr_all_flat [OF assms(1), of ws] assms(2) by auto
  with rd_ok [of s1 off io] assms(3,4) show ?thesis by auto
qed

end

end
