(* ===== verification/Devio_Image.thy ===== *)
theory Devio_Image
  imports FD_Store
begin

text \<open>
  The image layer of \<open>devio\<close> (\<open>devio/devio.c\<close>, \<open>devio/safeio.h\<close>, Windows build): the byte
  order helpers, \<open>pread\<close>/\<open>pwrite\<close> over the C runtime's file calls, and the
  \<open>physical_read\<close>/\<open>physical_write\<close> switch between the image file and an I/O library.

  The C runtime file is the record \<open>crt\<close>; \<open>f_room\<close> limits how far a write may extend the
  file (disk full), \<open>f_bad\<close> marks media errors, \<open>f_grow\<close> tells whether \<open>SetEndOfFile\<close>
  succeeds. The I/O library (\<open>--dll\<close>) is not part of the repository's server: its three
  procedures are function fields of the state, applied to the library's handle.
\<close>

section \<open>Byte order helpers\<close>

text \<open>\<open>int8_t *storage\<close>: each byte is sign extended before it is shifted and or-ed in.\<close>

definition s8_at :: "byte list \<Rightarrow> nat \<Rightarrow> int" where
  "s8_at storage i = sint (storage ! i)"

fun GetBigEndian64_loop :: "byte list \<Rightarrow> nat \<Rightarrow> int \<Rightarrow> int" where
  "GetBigEndian64_loop storage 0 number = number"
| "GetBigEndian64_loop storage (Suc left) number =
     GetBigEndian64_loop storage left
       (s64 (number OR push_bit (left * 8) (s8_at storage (7 - left))))"

definition GetBigEndian64 :: "byte list \<Rightarrow> int" where
  "GetBigEndian64 storage = GetBigEndian64_loop storage 8 0"

fun GetLittleEndian32U_loop :: "byte list \<Rightarrow> nat \<Rightarrow> int \<Rightarrow> int" where
  "GetLittleEndian32U_loop storage 0 number = number"
| "GetLittleEndian32U_loop storage (Suc left) number =
     GetLittleEndian32U_loop storage left
       (u32 (number OR push_bit ((3 - left) * 8) (uint (storage ! (3 - left)))))"

definition GetLittleEndian32U :: "byte list \<Rightarrow> int" where
  "GetLittleEndian32U storage = GetLittleEndian32U_loop storage 4 0"

section \<open>The C runtime file\<close>

definition ENOSPC :: int where "ENOSPC = 28"
definition EINVAL :: int where "EINVAL = 22"
definition EBADF :: int where "EBADF = 9"
definition EIO :: int where "EIO = 5"
definition E2BIG :: int where "E2BIG = 7"
definition ENODEV :: int where "ENODEV = 19"

record crt =
  f_data :: "int \<Rightarrow> byte"
  f_size :: int
  f_pos :: int
  f_room :: "int option"
  f_grow :: "int \<Rightarrow> bool"
  f_bad :: "int \<Rightarrow> bool"
  f_rdonly :: bool
  err_no :: int

definition media_ok :: "crt \<Rightarrow> int \<Rightarrow> nat \<Rightarrow> bool" where
  "media_ok f off n = list_all (\<lambda>i. \<not> f_bad f (off + int i)) [0..<n]"

definition lseek_set :: "crt \<Rightarrow> int \<Rightarrow> int \<times> crt" where
  "lseek_set f off = (if off < 0 then (-1, f\<lparr>err_no := EINVAL\<rparr>) else (off, f\<lparr>f_pos := off\<rparr>))"

definition lseek_end :: "crt \<Rightarrow> int \<Rightarrow> int \<times> crt" where
  "lseek_end f off = lseek_set f (f_size f + off)"

definition crt_read :: "crt \<Rightarrow> byte list \<Rightarrow> int \<Rightarrow> int \<times> byte list \<times> crt" where
  "crt_read f buf n =
     (if n < 0 then (-1, buf, f\<lparr>err_no := EINVAL\<rparr>)
      else let got = max 0 (min n (f_size f - f_pos f)) in
        if \<not> media_ok f (f_pos f) (nat got) then (-1, buf, f\<lparr>err_no := EIO\<rparr>)
        else (got, overlay buf (mem_bytes (f_data f) (f_pos f) (nat got)),
              f\<lparr>f_pos := f_pos f + got\<rparr>))"

text \<open>A write past the end of the file fills the gap with zeros.\<close>

definition put_data :: "crt \<Rightarrow> int \<Rightarrow> byte list \<Rightarrow> crt" where
  "put_data f off bs =
     f\<lparr>f_data := mem_write (\<lambda>i. if f_size f \<le> i then 0 else f_data f i) off bs,
       f_size := (if bs = [] then f_size f else max (f_size f) (off + int (length bs))),
       f_pos := off + int (length bs)\<rparr>"

definition crt_write :: "crt \<Rightarrow> byte list \<Rightarrow> int \<Rightarrow> int \<times> crt" where
  "crt_write f bs n =
     (if f_rdonly f then (-1, f\<lparr>err_no := EBADF\<rparr>)
      else if n < 0 then (-1, f\<lparr>err_no := EINVAL\<rparr>)
      else let put = (case f_room f of None \<Rightarrow> n | Some r \<Rightarrow> max 0 (min n (r - f_pos f))) in
        if 0 < n \<and> put = 0 then (-1, f\<lparr>err_no := ENOSPC\<rparr>)
        else if \<not> media_ok f (f_pos f) (nat put) then (-1, f\<lparr>err_no := EIO\<rparr>)
        else (put, put_data f (f_pos f) (take (nat put) bs)))"

definition SetEndOfFile :: "crt \<Rightarrow> bool \<times> crt" where
  "SetEndOfFile f =
     (if f_grow f (f_pos f)
      then (True, f\<lparr>f_data := (\<lambda>i. if f_size f \<le> i then 0 else f_data f i),
                    f_size := f_pos f,
                    f_room := map_option (\<lambda>r. max r (f_pos f)) (f_room f)\<rparr>)
      else (False, f))"

section \<open>\<open>pread\<close> and \<open>pwrite\<close> of \<open>safeio.h\<close>\<close>

definition pread :: "crt \<Rightarrow> byte list \<Rightarrow> int \<Rightarrow> int \<times> byte list \<times> crt" where
  "pread d buf offset =
     (let nbytes = s32 (int (length buf)) in
      case lseek_set d offset of (p, d) \<Rightarrow>
      if p \<noteq> offset then (-1, buf, d)
      else case crt_read d buf nbytes of (rc, buf, d) \<Rightarrow>
      if 0 < nbytes \<and> 0 \<le> rc \<and> rc < nbytes
      then (nbytes, take (nat rc) buf @ replicate (nat (nbytes - rc)) 0, d)
      else (rc, buf, d))"

definition pwrite :: "crt \<Rightarrow> byte list \<Rightarrow> int \<Rightarrow> int \<times> crt" where
  "pwrite d buf offset =
     (let nbytes = s32 (int (length buf)) in
      case lseek_set d offset of (p, d) \<Rightarrow>
      if p \<noteq> offset then (-1, d)
      else case crt_write d buf nbytes of (rc, d) \<Rightarrow>
      if 0 \<le> rc \<or> err_no d \<noteq> 28 then (rc, d)
      else case lseek_set d (s64 (offset + nbytes)) of (p, d) \<Rightarrow>
      if p \<noteq> s64 (offset + nbytes) then (-1, d)
      else case SetEndOfFile d of (ok, d) \<Rightarrow>
      if \<not> ok then (-1, d\<lparr>err_no := 28\<rparr>)
      else case lseek_set d offset of (p, d) \<Rightarrow>
      if p \<noteq> offset then (-1, d)
      else crt_write d buf nbytes)"

section \<open>The server's image state\<close>

record 'h image =
  image_fd :: crt
  libhandle :: 'h
  dll_mode :: bool
  dll_read :: "'h \<Rightarrow> byte list \<Rightarrow> int \<Rightarrow> int \<times> byte list \<times> 'h"
  dll_write :: "'h \<Rightarrow> byte list \<Rightarrow> int \<Rightarrow> int \<times> 'h"
  dll_close :: "'h \<Rightarrow> int \<times> 'h"
  vhd_mode :: bool
  vhd_Footer :: "byte list"
  block_size :: int
  sector_size :: int
  table_offset :: int
  block_shift :: nat
  sector_shift :: nat
  current_size :: int
  buf2 :: "byte list"
  malloc_ok :: "int \<Rightarrow> bool"
  mem_after :: "nat \<Rightarrow> byte"

definition errno :: "'h image \<Rightarrow> int" where
  "errno im = err_no (image_fd im)"

definition set_errno :: "int \<Rightarrow> 'h image \<Rightarrow> 'h image" where
  "set_errno e im = im\<lparr>image_fd := (image_fd im)\<lparr>err_no := e\<rparr>\<rparr>"

definition physical_read :: "'h image \<Rightarrow> byte list \<Rightarrow> int \<Rightarrow> int \<times> byte list \<times> 'h image" where
  "physical_read im io_ptr offset =
     (if dll_mode im
      then case dll_read im (libhandle im) io_ptr offset of (rc, io, h) \<Rightarrow>
             (rc, io, im\<lparr>libhandle := h\<rparr>)
      else case pread (image_fd im) io_ptr offset of (rc, io, f) \<Rightarrow>
             (rc, io, im\<lparr>image_fd := f\<rparr>))"

definition physical_write :: "'h image \<Rightarrow> byte list \<Rightarrow> int \<Rightarrow> int \<times> 'h image" where
  "physical_write im io_ptr offset =
     (if dll_mode im
      then case dll_write im (libhandle im) io_ptr offset of (rc, h) \<Rightarrow>
             (rc, im\<lparr>libhandle := h\<rparr>)
      else case pwrite (image_fd im) io_ptr offset of (rc, f) \<Rightarrow>
             (rc, im\<lparr>image_fd := f\<rparr>))"

definition physical_close :: "'h image \<Rightarrow> int \<times> 'h image" where
  "physical_close im =
     (if dll_mode im
      then case dll_close im (libhandle im) of (rc, h) \<Rightarrow> (rc, im\<lparr>libhandle := h\<rparr>)
      else (0, im))"

text \<open>\<open>_lseeki64(image_fd, ..., SEEK_END)\<close>: with a library open there is no file
  (\<open>image_fd\<close> is -1) and the call fails.\<close>

definition seek_end :: "'h image \<Rightarrow> int \<Rightarrow> int \<times> 'h image" where
  "seek_end im off =
     (if dll_mode im then (-1, set_errno EBADF im)
      else case lseek_end (image_fd im) off of (p, f) \<Rightarrow> (p, im\<lparr>image_fd := f\<rparr>))"

section \<open>Byte order: what the helpers compute\<close>

lemma be_of_Nil [simp]: "be_of [] = 0"
  by (simp add: be_of_def)

lemma be_of_snoc: "be_of (bs @ [b]) = 256 * be_of bs + uint b"
  by (simp add: be_of_def)

lemma be_of_Cons: "be_of (b # bs) = uint b * 256 ^ length bs + be_of bs"
  by (simp add: be_of_def le_of_append algebra_simps)

lemma GetBigEndian64_loop_small:
  assumes "length storage = 8" "left \<le> 7"
    "\<And>i. 8 - left \<le> i \<Longrightarrow> i < 8 \<Longrightarrow> uint (storage ! i) < 128"
    "- (2 ^ (63 - left * 8)) \<le> n" "n < 2 ^ (63 - left * 8)"
  shows "GetBigEndian64_loop storage left (push_bit (left * 8) n) =
           n * 256 ^ left + be_of (drop (8 - left) storage)"
  using assms(2-)
proof (induction left arbitrary: n)
  case 0
  then show ?case using assms(1) by simp
next
  case (Suc left)
  let ?b = "uint (storage ! (7 - left))"
  let ?m = "256 * n + ?b"
  have b: "?b < 128" "0 \<le> ?b" using Suc.prems(2) [of "7 - left"] Suc.prems(1)
    by (auto simp: uint_byte)
  have e: "(2::int) ^ (63 - left * 8) = 256 * 2 ^ (63 - Suc left * 8)"
  proof -
    have k: "63 - left * 8 = 8 + (63 - Suc left * 8)" using Suc.prems(1) by simp
    show ?thesis by (subst k, subst power_add) simp
  qed
  have m: "- (2 ^ (63 - left * 8)) \<le> ?m" "?m < 2 ^ (63 - left * 8)"
    using Suc.prems(3,4) b unfolding e by linarith+
  have p: "(2::int) ^ (63 - left * 8) * 2 ^ (left * 8) = 2 ^ 63"
    using Suc.prems(1) by (simp flip: power_add)
  have pos: "(0::int) < 2 ^ (left * 8)" by simp
  have "- (2 ^ 63) \<le> ?m * 2 ^ (left * 8)"
    using mult_right_mono [OF m(1) order.strict_implies_order [OF pos]] p
    by (simp only: mult_minus_left)
  moreover have "?m * 2 ^ (left * 8) < 2 ^ 63"
    using mult_strict_right_mono [OF m(2) pos] p by (simp only:)
  ultimately have s: "s64 (push_bit (left * 8) ?m) = push_bit (left * 8) ?m"
    by (intro s64_id) (simp_all add: push_bit_eq_mult)
  have "push_bit (Suc left * 8) n OR push_bit (left * 8) (s8_at storage (7 - left)) =
        push_bit (left * 8) ?m"
    using or_shifted_byte [of ?b "left * 8" n] b
    by (simp add: s8_at_def sint_byte add.commute)
  then have "GetBigEndian64_loop storage (Suc left) (push_bit (Suc left * 8) n) =
             GetBigEndian64_loop storage left (push_bit (left * 8) ?m)"
    by (simp add: s)
  also have "\<dots> = ?m * 256 ^ left + be_of (drop (8 - left) storage)"
    using Suc.prems(1,2) m by (intro Suc.IH) auto
  finally have l: "GetBigEndian64_loop storage (Suc left) (push_bit (Suc left * 8) n) =
    ?m * 256 ^ left + be_of (drop (8 - left) storage)" .
  have "drop (8 - Suc left) storage = storage ! (7 - left) # drop (8 - left) storage"
  proof -
    have "8 - left = Suc (7 - left)" using Suc.prems(1) by simp
    then show ?thesis
      using Cons_nth_drop_Suc [of "7 - left" storage] assms(1) by simp
  qed
  then show ?case
    using assms(1) Suc.prems(1) l by (simp add: be_of_Cons algebra_simps)
qed

text \<open>
  \<open>GetBigEndian64\<close> is the big-endian value of its eight bytes when no byte after the first
  has its top bit set.\<close>

lemma GetBigEndian64_small:
  assumes "length storage = 8" "\<And>i. 1 \<le> i \<Longrightarrow> i < 8 \<Longrightarrow> uint (storage ! i) < 128"
  shows "GetBigEndian64 storage = s64 (be_of storage)"
proof -
  let ?b = "sint (storage ! 0)"
  have b: "-128 \<le> ?b" "?b < 128"
    using uint_byte [of "storage ! 0"] by (auto simp: sint_byte)
  have "GetBigEndian64 storage = GetBigEndian64_loop storage 7 (push_bit (7 * 8) ?b)"
    using b by (simp add: GetBigEndian64_def eval_nat_numeral(3) [of Num.One] s8_at_def
        numeral_eq_Suc push_bit_eq_mult s64_id)
  also have "\<dots> = ?b * 256 ^ 7 + be_of (drop 1 storage)"
    using GetBigEndian64_loop_small [of storage 7 ?b] assms b by simp
  also have "\<dots> = s64 (be_of storage)"
  proof -
    obtain b0 bs where st: "storage = b0 # bs" "length bs = 7"
      using assms(1) by (cases storage) auto
    have r: "0 \<le> be_of bs" "be_of bs < 256 ^ 7" using be_of_range [of bs] st(2) by auto
    show ?thesis
    proof (cases "uint b0 < 128")
      case True
      have "s64 (be_of storage) = be_of storage"
        using r True uint_byte [of b0] st by (intro s64_id) (auto simp: be_of_Cons intro: order_trans [of _ 0])
      with True st show ?thesis by (simp add: be_of_Cons sint_byte)
    next
      case False
      have "s64 (be_of storage) = be_of storage - 18446744073709551616"
        using r False uint_byte [of b0] st by (intro s64_high) (auto simp: be_of_Cons)
      with False st show ?thesis by (simp add: be_of_Cons sint_byte)
    qed
  qed
  finally show ?thesis .
qed

lemma GetBigEndian64_small_witness:
  "GetBigEndian64 [0, 0, 0, 0, 1, 0, 0, 0] = 16777216"
proof -
  let ?s = "[0, 0, 0, 0, 1, 0, 0, 0] :: byte list"
  have "uint (?s ! i) < 128" if "1 \<le> i" "i < 8" for i
    using that by (auto simp: less_Suc_eq numeral_eq_Suc)
  from GetBigEndian64_small [OF _ this] show ?thesis by (simp add: be_of_def s64_id)
qed

lemma GetBigEndian64_loop_negative:
  assumes "number < 0" "-9223372036854775808 \<le> number"
  shows "GetBigEndian64_loop storage left number < 0"
  using assms
proof (induction storage left number rule: GetBigEndian64_loop.induct)
  case (2 storage left number)
  let ?n = "s64 (number OR push_bit (left * 8) (s8_at storage (7 - left)))"
  have "?n < 0" using 2 by (simp add: s64_or s64_id)
  with 2 s64_range show ?case by simp
qed simp

lemma GetBigEndian64_loop_high_bit:
  assumes "i < 8" "8 - left \<le> i" "left \<le> 7" "128 \<le> uint (storage ! i)"
  shows "GetBigEndian64_loop storage left number < 0"
  using assms(2,3)
proof (induction left arbitrary: number)
  case 0
  then show ?case using assms(1) by simp
next
  case (Suc left)
  show ?case
  proof (cases "i = 7 - left")
    case True
    let ?x = "push_bit (left * 8) (s8_at storage (7 - left))"
    have "s8_at storage (7 - left) = uint (storage ! i) - 256"
      using assms(4) True by (simp add: s8_at_def sint_byte)
    with assms(4) uint_byte [of "storage ! i"]
    have x: "-128 \<le> s8_at storage (7 - left)" "s8_at storage (7 - left) < 0" by auto
    have "(2::int) ^ (left * 8) \<le> 2 ^ (6 * 8)" using Suc.prems by (intro power_increasing) auto
    then have "-128 * 2 ^ 48 \<le> -128 * (2::int) ^ (left * 8)" by simp
    also have "\<dots> \<le> s8_at storage (7 - left) * 2 ^ (left * 8)"
      using x(1) by (intro mult_right_mono) auto
    also have "\<dots> = ?x" by (simp add: push_bit_eq_mult)
    finally have "-9223372036854775808 \<le> ?x" by simp
    moreover have "?x < 0" using x by (simp add: push_bit_eq_mult mult_neg_pos)
    ultimately have "s64 ?x < 0" by (subst s64_id) linarith+
    then have "s64 (number OR ?x) < 0" by (simp add: s64_or)
    then show ?thesis
      using GetBigEndian64_loop_negative [of "s64 (number OR ?x)"] s64_range by simp
  next
    case False
    with Suc.prems have "8 - left \<le> i" by simp
    with Suc show ?thesis by simp
  qed
qed

text \<open>
  When any byte after the first has its top bit set the result is negative: the bytes are
  \<open>int8_t\<close> and sign extension sets all the bits above them. A virtual disk whose size has such
  a byte (an 8 MiB disk has) is given a negative size.\<close>

lemma GetBigEndian64_high_bit:
  assumes "length storage = 8" "1 \<le> i" "i < 8" "128 \<le> uint (storage ! i)"
  shows "GetBigEndian64 storage < 0"
  using GetBigEndian64_loop_high_bit [of i 7 storage] assms
  by (simp add: GetBigEndian64_def numeral_eq_Suc)

lemma GetBigEndian64_high_bit_witness: "GetBigEndian64 [0, 0, 0, 0, 0, 0x80, 0, 0] < 0"
  by (rule GetBigEndian64_high_bit [of _ 5]) simp_all

lemma or_high_byte:
  fixes a b :: int
  assumes "0 \<le> a" "a < 2 ^ k"
  shows "a OR push_bit k b = a + push_bit k b"
  using or_low_bits [OF assms, of b] by (simp add: or.commute add.commute)

lemma GetLittleEndian32U_le:
  assumes "length bs = 4"
  shows "GetLittleEndian32U bs = le_of bs"
proof -
  obtain a b c d where bs: "bs = [a, b, c, d]"
    using assms by (auto simp: numeral_eq_Suc length_Suc_conv)
  note u = uint_byte [of a] uint_byte [of b] uint_byte [of c] uint_byte [of d]
  let ?x1 = "uint a" and ?x2 = "uint a + 256 * uint b" and ?x3 = "uint a + 256 * uint b + 65536 * uint c"
  have s1: "u32 (0 OR push_bit 0 (uint a)) = ?x1" using u by (simp add: u32_id)
  have s2: "u32 (?x1 OR push_bit 8 (uint b)) = ?x2"
    using u or_high_byte [of ?x1 8 "uint b"] by (simp add: push_bit_eq_mult u32_id)
  have s3: "u32 (?x2 OR push_bit 16 (uint c)) = ?x3"
    using u or_high_byte [of ?x2 16 "uint c"] by (simp add: push_bit_eq_mult u32_id)
  have s4: "u32 (?x3 OR push_bit 24 (uint d)) = ?x3 + 16777216 * uint d"
    using u or_high_byte [of ?x3 24 "uint d"] by (simp add: push_bit_eq_mult u32_id)
  have "GetLittleEndian32U bs = GetLittleEndian32U_loop bs (Suc (Suc (Suc (Suc 0)))) 0"
    by (simp add: GetLittleEndian32U_def numeral_eq_Suc)
  also have "\<dots> = u32 (u32 (u32 (u32 (0 OR push_bit 0 (uint a)) OR push_bit 8 (uint b))
      OR push_bit 16 (uint c)) OR push_bit 24 (uint d))"
    by (simp add: bs numeral_2_eq_2 numeral_3_eq_3)
  also have "\<dots> = le_of bs" unfolding s1 s2 s3 s4 by (simp add: bs)
  finally show ?thesis .
qed

section \<open>Files without faults\<close>

text \<open>What the file holds as seen by a reader: zeros past its end.\<close>

definition file_view :: "crt \<Rightarrow> int \<Rightarrow> byte" where
  "file_view d i = (if 0 \<le> i \<and> i < f_size d then f_data d i else 0)"

definition good_file :: "crt \<Rightarrow> bool" where
  "good_file d \<longleftrightarrow> f_room d = None \<and> \<not> f_rdonly d \<and> f_bad d = (\<lambda>i. False) \<and> 0 \<le> f_size d"

lemma media_ok_good: "f_bad d = (\<lambda>i. False) \<Longrightarrow> media_ok d off n"
  by (simp add: media_ok_def list_all_iff)

lemma pread_good:
  assumes "f_bad d = (\<lambda>i. False)" "0 \<le> off" "length buf < 2147483648"
  shows "\<exists>p. pread d buf off =
           (int (length buf), mem_bytes (file_view d) off (length buf), d\<lparr>f_pos := p\<rparr>)"
proof -
  define n where "n = length buf"
  define got where "got = max 0 (min (int n) (f_size d - off))"
  have s: "s32 (int n) = int n" using assms(3) by (simp add: n_def wraps)
  have g: "0 \<le> got" "got \<le> int n" by (auto simp: got_def)
  define rd where "rd = overlay buf (mem_bytes (f_data d) off (nat got))"
  have c: "crt_read (d\<lparr>f_pos := off\<rparr>) buf (int n) = (got, rd, d\<lparr>f_pos := off + got\<rparr>)"
    using assms(1) by (simp add: crt_read_def got_def rd_def media_ok_def list_all_iff Let_def)
  have t: "take (nat got) rd = mem_bytes (f_data d) off (nat got)"
    using g by (simp add: rd_def overlay_def n_def)
  have k: "nat (int n - got) = n - nat got" "nat got \<le> n" using g by auto
  have v: "f_data d (off + int i) = file_view d (off + int i)" if "i < nat got" for i
    using that assms(2) by (auto simp: file_view_def got_def max_def min_def split: if_splits)
  have z: "file_view d (off + int i) = 0" if "nat got \<le> i" "i < n" for i
    using that assms(2) by (auto simp: file_view_def got_def max_def min_def split: if_splits)
  have "take (nat got) rd @ replicate (nat (int n - got)) 0 = mem_bytes (file_view d) off n"
    unfolding t k(1) using k(2) v z by (intro nth_equalityI) (auto simp: nth_append)
  moreover have "rd = mem_bytes (file_view d) off n" if "got = int n"
  proof -
    have "rd = mem_bytes (f_data d) off n" using t that by (simp add: rd_def n_def)
    also have "\<dots> = mem_bytes (file_view d) off n"
      using that assms(2) by (intro mem_bytes_cong) (auto simp: file_view_def got_def)
    finally show ?thesis .
  qed
  ultimately show ?thesis
    using assms(2) g by (auto simp: pread_def s c lseek_set_def Let_def simp flip: n_def)
qed

lemma pwrite_good:
  assumes "good_file d" "0 \<le> off" "length bs < 2147483648"
  shows "pwrite d bs off = (int (length bs), put_data (d\<lparr>f_pos := off\<rparr>) off bs)"
  using assms
  by (simp add: pwrite_def lseek_set_def crt_write_def good_file_def wraps Let_def media_ok_good)

text \<open>A write that fits what the disk can hold, and one that runs into its end.\<close>

lemma pwrite_room:
  assumes "\<not> f_rdonly d" "f_bad d = (\<lambda>i. False)" "f_room d = Some r"
    "0 \<le> off" "off + int (length bs) \<le> r" "length bs < 2147483648"
  shows "pwrite d bs off = (int (length bs), put_data (d\<lparr>f_pos := off\<rparr>) off bs)"
  using assms
  by (simp add: pwrite_def lseek_set_def crt_write_def wraps Let_def media_ok_good)

lemma pwrite_partial:
  assumes "\<not> f_rdonly d" "f_bad d = (\<lambda>i. False)" "f_room d = Some r"
    "0 \<le> off" "off < r" "r < off + int (length bs)" "length bs < 2147483648"
  shows "pwrite d bs off = (r - off, put_data (d\<lparr>f_pos := off\<rparr>) off (take (nat (r - off)) bs))"
  using assms
  by (simp add: pwrite_def lseek_set_def crt_write_def wraps Let_def media_ok_good)

lemma put_data_simps [simp]:
  "f_room (put_data d off bs) = f_room d" "f_grow (put_data d off bs) = f_grow d"
  "f_bad (put_data d off bs) = f_bad d" "f_rdonly (put_data d off bs) = f_rdonly d"
  "err_no (put_data d off bs) = err_no d"
  by (simp_all add: put_data_def)

lemma f_size_put_data:
  "f_size (put_data d off bs) =
     (if bs = [] then f_size d else max (f_size d) (off + int (length bs)))"
  by (simp add: put_data_def)

lemma good_file_put_data: "good_file d \<Longrightarrow> good_file (put_data d off bs)"
  by (auto simp: good_file_def f_size_put_data)

lemma file_view_put_data:
  assumes "0 \<le> f_size d" "0 \<le> off"
  shows "file_view (put_data d off bs) = mem_write (file_view d) off bs"
  using assms by (rule_tac ext) (auto simp: file_view_def put_data_def mem_write_def)

lemma file_view_pos [simp]: "file_view (d\<lparr>f_pos := p\<rparr>) = file_view d"
  by (rule ext) (simp add: file_view_def)

lemma good_file_pos [simp]: "good_file (d\<lparr>f_pos := p\<rparr>) = good_file d"
  by (simp add: good_file_def)

text \<open>
  A write past what the file can hold fails with \<open>ENOSPC\<close>; \<open>pwrite\<close> then extends the file
  with \<open>SetEndOfFile\<close> and repeats the write, which takes all bytes.\<close>

lemma pwrite_extends:
  assumes "\<not> f_rdonly d" "f_bad d = (\<lambda>i. False)" "f_room d = Some r" "r \<le> off" "0 < off"
    "bs \<noteq> []" "length bs < 2147483648" "off + int (length bs) < 9223372036854775808"
    "f_grow d (off + int (length bs))" "f_size d \<le> off"
  shows "\<exists>d'. pwrite d bs off = (int (length bs), d') \<and>
           file_view d' = mem_write (file_view d) off bs \<and> f_size d' = off + int (length bs)"
proof -
  let ?n = "int (length bs)"
  have n: "s32 ?n = ?n" "s64 (off + ?n) = off + ?n" "0 < ?n"
    using assms(5-8) by (simp_all add: wraps)
  define d1 where "d1 = d\<lparr>f_pos := off, err_no := ENOSPC\<rparr>"
  define d2 where "d2 = d1\<lparr>f_pos := off, f_size := off + ?n,
     f_data := (\<lambda>i. if f_size d \<le> i then 0 else f_data d i),
     f_room := Some (off + ?n)\<rparr>"
  have w1: "crt_write (d\<lparr>f_pos := off\<rparr>) bs ?n = (-1, d1)"
    using assms by (simp add: crt_write_def d1_def Let_def)
  have w2: "crt_write d2 bs ?n = (?n, put_data d2 off bs)"
    using assms n(3) by (simp add: crt_write_def d2_def d1_def Let_def media_ok_good)
  have set_end: "SetEndOfFile (d1\<lparr>f_pos := off + ?n\<rparr>) =
          (True, d2\<lparr>f_pos := off + ?n\<rparr>)"
    using assms n(3)
    by (auto simp: SetEndOfFile_def d2_def d1_def max_def intro!: crt.equality)
  have p: "pwrite d bs off = (?n, put_data d2 off bs)"
  proof -
    have "err_no d1 = 28" "d2\<lparr>f_pos := off\<rparr> = d2"
      by (simp_all add: d1_def d2_def ENOSPC_def)
    with set_end show ?thesis
      using assms(5) n(1,2) w1 w2 by (simp add: pwrite_def lseek_set_def Let_def)
  qed
  have "file_view (put_data d2 off bs) = mem_write (file_view d) off bs"
    using assms(5,10) by (intro ext) (auto simp: file_view_def put_data_def mem_write_def d2_def)
  moreover have "f_size (put_data d2 off bs) = off + ?n"
    by (simp add: f_size_put_data d2_def)
  ultimately show ?thesis using p by blast
qed

definition sample_full :: crt where
  "sample_full = \<lparr>f_data = (\<lambda>i. 3), f_size = 4, f_pos = 0, f_room = Some 4, f_grow = (\<lambda>i. True),
     f_bad = (\<lambda>i. False), f_rdonly = False, err_no = 0\<rparr>"

lemma pwrite_extends_witness:
  "\<exists>d'. pwrite sample_full [1, 2] 6 = (2, d') \<and>
     file_view d' = mem_write (file_view sample_full) 6 [1, 2] \<and> f_size d' = 8"
  using pwrite_extends [of sample_full 4 6 "[1, 2]"] by (simp add: sample_full_def)

section \<open>A raw image file is a disk store\<close>

definition raw_ok :: "'h image \<Rightarrow> bool" where
  "raw_ok im \<longleftrightarrow> \<not> dll_mode im \<and> good_file (image_fd im)"

definition raw_bytes :: "'h image \<Rightarrow> int \<Rightarrow> byte" where
  "raw_bytes im = file_view (image_fd im)"

definition raw_len :: "'h image \<Rightarrow> int" where
  "raw_len im = f_size (image_fd im)"

text \<open>The image with the file pointer moved: what a read leaves behind.\<close>

definition at_pos :: "'h image \<Rightarrow> int \<Rightarrow> 'h image" where
  "at_pos im p = im\<lparr>image_fd := (image_fd im)\<lparr>f_pos := p\<rparr>\<rparr>"

lemma at_pos_simps [simp]:
  "at_pos (at_pos im p) q = at_pos im q" "raw_ok (at_pos im p) = raw_ok im"
  "raw_bytes (at_pos im p) = raw_bytes im" "raw_len (at_pos im p) = raw_len im"
  "dll_mode (at_pos im p) = dll_mode im" "vhd_mode (at_pos im p) = vhd_mode im"
  "vhd_Footer (at_pos im p) = vhd_Footer im" "block_size (at_pos im p) = block_size im"
  "sector_size (at_pos im p) = sector_size im" "table_offset (at_pos im p) = table_offset im"
  "block_shift (at_pos im p) = block_shift im" "sector_shift (at_pos im p) = sector_shift im"
  "current_size (at_pos im p) = current_size im" "buf2 (at_pos im p) = buf2 im"
  "malloc_ok (at_pos im p) = malloc_ok im" "mem_after (at_pos im p) = mem_after im"
  by (simp_all add: at_pos_def raw_ok_def raw_bytes_def raw_len_def)

lemma physical_read_good:
  assumes "raw_ok im" "0 \<le> off" "length io < 2147483648"
  shows "\<exists>p. physical_read im io off =
    (int (length io), mem_bytes (raw_bytes im) off (length io), at_pos im p)"
  using pread_good [of "image_fd im" off io] assms
  by (auto simp: physical_read_def raw_ok_def good_file_def raw_bytes_def at_pos_def)

text \<open>The image after a write that succeeded.\<close>

definition put_image :: "'h image \<Rightarrow> int \<Rightarrow> byte list \<Rightarrow> 'h image" where
  "put_image im off bs = im\<lparr>image_fd := put_data ((image_fd im)\<lparr>f_pos := off\<rparr>) off bs\<rparr>"

lemma put_image_simps [simp]:
  "dll_mode (put_image im off bs) = dll_mode im" "vhd_mode (put_image im off bs) = vhd_mode im"
  "vhd_Footer (put_image im off bs) = vhd_Footer im"
  "block_size (put_image im off bs) = block_size im"
  "sector_size (put_image im off bs) = sector_size im"
  "table_offset (put_image im off bs) = table_offset im"
  "block_shift (put_image im off bs) = block_shift im"
  "sector_shift (put_image im off bs) = sector_shift im"
  "current_size (put_image im off bs) = current_size im" "buf2 (put_image im off bs) = buf2 im"
  "malloc_ok (put_image im off bs) = malloc_ok im" "mem_after (put_image im off bs) = mem_after im"
  by (simp_all add: put_image_def)

lemma put_image_raw:
  assumes "raw_ok im" "0 \<le> off"
  shows "raw_ok (put_image im off bs)"
    "raw_bytes (put_image im off bs) = mem_write (raw_bytes im) off bs"
    "raw_len (put_image im off bs) =
       (if bs = [] then raw_len im else max (raw_len im) (off + int (length bs)))"
  using assms
  by (simp_all add: put_image_def raw_ok_def raw_bytes_def raw_len_def good_file_put_data
      file_view_put_data f_size_put_data good_file_def [of "image_fd im"])

lemma physical_write_good:
  assumes "raw_ok im" "0 \<le> off" "length bs < 2147483648"
  shows "physical_write im bs off = (int (length bs), put_image im off bs)"
  using pwrite_good [of "image_fd im" off bs] assms
  by (simp add: physical_write_def raw_ok_def put_image_def)

definition raw_rd :: "'h image \<Rightarrow> byte list \<Rightarrow> int \<Rightarrow> (int \<times> byte list \<times> 'h image) option" where
  "raw_rd im io off = Some (physical_read im io off)"

definition raw_wr :: "'h image \<Rightarrow> byte list \<Rightarrow> int \<Rightarrow> (int \<times> 'h image) option" where
  "raw_wr im bs off = Some (physical_write im bs off)"

interpretation raw_disk: disk_store raw_rd raw_bytes raw_len raw_ok raw_wr
proof (unfold_locales, goal_cases)
  case (1 s off io)
  then show ?case
    using physical_read_good [of s off io] by (auto simp: fits_def raw_rd_def)
next
  case (2 s off bs)
  then have f: "0 \<le> off" "off + int (length bs) \<le> raw_len s" "length bs < 2147483648"
    by (auto simp: fits_def)
  with 2 show ?case
    using physical_write_good [of s off bs] put_image_raw [of s off bs]
    by (auto simp: raw_wr_def)
qed

end
