(* ===== verification/Devio_Vhd.thy ===== *)
theory Devio_Vhd
  imports Devio_Image
begin

text \<open>
  Dynamic VHD images (\<open>vhd_read\<close>, \<open>vhd_write\<close>, \<open>logical_read\<close>, \<open>logical_write\<close> of
  \<open>devio/devio.c\<close>). A request is served block by block through the block allocation table;
  a write to a block without backing appends a block where the footer was and moves the
  footer behind it. Both routines recurse on the part of a request that lies in the next
  block and are \<open>partial_function\<close>s: \<open>None\<close> is a call that does not return.

  The invariant \<open>vhd_ok\<close> says when an image is well formed; under it the routines refine
  reads and writes of a flat disk (\<open>vhd_bytes\<close>), which is the interpretation of
  \<open>disk_store\<close> at the end.
\<close>

section \<open>The code\<close>

definition e2big :: "'h image \<Rightarrow> 'h image" where
  "e2big im = (if errno im = 0 then set_errno E2BIG im else im)"

text \<open>Reading past the virtual disk's end returns 0 bytes; a block without backing reads as
  zeros. The data read is issued twice, as the code does.\<close>

partial_function (option) vhd_read ::
    "'h image \<Rightarrow> byte list \<Rightarrow> int \<Rightarrow> (int \<times> byte list \<times> 'h image) option" where
  "vhd_read im io_ptr offset =
     (let size = int (length io_ptr) in
      if current_size im < s64 (offset + size) then Some (0, io_ptr, im)
      else
      let block_number = u32 (drop_bit (block_shift im) offset);
          data_offset = s64 (table_offset im + s64 (push_bit 2 block_number));
          in_block_offset = u32 offset AND u32 (block_size im - 1);
          split = block_size im < u32 (size + in_block_offset);
          first_size = (if split then u32 (block_size im - in_block_offset) else size);
          second_size = (if split then u32 (size - first_size) else 0);
          second_offset = (if split then s64 (offset + first_size) else 0)
      in case physical_read im (replicate 4 0) data_offset of (readdone, block_offset, im) \<Rightarrow>
      if readdone \<noteq> 4 then Some (-1, io_ptr, e2big im)
      else
      let io_ptr = replicate (length io_ptr) 0;
          first = take (nat first_size) io_ptr;
          second = drop (nat first_size) io_ptr
      in case
        (if le_of block_offset = 4294967295 then (s32 first_size, first, im)
         else
           let data_offset = s64 (s64 (push_bit (sector_shift im) (be_of block_offset)) +
                                  sector_size im + in_block_offset)
           in case physical_read im first data_offset of (readdone, first, im) \<Rightarrow>
              physical_read im first data_offset) of (readdone, first, im) \<Rightarrow>
      if le_of block_offset \<noteq> 4294967295 \<and> readdone = -1 then Some (-1, first @ second, im)
      else if 0 < second_size
      then Option.bind (vhd_read im second second_offset) (\<lambda>(second_read, second, im).
             if u32 second_read = 4294967295 then Some (-1, first @ second, im)
             else Some (s32 (readdone + u32 second_read), first @ second, im))
      else Some (readdone, first @ second, im))"

text \<open>The loop that is to find out whether the data is all zeros: the pointer (in 8-byte words
  from \<open>io_ptr\<close>) advances while the conditional expression of the loop head is true. Words past
  the caller's buffer are whatever memory follows it (\<open>mem_after\<close>).\<close>

definition qword_at :: "'h image \<Rightarrow> byte list \<Rightarrow> int \<Rightarrow> int" where
  "qword_at im io p = le_of (map (\<lambda>j. if j < length io then io ! j else mem_after im (j - length io))
                              [nat (8 * p)..<nat (8 * p) + 8])"

partial_function (option) zero_scan :: "(int \<Rightarrow> int) \<Rightarrow> int \<Rightarrow> int \<Rightarrow> int option" where
  "zero_scan q nqwords buf_ptr =
     (if (if buf_ptr < nqwords then False else q buf_ptr = 0)
      then zero_scan q nqwords (buf_ptr + 1)
      else Some buf_ptr)"

text \<open>A new block: its BAT entry first, then the zeroed block followed by the footer, placed
  where the footer was. \<open>None\<close> is the code's \<open>return -1\<close>.\<close>

definition vhd_new_block :: "'h image \<Rightarrow> int \<Rightarrow> byte list option \<times> 'h image" where
  "vhd_new_block im data_offset =
     (let new_size = sector_size im + block_size im + 512 in
      if \<not> malloc_ok im new_size then (None, im)
      else case seek_end im (-512) of (block_offset_bytes, im) \<Rightarrow>
      if block_offset_bytes = -1 then (None, im)
      else
      let block_offset = to_be 4 (drop_bit (sector_shift im) block_offset_bytes)
      in case physical_write im block_offset data_offset of (readdone, im) \<Rightarrow>
      if readdone \<noteq> 4 then (None, e2big im)
      else
      let new_block_buf = replicate (nat (sector_size im + block_size im)) 0 @ vhd_Footer im
      in case physical_write im (take (nat (u32 new_size)) new_block_buf) block_offset_bytes
           of (readdone, im) \<Rightarrow>
      if readdone \<noteq> s32 (s32 (sector_size im + block_size im) + 512) then (None, e2big im)
      else (Some block_offset, im))"

text \<open>The data of one block, then its allocation bitmap (from \<open>buf2\<close>, filled with ones).\<close>

definition vhd_store_block ::
    "'h image \<Rightarrow> byte list \<Rightarrow> byte list \<Rightarrow> int \<Rightarrow> int option \<times> 'h image" where
  "vhd_store_block im block_offset first in_block_offset =
     (let first_size = int (length first);
          block_start = s64 (push_bit (sector_shift im) (be_of block_offset));
          data_offset = s64 (block_start + sector_size im + in_block_offset)
      in case physical_write im first data_offset of (writedone, im) \<Rightarrow>
      if writedone = -1 then (None, im)
      else
      let bitmap_offset = s64 (block_start + drop_bit 3 (drop_bit (sector_shift im) in_block_offset));
          bitmap_datasize = drop_bit 3 (u32 (drop_bit (sector_shift im)
                                          (u32 (first_size + sector_size im - 1)) + 7));
          im = im\<lparr>buf2 := replicate (nat bitmap_datasize) 0xFF @
                            drop (nat bitmap_datasize) (buf2 im)\<rparr>
      in case physical_write im (take (nat bitmap_datasize) (buf2 im)) bitmap_offset
           of (readdone, im) \<Rightarrow>
      if readdone \<noteq> s32 bitmap_datasize then (None, e2big im)
      else (Some writedone, im))"

partial_function (option) vhd_write ::
    "'h image \<Rightarrow> byte list \<Rightarrow> int \<Rightarrow> (int \<times> 'h image) option" where
  "vhd_write im io_ptr offset =
     (let size = int (length io_ptr) in
      if current_size im < s64 (offset + size) then Some (0, im)
      else
      let block_number = drop_bit (block_shift im) offset;
          data_offset = s64 (table_offset im + s64 (push_bit 2 block_number));
          in_block_offset = u32 offset AND u32 (block_size im - 1);
          split = block_size im < u32 (size + in_block_offset);
          first_size = (if split then u32 (block_size im - in_block_offset) else size);
          second_size = (if split then u32 (size - first_size) else 0);
          second_offset = (if split then s64 (offset + first_size) else 0);
          first_size_nqwords = drop_bit 3 (u32 (first_size + 7));
          first = take (nat first_size) io_ptr;
          second = drop (nat first_size) io_ptr
      in case physical_read im (replicate 4 0) data_offset of (readdone, block_offset, im) \<Rightarrow>
      if readdone \<noteq> 4 then Some (-1, e2big im)
      else Option.bind
        (if le_of block_offset = 4294967295
         then zero_scan (qword_at im io_ptr) first_size_nqwords 0 else Some (-1)) (\<lambda>buf_ptr.
      if le_of block_offset = 4294967295 \<and> first_size_nqwords \<le> buf_ptr
      then
        (if 0 < second_size
         then Option.bind (vhd_write im second second_offset) (\<lambda>(second_write, im).
                if u32 second_write = 4294967295 then Some (-1, im)
                else Some (s32 (first_size + u32 second_write), im))
         else Some (s32 first_size, im))
      else case
        (if le_of block_offset = 4294967295 then vhd_new_block im data_offset
         else (Some block_offset, im)) of (allocated, im) \<Rightarrow>
      (case allocated of None \<Rightarrow> Some (-1, im)
       | Some block_offset \<Rightarrow>
      (case vhd_store_block im block_offset first in_block_offset of (stored, im) \<Rightarrow>
      (case stored of None \<Rightarrow> Some (-1, im)
       | Some writedone \<Rightarrow>
         if 0 < second_size
         then Option.bind (vhd_write im second second_offset) (\<lambda>(second_write, im).
                if u32 second_write = 4294967295 then Some (-1, im)
                else Some (s32 (writedone + u32 second_write), im))
         else Some (writedone, im))))))"

definition logical_read ::
    "'h image \<Rightarrow> byte list \<Rightarrow> int \<Rightarrow> (int \<times> byte list \<times> 'h image) option" where
  "logical_read im io_ptr offset =
     (if vhd_mode im then vhd_read im io_ptr offset else Some (physical_read im io_ptr offset))"

definition logical_write :: "'h image \<Rightarrow> byte list \<Rightarrow> int \<Rightarrow> (int \<times> 'h image) option" where
  "logical_write im io_ptr offset =
     (if vhd_mode im then vhd_write im io_ptr offset else Some (physical_write im io_ptr offset))"

section \<open>Well-formed dynamic images\<close>

definition nblocks :: "'h image \<Rightarrow> int" where
  "nblocks im = (current_size im + block_size im - 1) div block_size im"

definition bat :: "'h image \<Rightarrow> int \<Rightarrow> int" where
  "bat im b = be_of (mem_bytes (raw_bytes im) (table_offset im + 4 * b) 4)"

definition allocated :: "'h image \<Rightarrow> int \<Rightarrow> bool" where
  "allocated im b \<longleftrightarrow> bat im b \<noteq> 4294967295"

definition extent :: "'h image \<Rightarrow> int \<Rightarrow> int" where
  "extent im b = bat im b * 512"

definition unallocated :: "'h image \<Rightarrow> int set" where
  "unallocated im = {b \<in> {0..<nblocks im}. \<not> allocated im b}"

definition vhd_geom :: "'h image \<Rightarrow> bool" where
  "vhd_geom im \<longleftrightarrow> vhd_mode im \<and> raw_ok im \<and> sector_size im = 512 \<and> sector_shift im = 9 \<and>
     9 \<le> block_shift im \<and> block_shift im \<le> 21 \<and> block_size im = 2 ^ block_shift im \<and>
     length (vhd_Footer im) = 512 \<and> 0 \<le> table_offset im \<and> 0 \<le> current_size im \<and>
     nblocks im \<le> 4294967296 \<and> malloc_ok im (block_size im + 1024) \<and> 512 dvd raw_len im"

text \<open>The table lies before every block; blocks are apart from each other and end before the
  footer, which is at the end of the file; the file stays small enough for the sector number
  of every block to fit its table entry.\<close>

definition vhd_ok :: "'h image \<Rightarrow> bool" where
  "vhd_ok im \<longleftrightarrow> vhd_geom im \<and>
     table_offset im + 4 * nblocks im \<le> raw_len im - 512 \<and>
     (\<forall>b. 0 \<le> b \<and> b < nblocks im \<and> allocated im b \<longrightarrow>
        table_offset im + 4 * nblocks im \<le> extent im b \<and>
        extent im b + 512 + block_size im \<le> raw_len im - 512) \<and>
     (\<forall>b c. 0 \<le> b \<and> b < nblocks im \<and> allocated im b \<and>
        0 \<le> c \<and> c < nblocks im \<and> allocated im c \<and> b \<noteq> c \<longrightarrow>
        extent im b + 512 + block_size im \<le> extent im c \<or>
        extent im c + 512 + block_size im \<le> extent im b) \<and>
     raw_len im + (512 + block_size im) * int (card (unallocated im)) \<le> 1099511627776 \<and>
     mem_bytes (raw_bytes im) (raw_len im - 512) 512 = vhd_Footer im"

text \<open>The flat disk that a well-formed image stands for.\<close>

definition vhd_bytes :: "'h image \<Rightarrow> int \<Rightarrow> byte" where
  "vhd_bytes im p =
     (let b = p div block_size im in
      if 0 \<le> p \<and> p < current_size im \<and> allocated im b
      then raw_bytes im (extent im b + 512 + p mod block_size im) else 0)"

section \<open>Addresses\<close>

lemma block_mask:
  assumes "block_size im = 2 ^ block_shift im" "block_shift im \<le> 21"
  shows "u32 off AND u32 (block_size im - 1) = off mod block_size im"
proof -
  have "(2::int) ^ block_shift im \<le> 2 ^ 21" using assms(2) by (intro power_increasing) auto
  then have "u32 (block_size im - 1) = mask (block_shift im)"
    using assms(1) by (simp add: u32_id mask_eq_exp_minus_1)
  moreover have "take_bit (block_shift im) (u32 off) = take_bit (block_shift im) off"
    using assms(2) by (simp add: u32_bits)
  ultimately show ?thesis
    using assms(1) by (simp add: take_bit_eq_mod flip: take_bit_eq_mask)
qed

lemma bat_range: "0 \<le> bat im b" "bat im b < 4294967296"
  using be_of_range [of "mem_bytes (raw_bytes im) (table_offset im + 4 * b) 4"]
  by (auto simp: bat_def)

lemma le_of_ones:
  assumes "length bs = 4"
  shows "le_of bs = 4294967295 \<longleftrightarrow> be_of bs = 4294967295"
proof -
  have l: "to_le 4 4294967295 = replicate 4 (255 :: byte)"
    and b: "to_be 4 4294967295 = replicate 4 (255 :: byte)"
    by (simp_all add: to_be_def numeral_eq_Suc)
  have "le_of bs = 4294967295 \<longleftrightarrow> bs = to_le 4 4294967295"
    using to_le_le_of [of bs] assms by (auto simp: le_of_to_le)
  moreover have "be_of bs = 4294967295 \<longleftrightarrow> bs = to_be 4 4294967295"
    using to_be_be_of [of bs] assms by (auto simp: be_of_to_be)
  ultimately show ?thesis using l b by simp
qed

lemma vhd_geom_bounds:
  assumes "vhd_geom im"
  shows "512 \<le> block_size im" "block_size im \<le> 2097152"
    "current_size im \<le> nblocks im * block_size im"
    "nblocks im * block_size im \<le> 9007199254740992"
proof -
  have k: "9 \<le> block_shift im" "block_shift im \<le> 21" "block_size im = 2 ^ block_shift im"
    "nblocks im \<le> 4294967296"
    using assms by (auto simp: vhd_geom_def)
  have "(2::int) ^ 9 \<le> 2 ^ block_shift im" "(2::int) ^ block_shift im \<le> 2 ^ 21"
    using power_increasing [OF k(1), of "2 :: int"] power_increasing [OF k(2), of "2 :: int"]
    by simp_all
  then show bs: "512 \<le> block_size im" "block_size im \<le> 2097152" using k(3) by auto
  have "(current_size im + block_size im - 1) mod block_size im < block_size im"
    using bs by simp
  then show "current_size im \<le> nblocks im * block_size im"
    using mult_div_mod_eq [of "block_size im" "current_size im + block_size im - 1"]
    unfolding nblocks_def mult.commute [of "_ div _"] by linarith
  have "nblocks im * block_size im \<le> 4294967296 * 2097152"
    using bs k(4) by (intro mult_mono) auto
  then show "nblocks im * block_size im \<le> 9007199254740992" by simp
qed

lemma vhd_block_dvd: "vhd_geom im \<Longrightarrow> 512 dvd block_size im"
  using le_imp_power_dvd [of 9 "block_shift im" "2 :: int"] by (simp add: vhd_geom_def)

lemma block_index:
  assumes "vhd_geom im" "0 \<le> p" "p < current_size im"
  shows "0 \<le> p div block_size im" "p div block_size im < nblocks im"
proof -
  have bs: "0 < block_size im" using vhd_geom_bounds(1) [OF assms(1)] by simp
  then show "0 \<le> p div block_size im" using assms(2) by (simp add: pos_imp_zdiv_nonneg_iff)
  show "p div block_size im < nblocks im"
  proof (rule ccontr)
    assume "\<not> ?thesis"
    then have "nblocks im * block_size im \<le> p div block_size im * block_size im"
      using bs by simp
    also have "\<dots> \<le> p" using mult_div_mod_eq [of "block_size im" p]
      pos_mod_sign [OF bs, of p] unfolding mult.commute [of "p div block_size im"] by linarith
    finally show False using assms(3) vhd_geom_bounds(3) [OF assms(1)] by simp
  qed
qed

lemma vhd_ok_geom: "vhd_ok im \<Longrightarrow> vhd_geom im"
  by (simp add: vhd_ok_def)

lemma vhd_ok_sizes:
  assumes "vhd_ok im"
  shows "raw_len im \<le> 1099511627776" "table_offset im + 4 * nblocks im \<le> raw_len im - 512"
    "0 \<le> nblocks im"
proof -
  note g = vhd_geom_bounds [OF vhd_ok_geom [OF assms]]
  have "0 \<le> (512 + block_size im) * int (card (unallocated im))" using g(1) by simp
  then show "raw_len im \<le> 1099511627776" using assms by (simp add: vhd_ok_def)
  show "table_offset im + 4 * nblocks im \<le> raw_len im - 512" using assms by (simp add: vhd_ok_def)
  have "0 \<le> current_size im" using vhd_ok_geom [OF assms] by (simp add: vhd_geom_def)
  then show "0 \<le> nblocks im"
    using g(1) by (simp add: nblocks_def pos_imp_zdiv_nonneg_iff)
qed

text \<open>What the address computations at the head of \<open>vhd_read\<close> and \<open>vhd_write\<close> come to.\<close>

lemma request_addresses:
  assumes "vhd_ok im" "fits (current_size im) off n"
  shows "s64 (off + int n) = off + int n"
    "u32 (drop_bit (block_shift im) off) = off div block_size im"
    "drop_bit (block_shift im) off = off div block_size im"
    "s64 (table_offset im + s64 (push_bit 2 (off div block_size im))) =
       table_offset im + 4 * (off div block_size im)"
    "u32 off AND u32 (block_size im - 1) = off mod block_size im"
    "u32 (int n + off mod block_size im) = int n + off mod block_size im"
    "u32 (block_size im - off mod block_size im) = block_size im - off mod block_size im"
proof -
  note g = vhd_geom_bounds [OF vhd_ok_geom [OF assms(1)]]
  note z = vhd_ok_sizes [OF assms(1)]
  have k: "block_size im = 2 ^ block_shift im" "block_shift im \<le> 21" "0 \<le> table_offset im"
    using assms(1) by (auto simp: vhd_ok_def vhd_geom_def)
  have o: "0 \<le> off" "off + int n \<le> current_size im" "0 < n" "n < 2147483648"
    using assms(2) by (auto simp: fits_def)
  have b: "0 \<le> off div block_size im" "off div block_size im < nblocks im"
    using block_index [OF vhd_ok_geom [OF assms(1)], of off] o by auto
  have m: "0 \<le> off mod block_size im" "off mod block_size im < block_size im"
    using g(1) by (auto intro: pos_mod_sign pos_mod_bound)
  have nb: "nblocks im \<le> 4294967296" using assms(1) by (simp add: vhd_ok_def vhd_geom_def)
  show "s64 (off + int n) = off + int n" using o g by (intro s64_id) linarith+
  show d: "drop_bit (block_shift im) off = off div block_size im"
    by (simp add: drop_bit_eq_div k(1))
  show "u32 (drop_bit (block_shift im) off) = off div block_size im"
    unfolding d using b nb by (intro u32_id) linarith+
  show "s64 (table_offset im + s64 (push_bit 2 (off div block_size im))) =
       table_offset im + 4 * (off div block_size im)"
  proof -
    have "s64 (push_bit 2 (off div block_size im)) = 4 * (off div block_size im)"
      using b nb by (subst s64_id) (simp_all add: push_bit_eq_mult)
    then show ?thesis using b z k(3) by (simp add: s64_id)
  qed
  show "u32 off AND u32 (block_size im - 1) = off mod block_size im"
    by (rule block_mask [OF k(1,2)])
  show "u32 (int n + off mod block_size im) = int n + off mod block_size im"
    using m o g by (intro u32_id) linarith+
  show "u32 (block_size im - off mod block_size im) = block_size im - off mod block_size im"
    using m g by (intro u32_id) linarith+
qed

section \<open>Reads refine a flat disk\<close>

lemma vhd_at_pos [simp]:
  "nblocks (at_pos im p) = nblocks im" "bat (at_pos im p) = bat im"
  "allocated (at_pos im p) = allocated im" "extent (at_pos im p) = extent im"
  "unallocated (at_pos im p) = unallocated im" "vhd_bytes (at_pos im p) = vhd_bytes im"
proof -
  show n: "nblocks (at_pos im p) = nblocks im" by (simp add: nblocks_def)
  show b: "bat (at_pos im p) = bat im" by (rule ext) (simp add: bat_def)
  show a: "allocated (at_pos im p) = allocated im" by (rule ext) (simp add: allocated_def b)
  show e: "extent (at_pos im p) = extent im" by (rule ext) (simp add: extent_def b)
  show "unallocated (at_pos im p) = unallocated im" by (simp add: unallocated_def n a)
  show "vhd_bytes (at_pos im p) = vhd_bytes im" by (rule ext) (simp add: vhd_bytes_def a e Let_def)
qed

lemma vhd_ok_at_pos [simp]: "vhd_ok (at_pos im p) = vhd_ok im"
  by (simp add: vhd_ok_def vhd_geom_def)

lemma within_block:
  fixes bs :: int
  assumes "0 < bs" "0 \<le> i" "off mod bs + i < bs"
  shows "(off + i) div bs = off div bs" "(off + i) mod bs = off mod bs + i"
proof -
  define q r where "q = off div bs" and "r = off mod bs"
  have e: "off + i = r + i + q * bs" by (simp add: q_def r_def)
  have m: "0 \<le> r + i" "r + i < bs" using assms pos_mod_sign [of bs off] by (auto simp: r_def)
  show "(off + i) div bs = off div bs"
    unfolding e using m assms(1) by (simp add: div_pos_pos_trivial flip: q_def)
  show "(off + i) mod bs = off mod bs + i"
    unfolding e using m assms(1) by (simp add: mod_pos_pos_trivial flip: r_def)
qed

lemma vhd_bytes_part:
  assumes "vhd_ok im" "0 \<le> off" "off + int n \<le> current_size im"
    "off mod block_size im + int n \<le> block_size im"
  shows "mem_bytes (vhd_bytes im) off n =
    (if allocated im (off div block_size im)
     then mem_bytes (raw_bytes im)
            (extent im (off div block_size im) + 512 + off mod block_size im) n
     else replicate n 0)"
proof -
  have bs: "0 < block_size im" using vhd_geom_bounds(1) [OF vhd_ok_geom [OF assms(1)]] by simp
  have "vhd_bytes im (off + int i) =
          (if allocated im (off div block_size im)
           then raw_bytes im (extent im (off div block_size im) + 512 + off mod block_size im + int i)
           else 0)" if "i < n" for i
    using that assms within_block [OF bs, of "int i" off]
    by (simp add: vhd_bytes_def Let_def add.assoc)
  then show ?thesis by (intro nth_equalityI) auto
qed

text \<open>The address of a block's data, as the code computes it from the table entry.\<close>

lemma data_address:
  assumes "vhd_ok im" "0 \<le> b" "b < nblocks im" "allocated im b" "0 \<le> ib" "ib \<le> block_size im"
  shows "s64 (push_bit (sector_shift im) (bat im b)) = extent im b"
    "s64 (s64 (push_bit (sector_shift im) (bat im b)) + sector_size im + ib) =
       extent im b + 512 + ib"
    "0 \<le> extent im b"
proof -
  have s: "sector_shift im = 9" "sector_size im = 512"
    using assms(1) by (auto simp: vhd_ok_def vhd_geom_def)
  show a: "s64 (push_bit (sector_shift im) (bat im b)) = extent im b"
    using bat_range [of im b] by (simp add: s push_bit_eq_mult extent_def s64_id)
  show "s64 (s64 (push_bit (sector_shift im) (bat im b)) + sector_size im + ib) =
       extent im b + 512 + ib"
    unfolding a using bat_range [of im b] assms(5,6) vhd_geom_bounds(2) [OF vhd_ok_geom [OF assms(1)]]
    by (subst s64_id) (auto simp: s extent_def)
  show "0 \<le> extent im b" using bat_range [of im b] by (simp add: extent_def)
qed

lemma vhd_read_flat:
  assumes "vhd_ok im" "fits (current_size im) off (length io)"
  shows "\<exists>p. vhd_read im io off =
           Some (int (length io), mem_bytes (vhd_bytes im) off (length io), at_pos im p)"
  using assms
proof (induction "length io" arbitrary: im io off rule: less_induct)
  case less
  define bs where "bs = block_size im"
  define b where "b = off div bs"
  define ib where "ib = off mod bs"
  define n where "n = length io"
  note ok = less.prems(1)
  note g = vhd_geom_bounds [OF vhd_ok_geom [OF ok]]
  note z = vhd_ok_sizes [OF ok]
  note addr = request_addresses [OF ok less.prems(2), folded bs_def, folded b_def ib_def n_def]
  have ub: "u32 b = b" using addr(2) by (simp add: addr(3))
  have o: "0 \<le> off" "off + int n \<le> current_size im" "0 < n" "n < 2147483648"
    using less.prems(2) by (auto simp: fits_def n_def)
  have bs: "512 \<le> bs" "bs \<le> 2097152" using g by (simp_all add: bs_def)
  have ib: "0 \<le> ib" "ib < bs" using bs by (auto simp: ib_def intro: pos_mod_sign pos_mod_bound)
  have bn: "0 \<le> b" "b < nblocks im"
    using block_index [OF vhd_ok_geom [OF ok], of off] o by (auto simp: b_def bs_def)
  have raw: "raw_ok im" "0 \<le> table_offset im"
    using ok by (auto simp: vhd_ok_def vhd_geom_def)
  define f where "f = (if bs < int n + ib then nat (bs - ib) else n)"
  have f: "0 < f" "f \<le> n" "ib + int f \<le> bs" "f < n \<Longrightarrow> int f = bs - ib"
    using ib o by (auto simp: f_def)
  have nl: "\<not> current_size im < off + int n" using o by simp
  have c: "(bs < int n + ib) = (f < n)" using f by (auto simp: f_def split: if_splits)
  have w: "s32 (int f) = int f" "s32 (int n) = int n" "min f n = f"
    using f o by (simp_all add: s32_id)
  have v: "u32 (bs - ib) = int f" "u32 (int n - int f) = int n - int f"
    "s64 (off + int f) = off + int f" if "f < n"
    using that f(4) addr(7) o g by (simp_all add: u32_id s64_id)
  obtain p1 where r1: "physical_read im (replicate 4 0) (table_offset im + 4 * b) =
      (4, mem_bytes (raw_bytes im) (table_offset im + 4 * b) 4, at_pos im p1)"
    using physical_read_good [OF raw(1), of "table_offset im + 4 * b" "replicate 4 0"] raw bn
    by auto
  let ?bo = "mem_bytes (raw_bytes im) (table_offset im + 4 * b) 4"
  have bo: "be_of ?bo = bat im b" "le_of ?bo = 4294967295 \<longleftrightarrow> \<not> allocated im b"
    using le_of_ones [of ?bo] by (auto simp: bat_def allocated_def)
  let ?first = "mem_bytes (vhd_bytes im) off f"
  let ?d = "extent im b + 512 + ib"
  let ?d' = "s64 (s64 (push_bit (sector_shift im) (be_of ?bo)) + sector_size im + ib)"
  consider (hole) "le_of ?bo = 4294967295" "?first = replicate f 0"
    | (data) q1 q2 where "le_of ?bo \<noteq> 4294967295"
       "physical_read (at_pos im p1) (replicate f 0) ?d' = (int f, ?first, at_pos im q1)"
       "physical_read (at_pos im q1) ?first ?d' = (int f, ?first, at_pos im q2)"
  proof (cases "allocated im b")
    case False
    then have "?first = replicate f 0"
      using vhd_bytes_part [OF ok o(1), of f] f(2,3) o(2) by (simp add: b_def ib_def bs_def)
    with False bo(2) hole show thesis by simp
  next
    case True
    note da = data_address [OF ok bn True ib(1)]
    have d: "s64 (s64 (push_bit (sector_shift im) (be_of ?bo)) + sector_size im + ib) = ?d"
      unfolding bo using da(2) ib(2) by (simp add: bs_def)
    have fst_eq: "?first = mem_bytes (raw_bytes im) ?d f"
      using vhd_bytes_part [OF ok o(1), of f] f(2,3) o(2) True by (simp add: b_def ib_def bs_def)
    have rd: "\<exists>p. physical_read (at_pos im q) (xs :: byte list) ?d = (int f, ?first, at_pos im p)"
      if "length xs = f" for q xs
      unfolding fst_eq
      using physical_read_good [of "at_pos im q" ?d xs] that raw(1) da ib o f bs by (auto simp: bs_def)
    obtain q1 where q1: "physical_read (at_pos im p1) (replicate f 0) ?d =
        (int f, ?first, at_pos im q1)" using rd [of "replicate f 0" p1] by auto
    obtain q2 where q2: "physical_read (at_pos im q1) ?first ?d = (int f, ?first, at_pos im q2)"
      using rd [of ?first q1] by auto
    show thesis
      using data [of q1 q2] True bo(2) d q1 q2 by simp
  qed
  then obtain p2 where one: "f = n \<Longrightarrow> vhd_read im io off =
       Some (int n, mem_bytes (vhd_bytes im) off n, at_pos im p2)"
    and two: "f < n \<Longrightarrow> vhd_read im io off =
       Option.bind (vhd_read (at_pos im p2) (replicate (n - f) 0) (off + int f))
         (\<lambda>(second_read, second, im).
             if u32 second_read = 4294967295 then Some (-1, ?first @ second, im)
             else Some (s32 (int f + u32 second_read), ?first @ second, im))"
  proof cases
    case hole
    note step = Let_def addr(1-6) ub r1 c v w o hole(1)
    show thesis
    proof (rule that [of p1])
      assume "f = n"
      with hole nl show "vhd_read im io off = Some (int n, mem_bytes (vhd_bytes im) off n, at_pos im p1)"
        by (subst vhd_read.simps) (simp add: step flip: bs_def n_def b_def ib_def)
    next
      assume "f < n"
      with nl show "vhd_read im io off =
         Option.bind (vhd_read (at_pos im p1) (replicate (n - f) 0) (off + int f))
           (\<lambda>(second_read, second, im).
               if u32 second_read = 4294967295 then Some (-1, ?first @ second, im)
               else Some (s32 (int f + u32 second_read), ?first @ second, im))"
        unfolding hole(2)
        by (subst vhd_read.simps) (simp add: step flip: bs_def n_def b_def ib_def)
    qed
  next
    case data
    show thesis
      by (insert data nl, rule that [of q2]; subst vhd_read.simps)
        (simp_all add: Let_def addr(1-6) ub r1 c v w o flip: bs_def n_def b_def ib_def)
  qed
  show ?case
  proof (cases "f < n")
    case False
    with f(2) one show ?thesis by (auto simp: n_def)
  next
    case True
    have fits2: "fits (current_size im) (off + int f) (n - f)"
      using o True f by (auto simp: fits_def)
    obtain p3 where r3: "vhd_read (at_pos im p2) (replicate (n - f) 0) (off + int f) =
        Some (int (n - f), mem_bytes (vhd_bytes im) (off + int f) (n - f), at_pos im p3)"
    proof -
      have "length (replicate (n - f) (0 :: byte)) < length io"
        using f True by (simp add: n_def)
      from less.hyps [OF this, of "at_pos im p2" "off + int f"] ok fits2 True that
      show thesis by (auto simp: n_def)
    qed
    have "u32 (int (n - f)) = int (n - f)" "s32 (int f + int (n - f)) = int n"
      using o f True by (simp_all add: u32_id s32_id of_nat_diff)
    moreover have "int (n - f) \<noteq> 4294967295" using o(4) by linarith
    ultimately have "vhd_read im io off =
        Some (int n, mem_bytes (vhd_bytes im) off n, at_pos im p3)"
      using two [OF True] r3 True mem_bytes_append [of "vhd_bytes im" off f "n - f"] by simp
    then show ?thesis by (auto simp: n_def)
  qed
qed

section \<open>Writes refine a flat disk\<close>

lemma vhd_okD:
  assumes "vhd_ok im"
  shows "raw_ok im" "0 \<le> table_offset im" "0 \<le> current_size im" "length (vhd_Footer im) = 512"
    "512 dvd raw_len im" "malloc_ok im (block_size im + 1024)" "sector_size im = 512"
    "sector_shift im = 9" "mem_bytes (raw_bytes im) (raw_len im - 512) 512 = vhd_Footer im"
    "raw_len im + (512 + block_size im) * int (card (unallocated im)) \<le> 1099511627776"
  using assms by (auto simp: vhd_ok_def vhd_geom_def)

lemma vhd_ok_extent:
  assumes "vhd_ok im" "0 \<le> b" "b < nblocks im" "allocated im b"
  shows "table_offset im + 4 * nblocks im \<le> extent im b"
    "extent im b + 512 + block_size im \<le> raw_len im - 512"
  using assms by (auto simp: vhd_ok_def)

lemma vhd_ok_apart:
  assumes "vhd_ok im" "0 \<le> b" "b < nblocks im" "allocated im b"
    "0 \<le> c" "c < nblocks im" "allocated im c" "b \<noteq> c"
  shows "extent im b + 512 + block_size im \<le> extent im c \<or>
    extent im c + 512 + block_size im \<le> extent im b"
  using assms by (auto simp: vhd_ok_def)

lemma nblocks_put_image [simp]: "nblocks (put_image im off bs) = nblocks im"
  by (simp add: nblocks_def)

lemma vhd_geom_put:
  assumes "vhd_geom im" "0 \<le> off" "512 dvd raw_len (put_image im off bs)"
  shows "vhd_geom (put_image im off bs)"
proof -
  have "raw_ok (put_image im off bs)"
    using assms(1,2) by (intro put_image_raw(1)) (simp_all add: vhd_geom_def)
  with assms(1,3) show ?thesis unfolding vhd_geom_def put_image_simps nblocks_put_image by blast
qed

lemma vhd_okI:
  assumes "vhd_geom im" "table_offset im + 4 * nblocks im \<le> raw_len im - 512"
    "\<And>b. 0 \<le> b \<Longrightarrow> b < nblocks im \<Longrightarrow> allocated im b \<Longrightarrow>
        table_offset im + 4 * nblocks im \<le> extent im b \<and>
        extent im b + 512 + block_size im \<le> raw_len im - 512"
    "\<And>b c. 0 \<le> b \<Longrightarrow> b < nblocks im \<Longrightarrow> allocated im b \<Longrightarrow>
        0 \<le> c \<Longrightarrow> c < nblocks im \<Longrightarrow> allocated im c \<Longrightarrow> b \<noteq> c \<Longrightarrow>
        extent im b + 512 + block_size im \<le> extent im c \<or>
        extent im c + 512 + block_size im \<le> extent im b"
    "raw_len im + (512 + block_size im) * int (card (unallocated im)) \<le> 1099511627776"
    "mem_bytes (raw_bytes im) (raw_len im - 512) 512 = vhd_Footer im"
  shows "vhd_ok im"
  unfolding vhd_ok_def using assms by blast

text \<open>A write beyond the table and before the footer keeps the table and the invariant.\<close>

lemma bat_put_image:
  assumes "raw_ok im" "0 \<le> off" "off + int (length bs) \<le> table_offset im + 4 * b \<or>
     table_offset im + 4 * b + 4 \<le> off"
  shows "bat (put_image im off bs) b = bat im b"
  using assms by (simp add: bat_def put_image_raw mem_bytes_write_disjoint)

lemma put_inside:
  assumes "vhd_ok im" "table_offset im + 4 * nblocks im \<le> off"
    "off + int (length bs) \<le> raw_len im - 512"
  shows "vhd_ok (put_image im off bs)"
    "\<And>b. 0 \<le> b \<Longrightarrow> b < nblocks im \<Longrightarrow> bat (put_image im off bs) b = bat im b"
    "raw_len (put_image im off bs) = raw_len im"
proof -
  note d = vhd_okD [OF assms(1)] and z = vhd_ok_sizes [OF assms(1)]
  have off: "0 \<le> off" using assms(2) d(2) z(3) by linarith
  show b: "bat (put_image im off bs) b = bat im b" if "0 \<le> b" "b < nblocks im" for b
    using that assms(2) by (intro bat_put_image d(1) off) auto
  show len: "raw_len (put_image im off bs) = raw_len im"
    using put_image_raw(3) [OF d(1) off, of bs] assms(3) by simp
  have al: "allocated (put_image im off bs) b = allocated im b"
    "extent (put_image im off bs) b = extent im b" if "0 \<le> b" "b < nblocks im" for b
    using b [OF that] by (simp_all add: allocated_def extent_def)
  have "unallocated (put_image im off bs) = unallocated im"
    using al(1) by (auto simp: unallocated_def)
  moreover have "mem_bytes (raw_bytes (put_image im off bs)) (raw_len im - 512) 512 = vhd_Footer im"
    using put_image_raw(2) [OF d(1) off, of bs] assms(3) d(9) by (simp add: mem)
  moreover have "vhd_geom (put_image im off bs)"
    using d(5) by (intro vhd_geom_put vhd_ok_geom assms(1) off) (simp add: len)
  ultimately show "vhd_ok (put_image im off bs)"
    using len al z d(10) vhd_ok_extent [OF assms(1)] vhd_ok_apart [OF assms(1)]
    by (intro vhd_okI) simp_all
qed

text \<open>The data of a block changes exactly the bytes of the flat disk it stands for.\<close>

lemma put_block_data:
  assumes ok: "vhd_ok im" and b: "0 \<le> b" "b < nblocks im" "allocated im b"
    and ib: "0 \<le> ib" "ib + int (length bs) \<le> block_size im"
    and cs: "b * block_size im + ib + int (length bs) \<le> current_size im"
  shows "vhd_bytes (put_image im (extent im b + 512 + ib) bs) =
           mem_write (vhd_bytes im) (b * block_size im + ib) bs"
proof (rule ext)
  fix p
  let ?im = "put_image im (extent im b + 512 + ib) bs"
  let ?B = "block_size im"
  note e = vhd_ok_extent [OF ok b]
  note d = vhd_okD [OF ok] and z = vhd_ok_sizes [OF ok]
  have B: "0 < ?B" using vhd_geom_bounds(1) [OF vhd_ok_geom [OF ok]] by simp
  have o: "0 \<le> extent im b + 512 + ib" using e d(2) z(3) ib by linarith
  show "vhd_bytes ?im p = mem_write (vhd_bytes im) (b * ?B + ib) bs p"
  proof (cases "0 \<le> p \<and> p < current_size im")
    case False
    moreover have "0 \<le> b * ?B + ib" using b ib B by simp
    ultimately show ?thesis using cs by (auto simp: vhd_bytes_def Let_def mem_write_def)
  next
    case True
    define c where "c = p div ?B"
    define r where "r = p mod ?B"
    have p: "p = c * ?B + r" by (simp add: c_def r_def)
    have r: "0 \<le> r" "r < ?B" using B by (auto simp: r_def)
    have c: "0 \<le> c" "c < nblocks im"
      using block_index [OF vhd_ok_geom [OF ok]] True by (auto simp: c_def)
    have eq: "bat ?im c = bat im c"
      using put_inside(2) [OF ok, of "extent im b + 512 + ib" bs c] e ib c by simp
    have al: "allocated ?im c = allocated im c" "extent ?im c = extent im c"
      using eq by (simp_all only: allocated_def extent_def [of _ c])
    have lhs: "vhd_bytes ?im p = (if allocated im c
        then mem_write (raw_bytes im) (extent im b + 512 + ib) bs (extent im c + 512 + r) else 0)"
      using True al put_image_raw(2) [OF d(1) o, of bs]
      by (simp add: vhd_bytes_def Let_def flip: c_def r_def)
    have rhs: "vhd_bytes im p = (if allocated im c then raw_bytes im (extent im c + 512 + r) else 0)"
      using True by (simp add: vhd_bytes_def Let_def flip: c_def r_def)
    show ?thesis
    proof (cases "c = b")
      case True
      have i: "p - (b * ?B + ib) = r - ib" using True p by simp
      have "mem_write (vhd_bytes im) (b * ?B + ib) bs p =
              (if ib \<le> r \<and> r < ib + int (length bs) then bs ! nat (r - ib) else vhd_bytes im p)"
        unfolding mem_write_def i using i by auto
      then show ?thesis using b(3) True unfolding lhs rhs by (simp add: mem_write_def)
    next
      case False
      have "c * ?B + r < b * ?B \<or> (b + 1) * ?B \<le> c * ?B + r"
      proof (cases "c < b")
        case True
        then have "(c + 1) * ?B \<le> b * ?B" using B by (intro mult_right_mono) auto
        then show ?thesis using r by (simp add: algebra_simps)
      next
        case False
        with \<open>c \<noteq> b\<close> have "(b + 1) * ?B \<le> c * ?B" using B by (intro mult_right_mono) auto
        then show ?thesis using r by linarith
      qed
      then have "p < b * ?B + ib \<or> b * ?B + ib + int (length bs) \<le> p"
        using ib unfolding p by (auto simp: algebra_simps)
      then have "mem_write (vhd_bytes im) (b * ?B + ib) bs p = vhd_bytes im p"
        by (rule mem_write_out)
      moreover have "mem_write (raw_bytes im) (extent im b + 512 + ib) bs (extent im c + 512 + r) =
          raw_bytes im (extent im c + 512 + r)" if "allocated im c"
        using vhd_ok_apart [OF ok b c that False [symmetric]] r ib by (intro mem_write_out) linarith
      ultimately show ?thesis unfolding lhs rhs by simp
    qed
  qed
qed

text \<open>A block's allocation bitmap is not part of the flat disk.\<close>

lemma vhd_bytes_cong:
  assumes "vhd_ok im" "current_size im' = current_size im" "block_size im' = block_size im"
    "\<And>c. 0 \<le> c \<Longrightarrow> c < nblocks im \<Longrightarrow> allocated im' c = allocated im c"
    "\<And>c r. 0 \<le> c \<Longrightarrow> c < nblocks im \<Longrightarrow> allocated im c \<Longrightarrow> 0 \<le> r \<Longrightarrow> r < block_size im \<Longrightarrow>
       raw_bytes im' (extent im' c + 512 + r) = raw_bytes im (extent im c + 512 + r)"
  shows "vhd_bytes im' = vhd_bytes im"
proof (rule ext)
  fix p
  have B: "0 < block_size im" using vhd_geom_bounds(1) [OF vhd_ok_geom [OF assms(1)]] by simp
  show "vhd_bytes im' p = vhd_bytes im p"
  proof (cases "0 \<le> p \<and> p < current_size im")
    case True
    with block_index [OF vhd_ok_geom [OF assms(1)], of p] B assms show ?thesis
      by (simp add: vhd_bytes_def Let_def)
  next
    case False
    then show ?thesis using assms(2) by (auto simp: vhd_bytes_def Let_def)
  qed
qed

lemma put_block_bitmap:
  assumes ok: "vhd_ok im" and b: "0 \<le> b" "b < nblocks im" "allocated im b"
    and o: "0 \<le> o1" "o1 + int (length bs) \<le> 512"
  shows "vhd_bytes (put_image im (extent im b + o1) bs) = vhd_bytes im"
proof (rule vhd_bytes_cong [OF ok])
  let ?im = "put_image im (extent im b + o1) bs"
  note e = vhd_ok_extent [OF ok b] and d = vhd_okD [OF ok] and z = vhd_ok_sizes [OF ok]
  have B: "0 < block_size im" using vhd_geom_bounds(1) [OF vhd_ok_geom [OF ok]] by simp
  have off: "0 \<le> extent im b + o1" using e d(2) z(3) o by linarith
  have bt: "bat ?im c = bat im c" if "0 \<le> c" "c < nblocks im" for c
    using put_inside(2) [OF ok, of "extent im b + o1" bs c] e o that B by simp
  then show "allocated ?im c = allocated im c" if "0 \<le> c" "c < nblocks im" for c
    using that by (simp only: allocated_def)
  fix c r
  assume c: "0 \<le> c" "c < nblocks im" "allocated im c" and r: "0 \<le> r" "r < block_size im"
  have "extent ?im c = extent im c" using bt [OF c(1,2)] by (simp only: extent_def [of _ c])
  moreover have "mem_write (raw_bytes im) (extent im b + o1) bs (extent im c + 512 + r) =
      raw_bytes im (extent im c + 512 + r)"
  proof (cases "c = b")
    case True
    with r o show ?thesis by (intro mem_write_out) simp
  next
    case False
    show ?thesis
      using vhd_ok_apart [OF ok b c False [symmetric]] r o by (intro mem_write_out) linarith
  qed
  ultimately show "raw_bytes ?im (extent ?im c + 512 + r) = raw_bytes im (extent im c + 512 + r)"
    using put_image_raw(2) [OF d(1) off, of bs] by simp
qed simp_all

text \<open>Appending a block: the table entry, then the block over the old footer.\<close>

lemma append_block:
  assumes ok: "vhd_ok im" and b: "0 \<le> b" "b < nblocks im" "\<not> allocated im b"
    and e: "e * 512 = raw_len im - 512"
  defines "im1 \<equiv> put_image im (table_offset im + 4 * b) (to_be 4 e)"
  defines "im2 \<equiv> put_image im1 (e * 512) (replicate (nat (512 + block_size im)) 0 @ vhd_Footer im)"
  shows "vhd_ok im2" "vhd_bytes im2 = vhd_bytes im" "bat im2 b = e" "allocated im2 b"
    "raw_len im2 = raw_len im + 512 + block_size im"
    "raw_ok im1" "raw_len im1 = raw_len im" "e < 2147483648" "0 \<le> e"
proof -
  note d = vhd_okD [OF ok] and z = vhd_ok_sizes [OF ok]
  have B: "512 \<le> block_size im" using vhd_geom_bounds(1) [OF vhd_ok_geom [OF ok]] .
  let ?blk = "replicate (nat (512 + block_size im)) (0 :: byte) @ vhd_Footer im"
  have lb: "int (length ?blk) = 1024 + block_size im" using d(4) B by simp
  have t: "0 \<le> table_offset im + 4 * b" "table_offset im + 4 * b + 4 \<le> e * 512"
    using d(2) b z e by linarith+
  then have e0: "0 \<le> e" by simp
  show "0 \<le> e" by (fact e0)
  have fin: "finite (unallocated im)"
    by (rule finite_subset [of _ "{0..<nblocks im}"]) (auto simp: unallocated_def)
  have bu: "b \<in> unallocated im" using b by (simp add: unallocated_def)
  have c1: "card (unallocated im) = Suc (card (unallocated im - {b}))"
    using card.remove [OF fin bu] .
  have sz: "raw_len im + (512 + block_size im) +
      (512 + block_size im) * int (card (unallocated im - {b})) \<le> 1099511627776"
    using d(10) unfolding c1 by (simp add: algebra_simps)
  then have "raw_len im \<le> 1099511627776" using z(1) by simp
  then show e1: "e < 2147483648" using e by simp
  show r1: "raw_ok im1" using put_image_raw(1) [OF d(1) t(1)] by (simp add: im1_def)
  have by1: "raw_bytes im1 = mem_write (raw_bytes im) (table_offset im + 4 * b) (to_be 4 e)"
    using put_image_raw(2) [OF d(1) t(1)] by (simp add: im1_def)
  show l1: "raw_len im1 = raw_len im"
    using put_image_raw(3) [OF d(1) t(1), of "to_be 4 e"] t e by (auto simp: im1_def)
  have e512: "0 \<le> e * 512" using e0 by simp
  have r2: "raw_ok im2" using put_image_raw(1) [OF r1 e512] by (simp add: im2_def)
  have by2: "raw_bytes im2 = mem_write (raw_bytes im1) (e * 512) ?blk"
    using put_image_raw(2) [OF r1 e512] by (simp add: im2_def)
  have "?blk \<noteq> []" using lb B by force
  then have "raw_len im2 = max (raw_len im1) (e * 512 + int (length ?blk))"
    using put_image_raw(3) [OF r1 e512, of ?blk] by (simp only: im2_def if_False)
  then show l2: "raw_len im2 = raw_len im + 512 + block_size im"
    unfolding lb l1 using e B by simp
  have flds: "table_offset im2 = table_offset im" "block_size im2 = block_size im"
    "current_size im2 = current_size im" "nblocks im2 = nblocks im" "vhd_Footer im2 = vhd_Footer im"
    by (simp_all add: im2_def im1_def)
  have table: "mem_bytes (raw_bytes im2) (table_offset im + 4 * c) 4 =
      mem_bytes (raw_bytes im1) (table_offset im + 4 * c) 4" if "c < nblocks im" for c
    unfolding by2 using that z(2) e by (intro mem_bytes_write_disjoint) auto
  show be: "bat im2 b = e"
    using table [OF b(2)] e0 e1 mem_bytes_write_same [of "raw_bytes im" "table_offset im + 4 * b" "to_be 4 e"]
    by (simp add: bat_def flds by1 be_of_to_be)
  then show ab: "allocated im2 b" using e1 by (simp add: allocated_def)
  have other: "bat im2 c = bat im c" if "0 \<le> c" "c < nblocks im" "c \<noteq> b" for c
  proof -
    have "table_offset im + 4 * b + int (length (to_be 4 e)) \<le> table_offset im + 4 * c \<or>
        table_offset im + 4 * c + int 4 \<le> table_offset im + 4 * b"
      using that(3) by auto
    from mem_bytes_write_disjoint [OF this, of "raw_bytes im"] table [OF that(2)]
    show ?thesis by (simp add: bat_def flds by1)
  qed
  then have oal: "allocated im2 c = allocated im c" "extent im2 c = extent im c"
    if "0 \<le> c" "c < nblocks im" "c \<noteq> b" for c
    using that by (simp_all add: allocated_def extent_def)
  have eb: "extent im2 b = e * 512" by (simp add: extent_def be)
  have un: "unallocated im2 = unallocated im - {b}"
    using ab oal(1) by (auto simp: unallocated_def flds)
  have foot: "mem_bytes (raw_bytes im2) (raw_len im2 - 512) 512 = vhd_Footer im2"
  proof -
    have "raw_len im2 - 512 = e * 512 + int (length (replicate (nat (512 + block_size im)) (0 :: byte)))"
      using l2 e B by simp
    then show ?thesis
      using mem_bytes_write_same [of _ "raw_len im2 - 512" "vhd_Footer im"] d(4)
      unfolding by2 mem_write_append flds(5) by simp
  qed
  show ok2: "vhd_ok im2"
  proof (rule vhd_okI)
    show "vhd_geom im2"
      using vhd_ok_geom [OF ok] r2 l2 d(5) vhd_block_dvd [OF vhd_ok_geom [OF ok]]
      unfolding vhd_geom_def flds
      by (auto simp: im2_def im1_def)
    show "table_offset im2 + 4 * nblocks im2 \<le> raw_len im2 - 512"
      using z(2) l2 B by (simp add: flds)
    show "table_offset im2 + 4 * nblocks im2 \<le> extent im2 c \<and>
        extent im2 c + 512 + block_size im2 \<le> raw_len im2 - 512"
      if "0 \<le> c" "c < nblocks im2" "allocated im2 c" for c
      using that vhd_ok_extent [OF ok, of c] oal [of c] eb z(2) e l2 B
      by (cases "c = b") (auto simp: flds)
    show "extent im2 a + 512 + block_size im2 \<le> extent im2 c \<or>
        extent im2 c + 512 + block_size im2 \<le> extent im2 a"
      if "0 \<le> a" "a < nblocks im2" "allocated im2 a" "0 \<le> c" "c < nblocks im2" "allocated im2 c" "a \<noteq> c" for a c
    proof -
      have a: "extent im2 x + 512 + block_size im2 \<le> extent im2 b"
        if "0 \<le> x" "x < nblocks im2" "allocated im2 x" "x \<noteq> b" for x
        using that vhd_ok_extent [OF ok, of x] oal [of x] eb e by (auto simp: flds)
      show ?thesis
      proof (cases "a = b \<or> c = b")
        case True
        then show ?thesis using that a by auto
      next
        case False
        then show ?thesis using that vhd_ok_apart [OF ok, of a c] oal by (auto simp: flds)
      qed
    qed
    show "raw_len im2 + (512 + block_size im2) * int (card (unallocated im2)) \<le> 1099511627776"
      using sz by (simp add: flds un l2)
    show "mem_bytes (raw_bytes im2) (raw_len im2 - 512) 512 = vhd_Footer im2" by (rule foot)
  qed
  show "vhd_bytes im2 = vhd_bytes im"
  proof (rule ext)
    fix p
    show "vhd_bytes im2 p = vhd_bytes im p"
    proof (cases "0 \<le> p \<and> p < current_size im")
      case False
      then show ?thesis by (auto simp: vhd_bytes_def Let_def flds)
    next
      case True
      define c where "c = p div block_size im"
      define r where "r = p mod block_size im"
      have r: "0 \<le> r" "r < block_size im" using B by (auto simp: r_def)
      have c: "0 \<le> c" "c < nblocks im"
        using block_index [OF vhd_ok_geom [OF ok]] True by (auto simp: c_def)
      have lhs: "vhd_bytes im2 p =
          (if allocated im2 c then raw_bytes im2 (extent im2 c + 512 + r) else 0)"
        using True by (simp add: vhd_bytes_def Let_def flds flip: c_def r_def)
      have rhs: "vhd_bytes im p =
          (if allocated im c then raw_bytes im (extent im c + 512 + r) else 0)"
        using True by (simp add: vhd_bytes_def Let_def flip: c_def r_def)
      show ?thesis
      proof (cases "c = b")
        case True
        have "raw_bytes im2 (e * 512 + (512 + r)) = ?blk ! nat (512 + r)"
          unfolding by2 using r lb by (subst mem_write_in) auto
        also have "\<dots> = 0" using r by (simp add: nth_append)
        finally show ?thesis using True b(3) ab eb unfolding lhs rhs by (simp add: add.assoc)
      next
        case False
        have "raw_bytes im2 (extent im c + 512 + r) = raw_bytes im (extent im c + 512 + r)"
          if "allocated im c"
        proof -
          note x = vhd_ok_extent [OF ok c that]
          have "raw_bytes im2 (extent im c + 512 + r) = raw_bytes im1 (extent im c + 512 + r)"
            unfolding by2 using x r e by (intro mem_write_out) auto
          also have "\<dots> = raw_bytes im (extent im c + 512 + r)"
            unfolding by1 using x r b by (intro mem_write_out) auto
          finally show ?thesis .
        qed
        then show ?thesis using oal [OF c False] unfolding lhs rhs by simp
      qed
    qed
  qed
qed

lemma put_image_at_pos [simp]: "put_image (at_pos im p) off bs = put_image im off bs"
  by (simp add: put_image_def at_pos_def)

lemma vhd_new_block_ok:
  assumes ok: "vhd_ok im" and b: "0 \<le> b" "b < nblocks im" "\<not> allocated im b"
  shows "\<exists>bo im'. vhd_new_block (at_pos im p) (table_offset im + 4 * b) = (Some bo, im') \<and>
     vhd_ok im' \<and> vhd_bytes im' = vhd_bytes im \<and> be_of bo = bat im' b \<and> allocated im' b \<and>
     current_size im' = current_size im \<and> block_size im' = block_size im \<and>
     nblocks im' = nblocks im \<and> raw_len im' = raw_len im + 512 + block_size im"
proof -
  note d = vhd_okD [OF ok] and z = vhd_ok_sizes [OF ok]
  note B = vhd_geom_bounds(1,2) [OF vhd_ok_geom [OF ok]]
  define e where "e = drop_bit 9 (raw_len im - 512)"
  have e: "e * 512 = raw_len im - 512" using d(5) by (simp add: e_def drop_bit_eq_div)
  note a = append_block [OF ok b e]
  let ?im1 = "put_image im (table_offset im + 4 * b) (to_be 4 e)"
  let ?blk = "replicate (nat (512 + block_size im)) (0 :: byte) @ vhd_Footer im"
  let ?im2 = "put_image ?im1 (e * 512) ?blk"
  have lb: "int (length ?blk) = 1024 + block_size im" using d(4) B by simp
  have t: "0 \<le> table_offset im + 4 * b" using d(2) b by simp
  have seek: "seek_end (at_pos im p) (-512) = (e * 512, at_pos im (e * 512))"
    using d(1) a(9) e by (simp add: seek_end_def lseek_end_def lseek_set_def raw_ok_def raw_len_def at_pos_def)
  have w1: "physical_write (at_pos im (e * 512)) (to_be 4 e) (table_offset im + 4 * b) = (4, ?im1)"
    using physical_write_good [of "at_pos im (e * 512)" "table_offset im + 4 * b" "to_be 4 e"] d(1) t
    by simp
  have w2: "physical_write ?im1 ?blk (e * 512) = (1024 + block_size im, ?im2)"
    using physical_write_good [OF a(6), of "e * 512" ?blk] a(9) lb B by (simp add: nat_less_iff)
  have dr: "drop_bit 9 (e * 512) = e" by (simp add: drop_bit_eq_div)
  have ar: "u32 (1024 + block_size im) = 1024 + block_size im"
    "s32 (s32 (512 + block_size im) + 512) = 1024 + block_size im"
    using B by (simp_all add: u32_id s32_id)
  have tk: "take (nat (1024 + block_size im)) ?blk = ?blk"
    unfolding lb [symmetric] nat_int by (rule take_all) simp
  have mo: "malloc_ok im (1024 + block_size im)" using d(6) by (simp add: add.commute)
  have "vhd_new_block (at_pos im p) (table_offset im + 4 * b) = (Some (to_be 4 e), ?im2)"
    using a(9) unfolding vhd_new_block_def
    by (simp add: Let_def d(7,8) mo seek dr w1 ar tk w2 del: take_append)
  moreover have "be_of (to_be 4 e) = bat ?im2 b"
    using a(3,8,9) by (simp add: be_of_to_be)
  ultimately show ?thesis
    using a(1,2,4,5) by (intro exI [of _ "to_be 4 e"] exI [of _ ?im2]) simp
qed

lemma buf2_simps [simp]:
  "raw_ok (im\<lparr>buf2 := x\<rparr>) = raw_ok im" "raw_bytes (im\<lparr>buf2 := x\<rparr>) = raw_bytes im"
  "raw_len (im\<lparr>buf2 := x\<rparr>) = raw_len im"
  by (simp_all add: raw_ok_def raw_bytes_def raw_len_def)

lemma vhd_buf2 [simp]:
  "nblocks (im\<lparr>buf2 := x\<rparr>) = nblocks im" "bat (im\<lparr>buf2 := x\<rparr>) = bat im"
  "allocated (im\<lparr>buf2 := x\<rparr>) = allocated im" "extent (im\<lparr>buf2 := x\<rparr>) = extent im"
  "unallocated (im\<lparr>buf2 := x\<rparr>) = unallocated im" "vhd_bytes (im\<lparr>buf2 := x\<rparr>) = vhd_bytes im"
proof -
  let ?im = "im\<lparr>buf2 := x\<rparr>"
  show n: "nblocks ?im = nblocks im" by (simp add: nblocks_def)
  show b: "bat ?im = bat im" by (rule ext) (simp add: bat_def)
  show a: "allocated ?im = allocated im" by (rule ext) (simp add: allocated_def b)
  show e: "extent ?im = extent im" by (rule ext) (simp add: extent_def b)
  show "unallocated ?im = unallocated im" by (simp add: unallocated_def n a)
  show "vhd_bytes ?im = vhd_bytes im" by (rule ext) (simp add: vhd_bytes_def a e Let_def)
qed

lemma vhd_ok_buf2 [simp]: "vhd_ok (im\<lparr>buf2 := x\<rparr>) = vhd_ok im"
  by (simp add: vhd_ok_def vhd_geom_def)

text \<open>The bitmap bytes written for a part of a block stay inside the bitmap's sector.\<close>

lemma bitmap_bounds:
  fixes ib n bs :: int
  assumes "0 \<le> ib" "0 < n" "ib + n \<le> bs" "bs \<le> 2097152"
  shows "0 \<le> drop_bit 12 ib" "0 \<le> drop_bit 3 (drop_bit 9 (511 + n) + 7)"
    "drop_bit 12 ib + drop_bit 3 (drop_bit 9 (511 + n) + 7) \<le> 512"
    "0 \<le> drop_bit 9 (511 + n)" "drop_bit 9 (511 + n) \<le> 4096"
proof -
  show "0 \<le> drop_bit 12 ib" "0 \<le> drop_bit 3 (drop_bit 9 (511 + n) + 7)"
    "0 \<le> drop_bit 9 (511 + n)" using assms by (simp_all add: drop_bit_eq_div)
  have d: "k * (x div k) \<le> x" if "0 < k" for x k :: int
    using mult_div_mod_eq [of k x] pos_mod_sign [OF that, of x] by linarith
  have s: "ib div 512 + (511 + n) div 512 \<le> 4096"
    using assms d [of 512 ib] d [of 512 "511 + n"] by linarith
  have "ib div 512 div 8 + ((511 + n) div 512 + 7) div 8 \<le> 512"
    using s d [of 8 "ib div 512"] d [of 8 "(511 + n) div 512 + 7"] by linarith
  moreover have "ib div 512 div 8 = ib div 4096" using zdiv_zmult2_eq [of 8 ib 512] by simp
  ultimately show "drop_bit 12 ib + drop_bit 3 (drop_bit 9 (511 + n) + 7) \<le> 512"
    by (simp add: drop_bit_eq_div)
  have "0 \<le> ib div 512" using assms by simp
  with s show "drop_bit 9 (511 + n) \<le> 4096" by (simp add: drop_bit_eq_div)
qed

lemma vhd_store_block_ok:
  assumes ok: "vhd_ok im" and b: "0 \<le> b" "b < nblocks im" "allocated im b"
    and ib: "0 \<le> ib" "ib + int (length bs) \<le> block_size im" and ne: "bs \<noteq> []"
    and cs: "b * block_size im + ib + int (length bs) \<le> current_size im"
    and bo: "be_of bo = bat im b"
  shows "\<exists>im'. vhd_store_block (at_pos im p) bo bs ib = (Some (int (length bs)), im') \<and>
     vhd_ok im' \<and> vhd_bytes im' = mem_write (vhd_bytes im) (b * block_size im + ib) bs \<and>
     current_size im' = current_size im \<and> raw_len im' = raw_len im \<and> allocated im' b"
proof -
  note d = vhd_okD [OF ok] and z = vhd_ok_sizes [OF ok] and e = vhd_ok_extent [OF ok b]
  note B = vhd_geom_bounds(1,2) [OF vhd_ok_geom [OF ok]]
  let ?n = "int (length bs)"
  have n: "0 < ?n" "?n \<le> 2097152" using ne ib B by auto
  note bm = bitmap_bounds [OF ib(1) n(1) ib(2) B(2)]
  note da = data_address [OF ok b ib(1)]
  have x: "0 \<le> extent im b" using da(3) ib n(1) by simp
  let ?off = "extent im b + 512 + ib"
  let ?im1 = "put_image im ?off bs"
  have w1: "physical_write (at_pos im p) bs ?off = (?n, ?im1)"
    using physical_write_good [of "at_pos im p" ?off bs] d(1) x ib n by simp
  have in1: "table_offset im + 4 * nblocks im \<le> ?off" "?off + ?n \<le> raw_len im - 512"
    using e ib by auto
  note i1 = put_inside [OF ok in1]
  have v1: "vhd_bytes ?im1 = mem_write (vhd_bytes im) (b * block_size im + ib) bs"
    by (rule put_block_data [OF ok b ib cs])
  let ?bmo = "drop_bit 12 ib"
  let ?bms = "drop_bit 3 (drop_bit 9 (511 + ?n) + 7)"
  let ?ones = "replicate (nat ?bms) (0xFF :: byte)"
  let ?im2 = "?im1\<lparr>buf2 := ?ones @ drop (nat ?bms) (buf2 im)\<rparr>"
  note eqb = i1(2) [OF b(1,2)]
  have ex1: "extent ?im1 b = extent im b" "allocated ?im1 b"
  proof -
    show "extent ?im1 b = extent im b"
      unfolding extent_def [of ?im1 b] eqb by (rule extent_def [symmetric])
    show "allocated ?im1 b" using b(3) unfolding allocated_def eqb .
  qed
  have ok2: "vhd_ok ?im2" using i1(1) by simp
  have b2: "0 \<le> b" "b < nblocks ?im2" "allocated ?im2 b" using b ex1 by simp_all
  have l: "int (length ?ones) = ?bms" "nat ?bms < 2147483648"
    using bm(1-3) by (simp, linarith)
  have w2: "physical_write ?im2 ?ones (extent im b + ?bmo) =
      (?bms, put_image ?im2 (extent im b + ?bmo) ?ones)"
    using physical_write_good [of ?im2 "extent im b + ?bmo" ?ones] vhd_okD(1) [OF ok2] x bm l by simp
  have v2: "vhd_bytes (put_image ?im2 (extent im b + ?bmo) ?ones) = vhd_bytes ?im1"
    using put_block_bitmap [OF ok2 b2, of ?bmo ?ones] bm l(1) ex1(1) by simp
  have in2: "table_offset ?im2 + 4 * nblocks ?im2 \<le> extent im b + ?bmo"
  proof -
    have "table_offset ?im2 = table_offset im" "nblocks ?im2 = nblocks im" by simp_all
    then show ?thesis using e(1) bm(1) by linarith
  qed
  have in3: "extent im b + ?bmo + int (length ?ones) \<le> raw_len ?im2 - 512"
    using vhd_ok_extent(2) [OF ok2 b2] bm(3) B unfolding l(1) vhd_buf2 ex1(1) by simp
  note i2 = put_inside [OF ok2 in2 in3]
  have al: "allocated (put_image ?im2 (extent im b + ?bmo) ?ones) b"
    using b2(3) i2(2) [OF b2(1,2)] by (simp add: allocated_def)
  have sz: "u32 (511 + ?n) = 511 + ?n" "u32 (drop_bit 9 (511 + ?n) + 7) = drop_bit 9 (511 + ?n) + 7"
    using n bm by (simp_all add: u32_id)
  have sb: "s32 ?bms = ?bms" using bm(1-3) by (intro s32_id) linarith+
  have ad: "s64 (push_bit 9 (bat im b)) = extent im b" "s64 (extent im b + 512 + ib) = ?off"
    using da(1,2) ib n(1) d(7,8) by simp_all
  have ad3: "s64 (extent im b + ?bmo) = extent im b + ?bmo"
    using bm(1-3) x e z B by (intro s64_id) linarith+
  have tk: "take (nat ?bms) (?ones @ drop (nat ?bms) (buf2 im)) = ?ones" by simp
  have "vhd_store_block (at_pos im p) bo bs ib =
      (Some ?n, put_image ?im2 (extent im b + ?bmo) ?ones)"
    unfolding vhd_store_block_def
    using n(1) by (simp add: Let_def bo d(7,8) ad ad3 w1 sz sb tk w2 del: take_append)
  with i2(1,3) i1(3) v1 v2 al show ?thesis by simp
qed

lemma zero_scan_stops: "buf_ptr < nqwords \<Longrightarrow> zero_scan q nqwords buf_ptr = Some buf_ptr"
  by (subst zero_scan.simps) simp

text \<open>One step of \<open>vhd_write\<close>: the part of the request in its first block, then the rest.\<close>

lemma vhd_write_step:
  assumes ok: "vhd_ok im" and fit: "fits (current_size im) off (length io)"
  defines "f \<equiv> min (length io) (nat (block_size im - off mod block_size im))"
  shows "\<exists>im2. vhd_ok im2 \<and> vhd_bytes im2 = mem_write (vhd_bytes im) off (take f io) \<and>
     current_size im2 = current_size im \<and> allocated im2 (off div block_size im) \<and>
     raw_len im2 = raw_len im +
       (if allocated im (off div block_size im) then 0 else 512 + block_size im) \<and>
     0 < f \<and> vhd_write im io off =
     (if f < length io
      then Option.bind (vhd_write im2 (drop f io) (off + int f)) (\<lambda>(second_write, im).
             if u32 second_write = 4294967295 then Some (-1, im)
             else Some (s32 (int f + u32 second_write), im))
      else Some (int f, im2))"
proof -
  define bs where "bs = block_size im"
  define b where "b = off div bs"
  define ib where "ib = off mod bs"
  define n where "n = length io"
  note g = vhd_geom_bounds [OF vhd_ok_geom [OF ok]]
  note addr = request_addresses [OF ok fit, folded bs_def, folded b_def ib_def n_def]
  have o: "0 \<le> off" "off + int n \<le> current_size im" "0 < n" "n < 2147483648"
    using fit by (auto simp: fits_def n_def)
  have bs: "512 \<le> bs" "bs \<le> 2097152" using g by (simp_all add: bs_def)
  have ib: "0 \<le> ib" "ib < bs" using bs by (auto simp: ib_def intro: pos_mod_sign pos_mod_bound)
  have bn: "0 \<le> b" "b < nblocks im"
    using block_index [OF vhd_ok_geom [OF ok], of off] o by (auto simp: b_def bs_def)
  have off: "off = b * bs + ib" by (simp add: b_def ib_def)
  have raw: "raw_ok im" "0 \<le> table_offset im" using vhd_okD [OF ok] by auto
  have fd: "f = (if bs < int n + ib then nat (bs - ib) else n)"
    using ib by (auto simp: f_def n_def ib_def bs_def min_def)
  have f: "0 < f" "f \<le> n" "ib + int f \<le> bs" "f < n \<Longrightarrow> int f = bs - ib"
    using ib o by (auto simp: fd)
  have nl: "\<not> current_size im < off + int n" using o by simp
  have c: "(bs < int n + ib) = (f < n)" using f by (auto simp: fd split: if_splits)
  have v: "u32 (bs - ib) = int f" "u32 (int n - int f) = int n - int f"
    "s64 (off + int f) = off + int f" if "f < n"
    using that f(4) addr(7) o g by (simp_all add: u32_id s64_id)
  have nq: "0 < drop_bit 3 (u32 (int f + 7))"
    using f o by (simp add: u32_id drop_bit_eq_div)
  let ?bo = "mem_bytes (raw_bytes im) (table_offset im + 4 * b) 4"
  obtain p1 where r1: "physical_read im (replicate 4 0) (table_offset im + 4 * b) =
      (4, ?bo, at_pos im p1)"
    using physical_read_good [OF raw(1), of "table_offset im + 4 * b" "replicate 4 0"] raw bn
    by auto
  have bo: "be_of ?bo = bat im b" "le_of ?bo = 4294967295 \<longleftrightarrow> \<not> allocated im b"
    using le_of_ones [of ?bo] by (auto simp: bat_def allocated_def)
  let ?first = "take f io"
  have fl: "length ?first = f" using f(2) by (simp add: n_def)
  text \<open>The block exists or is appended; then its data is stored.\<close>
  obtain bo1 im1 p2 where alloc: "(if le_of ?bo = 4294967295
      then vhd_new_block (at_pos im p1) (table_offset im + 4 * b) else (Some ?bo, at_pos im p1)) =
      (Some bo1, at_pos im1 p2)"
    and im1: "vhd_ok im1" "vhd_bytes im1 = vhd_bytes im" "be_of bo1 = bat im1 b" "allocated im1 b"
      "current_size im1 = current_size im" "block_size im1 = block_size im" "nblocks im1 = nblocks im"
      "raw_len im1 = raw_len im + (if allocated im b then 0 else 512 + bs)"
  proof (cases "allocated im b")
    case True
    with ok bo that [of ?bo im p1] show thesis by simp
  next
    case False
    from vhd_new_block_ok [OF ok bn False, of p1] obtain bo1 im' where
      "vhd_new_block (at_pos im p1) (table_offset im + 4 * b) = (Some bo1, im')"
      "vhd_ok im'" "vhd_bytes im' = vhd_bytes im" "be_of bo1 = bat im' b" "allocated im' b"
      "current_size im' = current_size im" "block_size im' = block_size im"
      "nblocks im' = nblocks im" "raw_len im' = raw_len im + 512 + block_size im" by blast
    with False bo(2) bs_def that [of bo1 im' "f_pos (image_fd im')"] show thesis by (simp add: at_pos_def)
  qed
  obtain im2 where store: "vhd_store_block (at_pos im1 p2) bo1 ?first ib = (Some (int f), im2)"
    and im2: "vhd_ok im2" "vhd_bytes im2 = mem_write (vhd_bytes im) off ?first"
      "current_size im2 = current_size im" "raw_len im2 = raw_len im1" "allocated im2 b"
  proof -
    have "b < nblocks im1" "ib + int (length ?first) \<le> block_size im1" "?first \<noteq> []"
      "b * block_size im1 + ib + int (length ?first) \<le> current_size im1"
      using im1 bn f o fl off by (auto simp: bs_def)
    from vhd_store_block_ok [OF im1(1) bn(1) this(1) im1(4) ib(1) this(2-4) im1(3), of p2]
    show thesis using that im1 fl off by (auto simp: bs_def)
  qed
  have cont: "vhd_write im io off =
     (if f < n
      then Option.bind (vhd_write im2 (drop f io) (off + int f)) (\<lambda>(second_write, im).
             if u32 second_write = 4294967295 then Some (-1, im)
             else Some (s32 (int f + u32 second_write), im))
      else Some (int f, im2))"
  proof -
    have fn: "(if f < n then int f else int n) = int f" using f(2) by simp
    have nl1: "\<not> current_size im < off + int n" "int n < 4294967296" using o by auto
    note step = Let_def addr(1,3-6) r1 c o store nl1 n_def [symmetric] bs_def [symmetric]
    show ?thesis
    proof (cases "f < n"; cases "le_of ?bo = 4294967295")
      assume s: "f < n" "le_of ?bo = 4294967295"
      show ?thesis using s alloc [unfolded if_P [OF s(2)]]
        by (subst vhd_write.simps) (simp add: step v zero_scan_stops [OF nq] nq [folded not_le])
    next
      assume s: "f < n" "le_of ?bo \<noteq> 4294967295"
      show ?thesis using s alloc [unfolded if_not_P [OF s(2)]]
        by (subst vhd_write.simps) (simp add: step v)
    next
      assume s: "\<not> f < n" "le_of ?bo = 4294967295"
      then have "f = n" using f(2) by simp
      note q = nq [unfolded this] and st = store [unfolded this]
      show ?thesis using s alloc [unfolded if_P [OF s(2)]] st \<open>f = n\<close>
        by (subst vhd_write.simps) (simp add: step zero_scan_stops [OF q] q [folded not_le])
    next
      assume s: "\<not> f < n" "le_of ?bo \<noteq> 4294967295"
      then have "f = n" using f(2) by simp
      note st = store [unfolded this]
      show ?thesis using s alloc [unfolded if_not_P [OF s(2)]] st \<open>f = n\<close>
        by (subst vhd_write.simps) (simp add: step)
    qed
  qed
  show ?thesis
    using im1 im2 cont f(1) by (intro exI [of _ im2]) (simp add: n_def b_def bs_def)
qed

lemma vhd_write_flat:
  assumes "vhd_ok im" "fits (current_size im) off (length io)"
  shows "\<exists>im'. vhd_write im io off = Some (int (length io), im') \<and> vhd_ok im' \<and>
     vhd_bytes im' = mem_write (vhd_bytes im) off io \<and> current_size im' = current_size im"
  using assms
proof (induction "length io" arbitrary: im io off rule: less_induct)
  case less
  define n where "n = length io"
  define f where "f = min (length io) (nat (block_size im - off mod block_size im))"
  have o: "0 \<le> off" "off + int n \<le> current_size im" "0 < n" "n < 2147483648"
    using less.prems(2) by (auto simp: fits_def n_def)
  from vhd_write_step [OF less.prems, folded f_def, folded n_def] obtain im2 where
    im2: "vhd_ok im2" "vhd_bytes im2 = mem_write (vhd_bytes im) off (take f io)"
      "current_size im2 = current_size im" and f0: "0 < f"
    and cont: "vhd_write im io off =
     (if f < n
      then Option.bind (vhd_write im2 (drop f io) (off + int f)) (\<lambda>(second_write, im).
             if u32 second_write = 4294967295 then Some (-1, im)
             else Some (s32 (int f + u32 second_write), im))
      else Some (int f, im2))" by blast
  have f: "0 < f" "f \<le> n" using f0 by (simp_all add: f_def n_def)
  have fl: "length (take f io) = f" using f(2) by (simp add: n_def)
  show ?case
  proof (cases "f < n")
    case False
    with f(2) cont im2 show ?thesis by (simp add: n_def)
  next
    case True
    have fits2: "fits (current_size im2) (off + int f) (n - f)"
      using o True f im2(3) by (auto simp: fits_def)
    have "length (drop f io) < length io" using f True by (simp add: n_def)
    from less.hyps [OF this im2(1), of "off + int f"] fits2 obtain im3 where
      r3: "vhd_write im2 (drop f io) (off + int f) = Some (int (n - f), im3)" "vhd_ok im3"
        "vhd_bytes im3 = mem_write (vhd_bytes im2) (off + int f) (drop f io)"
        "current_size im3 = current_size im2" by (auto simp: n_def)
    have "u32 (int (n - f)) = int (n - f)" "s32 (int f + int (n - f)) = int n"
      using o f True by (simp_all add: u32_id s32_id of_nat_diff)
    moreover have "int (n - f) \<noteq> 4294967295" using o(4) by linarith
    ultimately have "vhd_write im io off = Some (int n, im3)" using cont r3(1) True by simp
    moreover have "vhd_bytes im3 = mem_write (vhd_bytes im) off io"
      using mem_write_append [of "vhd_bytes im" off "take f io" "drop f io"] r3(3) im2(2) fl by simp
    ultimately show ?thesis using r3 im2 by (simp add: n_def)
  qed
qed

section \<open>The image layer as a disk store\<close>

definition disk_ok :: "'h image \<Rightarrow> bool" where
  "disk_ok im \<longleftrightarrow> (if vhd_mode im then vhd_ok im else raw_ok im)"

definition disk_bytes :: "'h image \<Rightarrow> int \<Rightarrow> byte" where
  "disk_bytes im = (if vhd_mode im then vhd_bytes im else raw_bytes im)"

definition disk_len :: "'h image \<Rightarrow> int" where
  "disk_len im = (if vhd_mode im then current_size im else raw_len im)"

lemma vhd_ok_mode: "vhd_ok im \<Longrightarrow> vhd_mode im"
  by (simp add: vhd_ok_def vhd_geom_def)

lemma logical_read_flat:
  assumes "disk_ok im" "fits (disk_len im) off (length io)"
  shows "\<exists>p. logical_read im io off =
    Some (int (length io), mem_bytes (disk_bytes im) off (length io), at_pos im p)"
proof (cases "vhd_mode im")
  case True
  then show ?thesis using assms vhd_read_flat [of im off io]
    by (simp add: disk_ok_def disk_bytes_def disk_len_def logical_read_def)
next
  case False
  with assms have "raw_ok im" "0 \<le> off" "length io < 2147483648"
    by (auto simp: fits_def disk_ok_def)
  from physical_read_good [OF this] False show ?thesis
    by (auto simp: disk_bytes_def logical_read_def)
qed

lemma disk_at_pos [simp]:
  "disk_ok (at_pos im p) = disk_ok im" "disk_bytes (at_pos im p) = disk_bytes im"
  "disk_len (at_pos im p) = disk_len im"
  by (simp_all add: disk_ok_def disk_bytes_def disk_len_def)

interpretation logical_disk: disk_store logical_read disk_bytes disk_len disk_ok logical_write
proof (unfold_locales, goal_cases)
  case (1 s off io)
  then show ?case using logical_read_flat [of s off io] by auto
next
  case (2 s off bs)
  show ?case
  proof (cases "vhd_mode s")
    case True
    with 2 have "vhd_ok s" "fits (current_size s) off (length bs)"
      by (simp_all add: disk_ok_def disk_len_def)
    from vhd_write_flat [OF this] obtain s' where w: "vhd_write s bs off = Some (int (length bs), s')"
      "vhd_ok s'" "vhd_bytes s' = mem_write (vhd_bytes s) off bs" "current_size s' = current_size s"
      by blast
    from w True vhd_ok_mode [OF w(2)] show ?thesis
      by (simp add: disk_ok_def disk_bytes_def disk_len_def logical_write_def)
  next
    case False
    with 2 have f: "raw_ok s" "0 \<le> off" "off + int (length bs) \<le> raw_len s" "length bs < 2147483648"
      by (auto simp: fits_def disk_ok_def disk_len_def)
    from False f physical_write_good [OF f(1,2,4)] put_image_raw [OF f(1,2), of bs] show ?thesis
      by (auto simp: disk_ok_def disk_bytes_def disk_len_def logical_write_def)
  qed
qed

section \<open>A concrete dynamic image\<close>

text \<open>Two blocks of 512 bytes, the first one backed: table at 512, block at 1024, footer at
  2048. It is the witness that well-formed images exist.\<close>

definition vhd_file :: "int \<Rightarrow> byte" where
  "vhd_file i = (if 0 \<le> i \<and> i < 512 then 7 else if 512 \<le> i \<and> i < 515 then 0 else if i = 515 then 2
     else if 516 \<le> i \<and> i < 520 then 255 else if 1536 \<le> i \<and> i < 2048 then word_of_int i
     else if 2048 \<le> i \<and> i < 2560 then 7 else 0)"

definition sample_crt :: "(int \<Rightarrow> byte) \<Rightarrow> int \<Rightarrow> crt" where
  "sample_crt f n = \<lparr>f_data = f, f_size = n, f_pos = 0, f_room = None, f_grow = (\<lambda>i. True),
     f_bad = (\<lambda>i. False), f_rdonly = False, err_no = 0\<rparr>"

definition sample_vhd :: "unit image" where
  "sample_vhd = \<lparr>image_fd = sample_crt vhd_file 2560, libhandle = (), dll_mode = False,
     dll_read = (\<lambda>h io off. (-1, io, h)), dll_write = (\<lambda>h io off. (-1, h)),
     dll_close = (\<lambda>h. (0, h)), vhd_mode = True, vhd_Footer = replicate 512 7,
     block_size = 512, sector_size = 512, table_offset = 512, block_shift = 9,
     sector_shift = 9, current_size = 1024, buf2 = replicate 512 0,
     malloc_ok = (\<lambda>n. True), mem_after = (\<lambda>i. 0)\<rparr>"

lemma sample_vhd_fields [simp]:
  "vhd_mode sample_vhd" "vhd_Footer sample_vhd = replicate 512 7" "block_size sample_vhd = 512"
  "sector_size sample_vhd = 512" "table_offset sample_vhd = 512" "block_shift sample_vhd = 9"
  "sector_shift sample_vhd = 9" "current_size sample_vhd = 1024" "raw_ok sample_vhd"
  "raw_len sample_vhd = 2560" "nblocks sample_vhd = 2" "malloc_ok sample_vhd n"
  by (simp_all add: sample_vhd_def raw_ok_def good_file_def sample_crt_def raw_len_def nblocks_def)

lemma sample_vhd_bytes: "raw_bytes sample_vhd i = vhd_file i"
  by (auto simp: sample_vhd_def raw_bytes_def file_view_def sample_crt_def vhd_file_def)

lemma sample_vhd_bat [simp]:
  "bat sample_vhd 0 = 2" "bat sample_vhd 1 = 4294967295"
  "allocated sample_vhd 0" "\<not> allocated sample_vhd 1"
  by (simp_all add: bat_def allocated_def mem_bytes_4 sample_vhd_bytes vhd_file_def be_of_def)

lemma sample_vhd_ok: "vhd_ok sample_vhd"
proof -
  have b: "b = 0 \<or> b = 1" if "0 \<le> b" "b < (2 :: int)" for b using that by auto
  have e: "extent sample_vhd 0 = 1024" by (simp add: extent_def)
  have "x \<in> unallocated sample_vhd \<longleftrightarrow> x = 1" for x
    using b [of x] by (auto simp: unallocated_def)
  then have "unallocated sample_vhd = {1}" by blast
  then have u: "card (unallocated sample_vhd) = 1" by simp
  have foot: "mem_bytes (raw_bytes sample_vhd) 2048 512 = replicate 512 7"
    by (rule nth_equalityI) (simp_all add: sample_vhd_bytes vhd_file_def)
  show ?thesis
  proof (rule vhd_okI)
    show "vhd_geom sample_vhd" by (simp add: vhd_geom_def)
    fix c d assume "0 \<le> c" "c < nblocks sample_vhd" "allocated sample_vhd c"
      "0 \<le> d" "d < nblocks sample_vhd" "allocated sample_vhd d" "c \<noteq> d"
    then show "extent sample_vhd c + 512 + block_size sample_vhd \<le> extent sample_vhd d \<or>
      extent sample_vhd d + 512 + block_size sample_vhd \<le> extent sample_vhd c"
      using b [of c] b [of d] by auto
  next
    fix c assume "0 \<le> c" "c < nblocks sample_vhd" "allocated sample_vhd c"
    then show "table_offset sample_vhd + 4 * nblocks sample_vhd \<le> extent sample_vhd c \<and>
        extent sample_vhd c + 512 + block_size sample_vhd \<le> raw_len sample_vhd - 512"
      using b [of c] e by auto
  qed (simp_all add: u foot)
qed

section \<open>Properties\<close>

text \<open>
  C2. A read of a well-formed dynamic image that lies inside the virtual disk returns the
  number of bytes asked for and exactly the bytes of the flat disk the image stands for, across
  block boundaries and over blocks without backing; it changes nothing but the file pointer.\<close>

theorem vhd_read_correct:
  assumes "vhd_ok im" "fits (current_size im) off (length io)"
  shows "\<exists>p. vhd_read im io off =
    Some (int (length io), mem_bytes (vhd_bytes im) off (length io), at_pos im p)"
  by (rule vhd_read_flat [OF assms])

theorem vhd_read_correct_witness:
  "\<exists>p. vhd_read sample_vhd (replicate 4 1) 510 =
     Some (4, mem_bytes (vhd_bytes sample_vhd) 510 4, at_pos sample_vhd p)"
  using vhd_read_correct [OF sample_vhd_ok, of 510 "replicate 4 1"] by (simp add: fits_def)

text \<open>
  C1. A write inside the virtual disk returns the number of bytes written, keeps the image well
  formed (table, blocks and footer in place, blocks apart from each other) and changes the
  flat disk in exactly the bytes written, whether or not blocks had to be appended.\<close>

theorem vhd_write_correct:
  assumes "vhd_ok im" "fits (current_size im) off (length io)"
  shows "\<exists>im'. vhd_write im io off = Some (int (length io), im') \<and> vhd_ok im' \<and>
     vhd_bytes im' = mem_write (vhd_bytes im) off io \<and> current_size im' = current_size im"
  by (rule vhd_write_flat [OF assms])

theorem vhd_write_correct_witness:
  "\<exists>im'. vhd_write sample_vhd [1, 2, 3, 4] 510 = Some (4, im') \<and> vhd_ok im' \<and>
     vhd_bytes im' = mem_write (vhd_bytes sample_vhd) 510 [1, 2, 3, 4] \<and> current_size im' = 1024"
  using vhd_write_correct [OF sample_vhd_ok, of 510 "[1, 2, 3, 4]"] by (simp add: fits_def)

text \<open>
  C3. Whatever sequence of writes is served, a later read sees what the same writes leave on a
  flat disk; this holds for raw images and for dynamic images alike.\<close>

theorem logical_writes_then_read:
  assumes "disk_ok im"
    "\<And>off bs. (off, bs) \<in> set ws \<Longrightarrow> fits (disk_len im) off (length bs)"
    "fits (disk_len im) off (length io)"
  shows "\<exists>im1 im2. wr_all logical_write im ws = Some im1 \<and> disk_ok im1 \<and>
     logical_read im1 io off =
       Some (int (length io), mem_bytes (flat_all (disk_bytes im) ws) off (length io), im2)"
proof -
  obtain im1 where w: "wr_all logical_write im ws = Some im1" "disk_ok im1"
    using logical_disk.wr_all_flat [OF assms(1,2)] by blast
  from w logical_disk.read_after_writes [OF assms(1,2) w(1) assms(3)] show ?thesis by blast
qed

theorem logical_writes_then_read_witness:
  "\<exists>im1 im2. wr_all logical_write sample_vhd [(600, [1, 2]), (511, [3, 4])] = Some im1 \<and>
     disk_ok im1 \<and> logical_read im1 [0, 0, 0] 510 =
       Some (3, mem_bytes (flat_all (disk_bytes sample_vhd) [(600, [1, 2]), (511, [3, 4])]) 510 3, im2)"
proof -
  have d: "disk_ok sample_vhd" "disk_len sample_vhd = 1024"
    by (simp_all add: disk_ok_def sample_vhd_ok disk_len_def)
  have f: "fits (disk_len sample_vhd) off (length bs)"
    if "(off, bs) \<in> set [(600, [1, 2 :: byte]), (511, [3, 4])]" for off bs
    using that by (auto simp: d fits_def)
  have r: "fits (disk_len sample_vhd) 510 (length [0, 0, 0 :: byte])" by (simp add: d fits_def)
  have l: "length [0, 0, 0 :: byte] = 3" by simp
  note t = logical_writes_then_read [of sample_vhd "[(600, [1, 2]), (511, [3, 4])]" 510 "[0, 0, 0]"]
  show ?thesis by (rule t [unfolded l of_nat_numeral], rule d, erule f, rule r [unfolded l])
qed

text \<open>
  A write into a block without backing always appends a block, also when all its bytes are
  zero: the loop that should detect zeros never advances, because its condition is inverted.\<close>

lemma vhd_zero_write_allocates:
  assumes "vhd_ok im" "fits (current_size im) off n"
    "off mod block_size im + int n \<le> block_size im" "\<not> allocated im (off div block_size im)"
  shows "\<exists>im'. vhd_write im (replicate n 0) off = Some (int n, im') \<and>
     allocated im' (off div block_size im) \<and> raw_len im' = raw_len im + 512 + block_size im"
proof -
  have "min n (nat (block_size im - off mod block_size im)) = n" using assms(3) by simp
  with vhd_write_step [of im off "replicate n 0"] assms show ?thesis by auto
qed

lemma vhd_zero_write_allocates_witness:
  "\<exists>im'. vhd_write sample_vhd (replicate 16 0) 512 = Some (16, im') \<and>
     allocated im' 1 \<and> raw_len im' = 3584"
  using vhd_zero_write_allocates [OF sample_vhd_ok, of 512 16] by (simp add: fits_def)

text \<open>The image without the limit on its size.\<close>

definition room_free :: "'h image \<Rightarrow> 'h image" where
  "room_free im = im\<lparr>image_fd := (image_fd im)\<lparr>f_room := None\<rparr>\<rparr>"

lemma room_free_simps [simp]:
  "raw_bytes (room_free im) = raw_bytes im" "raw_len (room_free im) = raw_len im"
  "table_offset (room_free im) = table_offset im" "nblocks (room_free im) = nblocks im"
  "bat (room_free im) b = bat im b" "allocated (room_free im) b = allocated im b"
  "block_size (room_free im) = block_size im" "vhd_Footer (room_free im) = vhd_Footer im"
  "malloc_ok (room_free im) = malloc_ok im" "sector_size (room_free im) = sector_size im"
  "sector_shift (room_free im) = sector_shift im"
proof -
  show b: "raw_bytes (room_free im) = raw_bytes im"
    by (rule ext) (simp add: raw_bytes_def room_free_def file_view_def)
  show t: "bat (room_free im) b = bat im b"
    unfolding bat_def b by (simp add: room_free_def)
  show "allocated (room_free im) b = allocated im b" unfolding allocated_def t ..
qed (simp_all add: room_free_def raw_len_def nblocks_def)

text \<open>
  On a full disk the append fails half way: the table entry is written first, the block's
  first sector then overwrites the footer, and the rest does not fit. The call reports the
  error, but the table entry now points at the place of the lost footer.\<close>

lemma vhd_full_disk_loses_footer:
  assumes "vhd_ok (room_free im)" "f_room (image_fd im) = Some (raw_len im)"
    "0 \<le> b" "b < nblocks im" "\<not> allocated im b"
  shows "\<exists>im'. vhd_new_block im (table_offset im + 4 * b) = (None, im') \<and>
     allocated im' b \<and> bat im' b * 512 = raw_len im - 512 \<and> raw_len im' = raw_len im \<and>
     mem_bytes (raw_bytes im') (raw_len im - 512) 512 = replicate 512 0"
proof -
  note d = vhd_okD [OF assms(1), simplified] and z = vhd_ok_sizes [OF assms(1), simplified]
  note B = vhd_geom_bounds(1,2) [OF vhd_ok_geom [OF assms(1)], simplified]
  define e where "e = drop_bit 9 (raw_len im - 512)"
  have e: "e * 512 = raw_len im - 512" using d(5) by (simp add: e_def drop_bit_eq_div)
  have t: "0 \<le> table_offset im + 4 * b" "table_offset im + 4 * b + 4 \<le> e * 512"
    using d(2) assms(3,4) z e by linarith+
  have e0: "0 \<le> e" "e < 4294967295" using t e z(1) by linarith+
  have fd: "\<not> dll_mode im" "\<not> f_rdonly (image_fd im)" "f_bad (image_fd im) = (\<lambda>i. False)"
    "0 \<le> f_size (image_fd im)" "raw_len im = f_size (image_fd im)"
    using d(1) by (simp_all add: raw_ok_def good_file_def room_free_def raw_len_def)
  let ?im1 = "put_image im (table_offset im + 4 * b) (to_be 4 e)"
  let ?zero = "replicate 512 (0 :: byte)"
  let ?blk = "replicate (nat (512 + block_size im)) (0 :: byte) @ vhd_Footer im"
  let ?im2 = "put_image ?im1 (e * 512) ?zero"
  have seek: "seek_end im (-512) = (e * 512, at_pos im (e * 512))"
    using fd e e0 by (simp add: seek_end_def lseek_end_def lseek_set_def at_pos_def)
  have w1: "physical_write (at_pos im (e * 512)) (to_be 4 e) (table_offset im + 4 * b) = (4, ?im1)"
    using pwrite_room [of "(image_fd im)\<lparr>f_pos := e * 512\<rparr>" "raw_len im"
        "table_offset im + 4 * b" "to_be 4 e"] fd t e assms(2)
    by (simp add: physical_write_def put_image_def at_pos_def)
  have f1: "f_size (image_fd ?im1) = raw_len im" "f_room (image_fd ?im1) = Some (raw_len im)"
    "f_bad (image_fd ?im1) = (\<lambda>i. False)" "\<not> f_rdonly (image_fd ?im1)"
    using fd t e assms(2) by (auto simp: put_image_def f_size_put_data to_be_def)
  have lb: "int (length ?blk) = 1024 + block_size im" using d(4) B by simp
  have tb: "take 512 ?blk = ?zero" using B by simp
  have w2: "physical_write ?im1 ?blk (e * 512) = (512, ?im2)"
    using pwrite_partial [of "image_fd ?im1" "raw_len im" "e * 512" ?blk] f1 fd(1) e e0 lb B tb
    by (simp add: physical_write_def put_image_def nat_less_iff del: take_append)
  have sg: "sector_size im = 512" "sector_shift im = 9" "malloc_ok im (1024 + block_size im)"
    using d by (simp_all add: add.commute)
  have ar: "u32 (1024 + block_size im) = 1024 + block_size im"
    "s32 (s32 (512 + block_size im) + 512) = 1024 + block_size im" "drop_bit 9 (e * 512) = e"
    using B by (simp_all add: u32_id s32_id drop_bit_eq_div)
  have tk: "take (nat (1024 + block_size im)) ?blk = ?blk"
    unfolding lb [symmetric] nat_int by (rule take_all) simp
  have res: "vhd_new_block im (table_offset im + 4 * b) = (None, e2big ?im2)"
    using e0 B unfolding vhd_new_block_def
    by (simp add: Let_def sg seek ar w1 tk w2 del: take_append)
  have by1: "raw_bytes ?im1 = mem_write (raw_bytes im) (table_offset im + 4 * b) (to_be 4 e)"
    using file_view_put_data [of "(image_fd im)\<lparr>f_pos := table_offset im + 4 * b\<rparr>"] fd(4) t(1)
    by (simp add: raw_bytes_def put_image_def)
  have by2: "raw_bytes ?im2 = mem_write (raw_bytes ?im1) (e * 512) ?zero"
    using file_view_put_data [of "(image_fd ?im1)\<lparr>f_pos := e * 512\<rparr>" "e * 512"] f1(1) fd(4,5) e0
    by (simp add: raw_bytes_def put_image_def)
  have e2: "raw_bytes (e2big x) = raw_bytes x" "table_offset (e2big x) = table_offset x"
    "raw_len (e2big x) = raw_len x" for x :: "'a image"
    by (auto simp: e2big_def set_errno_def raw_bytes_def raw_len_def file_view_def fun_eq_iff)
  have "mem_bytes (raw_bytes ?im2) (table_offset im + 4 * b) 4 = to_be 4 e"
    unfolding by2 by1 using t mem_bytes_write_same [of "raw_bytes im" _ "to_be 4 e"]
    by (simp add: mem_bytes_write_disjoint)
  then have "bat (e2big ?im2) b = e" using e0 by (simp add: bat_def e2 be_of_to_be)
  moreover have "mem_bytes (raw_bytes ?im2) (e * 512) 512 = ?zero"
    unfolding by2 using mem_bytes_write_same [of _ "e * 512" ?zero] by simp
  moreover have "raw_len ?im2 = raw_len im"
    using f1(1) e fd(5) by (simp add: raw_len_def put_image_def f_size_put_data)
  ultimately show ?thesis
    using res e e0 by (intro exI [of _ "e2big ?im2"]) (simp add: allocated_def e2)
qed

lemma vhd_full_disk_loses_footer_witness:
  "\<exists>im'. vhd_new_block (sample_vhd\<lparr>image_fd := (image_fd sample_vhd)\<lparr>f_room := Some 2560\<rparr>\<rparr>) 516 = (None, im') \<and>
     allocated im' 1 \<and> bat im' 1 * 512 = 2048 \<and> raw_len im' = 2560 \<and>
     mem_bytes (raw_bytes im') 2048 512 = replicate 512 0"
proof -
  let ?im = "sample_vhd\<lparr>image_fd := (image_fd sample_vhd)\<lparr>f_room := Some 2560\<rparr>\<rparr>"
  have r: "room_free ?im = sample_vhd"
    by (simp add: room_free_def sample_vhd_def sample_crt_def)
  have f: "table_offset ?im = 512" "nblocks ?im = 2" "raw_len ?im = 2560" "\<not> allocated ?im 1"
    using room_free_simps(2-4) [of ?im] room_free_simps(6) [of ?im 1] by (simp_all add: r)
  show ?thesis
    using vhd_full_disk_loses_footer [of ?im 1] sample_vhd_ok f(4) unfolding r f(1-3) by simp
qed

text \<open>
  With an I/O library in place of the image file no block can be appended: the search for
  the end of the file is made on the image descriptor, which is not open, so a write to a block
  without backing is an error.\<close>

lemma vhd_dll_no_append:
  assumes "dll_mode im" "length io \<noteq> 0" "length io < 2147483648"
    "s64 (off + int (length io)) \<le> current_size im"
    "block_size im = 2 ^ block_shift im" "block_shift im \<le> 21"
    "\<And>buf o'. dll_read im (libhandle im) buf o' = (4, replicate 4 255, h)"
  shows "\<exists>im'. vhd_write im io off = Some (-1, im')"
proof -
  define ib where "ib = u32 off AND u32 (block_size im - 1)"
  define n where "n = int (length io)"
  have B: "1 \<le> block_size im" "block_size im \<le> 2097152"
    using assms(5) power_increasing [OF assms(6), of "2 :: int"] by simp_all
  have ib: "ib = off mod block_size im" unfolding ib_def by (rule block_mask [OF assms(5,6)])
  have ib2: "0 \<le> ib" "ib < block_size im" unfolding ib using B by (auto intro: pos_mod_sign pos_mod_bound)
  define f where "f = (if block_size im < u32 (n + ib) then u32 (block_size im - ib) else n)"
  have "0 < f" "f < 2147483648"
    using assms(2,3) B ib2 by (auto simp: f_def n_def u32_id)
  then have nq: "0 < drop_bit 3 (u32 (f + 7))" by (simp add: u32_id drop_bit_eq_div)
  define im1 where "im1 = im\<lparr>libhandle := h\<rparr>"
  have rd: "physical_read im (replicate 4 0) o' = (4, replicate 4 255, im1)" for o'
    using assms(1,7) by (simp add: physical_read_def im1_def)
  have "replicate 4 (255 :: byte) = [255, 255, 255, 255]" by (simp add: replicate_eq_4)
  then have le: "le_of (replicate 4 255) = 4294967295" by simp
  obtain im2 where nb: "vhd_new_block im1 o' = (None, im2 o')" for o'
  proof
    show "vhd_new_block im1 o' = (None, snd (vhd_new_block im1 o'))" for o'
      using assms(1) by (simp add: vhd_new_block_def Let_def im1_def seek_end_def split: prod.split)
  qed
  show ?thesis
    using assms(4) nq
    by (subst vhd_write.simps)
      (simp add: Let_def rd le zero_scan_stops nb not_le n_def [symmetric] ib_def [symmetric] f_def [symmetric])
qed

text \<open>A library over the table of an image without any block.\<close>

definition sample_dll :: "unit image" where
  "sample_dll = sample_vhd\<lparr>dll_mode := True, dll_read := (\<lambda>h io off. (4, replicate 4 255, h))\<rparr>"

lemma vhd_dll_no_append_witness: "\<exists>im'. vhd_write sample_dll [1, 2] 0 = Some (-1, im')"
  using vhd_dll_no_append [of sample_dll "[1, 2]" 0 "()"] by (simp add: sample_dll_def s64_id)

text \<open>
  A request that ends past the virtual disk transfers nothing and is not an error: both
  routines return 0 and leave image and buffer alone.\<close>

lemma vhd_past_end:
  assumes "0 \<le> off" "off + int (length io) < 9223372036854775808"
    "current_size im < off + int (length io)"
  shows "vhd_read im io off = Some (0, io, im) \<and> vhd_write im io off = Some (0, im)"
  using assms vhd_read.simps [of im io off] vhd_write.simps [of im io off] by (simp add: s64_id)

lemma vhd_past_end_witness:
  "vhd_read sample_vhd [5, 6] 1023 = Some (0, [5, 6], sample_vhd) \<and>
   vhd_write sample_vhd [5, 6] 1023 = Some (0, sample_vhd)"
  using vhd_past_end [of 1023 "[5, 6]" sample_vhd] by simp

end
