(* ===== verification/Safeio.thy ===== *)
theory Safeio
  imports FD_Prelude
begin

text \<open>
  The stream transport of \<open>devio\<close>: \<open>safe_read\<close> and \<open>safe_write\<close> of \<open>devio/safeio.c\<close>, which
  repeat \<open>read\<close>/\<open>write\<close> until the whole buffer is transferred. A descriptor delivers the
  stream in chunks of the peer's choosing (\<open>rx\<close>) and takes as much of each write as it likes
  (\<open>tx_caps\<close>, empty for no limit); what it took so far is \<open>tx\<close>. The locale \<open>byte_channel\<close> is what
  the request loop relies on.
\<close>

section \<open>The descriptor\<close>

datatype rx_event = Chunk "byte list" | RxErr
datatype tx_event = Accept nat | TxErr

record chan =
  rx :: "rx_event list"
  tx :: "byte list"
  tx_caps :: "tx_event list"

definition posix_read :: "chan \<Rightarrow> nat \<Rightarrow> int \<times> byte list \<times> chan" where
  "posix_read ch n =
     (case rx ch of
        [] \<Rightarrow> (0, [], ch)
      | RxErr # es \<Rightarrow> (-1, [], ch\<lparr>rx := es\<rparr>)
      | Chunk c # es \<Rightarrow>
          (int (min n (length c)), take n c,
           ch\<lparr>rx := (if n < length c then Chunk (drop n c) # es else es)\<rparr>))"

definition posix_write :: "chan \<Rightarrow> byte list \<Rightarrow> int \<times> chan" where
  "posix_write ch bs =
     (case tx_caps ch of
        [] \<Rightarrow> (int (length bs), ch\<lparr>tx := tx ch @ bs\<rparr>)
      | TxErr # es \<Rightarrow> (-1, ch\<lparr>tx_caps := es\<rparr>)
      | Accept k # es \<Rightarrow> (int (min k (length bs)), ch\<lparr>tx := tx ch @ take k bs, tx_caps := es\<rparr>))"

lemma posix_read_pos:
  "posix_read ch n = (sizedone, got, ch') \<Longrightarrow> sizedone \<noteq> -1 \<Longrightarrow> sizedone \<noteq> 0 \<Longrightarrow> 0 < sizedone"
  by (auto simp: posix_read_def split: list.splits rx_event.splits)

lemma posix_write_pos:
  "posix_write ch bs = (sizedone, ch') \<Longrightarrow> sizedone \<noteq> -1 \<Longrightarrow> sizedone \<noteq> 0 \<Longrightarrow> 0 < sizedone"
  by (auto simp: posix_write_def split: list.splits tx_event.splits)

section \<open>The loops\<close>

text \<open>The buffer that is still to be filled is the argument; the result is 1 or 0, the buffer
  as far as it was filled, and the descriptor.\<close>

function safe_read :: "chan \<Rightarrow> byte list \<Rightarrow> int \<times> byte list \<times> chan" where
  "safe_read ch pdata =
     (if pdata = [] then (1, [], ch)
      else case posix_read ch (length pdata) of (sizedone, got, ch) \<Rightarrow>
      if sizedone = -1 then (0, pdata, ch)
      else if sizedone = 0 then (0, pdata, ch)
      else case safe_read ch (drop (nat sizedone) pdata) of (rc, rest, ch) \<Rightarrow>
        (rc, got @ rest, ch))"
  by pat_completeness auto
termination
  by (relation "measure (\<lambda>(ch, pdata). length pdata)") (auto dest: posix_read_pos [OF sym])

function safe_write :: "chan \<Rightarrow> byte list \<Rightarrow> int \<times> chan" where
  "safe_write ch pdata =
     (if pdata = [] then (1, ch)
      else case posix_write ch pdata of (sizedone, ch) \<Rightarrow>
      if sizedone = -1 then (0, ch)
      else if sizedone = 0 then (0, ch)
      else safe_write ch (drop (nat sizedone) pdata))"
  by pat_completeness auto
termination
  by (relation "measure (\<lambda>(ch, pdata). length pdata)") (auto dest: posix_write_pos [OF sym])

declare safe_read.simps [simp del] safe_write.simps [simp del]

section \<open>The interface\<close>

text \<open>A reader sees the peer's bytes in order, as many as it asks for; a writer's bytes reach
  the peer in order and completely. How the stream is cut into pieces is not visible.\<close>

locale byte_channel =
  fixes get :: "'c \<Rightarrow> byte list \<Rightarrow> int \<times> byte list \<times> 'c"
    and put :: "'c \<Rightarrow> byte list \<Rightarrow> int \<times> 'c"
    and incoming :: "'c \<Rightarrow> byte list"
    and outgoing :: "'c \<Rightarrow> byte list"
    and ok :: "'c \<Rightarrow> bool"
  assumes get_ok: "ok c \<Longrightarrow> length buf \<le> length (incoming c) \<Longrightarrow>
      \<exists>c'. get c buf = (1, take (length buf) (incoming c), c') \<and> ok c' \<and>
           incoming c' = drop (length buf) (incoming c) \<and> outgoing c' = outgoing c"
    and get_short: "ok c \<Longrightarrow> length (incoming c) < length buf \<Longrightarrow>
      \<exists>buf' c'. get c buf = (0, buf', c') \<and> outgoing c' = outgoing c"
    and put_ok: "ok c \<Longrightarrow>
      \<exists>c'. put c bs = (1, c') \<and> ok c' \<and> incoming c' = incoming c \<and> outgoing c' = outgoing c @ bs"
begin

text \<open>Two transfers in a row are one transfer of the joined buffers.\<close>

lemma get_get:
  assumes "ok c" "length b1 + length b2 \<le> length (incoming c)"
  shows "\<exists>c1 c2. get c b1 = (1, take (length b1) (incoming c), c1) \<and>
     get c1 b2 = (1, take (length b2) (drop (length b1) (incoming c)), c2) \<and> ok c2 \<and>
     incoming c2 = drop (length b1 + length b2) (incoming c) \<and> outgoing c2 = outgoing c"
proof -
  obtain c1 where c1: "get c b1 = (1, take (length b1) (incoming c), c1)" "ok c1"
    "incoming c1 = drop (length b1) (incoming c)" "outgoing c1 = outgoing c"
    using get_ok [of c b1] assms by auto
  with get_ok [of c1 b2] assms show ?thesis by (auto simp: add.commute)
qed

lemma put_put:
  assumes "ok c" shows "\<exists>c1 c2. put c b1 = (1, c1) \<and> put c1 b2 = (1, c2) \<and> ok c2 \<and>
     incoming c2 = incoming c \<and> outgoing c2 = outgoing c @ b1 @ b2"
proof -
  obtain c1 where c1: "put c b1 = (1, c1)" "ok c1" "incoming c1 = incoming c"
    "outgoing c1 = outgoing c @ b1" using put_ok [OF assms] by blast
  with put_ok [OF c1(2), of b2] show ?thesis by auto
qed

end

section \<open>The socket provides it\<close>

fun rx_bytes :: "rx_event list \<Rightarrow> byte list" where
  "rx_bytes [] = []"
| "rx_bytes (Chunk c # es) = c @ rx_bytes es"
| "rx_bytes (RxErr # es) = []"

definition sock_in :: "chan \<Rightarrow> byte list" where "sock_in ch = rx_bytes (rx ch)"

text \<open>No transport error, no chunk of no bytes (that is the end of the stream) and no write
  that takes nothing.\<close>

definition sock_ok :: "chan \<Rightarrow> bool" where
  "sock_ok ch \<longleftrightarrow> (\<forall>e \<in> set (rx ch). \<exists>c. e = Chunk c \<and> c \<noteq> []) \<and>
                (\<forall>e \<in> set (tx_caps ch). \<exists>k. e = Accept (Suc k))"

lemma safe_read_all:
  "sock_ok ch \<Longrightarrow> length pdata \<le> length (sock_in ch) \<Longrightarrow>
   \<exists>ch'. safe_read ch pdata = (1, take (length pdata) (sock_in ch), ch') \<and> sock_ok ch' \<and>
         sock_in ch' = drop (length pdata) (sock_in ch) \<and> tx ch' = tx ch"
proof (induction ch pdata rule: safe_read.induct)
  case (1 ch pdata)
  show ?case
  proof (cases "pdata = []")
    case True
    then show ?thesis using 1(2) by (simp add: safe_read.simps)
  next
    case False
    with 1(2,3) obtain c es where c: "rx ch = Chunk c # es" "c \<noteq> []"
      by (cases "rx ch") (auto simp: sock_ok_def sock_in_def)
    define ch1 where "ch1 = ch\<lparr>rx := (if length pdata < length c
         then Chunk (drop (length pdata) c) # es else es)\<rparr>"
    let ?k = "min (length pdata) (length c)"
    have k: "0 < ?k" using False c(2) by simp
    have r: "posix_read ch (length pdata) = (int ?k, take (length pdata) c, ch1)"
      by (simp add: posix_read_def c ch1_def)
    have ok1: "sock_ok ch1" using 1(2) c by (auto simp: sock_ok_def ch1_def)
    have in1: "sock_in ch1 = drop ?k (sock_in ch)" "tx ch1 = tx ch"
      using c by (auto simp: sock_in_def ch1_def min_def)
    have l1: "length (drop ?k pdata) \<le> length (sock_in ch1)" using 1(3) in1 by simp
    have g: "take (length pdata) c = take ?k (sock_in ch)"
      using c by (simp add: sock_in_def min_def)
    obtain ch2 where ch2: "safe_read ch1 (drop ?k pdata) =
        (1, take (length (drop ?k pdata)) (sock_in ch1), ch2)" "sock_ok ch2"
      "sock_in ch2 = drop (length (drop ?k pdata)) (sock_in ch1)" "tx ch2 = tx ch1"
      using 1(1) [OF False r [symmetric] refl, unfolded nat_int, OF _ _ ok1 l1] k by auto
    have "safe_read ch pdata =
        (1, take ?k (sock_in ch) @ take (length pdata - ?k) (drop ?k (sock_in ch)), ch2)"
      using False r ch2(1) k in1 g by (subst safe_read.simps) simp
    also have "take ?k (sock_in ch) @ take (length pdata - ?k) (drop ?k (sock_in ch)) =
        take (length pdata) (sock_in ch)"
      using take_add [of ?k "length pdata - ?k" "sock_in ch"] by simp
    finally show ?thesis using ch2 in1 by simp
  qed
qed

lemma safe_read_short:
  "sock_ok ch \<Longrightarrow> length (sock_in ch) < length pdata \<Longrightarrow>
   \<exists>pdata' ch'. safe_read ch pdata = (0, pdata', ch') \<and> tx ch' = tx ch"
proof (induction ch pdata rule: safe_read.induct)
  case (1 ch pdata)
  then have ne: "pdata \<noteq> []" by auto
  show ?case
  proof (cases "rx ch")
    case Nil
    with ne show ?thesis by (subst safe_read.simps) (simp add: posix_read_def)
  next
    case (Cons e es)
    with 1(2) obtain c where c: "rx ch = Chunk c # es" "c \<noteq> []" by (auto simp: sock_ok_def)
    have l: "length c < length pdata" using 1(3) c by (simp add: sock_in_def)
    define ch1 where "ch1 = ch\<lparr>rx := es\<rparr>"
    have r: "posix_read ch (length pdata) = (int (length c), c, ch1)"
      using l by (simp add: posix_read_def c ch1_def)
    have "sock_ok ch1" "length (sock_in ch1) < length (drop (length c) pdata)" "tx ch1 = tx ch"
      using 1(2,3) c by (auto simp: sock_ok_def ch1_def sock_in_def)
    then obtain pdata' ch2 where "safe_read ch1 (drop (length c) pdata) = (0, pdata', ch2)" "tx ch2 = tx ch"
      using 1(1) [OF ne r [symmetric] refl, unfolded nat_int] c(2) by auto
    then show ?thesis using ne r c(2) by (subst safe_read.simps) simp
  qed
qed

lemma safe_write_all:
  "sock_ok ch \<Longrightarrow>
   \<exists>ch'. safe_write ch pdata = (1, ch') \<and> sock_ok ch' \<and> rx ch' = rx ch \<and> tx ch' = tx ch @ pdata"
proof (induction ch pdata rule: safe_write.induct)
  case (1 ch pdata)
  show ?case
  proof (cases "pdata = []")
    case True
    then show ?thesis using 1(2) by (simp add: safe_write.simps)
  next
    case False
    show ?thesis
    proof (cases "tx_caps ch")
      case Nil
      then show ?thesis using False 1(2)
        by (subst safe_write.simps) (simp add: posix_write_def safe_write.simps [of _ "[]"] sock_ok_def)
    next
      case (Cons e es)
      with 1(2) obtain k where c: "tx_caps ch = Accept (Suc k) # es" by (auto simp: sock_ok_def)
      define ch1 where "ch1 = ch\<lparr>tx := tx ch @ take (Suc k) pdata, tx_caps := es\<rparr>"
      let ?k = "min (Suc k) (length pdata)"
      have r: "posix_write ch pdata = (int ?k, ch1)" by (simp add: posix_write_def c ch1_def)
      have pos: "0 < ?k" using False by simp
      have "sock_ok ch1" "rx ch1 = rx ch" using 1(2) c by (auto simp: sock_ok_def ch1_def)
      then obtain ch2 where "safe_write ch1 (drop ?k pdata) = (1, ch2)" "sock_ok ch2"
        "rx ch2 = rx ch" "tx ch2 = tx ch1 @ drop ?k pdata"
        using 1(1) [OF False r [symmetric], unfolded nat_int] pos by auto
      moreover have "take (Suc k) pdata @ drop ?k pdata = pdata"
        by (cases "Suc k \<le> length pdata") (auto simp: min_def)
      ultimately show ?thesis using False r pos by (subst safe_write.simps) (simp add: ch1_def)
    qed
  qed
qed

interpretation sock: byte_channel safe_read safe_write sock_in tx sock_ok
proof (unfold_locales, goal_cases)
  case (1 c buf) then show ?case using safe_read_all by blast
next
  case (2 c buf) then show ?case using safe_read_short by blast
next
  case (3 c bs) then show ?case using safe_write_all [of c bs] by (auto simp: sock_in_def)
qed

text \<open>
  C6. Whatever the pieces in which the transport delivers the stream, a read that the stream can
  satisfy returns 1 with exactly the stream's next bytes and consumes exactly those.\<close>

theorem safe_read_exact:
  assumes "sock_ok ch" "length pdata \<le> length (sock_in ch)"
  shows "\<exists>ch'. safe_read ch pdata = (1, take (length pdata) (sock_in ch), ch') \<and>
     sock_ok ch' \<and> sock_in ch' = drop (length pdata) (sock_in ch) \<and> tx ch' = tx ch"
  using sock.get_ok [OF assms] by simp

theorem safe_read_exact_witness:
  "\<exists>ch'. safe_read \<lparr>rx = [Chunk [1], Chunk [2, 3, 4]], tx = [], tx_caps = []\<rparr> [0, 0, 0] =
     (1, [1, 2, 3], ch') \<and> sock_in ch' = [4]"
  using safe_read_exact [of "\<lparr>rx = [Chunk [1], Chunk [2, 3, 4]], tx = [], tx_caps = []\<rparr>" "[0, 0, 0]"]
  by (auto simp: sock_ok_def sock_in_def)

end
