(* ===== verification/Devio_Comm.thy ===== *)
theory Devio_Comm
  imports Safeio Devio_Vhd
begin

text \<open>
  The request loop of \<open>devio\<close> (\<open>devio/devio.c\<close>): the shared-memory and driver transports, the
  switch between the transports, the handlers of the proxy protocol and the loop of \<open>do_comm\<close>.

  \<open>shm_view\<close> is the 4096 byte header of the mapped view (empty for NULL) and \<open>buf\<close> the data area
  behind it, or the malloc'ed buffer of the stream transports. The peer of the shared-memory
  transports acts once per flush: \<open>turns\<close> lists what it does (and how the system calls of that
  flush end), \<open>allocs\<close> how the system calls of each buffer allocation end. A flush without a
  further turn waits for ever: \<open>None\<close>. \<open>buf2_id\<close> counts the allocations of \<open>buf2\<close>, and \<open>heap_ok\<close>
  says that no block was freed twice and none in use was freed.
\<close>

section \<open>State\<close>

definition FSCRYPTDPROXY_HEADER_SIZE :: nat where "FSCRYPTDPROXY_HEADER_SIZE = 4096"
definition ERROR_DEV_NOT_EXIST :: int where "ERROR_DEV_NOT_EXIST = 55"
definition ERROR_INSUFFICIENT_BUFFER :: int where "ERROR_INSUFFICIENT_BUFFER = 122"
definition FSCRYPTDPROXY_FLAG_RO :: int where "FSCRYPTDPROXY_FLAG_RO = 1"

text \<open>How an overlapped request ends: at once, pending (then done or with an error), with an error.\<close>

datatype io_outcome = Completes | Pends "int option" | Fails int

record turn =
  set_event :: bool
  wait_object :: bool
  exchange :: io_outcome
  peer_view :: "byte list"
  peer_buf :: "byte list"

record alloc_env =
  mapping_ok :: bool
  view_ok :: bool
  query_ok :: bool
  region_size :: int
  lock_ok :: bool

text \<open>Whether a transfer's memory is the data buffer \<open>buf\<close> itself.\<close>

datatype io_dst = Buf | Other

record 'h devio =
  img :: "'h image"
  sd :: chan
  shm_mode :: bool
  drv_mode :: bool
  shm_view :: "byte list"
  shm_readptr :: "nat option"
  shm_writeptr :: "nat option"
  buf :: "byte list"
  buffer_size :: int
  image_offset :: int
  info_file_size :: int
  info_req_alignment :: int
  info_flags :: int
  buf2_id :: nat
  heap_ok :: bool
  turns :: "turn list"
  allocs :: "alloc_env list"

definition put_front :: "byte list \<Rightarrow> byte list \<Rightarrow> byte list" where
  "put_front new old = new @ drop (length new) old"

section \<open>The driver and shared-memory transports\<close>

definition no_alloc :: alloc_env where
  "no_alloc = \<lparr>mapping_ok = False, view_ok = False, query_ok = False, region_size = 0, lock_ok = False\<rparr>"

definition alloc_drv_buffer :: "'h devio \<Rightarrow> int \<times> 'h devio" where
  "alloc_drv_buffer st =
     (let env = (case allocs st of [] \<Rightarrow> no_alloc | e # es \<Rightarrow> e);
          st = st\<lparr>allocs := tl (allocs st)\<rparr>
      in
      if \<not> mapping_ok env then (2, st)
      else if \<not> view_ok env then (2, st\<lparr>shm_view := []\<rparr>)
      else
      let detected_buffer_size = u32 (region_size env - int FSCRYPTDPROXY_HEADER_SIZE);
          st = st\<lparr>shm_view := replicate FSCRYPTDPROXY_HEADER_SIZE 0,
                  buf := replicate (nat detected_buffer_size) 0\<rparr>
      in
      if \<not> query_ok env then (2, st)
      else
      let resize = buffer_size st \<noteq> detected_buffer_size;
          st = (if resize then st\<lparr>buffer_size := detected_buffer_size\<rparr> else st);
          again = resize \<and> buf2 (img st) \<noteq> []
      in
      if again \<and> \<not> malloc_ok (img st) (buffer_size st)
      then (2, st\<lparr>img := (img st)\<lparr>buf2 := []\<rparr>, buf2_id := buf2_id st + 1\<rparr>)
      else
      let st = (if again
                then st\<lparr>img := (img st)\<lparr>buf2 := replicate (nat (buffer_size st)) 0\<rparr>,
                        buf2_id := buf2_id st + 1\<rparr>
                else st)
      in
      if \<not> lock_ok env then (3, st) else (0, st))"

definition shm_start :: "'h devio \<Rightarrow> nat" where
  "shm_start st = (if drv_mode st then 24 else 0)"

definition shm_read :: "'h devio \<Rightarrow> io_dst \<Rightarrow> nat \<Rightarrow> int \<times> byte list \<times> 'h devio" where
  "shm_read st io_ptr count =
     (if io_ptr = Buf
      then (if int count \<le> buffer_size st then (1, [], st) else (0, [], st))
      else
      let p = (case shm_readptr st of None \<Rightarrow> shm_start st | Some p \<Rightarrow> p);
          st = st\<lparr>shm_readptr := Some p\<rparr>
      in if FSCRYPTDPROXY_HEADER_SIZE - p < count then (0, [], st)
         else (1, take count (drop p (shm_view st)), st\<lparr>shm_readptr := Some (p + count)\<rparr>))"

definition shm_write :: "'h devio \<Rightarrow> io_dst \<Rightarrow> byte list \<Rightarrow> int \<times> 'h devio" where
  "shm_write st io_ptr bs =
     (let size = length bs in
      if io_ptr = Buf
      then (if int size \<le> buffer_size st then (1, st) else (0, st))
      else
      let p = (case shm_writeptr st of None \<Rightarrow> shm_start st | Some p \<Rightarrow> p);
          st = st\<lparr>shm_writeptr := Some p\<rparr>
      in if FSCRYPTDPROXY_HEADER_SIZE - p < size then (0, st)
         else (1, st\<lparr>shm_view := take p (shm_view st) @ put_front bs (drop p (shm_view st)),
                     shm_writeptr := Some (p + size)\<rparr>))"

definition shm_flush :: "'h devio \<Rightarrow> (int \<times> 'h devio) option" where
  "shm_flush st =
     (let st = st\<lparr>shm_readptr := None, shm_writeptr := None\<rparr> in
      case turns st of
        [] \<Rightarrow> None
      | t # ts \<Rightarrow>
          let st = st\<lparr>turns := ts\<rparr> in
          if \<not> set_event t then Some (0, st)
          else if \<not> wait_object t then Some (0, st)
          else Some (1, st\<lparr>shm_view := peer_view t, buf := peer_buf t\<rparr>))"

fun drv_exchange :: "turn list \<Rightarrow> 'h devio \<Rightarrow> (int \<times> 'h devio) option" where
  "drv_exchange [] st = None"
| "drv_exchange (t # ts) st =
     (let st = st\<lparr>turns := ts\<rparr>;
          err = (case exchange t of Completes \<Rightarrow> None | Pends r \<Rightarrow> r | Fails e \<Rightarrow> Some e)
      in case err of
        None \<Rightarrow> Some (1, st\<lparr>shm_view := peer_view t, buf := peer_buf t\<rparr>)
      | Some err \<Rightarrow>
          if err = ERROR_INSUFFICIENT_BUFFER
          then case alloc_drv_buffer (st\<lparr>shm_view := [], buffer_size := u32 (push_bit 1 (buffer_size st))\<rparr>)
                 of (rc, st) \<Rightarrow> if rc = 0 then drv_exchange ts st else Some (0, st)
          else if err = ERROR_DEV_NOT_EXIST then Some (1, st)
          else Some (0, st))"

definition drv_flush :: "'h devio \<Rightarrow> (int \<times> 'h devio) option" where
  "drv_flush st = drv_exchange (turns st) (st\<lparr>shm_readptr := None, shm_writeptr := None\<rparr>)"

section \<open>Buffers and the switch between transports\<close>

definition buf_realloc :: "'h devio \<Rightarrow> int \<Rightarrow> 'h devio" where
  "buf_realloc st new_size =
     (if shm_mode st then st
      else
      let new_size = (if 2147483647 < new_size then 2147483647 else new_size);
          st = st\<lparr>buffer_size := u32 new_size\<rparr>
      in
      if drv_mode st
      then
        let existing_buf = buf st;
            existing_buf2 = buf2 (img st);
            existing_id = buf2_id st;
            existing_shm_view = shm_view st;
            existing_buffer_size = buffer_size st
        in case alloc_drv_buffer st of (rc, st) \<Rightarrow>
        if rc = 0
        then st\<lparr>shm_view := take FSCRYPTDPROXY_HEADER_SIZE existing_shm_view,
                heap_ok := heap_ok st \<and> existing_buf2 = []\<rparr>
        else st\<lparr>shm_view := existing_shm_view, buf := existing_buf,
                img := (img st)\<lparr>buf2 := existing_buf2\<rparr>,
                buffer_size := existing_buffer_size,
                heap_ok := heap_ok st \<and> buf2_id st = existing_id\<rparr>
      else if \<not> malloc_ok (img st) (buffer_size st) then st
      else st\<lparr>buf := replicate (nat (buffer_size st)) 0,
              img := (img st)\<lparr>buf2 := replicate (nat (buffer_size st)) 0\<rparr>\<rparr>)"

definition comm_flush :: "'h devio \<Rightarrow> (int \<times> 'h devio) option" where
  "comm_flush st =
     (if shm_mode st then shm_flush st
      else if drv_mode st then drv_flush st
      else Some (1, st))"

text \<open>A read of \<open>size\<close> bytes into \<open>buf\<close> (\<open>Buf\<close>), or into another object, whose bytes are then
  the second component.\<close>

definition comm_read :: "'h devio \<Rightarrow> io_dst \<Rightarrow> nat \<Rightarrow> int \<times> byte list \<times> 'h devio" where
  "comm_read st io_ptr count =
     (if shm_mode st \<or> drv_mode st then shm_read st io_ptr count
      else if io_ptr = Buf
      then case safe_read (sd st) (take count (buf st)) of (rc, data, ch) \<Rightarrow>
             (rc, [], st\<lparr>sd := ch, buf := put_front data (buf st)\<rparr>)
      else case safe_read (sd st) (replicate count 0) of (rc, data, ch) \<Rightarrow>
             (rc, data, st\<lparr>sd := ch\<rparr>))"

definition comm_write :: "'h devio \<Rightarrow> io_dst \<Rightarrow> byte list \<Rightarrow> int \<times> 'h devio" where
  "comm_write st io_ptr bs =
     (if shm_mode st \<or> drv_mode st then shm_write st io_ptr bs
      else case safe_write (sd st) bs of (rc, ch) \<Rightarrow> (rc, st\<lparr>sd := ch\<rparr>))"

section \<open>The handlers\<close>

text \<open>\<open>devio_info\<close> in memory: three little-endian 64-bit fields.\<close>

definition info_bytes :: "'h devio \<Rightarrow> byte list" where
  "info_bytes st = to_le 8 (info_file_size st) @ to_le 8 (info_req_alignment st) @
                   to_le 8 (info_flags st)"

definition send_info :: "'h devio \<Rightarrow> (int \<times> 'h devio) option" where
  "send_info st =
     (case comm_write st Other (info_bytes st) of (rc, st) \<Rightarrow>
      if rc = 0 then Some (0, st)
      else Option.bind (comm_flush st) (\<lambda>(rc, st). if rc = 0 then Some (0, st) else Some (1, st)))"

definition send_failed :: "'h devio \<Rightarrow> (int \<times> 'h devio) option" where
  "send_failed st =
     (case comm_write st Other (to_le 8 ENODEV) of (rc, st) \<Rightarrow>
      if rc = 0 then Some (1, st)
      else Option.bind (comm_flush st) (\<lambda>(rc, st). if rc = 0 then Some (0, st) else Some (1, st)))"

text \<open>\<open>read_data\<close>: the response carries the requested (clamped) size whatever part of it was
  read; the buffer was cleared before.\<close>

definition read_data :: "'h devio \<Rightarrow> (int \<times> 'h devio) option" where
  "read_data st =
     (case comm_read st Other 16 of (rc, req_block, st) \<Rightarrow>
      if rc = 0 then Some (0, st)
      else
      let req_offset = le_of (take 8 req_block);
          req_length = le_of (drop 8 req_block);
          st = (if buffer_size st < req_length then buf_realloc st req_length else st);
          size = u32 (min req_length (buffer_size st));
          st = st\<lparr>buf := put_front (replicate (nat size) 0) (buf st)\<rparr>
      in Option.bind (logical_read (img st) (take (nat size) (buf st))
                        (s64 (image_offset st + req_offset))) (\<lambda>(readdone, data, im).
      let st = st\<lparr>img := im, buf := put_front data (buf st)\<rparr>;
          resp_errorno = (if readdone = -1 then u64 (errno im) else 0);
          resp_length = (if readdone = -1 then 0 else size)
      in case comm_write st Other (to_le 8 resp_errorno @ to_le 8 resp_length) of (rc, st) \<Rightarrow>
      if rc = 0 then Some (0, st)
      else case
        (if resp_errorno = 0 then comm_write st Buf (take (nat (u32 resp_length)) (buf st))
         else (1, st)) of (rc, st) \<Rightarrow>
      if rc = 0 then Some (0, st)
      else Option.bind (comm_flush st)
             (\<lambda>(rc, st). if rc = 0 then Some (0, st) else Some (1, st))))"

definition write_data :: "'h devio \<Rightarrow> (int \<times> 'h devio) option" where
  "write_data st =
     (case comm_read st Other 16 of (rc, req_block, st) \<Rightarrow>
      if rc = 0 then Some (0, st)
      else
      let req_offset = le_of (take 8 req_block);
          req_length = le_of (drop 8 req_block)
      in
      if buffer_size st < req_length then Some (0, st)
      else case comm_read st Buf (nat (u32 req_length)) of (rc, _, st) \<Rightarrow>
      if rc = 0 then Some (0, st)
      else Option.bind
        (if info_flags st AND FSCRYPTDPROXY_FLAG_RO \<noteq> 0
         then Some (EBADF, 0, st)
         else Option.bind (logical_write (img st) (take (nat (u32 req_length)) (buf st))
                             (s64 (image_offset st + req_offset))) (\<lambda>(writedone, im).
                let st = st\<lparr>img := im\<rparr> in
                Some (if writedone = -1 then u64 (errno im) else 0, u64 writedone, st)))
        (\<lambda>(resp_errorno, resp_length, st).
      case comm_write st Other (to_le 8 resp_errorno @ to_le 8 resp_length) of (rc, st) \<Rightarrow>
      if rc = 0 then Some (0, st)
      else Option.bind (comm_flush st)
             (\<lambda>(rc, st). if rc = 0 then Some (0, st) else Some (1, st))))"

section \<open>The request loop of \<open>do_comm\<close>\<close>

definition FSCRYPTDPROXY_REQ_INFO :: int where "FSCRYPTDPROXY_REQ_INFO = 1"
definition FSCRYPTDPROXY_REQ_READ :: int where "FSCRYPTDPROXY_REQ_READ = 2"
definition FSCRYPTDPROXY_REQ_WRITE :: int where "FSCRYPTDPROXY_REQ_WRITE = 3"
definition FSCRYPTDPROXY_REQ_CLOSE :: int where "FSCRYPTDPROXY_REQ_CLOSE = 5"

definition handle_request :: "'h devio \<Rightarrow> int \<Rightarrow> (int \<times> 'h devio) option" where
  "handle_request st req =
     (if req = FSCRYPTDPROXY_REQ_INFO then send_info st
      else if req = FSCRYPTDPROXY_REQ_READ then read_data st
      else if req = FSCRYPTDPROXY_REQ_WRITE then write_data st
      else send_failed st)"

partial_function (option) do_comm_loop :: "'h devio \<Rightarrow> (int \<times> 'h devio) option" where
  "do_comm_loop st =
     (case comm_read st Other 8 of (rc, req, st) \<Rightarrow>
      if rc = 0 \<or> le_of req = FSCRYPTDPROXY_REQ_CLOSE then Some (0, st)
      else Option.bind (handle_request st (le_of req))
             (\<lambda>(rc, st). if rc = 0 then Some (1, st) else do_comm_loop st))"

section \<open>The protocol\<close>

text \<open>The requests a client sends, their bytes, and the answers a flat disk gives.\<close>

datatype request = ReqInfo | ReqRead int nat | ReqWrite int "byte list" | ReqOther int

fun encode :: "request \<Rightarrow> byte list" where
  "encode ReqInfo = to_le 8 1"
| "encode (ReqRead off n) = to_le 8 2 @ to_le 8 off @ to_le 8 (int n)"
| "encode (ReqWrite off bs) = to_le 8 3 @ to_le 8 off @ to_le 8 (int (length bs)) @ bs"
| "encode (ReqOther c) = to_le 8 c"

fun answer :: "byte list \<Rightarrow> int \<Rightarrow> (int \<Rightarrow> byte) \<Rightarrow> request \<Rightarrow> byte list" where
  "answer info base d ReqInfo = info"
| "answer info base d (ReqRead off n) = to_le 8 0 @ to_le 8 (int n) @ mem_bytes d (base + off) n"
| "answer info base d (ReqWrite off bs) = to_le 8 0 @ to_le 8 (int (length bs))"
| "answer info base d (ReqOther c) = to_le 8 19"

fun effect :: "int \<Rightarrow> (int \<Rightarrow> byte) \<Rightarrow> request \<Rightarrow> int \<Rightarrow> byte" where
  "effect base d (ReqWrite off bs) = mem_write d (base + off) bs"
| "effect base d r = d"

fun answers :: "byte list \<Rightarrow> int \<Rightarrow> (int \<Rightarrow> byte) \<Rightarrow> request list \<Rightarrow> byte list" where
  "answers info base d [] = []"
| "answers info base d (r # rs) = answer info base d r @ answers info base (effect base d r) rs"

fun effects :: "int \<Rightarrow> (int \<Rightarrow> byte) \<Rightarrow> request list \<Rightarrow> int \<Rightarrow> byte" where
  "effects base d [] = d"
| "effects base d (r # rs) = effects base (effect base d r) rs"

text \<open>Requests the server can serve: inside the disk and inside its buffer.\<close>

fun valid_req :: "int \<Rightarrow> int \<Rightarrow> int \<Rightarrow> request \<Rightarrow> bool" where
  "valid_req len base bufsize ReqInfo = True"
| "valid_req len base bufsize (ReqRead off n) =
     (0 \<le> off \<and> fits len (base + off) n \<and> int n \<le> bufsize)"
| "valid_req len base bufsize (ReqWrite off bs) =
     (0 \<le> off \<and> fits len (base + off) (length bs) \<and> int (length bs) \<le> bufsize)"
| "valid_req len base bufsize (ReqOther c) =
     (0 \<le> c \<and> c < 18446744073709551616 \<and> c \<noteq> 1 \<and> c \<noteq> 2 \<and> c \<noteq> 3 \<and> c \<noteq> 5)"

section \<open>Streams\<close>

text \<open>A server on a stream transport with a sound buffer and a sound image.\<close>

definition stream_ok :: "'h devio \<Rightarrow> bool" where
  "stream_ok st \<longleftrightarrow> \<not> shm_mode st \<and> \<not> drv_mode st \<and> sock_ok (sd st) \<and> disk_ok (img st) \<and>
     buffer_size st < 2147483648 \<and> buffer_size st \<le> int (length (buf st)) \<and>
     0 \<le> image_offset st \<and> disk_len (img st) < 9223372036854775808"

lemma comm_read_other:
  assumes "stream_ok st" "n \<le> length (sock_in (sd st))"
  shows "\<exists>ch. comm_read st Other n = (1, take n (sock_in (sd st)), st\<lparr>sd := ch\<rparr>) \<and> sock_ok ch \<and>
     sock_in ch = drop n (sock_in (sd st)) \<and> tx ch = tx (sd st)"
  using sock.get_ok [of "sd st" "replicate n 0"] assms by (auto simp: comm_read_def stream_ok_def)

lemma comm_read_end:
  assumes "stream_ok st" "length (sock_in (sd st)) < n"
  shows "\<exists>bs ch. comm_read st Other n = (0, bs, st\<lparr>sd := ch\<rparr>) \<and> tx ch = tx (sd st)"
  using sock.get_short [of "sd st" "replicate n 0"] assms by (auto simp: comm_read_def stream_ok_def)

lemma comm_read_buf:
  assumes "stream_ok st" "n \<le> length (sock_in (sd st))" "int n \<le> buffer_size st"
  shows "\<exists>ch. comm_read st Buf n =
       (1, [], st\<lparr>sd := ch, buf := put_front (take n (sock_in (sd st))) (buf st)\<rparr>) \<and> sock_ok ch \<and>
     sock_in ch = drop n (sock_in (sd st)) \<and> tx ch = tx (sd st)"
proof -
  have l: "length (take n (buf st)) = n" using assms by (simp add: stream_ok_def)
  obtain ch where "safe_read (sd st) (take n (buf st)) = (1, take n (sock_in (sd st)), ch)"
    "sock_ok ch" "sock_in ch = drop n (sock_in (sd st))" "tx ch = tx (sd st)"
    using sock.get_ok [of "sd st" "take n (buf st)", unfolded l] assms by (auto simp: stream_ok_def)
  with assms(1) show ?thesis
    by (intro exI [of _ ch]) (simp add: comm_read_def stream_ok_def)
qed

lemma comm_write_stream:
  assumes "stream_ok st"
  shows "\<exists>ch. comm_write st p bs = (1, st\<lparr>sd := ch\<rparr>) \<and> sock_ok ch \<and>
     sock_in ch = sock_in (sd st) \<and> tx ch = tx (sd st) @ bs"
  using sock.put_ok [of "sd st" bs] assms by (auto simp: comm_write_def stream_ok_def)

lemma comm_flush_stream: "stream_ok st \<Longrightarrow> comm_flush st = Some (1, st)"
  by (simp add: comm_flush_def stream_ok_def)

lemma stream_ok_sd: "stream_ok st \<Longrightarrow> sock_ok ch \<Longrightarrow> stream_ok (st\<lparr>sd := ch\<rparr>)"
  by (simp add: stream_ok_def)

section \<open>The handlers serve the protocol\<close>

text \<open>What every handler keeps.\<close>

definition same_server :: "'h devio \<Rightarrow> 'h devio \<Rightarrow> bool" where
  "same_server st st' \<longleftrightarrow> image_offset st' = image_offset st \<and> info_bytes st' = info_bytes st \<and>
     info_flags st' = info_flags st \<and> buffer_size st' = buffer_size st \<and>
     disk_len (img st') = disk_len (img st)"

definition serves :: "'h devio \<Rightarrow> (int \<times> 'h devio) option \<Rightarrow> byte list \<Rightarrow> byte list \<Rightarrow> (int \<Rightarrow> byte) \<Rightarrow> bool" where
  "serves st result tail resp d \<longleftrightarrow> (\<exists>st'. result = Some (1, st') \<and> stream_ok st' \<and>
     sock_in (sd st') = tail \<and> tx (sd st') = tx (sd st) @ resp \<and> disk_bytes (img st') = d \<and>
     same_server st st')"

lemma send_info_stream:
  assumes "stream_ok st"
  shows "serves st (send_info st) (sock_in (sd st)) (info_bytes st) (disk_bytes (img st))"
proof -
  from comm_write_stream [OF assms, of Other "info_bytes st"] obtain ch where
    w: "comm_write st Other (info_bytes st) = (1, st\<lparr>sd := ch\<rparr>)" "sock_ok ch"
      "sock_in ch = sock_in (sd st)" "tx ch = tx (sd st) @ info_bytes st" by blast
  note ok = stream_ok_sd [OF assms w(2)]
  from w comm_flush_stream [OF ok] ok show ?thesis
    by (simp add: serves_def send_info_def same_server_def info_bytes_def)
qed

lemma send_failed_stream:
  assumes "stream_ok st"
  shows "serves st (send_failed st) (sock_in (sd st)) (to_le 8 19) (disk_bytes (img st))"
proof -
  from comm_write_stream [OF assms, of Other "to_le 8 ENODEV"] obtain ch where
    w: "comm_write st Other (to_le 8 ENODEV) = (1, st\<lparr>sd := ch\<rparr>)" "sock_ok ch"
      "sock_in ch = sock_in (sd st)" "tx ch = tx (sd st) @ to_le 8 ENODEV" by blast
  note ok = stream_ok_sd [OF assms w(2)]
  from w comm_flush_stream [OF ok] ok show ?thesis
    by (simp add: serves_def send_failed_def same_server_def info_bytes_def ENODEV_def)
qed

lemma read_data_stream:
  assumes "stream_ok st" "valid_req (disk_len (img st)) (image_offset st) (buffer_size st) (ReqRead off n)"
    and s: "sock_in (sd st) = to_le 8 off @ to_le 8 (int n) @ tail"
  shows "serves st (read_data st) tail
    (answer (info_bytes st) (image_offset st) (disk_bytes (img st)) (ReqRead off n)) (disk_bytes (img st))"
proof -
  from assms(2) have v: "0 \<le> off" "fits (disk_len (img st)) (image_offset st + off) n"
    "int n \<le> buffer_size st" by simp_all
  note so = assms(1) [unfolded stream_ok_def]
  have off: "image_offset st + off < 9223372036854775808" "0 \<le> image_offset st + off" "0 < n"
    "off < 18446744073709551616" "n < 2147483648"
    using v so by (auto simp: fits_def)
  from comm_read_other [OF assms(1), of 16] s obtain ch where
    r: "comm_read st Other 16 = (1, to_le 8 off @ to_le 8 (int n), st\<lparr>sd := ch\<rparr>)" "sock_ok ch"
      "sock_in ch = tail" "tx ch = tx (sd st)" by auto
  define st1 where "st1 = st\<lparr>sd := ch, buf := put_front (replicate n 0) (buf st)\<rparr>"
  have lb: "length (put_front (replicate n 0) (buf st)) = length (buf st)"
    using v so by (simp add: put_front_def)
  have ok1: "stream_ok st1" using so r(2) lb by (simp add: st1_def stream_ok_def)
  have tk: "take n (put_front (replicate n 0) (buf st)) = replicate n 0" by (simp add: put_front_def)
  obtain im where im: "logical_read (img st) (replicate n 0) (image_offset st + off) =
      Some (int n, mem_bytes (disk_bytes (img st)) (image_offset st + off) n, im)" "disk_ok im"
      "disk_bytes im = disk_bytes (img st)" "disk_len im = disk_len (img st)"
    using logical_disk.rd_ok [of "img st" "image_offset st + off" "replicate n 0"] so v(2) by auto
  let ?data = "mem_bytes (disk_bytes (img st)) (image_offset st + off) n"
  define st2 where "st2 = st1\<lparr>img := im, buf := put_front ?data (buf st1)\<rparr>"
  have ok2: "stream_ok st2"
    using ok1 im so v(3) lb by (simp add: st2_def st1_def stream_ok_def put_front_def)
  have tk2: "take n (buf st2) = ?data" by (simp add: st2_def put_front_def)
  from comm_write_stream [OF ok2, of Other "to_le 8 0 @ to_le 8 (int n)"] obtain ch3 where
    w3: "comm_write st2 Other (to_le 8 0 @ to_le 8 (int n)) = (1, st2\<lparr>sd := ch3\<rparr>)" "sock_ok ch3"
      "sock_in ch3 = sock_in (sd st2)" "tx ch3 = tx (sd st2) @ to_le 8 0 @ to_le 8 (int n)" by blast
  note ok3 = stream_ok_sd [OF ok2 w3(2)]
  from comm_write_stream [OF ok3, of Buf ?data] obtain ch4 where
    w4: "comm_write (st2\<lparr>sd := ch3\<rparr>) Buf ?data = (1, st2\<lparr>sd := ch4\<rparr>)" "sock_ok ch4"
      "sock_in ch4 = sock_in ch3" "tx ch4 = tx ch3 @ ?data" by auto
  have ok4: "stream_ok (st2\<lparr>sd := ch4\<rparr>)" by (rule stream_ok_sd [OF ok2 w4(2)])
  have le: "le_of (to_le 8 off) = off" "le_of (to_le 8 (int n)) = int n"
    using off v(1) by (simp_all add: le_of_to_le)
  have ar: "u32 (int n) = int n" "s64 (image_offset st + off) = image_offset st + off"
    "\<not> buffer_size st < int n" "min (int n) (buffer_size st) = int n"
    using off v(3) by (auto simp: u32_id s64_id)
  have "read_data st = Some (1, st2\<lparr>sd := ch4\<rparr>)"
  proof -
    have e: "st\<lparr>sd := ch, img := im, buf := put_front ?data (put_front (replicate n 0) (buf st))\<rparr> = st2"
      by (simp add: st2_def st1_def)
    have "int n \<noteq> -1" by simp
    then show ?thesis
      unfolding read_data_def r(1)
      by (simp add: Let_def le ar tk im(1) e w3(1) tk2 w4(1) comm_flush_stream [OF ok4])
  qed
  then show ?thesis
    using ok4 w3 w4 r im by (simp add: serves_def st2_def st1_def same_server_def info_bytes_def)
qed

lemma write_data_stream:
  assumes "stream_ok st" "valid_req (disk_len (img st)) (image_offset st) (buffer_size st) (ReqWrite off bs)"
    and s: "sock_in (sd st) = to_le 8 off @ to_le 8 (int (length bs)) @ bs @ tail"
    and rw: "info_flags st AND FSCRYPTDPROXY_FLAG_RO = 0"
  shows "serves st (write_data st) tail
    (answer (info_bytes st) (image_offset st) (disk_bytes (img st)) (ReqWrite off bs))
    (effect (image_offset st) (disk_bytes (img st)) (ReqWrite off bs))"
proof -
  let ?n = "length bs"
  from assms(2) have v: "0 \<le> off" "fits (disk_len (img st)) (image_offset st + off) ?n"
    "int ?n \<le> buffer_size st" by simp_all
  note so = assms(1) [unfolded stream_ok_def]
  have off: "image_offset st + off < 9223372036854775808" "0 \<le> image_offset st + off" "0 < ?n"
    "off < 18446744073709551616" "?n < 2147483648"
    using v so by (auto simp: fits_def)
  from comm_read_other [OF assms(1), of 16] s obtain ch where
    r: "comm_read st Other 16 = (1, to_le 8 off @ to_le 8 (int ?n), st\<lparr>sd := ch\<rparr>)" "sock_ok ch"
      "sock_in ch = bs @ tail" "tx ch = tx (sd st)" by auto
  note ok0 = stream_ok_sd [OF assms(1) r(2)]
  from comm_read_buf [OF ok0, of ?n] r v(3) obtain ch1 where
    r1: "comm_read (st\<lparr>sd := ch\<rparr>) Buf ?n = (1, [], st\<lparr>sd := ch1, buf := put_front bs (buf st)\<rparr>)"
      "sock_ok ch1" "sock_in ch1 = tail" "tx ch1 = tx (sd st)" by auto
  obtain im where im: "logical_write (img st) bs (image_offset st + off) = Some (int ?n, im)"
      "disk_ok im" "disk_bytes im = mem_write (disk_bytes (img st)) (image_offset st + off) bs"
      "disk_len im = disk_len (img st)"
    using logical_disk.wr_ok [of "img st" "image_offset st + off" bs] so v(2) by auto
  define st2 where "st2 = st\<lparr>sd := ch1, img := im, buf := put_front bs (buf st)\<rparr>"
  have ok2: "stream_ok st2"
    using so im v(3) r1(2) by (simp add: st2_def stream_ok_def put_front_def)
  from comm_write_stream [OF ok2, of Other "to_le 8 0 @ to_le 8 (int ?n)"] obtain ch3 where
    w3: "comm_write st2 Other (to_le 8 0 @ to_le 8 (int ?n)) = (1, st2\<lparr>sd := ch3\<rparr>)" "sock_ok ch3"
      "sock_in ch3 = sock_in (sd st2)" "tx ch3 = tx (sd st2) @ to_le 8 0 @ to_le 8 (int ?n)" by blast
  note ok3 = stream_ok_sd [OF ok2 w3(2)]
  have le: "le_of (to_le 8 off) = off" "le_of (to_le 8 (int ?n)) = int ?n"
    using off v(1) by (simp_all add: le_of_to_le)
  have ar: "u32 (int ?n) = int ?n" "s64 (image_offset st + off) = image_offset st + off"
    "\<not> buffer_size st < int ?n" "u64 (int ?n) = int ?n"
    using off v(3) by (auto simp: u32_id s64_id u64_id)
  have tk: "take ?n (put_front bs (buf st)) = bs" by (simp add: put_front_def)
  have e: "st\<lparr>sd := ch1, buf := put_front bs (buf st), img := im\<rparr> = st2" by (simp add: st2_def)
  have ne: "int ?n \<noteq> -1" by simp
  have "write_data st = Some (1, st2\<lparr>sd := ch3\<rparr>)"
    using rw unfolding write_data_def r(1)
    by (simp add: Let_def le ar r1(1) tk im(1) e w3(1) comm_flush_stream [OF ok3])
  then show ?thesis
    using ok3 w3 r1 im by (simp add: serves_def st2_def same_server_def info_bytes_def)
qed

definition code_of :: "request \<Rightarrow> int" where
  "code_of r = (case r of ReqInfo \<Rightarrow> 1 | ReqRead off n \<Rightarrow> 2 | ReqWrite off bs \<Rightarrow> 3 | ReqOther c \<Rightarrow> c)"

lemma encode_code: "encode r = to_le 8 (code_of r) @ drop 8 (encode r)"
  by (cases r) (simp_all add: code_of_def)

lemma handle_request_stream:
  assumes "stream_ok st" "valid_req (disk_len (img st)) (image_offset st) (buffer_size st) r"
    and s: "sock_in (sd st) = drop 8 (encode r) @ tail"
    and rw: "info_flags st AND FSCRYPTDPROXY_FLAG_RO = 0"
  shows "serves st (handle_request st (code_of r)) tail
    (answer (info_bytes st) (image_offset st) (disk_bytes (img st)) r)
    (effect (image_offset st) (disk_bytes (img st)) r)"
proof (cases r)
  case ReqInfo
  then show ?thesis using send_info_stream [OF assms(1)] s
    by (simp add: handle_request_def FSCRYPTDPROXY_REQ_INFO_def code_of_def)
next
  case (ReqRead off n)
  then show ?thesis using read_data_stream [OF assms(1), of off n tail] assms(2) s
    by (simp add: handle_request_def FSCRYPTDPROXY_REQ_INFO_def FSCRYPTDPROXY_REQ_READ_def code_of_def)
next
  case (ReqWrite off bs)
  then show ?thesis using write_data_stream [OF assms(1), of off bs tail] assms(2) s rw
    by (simp add: handle_request_def FSCRYPTDPROXY_REQ_INFO_def FSCRYPTDPROXY_REQ_READ_def
        FSCRYPTDPROXY_REQ_WRITE_def code_of_def)
next
  case (ReqOther c)
  then show ?thesis using send_failed_stream [OF assms(1)] assms(2) s
    by (simp add: handle_request_def FSCRYPTDPROXY_REQ_INFO_def FSCRYPTDPROXY_REQ_READ_def
        FSCRYPTDPROXY_REQ_WRITE_def code_of_def)
qed

section \<open>Properties\<close>

text \<open>A whole session, by induction on the requests.\<close>

lemma do_comm_session:
  assumes "stream_ok st" "info_flags st AND FSCRYPTDPROXY_FLAG_RO = 0"
    "\<And>r. r \<in> set rs \<Longrightarrow> valid_req (disk_len (img st)) (image_offset st) (buffer_size st) r"
    "sock_in (sd st) = concat (map encode rs)"
  shows "\<exists>st'. do_comm_loop st = Some (0, st') \<and>
     tx (sd st') = tx (sd st) @ answers (info_bytes st) (image_offset st) (disk_bytes (img st)) rs \<and>
     disk_ok (img st') \<and> disk_bytes (img st') = effects (image_offset st) (disk_bytes (img st)) rs"
  using assms
proof (induction rs arbitrary: st)
  case Nil
  then obtain bs ch where "comm_read st Other 8 = (0, bs, st\<lparr>sd := ch\<rparr>)" "tx ch = tx (sd st)"
    using comm_read_end [of st 8] by auto
  with Nil(1) show ?case by (subst do_comm_loop.simps) (simp add: stream_ok_def)
next
  case (Cons r rs)
  let ?tail = "concat (map encode rs)"
  from Cons.prems(4) have s: "sock_in (sd st) = to_le 8 (code_of r) @ drop 8 (encode r) @ ?tail"
    using encode_code [of r] by (metis append.assoc concat.simps(2) list.simps(9))
  from comm_read_other [OF Cons.prems(1), of 8] s obtain ch where
    c: "comm_read st Other 8 = (1, to_le 8 (code_of r), st\<lparr>sd := ch\<rparr>)" "sock_ok ch"
      "sock_in ch = drop 8 (encode r) @ ?tail" "tx ch = tx (sd st)" by auto
  have v: "valid_req (disk_len (img st)) (image_offset st) (buffer_size st) r"
    using Cons.prems(3) by simp
  have code: "le_of (to_le 8 (code_of r)) = code_of r" "code_of r \<noteq> FSCRYPTDPROXY_REQ_CLOSE"
    using v by (cases r; simp add: code_of_def le_of_to_le FSCRYPTDPROXY_REQ_CLOSE_def)+
  note ok1 = stream_ok_sd [OF Cons.prems(1) c(2)]
  from handle_request_stream [OF ok1, of r ?tail] v c Cons.prems(2) obtain st2 where
    h: "handle_request (st\<lparr>sd := ch\<rparr>) (code_of r) = Some (1, st2)" "stream_ok st2"
      "sock_in (sd st2) = ?tail"
      "tx (sd st2) = tx (sd st) @ answer (info_bytes st) (image_offset st) (disk_bytes (img st)) r"
      "disk_bytes (img st2) = effect (image_offset st) (disk_bytes (img st)) r"
      "same_server (st\<lparr>sd := ch\<rparr>) st2"
    by (auto simp: serves_def info_bytes_def)
  have same: "image_offset st2 = image_offset st" "info_bytes st2 = info_bytes st"
    "info_flags st2 = info_flags st" "buffer_size st2 = buffer_size st"
    "disk_len (img st2) = disk_len (img st)"
    using h(6) by (simp_all add: same_server_def info_bytes_def)
  have v2: "valid_req (disk_len (img st2)) (image_offset st2) (buffer_size st2) q" if "q \<in> set rs" for q
    using Cons.prems(3) that by (simp add: same)
  from Cons.IH [OF h(2) _ v2 h(3)] Cons.prems(2) obtain st' where
    "do_comm_loop st2 = Some (0, st')"
    "tx (sd st') = tx (sd st2) @ answers (info_bytes st2) (image_offset st2) (disk_bytes (img st2)) rs"
    "disk_ok (img st')" "disk_bytes (img st') = effects (image_offset st2) (disk_bytes (img st2)) rs"
    by (auto simp: same)
  then show ?case
    using c(1) code h by (subst do_comm_loop.simps) (simp add: same)
qed

text \<open>
  C4. The server serves a whole session: for any sequence of valid requests, cut into pieces by
  the transport in any way, the request loop answers every request in order with the bytes a
  flat disk would give, leaves the image as the writes leave a flat disk, keeps it well formed,
  and ends with 0 when the client closes the stream.\<close>

theorem do_comm_serves:
  assumes "stream_ok st" "info_flags st AND FSCRYPTDPROXY_FLAG_RO = 0"
    "\<And>r. r \<in> set rs \<Longrightarrow> valid_req (disk_len (img st)) (image_offset st) (buffer_size st) r"
    "sock_in (sd st) = concat (map encode rs)"
  shows "\<exists>st'. do_comm_loop st = Some (0, st') \<and>
     tx (sd st') = tx (sd st) @ answers (info_bytes st) (image_offset st) (disk_bytes (img st)) rs \<and>
     disk_ok (img st') \<and> disk_bytes (img st') = effects (image_offset st) (disk_bytes (img st)) rs"
  using assms by (rule do_comm_session)

definition sample_requests :: "request list" where
  "sample_requests = [ReqRead 510 4, ReqWrite 600 [1, 2], ReqOther 7, ReqRead 600 2]"

definition sample_server :: "unit devio" where
  "sample_server = \<lparr>img = sample_vhd,
     sd = \<lparr>rx = [Chunk (take 5 (concat (map encode sample_requests))),
                Chunk (drop 5 (concat (map encode sample_requests)))], tx = [], tx_caps = [Accept 3]\<rparr>,
     shm_mode = False, drv_mode = False, shm_view = [], shm_readptr = None, shm_writeptr = None,
     buf = replicate 512 0, buffer_size = 512, image_offset = 0, info_file_size = 1024,
     info_req_alignment = 1, info_flags = 0, buf2_id = 0, heap_ok = True, turns = [], allocs = []\<rparr>"

lemma sample_server_ok: "stream_ok sample_server"
proof -
  define bs where "bs = concat (map encode sample_requests)"
  have "length bs = 82" by (simp add: bs_def sample_requests_def)
  then have "bs \<noteq> []" "\<not> length bs \<le> 5" by auto
  moreover have "\<exists>k. 3 = Suc k" by (rule exI [of _ 2]) simp
  ultimately show ?thesis
    by (simp add: stream_ok_def sample_server_def sock_ok_def disk_ok_def sample_vhd_ok disk_len_def
        flip: bs_def)
qed

theorem do_comm_serves_witness:
  "\<exists>st'. do_comm_loop sample_server = Some (0, st') \<and>
     tx (sd st') = answers (info_bytes sample_server) 0 (disk_bytes sample_vhd) sample_requests \<and>
     disk_bytes (img st') = effects 0 (disk_bytes sample_vhd) sample_requests"
proof -
  have f: "img sample_server = sample_vhd" "image_offset sample_server = 0"
    "buffer_size sample_server = 512" "tx (sd sample_server) = []" "disk_len sample_vhd = 1024"
    "info_flags sample_server AND FSCRYPTDPROXY_FLAG_RO = 0"
    "sock_in (sd sample_server) = concat (map encode sample_requests)"
    by (simp_all add: sample_server_def disk_len_def sock_in_def)
  have v: "valid_req (disk_len (img sample_server)) (image_offset sample_server)
      (buffer_size sample_server) r" if "r \<in> set sample_requests" for r
    using that by (auto simp: f sample_requests_def fits_def)
  show ?thesis using do_comm_serves [OF sample_server_ok f(6) v f(7)] by (auto simp: f)
qed

text \<open>
  When a stream server cannot allocate a larger buffer, the size is already changed: the
  server goes on with a \<open>buffer_size\<close> larger than its buffer.\<close>

lemma buf_realloc_fails:
  assumes "\<not> shm_mode st" "\<not> drv_mode st" "0 \<le> n" "n \<le> 2147483647" "\<not> malloc_ok (img st) n"
  shows "buffer_size (buf_realloc st n) = n \<and> buf (buf_realloc st n) = buf st"
  using assms by (simp add: buf_realloc_def Let_def u32_id)

lemma buf_realloc_fails_witness:
  "buffer_size (buf_realloc (sample_server\<lparr>img := sample_vhd\<lparr>malloc_ok := (\<lambda>n. n < 1024)\<rparr>\<rparr>) 4096) = 4096 \<and>
   buf (buf_realloc (sample_server\<lparr>img := sample_vhd\<lparr>malloc_ok := (\<lambda>n. n < 1024)\<rparr>\<rparr>) 4096) = replicate 512 0"
  using buf_realloc_fails [of "sample_server\<lparr>img := sample_vhd\<lparr>malloc_ok := (\<lambda>n. n < 1024)\<rparr>\<rparr>" 4096]
  by (simp add: sample_server_def)

text \<open>
  In driver mode a successful reallocation frees the second buffer of a dynamic image while
  it is still in use (or frees it a second time, when it was replaced).\<close>

lemma buf_realloc_frees_buf2:
  assumes "drv_mode st" "\<not> shm_mode st" "buf2 (img st) \<noteq> []"
    "allocs st = \<lparr>mapping_ok = True, view_ok = True, query_ok = True, region_size = r, lock_ok = True\<rparr> # es"
    "\<And>n. malloc_ok (img st) n"
  shows "\<not> heap_ok (buf_realloc st n)"
  using assms by (simp add: buf_realloc_def alloc_drv_buffer_def Let_def)

lemma buf_realloc_frees_buf2_witness:
  "\<not> heap_ok (buf_realloc (sample_server\<lparr>drv_mode := True, allocs :=
     [\<lparr>mapping_ok = True, view_ok = True, query_ok = True, region_size = 8192, lock_ok = True\<rparr>]\<rparr>) 4096)"
  by (rule buf_realloc_frees_buf2) (simp_all add: sample_server_def sample_vhd_def)

text \<open>
  Transfers through the shared header stay inside it: whatever the client asks for, a write
  leaves the view at its size and the write pointer inside the header, and refuses what does
  not fit.\<close>

lemma shm_write_in_header:
  assumes "length (shm_view st) = FSCRYPTDPROXY_HEADER_SIZE"
    "\<And>p. shm_writeptr st = Some p \<Longrightarrow> p \<le> FSCRYPTDPROXY_HEADER_SIZE"
    "shm_write st io bs = (rc, st')"
  shows "length (shm_view st') = FSCRYPTDPROXY_HEADER_SIZE \<and> buf st' = buf st \<and>
     (\<forall>p. shm_writeptr st' = Some p \<longrightarrow> p \<le> FSCRYPTDPROXY_HEADER_SIZE) \<and>
     (io = Other \<and> FSCRYPTDPROXY_HEADER_SIZE < length bs \<longrightarrow> rc = 0)"
proof -
  define p where "p = (case shm_writeptr st of None \<Rightarrow> shm_start st | Some p \<Rightarrow> p)"
  have p: "p \<le> FSCRYPTDPROXY_HEADER_SIZE"
    using assms(2) by (auto simp: p_def shm_start_def FSCRYPTDPROXY_HEADER_SIZE_def split: option.split)
  show ?thesis
    using assms p
    by (cases "io = Buf")
      (auto simp: shm_write_def Let_def put_front_def simp flip: p_def split: if_splits)
qed

lemma shm_write_in_header_witness:
  "length (shm_view (snd (shm_write (sample_server\<lparr>shm_view := replicate 4096 0\<rparr>) Other [1, 2]))) =
     FSCRYPTDPROXY_HEADER_SIZE"
proof -
  let ?st = "sample_server\<lparr>shm_view := replicate 4096 0\<rparr>"
  have a: "length (shm_view ?st) = FSCRYPTDPROXY_HEADER_SIZE" "shm_writeptr ?st = None"
    by (simp_all add: FSCRYPTDPROXY_HEADER_SIZE_def sample_server_def)
  have "shm_write ?st Other [1, 2] = (fst (shm_write ?st Other [1, 2]), snd (shm_write ?st Other [1, 2]))"
    by simp
  from shm_write_in_header [OF a(1) _ this] a(2) show ?thesis by simp
qed

end
