(* ===== verification/Devio_Main.thy ===== *)
theory Devio_Main
  imports Devio_Comm
begin

text \<open>
  The start of the \<open>devio\<close> server (\<open>main\<close> of \<open>devio/devio.c\<close>): options, image detection (dynamic
  VHD), sizes with suffixes, the search for a partition in the partition tables of the image,
  and the parameters handed to \<open>do_comm\<close>. Strings are C strings without the terminating zero.
  What the system answers (opening the image, the size of the file) is an argument.
\<close>

section \<open>Numbers with suffixes\<close>

text \<open>\<open>sscanf\<close> with a number and \<open>%c\<close>: blanks, a sign, digits; then one character if there is
  one. \<open>None\<close> is a failed conversion of the number.\<close>

definition is_digit :: "char \<Rightarrow> bool" where
  "is_digit c \<longleftrightarrow> (48 :: int) \<le> of_char c \<and> (of_char c :: int) \<le> 57"

fun scan_digits :: "string \<Rightarrow> int \<Rightarrow> int \<times> string" where
  "scan_digits [] n = (n, [])"
| "scan_digits (c # cs) n =
     (if is_digit c then scan_digits cs (10 * n + of_char c - 48) else (n, c # cs))"

definition scan_number :: "string \<Rightarrow> (int \<times> char option) option" where
  "scan_number s =
     (let s = dropWhile (\<lambda>c. c = CHR '' '' \<or> c = CHR 0x09) s;
          (neg, s) = (case s of [] \<Rightarrow> (False, [])
                      | c # cs \<Rightarrow> if c = CHR ''-'' then (True, cs) else if c = CHR ''+'' then (False, cs)
                                  else (False, c # cs))
      in case s of [] \<Rightarrow> None
      | c # cs \<Rightarrow>
          if \<not> is_digit c then None
          else case scan_digits (c # cs) 0 of (n, rest) \<Rightarrow>
            Some (if neg then - n else n, case rest of [] \<Rightarrow> None | c # _ \<Rightarrow> Some c))"

text \<open>The \<open>switch\<close> over the suffix falls through from the larger units to the smaller ones;
  \<open>wrap\<close> is the conversion to the variable's type. An unknown suffix is only logged.\<close>

definition suffix_scale :: "(int \<Rightarrow> int) \<Rightarrow> char \<Rightarrow> int \<Rightarrow> int" where
  "suffix_scale wrap suf x =
     (let k = (\<lambda>x. wrap (push_bit 10 x)); d = (\<lambda>x. wrap (x * 1000)) in
      if suf = CHR ''T'' then k (k (k (k x)))
      else if suf = CHR ''G'' then k (k (k x))
      else if suf = CHR ''M'' then k (k x)
      else if suf = CHR ''K'' then k x
      else if suf = CHR ''B'' then x
      else if suf = CHR ''t'' then d (d (d (d x)))
      else if suf = CHR ''g'' then d (d (d x))
      else if suf = CHR ''m'' then d (d x)
      else if suf = CHR ''k'' then d x
      else x)"

text \<open>The third argument: a size with a suffix, a partition number below 512, or a number of
  512-byte blocks. The result is the file size and the partition number.\<close>

definition size_argument :: "string \<Rightarrow> int \<Rightarrow> int \<times> int" where
  "size_argument arg file_size =
     (case scan_number arg of
        Some (n, Some suf) \<Rightarrow> (suffix_scale u64 suf (u64 n), 0)
      | Some (n, None) \<Rightarrow>
          if u64 n < 512 then (file_size, u64 n) else (u64 (push_bit 9 (u64 n)), 0)
      | None \<Rightarrow> (file_size, 0))"

text \<open>The offset argument: a signed number with a suffix, or a number of 512-byte blocks.\<close>

definition offset_argument :: "string \<Rightarrow> int \<Rightarrow> int" where
  "offset_argument arg old =
     (case scan_number arg of
        Some (n, Some suf) \<Rightarrow> suffix_scale s64 suf (s64 n)
      | Some (n, None) \<Rightarrow> s64 (push_bit 9 (s64 n))
      | None \<Rightarrow> s64 (push_bit 9 old))"

definition buffer_size_argument :: "string \<Rightarrow> int \<Rightarrow> int" where
  "buffer_size_argument arg old =
     (case scan_number arg of
        Some (n, Some suf) \<Rightarrow> suffix_scale u32 suf (u32 n)
      | Some (n, None) \<Rightarrow> u32 n
      | None \<Rightarrow> old)"

section \<open>Detection of dynamic VHD images\<close>

text \<open>The loops that look for the shift of a size; 64 when it is not a power of two. The
  shifted value has the width of \<open>safeio_size_t\<close>, and so has its shift count on x86.\<close>

function shift_loop :: "int \<Rightarrow> nat \<Rightarrow> nat" where
  "shift_loop target shift =
     (if shift < 64 \<and> u32 (push_bit (shift mod 32) 1) \<noteq> target
      then shift_loop target (shift + 1) else shift)"
  by pat_completeness auto
termination by (relation "measure (\<lambda>(target, shift). 64 - shift)") auto

declare shift_loop.simps [simp del]

definition detect_vhd :: "bool \<Rightarrow> 'h image \<Rightarrow> int \<Rightarrow> int \<Rightarrow> (int \<times> 'h image) option" where
  "detect_vhd auto_vhd_detect im bufsize file_size =
     (case physical_read im (replicate 1536 0) 0 of (readdone, vhd_info, im) \<Rightarrow>
      let footer = take 512 vhd_info; header = drop 512 vhd_info;
          cookie = (\<lambda>s. map (\<lambda>c. of_char c :: byte) s);
          im = im\<lparr>vhd_Footer := footer\<rparr>
      in
      if auto_vhd_detect \<and> readdone = 1536 \<and>
         take 8 header = cookie ''cxsparse'' \<and> take 8 footer = cookie ''conectix'' \<and>
         le_of (take 4 (drop 60 footer)) = 0x03000000
      then
        if \<not> malloc_ok im bufsize then None
        else
        let size = GetBigEndian64 (take 8 (drop 48 footer));
            bs = be_of (take 4 (drop 32 header))
        in Some (u64 size, im\<lparr>buf2 := replicate (nat bufsize) 0,
             current_size := size, table_offset := GetBigEndian64 (take 8 (drop 16 header)),
             sector_size := 512, block_size := bs, block_shift := shift_loop bs 0,
             vhd_mode := True, sector_shift := shift_loop 512 0\<rparr>)
      else Some (file_size, im\<lparr>sector_shift := shift_loop (sector_size im) 0\<rparr>))"

section \<open>Partition tables\<close>

definition table_entry :: "byte list \<Rightarrow> nat \<Rightarrow> byte list" where
  "table_entry sector i = take 16 (drop (512 - 66 + i * 16) sector)"

definition entry_type :: "byte list \<Rightarrow> nat \<Rightarrow> int" where
  "entry_type sector i = uint (table_entry sector i ! 4)"

definition entry_start :: "byte list \<Rightarrow> nat \<Rightarrow> int" where
  "entry_start sector i = GetLittleEndian32U (take 4 (drop 8 (table_entry sector i)))"

definition entry_length :: "byte list \<Rightarrow> nat \<Rightarrow> int" where
  "entry_length sector i = GetLittleEndian32U (take 4 (drop 12 (table_entry sector i)))"

definition valid_table :: "byte list \<Rightarrow> bool" where
  "valid_table sector \<longleftrightarrow> sector ! 0x1FE = 0x55 \<and> sector ! 0x1FF = 0xAA \<and>
     sector ! 0x1BE AND 0x7F = 0 \<and> sector ! 0x1CE AND 0x7F = 0 \<and>
     sector ! 0x1DE AND 0x7F = 0 \<and> sector ! 0x1EE AND 0x7F = 0"

text \<open>The four entries of a table, in the order of the loops.\<close>

definition slots :: "nat list" where "slots = [0, 1, 2, 3]"

definition is_extended :: "int \<Rightarrow> bool" where
  "is_extended t \<longleftrightarrow> t = 0x05 \<or> t = 0x0F"

text \<open>The state of the search: partitions counted, \<open>image_offset\<close>, the file size.\<close>

record search =
  s_count :: int
  s_offset :: int
  s_size :: int

text \<open>One extended boot record: the entries in order; \<open>True\<close> when another one follows.\<close>

fun ebr_scan :: "nat \<Rightarrow> int \<Rightarrow> int \<Rightarrow> byte list \<Rightarrow> nat list \<Rightarrow> search \<Rightarrow> bool \<times> search" where
  "ebr_scan ss first pn ebr [] s = (False, s)"
| "ebr_scan ss first pn ebr (e # es) s =
     (let t = entry_type ebr e in
      if t = 0 then ebr_scan ss first pn ebr es s
      else if is_extended t
      then (True, s\<lparr>s_offset := s64 (first + push_bit ss (entry_start ebr e))\<rparr>)
      else
      let s = s\<lparr>s_count := s_count s + 1\<rparr> in
      if s_count s = pn
      then (False, s\<lparr>s_offset := s64 (s_offset s + push_bit ss (entry_start ebr e)),
                     s_size := push_bit ss (entry_length ebr e)\<rparr>)
      else ebr_scan ss first pn ebr es s)"

text \<open>The chain of extended boot records; the first argument bounds the number of records
  followed, \<open>None\<close> is a chain that is longer.\<close>

fun ebr_walk :: "nat \<Rightarrow> 'h image \<Rightarrow> nat \<Rightarrow> int \<Rightarrow> int \<Rightarrow> search \<Rightarrow> (search \<times> 'h image) option" where
  "ebr_walk 0 im ss first pn s = None"
| "ebr_walk (Suc fuel) im ss first pn s =
     Option.bind (logical_read im (replicate 512 0) (s_offset s)) (\<lambda>(readdone, ebr, im).
       if readdone = 512 \<and> valid_table ebr
       then case ebr_scan ss first pn ebr slots s of (read_next_ebr, s) \<Rightarrow>
              if read_next_ebr then ebr_walk fuel im ss first pn s else Some (s, im)
       else Some (s, im))"

fun mbr_scan :: "nat \<Rightarrow> 'h image \<Rightarrow> nat \<Rightarrow> int \<Rightarrow> byte list \<Rightarrow> nat list \<Rightarrow> search \<Rightarrow> (search \<times> 'h image) option" where
  "mbr_scan fuel im ss pn mbr [] s = Some (s, im)"
| "mbr_scan fuel im ss pn mbr (i # js) s =
     (let t = entry_type mbr i in
      if t = 0 then mbr_scan fuel im ss pn mbr js s
      else if is_extended t
      then
        let first = push_bit ss (entry_start mbr i) in
        Option.bind (ebr_walk fuel im ss first pn (s\<lparr>s_offset := first\<rparr>)) (\<lambda>(s, im).
          mbr_scan fuel im ss pn mbr js s)
      else
      let s = s\<lparr>s_count := s_count s + 1\<rparr> in
      if s_count s = pn
      then Some (s\<lparr>s_offset := push_bit ss (entry_start mbr i),
                   s_size := push_bit ss (entry_length mbr i)\<rparr>, im)
      else mbr_scan fuel im ss pn mbr js s)"

text \<open>The partition search: \<open>Inl\<close> is the exit code of \<open>main\<close>, \<open>Inr\<close> offset and size used.\<close>

definition find_partition ::
    "nat \<Rightarrow> 'h image \<Rightarrow> int \<Rightarrow> int \<Rightarrow> int \<Rightarrow> (int + int \<times> int \<times> 'h image) option" where
  "find_partition fuel im pn offset0 file_size =
     (if 1 \<le> pn \<and> pn < 512
      then Option.bind (logical_read im (replicate 512 0) 0) (\<lambda>(readdone, mbr, im).
        if readdone < 512 then Some (Inr (offset0, file_size, im))
        else if valid_table mbr
        then Option.bind (mbr_scan fuel im (sector_shift im) pn mbr slots
               \<lparr>s_count = 0, s_offset = 0, s_size = file_size\<rparr>) (\<lambda>(s, im).
          if s_size s = 0 \<or>
             (current_size im \<noteq> 0 \<and> current_size im < s64 (s_offset s + s64 (s_size s)))
          then Some (Inl 1)
          else Some (Inr (s_offset s, s_size s, im)))
        else Some (Inr (offset0, file_size, im)))
      else Some (Inr (offset0, file_size, im)))"

section \<open>The options and the set-up\<close>

definition strnicmp :: "string \<Rightarrow> string \<Rightarrow> nat \<Rightarrow> bool" where
  "strnicmp a b n \<longleftrightarrow> map lower (take n a) = map lower (take n b)"

record options =
  o_dll :: "string option"
  o_drv :: bool
  o_novhd :: bool
  o_ro :: bool
  o_argv :: "string list"

text \<open>The options in the order the code accepts them; each one shifts \<open>argv\<close>. \<open>None\<close> is the exit
  code -1 (help texts).\<close>

definition devio_options :: "string list \<Rightarrow> options option" where
  "devio_options argv =
     (if 1 < length argv \<and> stricmp (argv ! 1) ''--dll'' then None
      else
      let (dll, argv) = (if 3 \<le> length argv \<and> strnicmp (argv ! 1) ''--dll='' 6
                         then (Some (drop 6 (argv ! 1)), tl argv) else (None, argv));
          (drv, argv) = (if 4 \<le> length argv \<and> argv ! 1 = ''--drv'' then (True, tl argv) else (False, argv));
          (novhd, argv) = (if 4 \<le> length argv \<and> argv ! 1 = ''--novhd'' then (True, tl argv) else (False, argv));
          (ro, argv) = (if 4 \<le> length argv \<and> argv ! 1 = ''-r'' then (True, tl argv) else (False, argv))
      in if length argv < 3 \<or> 7 < length argv then None
         else Some \<lparr>o_dll = dll, o_drv = drv, o_novhd = novhd, o_ro = ro, o_argv = argv\<rparr>)"

record 'h server_config =
  u_img :: "'h image"
  u_offset :: int
  u_file_size :: int
  u_alignment :: int
  u_buffer_size :: int

definition DEF_BUFFER_SIZE :: int where "DEF_BUFFER_SIZE = 67108864"

text \<open>From the opened image to \<open>do_comm\<close>: \<open>file_size\<close> is what the library reported (or 0),
  \<open>query_size\<close> what the system says about the file (\<open>Inl\<close>: exit code 9).\<close>

definition devio_configure ::
    "nat \<Rightarrow> options \<Rightarrow> 'h image \<Rightarrow> int \<Rightarrow> (int + int) \<Rightarrow> (int + 'h server_config) option" where
  "devio_configure fuel opt im file_size query_size =
     (let argv = o_argv opt in
      case detect_vhd (\<not> o_novhd opt) im DEF_BUFFER_SIZE file_size of
        None \<Rightarrow> Some (Inl 2)
      | Some (file_size, im) \<Rightarrow>
      let (file_size, partition_number) =
            (if 3 < length argv then size_argument (argv ! 3) file_size else (file_size, 1));
          queried = (if file_size = 0 \<and> \<not> dll_mode im then query_size else Inr file_size)
      in case queried of
        Inl code \<Rightarrow> Some (Inl code)
      | Inr file_size \<Rightarrow>
      let im = (if current_size im = 0 then im\<lparr>current_size := s64 file_size\<rparr> else im)
      in Option.bind (find_partition fuel im partition_number 0 file_size) (\<lambda>found.
      case found of
        Inl code \<Rightarrow> Some (Inl code)
      | Inr (offset, file_size, im) \<Rightarrow>
      let shift = offset = 0 \<and> 4 < length argv;
          offset = (if shift then offset_argument (argv ! 4) offset else offset);
          argv = (if shift then tl argv else argv);
          alignment = (if 4 < length argv
                       then (case scan_number (argv ! 4) of None \<Rightarrow> None | Some (n, _) \<Rightarrow> Some (u64 n))
                       else Some 1);
          bufsize = (if 5 < length argv then buffer_size_argument (argv ! 5) DEF_BUFFER_SIZE
                         else DEF_BUFFER_SIZE)
      in case alignment of
        None \<Rightarrow> Some (Inl (-1))
      | Some alignment \<Rightarrow>
          Some (Inr \<lparr>u_img = im, u_offset = offset, u_file_size = file_size,
                     u_alignment = alignment, u_buffer_size = bufsize\<rparr>)))"

section \<open>Opening the transport\<close>

text \<open>How the system calls of \<open>do_comm_shm\<close> end, and what the client puts in the view with its
  first request.\<close>

record shm_env =
  e_malloc :: bool
  e_mapping :: bool
  e_exists :: bool
  e_view :: bool
  e_query :: bool
  e_region :: int
  e_mutex :: bool
  e_mutex_free :: bool
  e_request_event :: bool
  e_response_event :: bool
  e_wait :: bool
  e_first_view :: "byte list"
  e_first_buf :: "byte list"

definition do_comm_shm :: "shm_env \<Rightarrow> 'h devio \<Rightarrow> int \<times> 'h devio" where
  "do_comm_shm env st =
     (if \<not> e_malloc env then (-1, st)
      else if \<not> e_mapping env then (2, st)
      else if e_exists env then (2, st)
      else if \<not> e_view env then (2, st\<lparr>shm_view := []\<rparr>)
      else
      let detected_buffer_size = u32 (e_region env - int FSCRYPTDPROXY_HEADER_SIZE);
          st = st\<lparr>shm_view := replicate FSCRYPTDPROXY_HEADER_SIZE 0,
                  buf := replicate (nat detected_buffer_size) 0\<rparr>
      in
      if \<not> e_query env then (2, st)
      else
      let resize = buffer_size st \<noteq> detected_buffer_size;
          st = (if resize then st\<lparr>buffer_size := detected_buffer_size\<rparr> else st);
          again = resize \<and> buf2 (img st) \<noteq> []
      in
      if again \<and> \<not> malloc_ok (img st) (buffer_size st)
      then (2, st\<lparr>img := (img st)\<lparr>buf2 := []\<rparr>, buf2_id := buf2_id st + 1\<rparr>)
      else
      let st = (if again
                then st\<lparr>img := (img st)\<lparr>buf2 := replicate (nat (buffer_size st)) 0\<rparr>,
                        buf2_id := buf2_id st + 1\<rparr>
                else st)
      in
      if \<not> e_mutex env then (2, st)
      else if \<not> e_mutex_free env then (2, st)
      else if \<not> e_request_event env then (2, st)
      else if \<not> e_response_event env then (2, st)
      else
      let st = st\<lparr>shm_mode := True\<rparr> in
      if \<not> e_wait env then (2, st)
      else (0, st\<lparr>shm_view := e_first_view env, buf := e_first_buf env\<rparr>))"

text \<open>\<open>do_comm_drv\<close>: the arguments tell whether the name buffer, the events and the device were
  created. The information response is the first exchange with the driver.\<close>

definition do_comm_drv ::
    "bool \<Rightarrow> bool \<Rightarrow> bool \<Rightarrow> 'h devio \<Rightarrow> (int \<times> 'h devio) option" where
  "do_comm_drv malloc_succeeds events_created device_created st =
     (if \<not> malloc_succeeds then Some (-1, st)
      else if \<not> events_created then Some (-1, st)
      else if \<not> device_created then Some (2, st)
      else case alloc_drv_buffer st of (rc, st) \<Rightarrow>
      if 0 < rc then Some (rc, st)
      else
      let st = st\<lparr>drv_mode := True,
                  shm_view := to_le 8 FSCRYPTDPROXY_REQ_INFO @ drop 8 (shm_view st)\<rparr>
      in Option.bind (send_info st) (\<lambda>(rc, st). if rc = 0 then Some (2, st) else Some (0, st)))"

text \<open>How the calls end that open the other transports: \<open>sock_steps\<close> are \<open>socket\<close>, \<open>bind\<close>,
  \<open>getsockname\<close>, \<open>listen\<close> and \<open>accept\<close> in this order.\<close>

record comm_env =
  c_shm :: shm_env
  c_drv_malloc :: bool
  c_drv_events :: bool
  c_drv_device :: bool
  c_malloc :: bool
  c_sock_steps :: "bool list"
  c_open :: bool

definition comm_port :: "string \<Rightarrow> int" where
  "comm_port comm_device = (case scan_number comm_device of None \<Rightarrow> 0 | Some (n, _) \<Rightarrow> u16 n)"

definition do_comm :: "comm_env \<Rightarrow> string \<Rightarrow> 'h devio \<Rightarrow> (int \<times> 'h devio) option" where
  "do_comm env comm_device st =
     (let port = comm_port comm_device in
      Option.bind
        (if strnicmp comm_device ''shm:'' 4 then Some (do_comm_shm (c_shm env) st)
         else if strnicmp comm_device ''drv:'' 4
         then do_comm_drv (c_drv_malloc env) (c_drv_events env) (c_drv_device env) st
         else if c_malloc env then Some (0, st\<lparr>buf := replicate (nat (buffer_size st)) 0\<rparr>)
         else Some (2, st)) (\<lambda>(rc, st).
      if rc \<noteq> 0 then Some (rc, st)
      else if shm_mode st \<or> drv_mode st then do_comm_loop st
      else if port \<noteq> 0
      then if list_all id (c_sock_steps env) then do_comm_loop st else Some (2, st)
      else if comm_device = ''-'' then do_comm_loop st
      else if c_open env then do_comm_loop st else Some (1, st)))"

section \<open>Shifts\<close>

lemma shift_loop_from:
  assumes "j \<le> k" "k < 32"
  shows "shift_loop (2 ^ k) j = k"
  using assms
proof (induction "k - j" arbitrary: j)
  case 0
  then have "j = k" by simp
  moreover have "u32 (2 ^ k) = 2 ^ k"
    using power_strict_increasing [OF assms(2), of "2 :: int"] by (intro u32_id) auto
  ultimately show ?case using assms(2) by (subst shift_loop.simps) (simp add: push_bit_eq_mult)
next
  case (Suc d)
  then have j: "j < k" by simp
  then have lt: "(2 :: int) ^ j < 2 ^ k" by simp
  have "(2 :: int) ^ k < 2 ^ 32" using assms(2) by (intro power_strict_increasing) auto
  with lt have "(2 :: int) ^ j < 2 ^ 32" by linarith
  then have "u32 (2 ^ j) = 2 ^ j" by (intro u32_id) auto
  with j lt assms(2) have "shift_loop (2 ^ k) j = shift_loop (2 ^ k) (j + 1)"
    by (subst shift_loop.simps) (simp add: push_bit_eq_mult)
  with Suc j show ?case by simp
qed

lemma shift_loop_none:
  assumes "\<And>k. k < 32 \<Longrightarrow> b \<noteq> 2 ^ k" "j \<le> 64"
  shows "shift_loop b j = 64"
  using assms(2)
proof (induction "64 - j" arbitrary: j)
  case 0
  then show ?case by (subst shift_loop.simps) simp
next
  case (Suc d)
  have "(2 :: int) ^ (j mod 32) < 2 ^ 32" by (intro power_strict_increasing) auto
  then have "u32 (2 ^ (j mod 32)) \<noteq> b" using assms(1) [of "j mod 32"] by (simp add: u32_id)
  with Suc show ?case by (subst shift_loop.simps) (simp add: push_bit_eq_mult)
qed

text \<open>
  The loop that computes a block shift finds it exactly for the powers of two; for every
  other block size it ends with 64, which the code takes as the shift without any check.\<close>

lemma shift_loop_correct:
  assumes "0 \<le> b"
  shows "(\<exists>k < 32. b = 2 ^ k \<and> shift_loop b 0 = k) \<or>
         ((\<forall>k < 32. b \<noteq> 2 ^ k) \<and> shift_loop b 0 = 64)"
proof (cases "\<exists>k < 32. b = 2 ^ k")
  case True
  then obtain k where k: "k < 32" "b = 2 ^ k" by blast
  then show ?thesis using shift_loop_from [of 0 k] by auto
next
  case False
  then show ?thesis using shift_loop_none [of b 0] by auto
qed

lemma shift_loop_correct_witness:
  "(\<exists>k < 32. (2097152 :: int) = 2 ^ k \<and> shift_loop 2097152 0 = k) \<or>
   ((\<forall>k < 32. (2097152 :: int) \<noteq> 2 ^ k) \<and> shift_loop 2097152 0 = 64)"
  by (rule shift_loop_correct) simp

section \<open>The partition search\<close>

lemma mbr_scan_primary:
  assumes "\<And>i. i \<in> set js \<Longrightarrow> \<not> is_extended (entry_type mbr i)" "s_count s < pn"
  defines "used \<equiv> filter (\<lambda>i. entry_type mbr i \<noteq> 0) js"
  shows "mbr_scan fuel im ss pn mbr js s =
    (if pn \<le> s_count s + int (length used)
     then (let i = used ! nat (pn - s_count s - 1) in
           Some (s\<lparr>s_count := pn, s_offset := push_bit ss (entry_start mbr i),
                   s_size := push_bit ss (entry_length mbr i)\<rparr>, im))
     else Some (s\<lparr>s_count := s_count s + int (length used)\<rparr>, im))"
  using assms(1,2) unfolding used_def
proof (induction js arbitrary: s)
  case Nil
  then show ?case by simp
next
  case (Cons i js)
  show ?case
  proof (cases "entry_type mbr i = 0")
    case True
    with Cons show ?thesis by (simp add: Let_def)
  next
    case False
    show ?thesis
    proof (cases "s_count s + 1 = pn")
      case True
      with False Cons.prems show ?thesis by (auto simp: Let_def)
    next
      case ne: False
      let ?s = "s\<lparr>s_count := s_count s + 1\<rparr>"
      let ?used = "filter (\<lambda>i. entry_type mbr i \<noteq> 0) js"
      have lt: "s_count ?s < pn" using ne Cons.prems by simp
      have idx: "(i # ?used) ! nat (pn - s_count s - 1) = ?used ! nat (pn - s_count ?s - 1)"
      proof -
        have "nat (pn - s_count s - 1) = Suc (nat (pn - s_count ?s - 1))" using lt by simp
        then show ?thesis by simp
      qed
      from Cons.IH [of ?s] Cons.prems lt False ne idx show ?thesis
        by (simp add: Let_def add.assoc)
    qed
  qed
qed

text \<open>
  C5. In an image whose master boot record has primary partitions only, asking for the n-th
  partition uses the start and length of the n-th entry that is in use, when it lies inside
  the image.\<close>

theorem find_partition_primary:
  fixes im :: "'h image"
  defines "mbr \<equiv> mem_bytes (disk_bytes im) 0 512"
  defines "used \<equiv> filter (\<lambda>i. entry_type mbr i \<noteq> 0) slots"
  assumes "disk_ok im" "512 \<le> disk_len im" "valid_table mbr"
    "\<And>i. i < 4 \<Longrightarrow> \<not> is_extended (entry_type mbr i)"
    "1 \<le> pn" "pn \<le> int (length used)" "sector_shift im = 9"
    "0 < entry_length mbr (used ! nat (pn - 1))"
    "(entry_start mbr (used ! nat (pn - 1)) + entry_length mbr (used ! nat (pn - 1))) * 512
       \<le> current_size im"
  shows "\<exists>p. find_partition fuel im pn offset0 file_size =
    Some (Inr (entry_start mbr (used ! nat (pn - 1)) * 512,
               entry_length mbr (used ! nat (pn - 1)) * 512, at_pos im p))"
proof -
  let ?i = "used ! nat (pn - 1)"
  have le: "0 \<le> entry_start mbr ?i" "entry_start mbr ?i < 4294967296"
    "entry_length mbr ?i < 4294967296"
  proof -
    have l: "length (take 4 (drop k (table_entry mbr j))) = 4"
      if "k \<le> 12" "j < 4" for k j
      using that by (simp add: table_entry_def mbr_def)
    have "nat (pn - 1) < length used" using assms(7,8) by linarith
    then have "?i \<in> set used" by (rule nth_mem)
    then have i: "?i < 4" by (auto simp: used_def slots_def)
    show "0 \<le> entry_start mbr ?i" "entry_start mbr ?i < 4294967296"
      "entry_length mbr ?i < 4294967296"
      using l [OF _ i, of 8] l [OF _ i, of 12] le_of_range [of "take 4 (drop 8 (table_entry mbr ?i))"]
        le_of_range [of "take 4 (drop 12 (table_entry mbr ?i))"]
      unfolding entry_start_def entry_length_def by (simp_all add: GetLittleEndian32U_le)
  qed
  obtain p where p: "logical_read im (replicate 512 0) 0 = Some (512, mbr, at_pos im p)"
    using logical_read_flat [of im 0 "replicate 512 0"] assms(3,4) by (auto simp: fits_def mbr_def)
  have pn: "pn < 512" using assms(8) length_filter_le [of "\<lambda>i. entry_type mbr i \<noteq> 0" slots]
    by (simp add: used_def slots_def)
  have sc: "mbr_scan fuel (at_pos im p) 9 pn mbr slots
        \<lparr>s_count = 0, s_offset = 0, s_size = file_size\<rparr> =
      Some (\<lparr>s_count = pn, s_offset = push_bit 9 (entry_start mbr ?i),
             s_size = push_bit 9 (entry_length mbr ?i)\<rparr>, at_pos im p)"
  proof -
    let ?s = "\<lparr>s_count = 0, s_offset = 0, s_size = file_size\<rparr>"
    have "\<not> is_extended (entry_type mbr i)" if "i \<in> set slots" for i
      using that assms(6) by (auto simp: slots_def)
    from mbr_scan_primary [where js = slots and pn = pn and fuel = fuel and ss = 9 and im = "at_pos im p" and s = ?s,
        OF this, folded used_def] assms(7,8)
    show ?thesis by (simp add: Let_def del: mbr_scan.simps)
  qed
  have sz: "s64 (entry_length mbr ?i * 512) = entry_length mbr ?i * 512"
    "s64 (entry_start mbr ?i * 512 + entry_length mbr ?i * 512) =
       entry_start mbr ?i * 512 + entry_length mbr ?i * 512"
    using le assms(10) by (simp_all add: s64_id)
  show ?thesis
    using assms(5,7,9-11) pn
    by (intro exI [of _ p]) (simp add: find_partition_def p sc sz push_bit_eq_mult del: mbr_scan.simps)
qed

text \<open>A disk of 2048 bytes with a boot record: one partition of two sectors at sector 1, and an
  extended boot record in sector 2 that names itself as the next one.\<close>

definition mbr_file :: "int \<Rightarrow> byte" where
  "mbr_file i = (if i = 510 \<or> i = 1534 then 0x55 else if i = 511 \<or> i = 1535 then 0xAA
     else if i = 450 then 7 else if i = 454 then 1 else if i = 458 then 2
     else if i = 1474 then 5 else 0)"

definition sample_mbr :: "unit image" where
  "sample_mbr = sample_vhd\<lparr>vhd_mode := False, image_fd := sample_crt mbr_file 2048,
     current_size := 2048\<rparr>"

lemma sample_mbr_disk [simp]:
  "disk_ok sample_mbr" "disk_len sample_mbr = 2048" "sector_shift sample_mbr = 9"
  "current_size sample_mbr = 2048" "vhd_mode sample_mbr = False"
  by (simp_all add: sample_mbr_def disk_ok_def raw_ok_def good_file_def sample_crt_def sample_vhd_def
      disk_len_def raw_len_def)

lemma sample_mbr_bytes: "disk_bytes sample_mbr i = (if 0 \<le> i \<and> i < 2048 then mbr_file i else 0)"
  by (simp add: sample_mbr_def disk_bytes_def raw_bytes_def file_view_def sample_crt_def sample_vhd_def)

lemma table_entry_mem:
  "i < 4 \<Longrightarrow> table_entry (mem_bytes d base 512) i = mem_bytes d (base + 446 + int (i * 16)) 16"
  by (simp add: table_entry_def mem algebra_simps)

lemma entry_mem:
  assumes "i < 4"
  shows "entry_type (mem_bytes d base 512) i = uint (d (base + 450 + int (i * 16)))"
    "entry_start (mem_bytes d base 512) i = le_of (mem_bytes d (base + 454 + int (i * 16)) 4)"
    "entry_length (mem_bytes d base 512) i = le_of (mem_bytes d (base + 458 + int (i * 16)) 4)"
  using assms
  by (simp_all add: entry_type_def entry_start_def entry_length_def table_entry_mem mem
      GetLittleEndian32U_le algebra_simps)

lemma sample_mbr_table:
  defines "mbr \<equiv> mem_bytes (disk_bytes sample_mbr) 0 512"
  shows "valid_table mbr" "filter (\<lambda>i. entry_type mbr i \<noteq> 0) slots = [0]"
    "i < 4 \<Longrightarrow> \<not> is_extended (entry_type mbr i)" "entry_start mbr 0 = 1" "entry_length mbr 0 = 2"
proof -
  show "valid_table mbr"
    by (simp add: mbr_def valid_table_def sample_mbr_bytes mbr_file_def)
  show "filter (\<lambda>i. entry_type mbr i \<noteq> 0) slots = [0]"
    by (simp add: slots_def mbr_def entry_mem sample_mbr_bytes mbr_file_def)
  show "\<not> is_extended (entry_type mbr i)" if "i < 4"
    using that by (simp add: mbr_def entry_mem sample_mbr_bytes mbr_file_def is_extended_def)
  show "entry_start mbr 0 = 1" "entry_length mbr 0 = 2"
    by (simp_all add: mbr_def entry_mem sample_mbr_bytes mbr_file_def mem_bytes_4)
qed

theorem find_partition_primary_witness:
  "\<exists>p. find_partition 5 sample_mbr 1 0 2048 = Some (Inr (512, 1024, at_pos sample_mbr p))"
  using find_partition_primary [of sample_mbr 1 5 0 2048] by (simp add: sample_mbr_table)

text \<open>
  Asking for a partition that the table does not have is not noticed: the search ends with
  offset 0 and the size of the image, which passes the check, so the whole image is served as
  that partition.\<close>

lemma find_partition_missing:
  fixes im :: "'h image"
  defines "mbr \<equiv> mem_bytes (disk_bytes im) 0 512"
  defines "used \<equiv> filter (\<lambda>i. entry_type mbr i \<noteq> 0) slots"
  assumes "disk_ok im" "512 \<le> disk_len im" "valid_table mbr"
    "\<And>i. i < 4 \<Longrightarrow> \<not> is_extended (entry_type mbr i)"
    "int (length used) < pn" "pn < 512" "0 < file_size" "file_size \<le> current_size im"
    "current_size im < 9223372036854775808"
  shows "\<exists>p. find_partition fuel im pn offset0 file_size = Some (Inr (0, file_size, at_pos im p))"
proof -
  obtain p where p: "logical_read im (replicate 512 0) 0 = Some (512, mbr, at_pos im p)"
    using logical_read_flat [of im 0 "replicate 512 0"] assms(3,4) by (auto simp: fits_def mbr_def)
  let ?s = "\<lparr>s_count = 0, s_offset = 0, s_size = file_size\<rparr>"
  have "\<not> is_extended (entry_type mbr i)" if "i \<in> set slots" for i
    using that assms(6) by (auto simp: slots_def)
  from mbr_scan_primary [where js = slots and pn = pn and fuel = fuel and ss = "sector_shift im"
      and im = "at_pos im p" and s = ?s, OF this, folded used_def] assms(7)
  have sc: "mbr_scan fuel (at_pos im p) (sector_shift im) pn mbr slots ?s =
      Some (\<lparr>s_count = int (length used), s_offset = 0, s_size = file_size\<rparr>, at_pos im p)" by simp
  have sz: "s64 file_size = file_size" using assms(9-11) by (simp add: s64_id)
  show ?thesis
    using assms(5,7-10)
    by (intro exI [of _ p]) (simp add: find_partition_def p sc sz)
qed

lemma find_partition_missing_witness:
  "\<exists>p. find_partition 5 sample_mbr 3 0 2048 = Some (Inr (0, 2048, at_pos sample_mbr p))"
  using find_partition_missing [of sample_mbr 3 2048 5 0] by (simp add: sample_mbr_table)



lemma u64_units:
  "u64 (push_bit 10 (u64 x)) = u64 (x * 1024)" "u64 (u64 x * 1000) = u64 (x * 1000)"
  by (simp_all add: u64_def push_bit_eq_mult mod_mult_left_eq)

text \<open>
  A size given with a suffix means what the help text says: binary units for the capital
  letters, decimal ones for the small letters, and no partition is selected.\<close>

lemma size_argument_suffix:
  assumes "scan_number arg = Some (n, Some suf)" "0 \<le> n" "n * m < 18446744073709551616"
    "(suf, m) \<in> {(CHR ''T'', 2 ^ 40), (CHR ''G'', 2 ^ 30), (CHR ''M'', 2 ^ 20), (CHR ''K'', 2 ^ 10),
       (CHR ''B'', 1), (CHR ''t'', 10 ^ 12), (CHR ''g'', 10 ^ 9), (CHR ''m'', 10 ^ 6),
       (CHR ''k'', 10 ^ 3), (CHR ''b'', 1)}"
  shows "size_argument arg file_size = (n * m, 0)"
proof -
  have "0 \<le> n * m" using assms(2,4) by auto
  with assms(3) have "u64 (n * m) = n * m" by (intro u64_id)
  moreover have "suffix_scale u64 suf (u64 n) = u64 (n * m)"
    using assms(4) by (elim insertE emptyE) (simp_all add: suffix_scale_def Let_def u64_units mult.commute [of n])
  ultimately show ?thesis using assms(1) by (simp add: size_argument_def)
qed

lemma size_argument_suffix_witness: "size_argument ''20M'' 0 = (20971520, 0)"
proof -
  have "scan_number ''20M'' = Some (20, Some CHR ''M'')"
    by (simp add: scan_number_def is_digit_def of_char_def)
  from size_argument_suffix [OF this, of "2 ^ 20" 0] show ?thesis by simp
qed

text \<open>
  When the shared-memory transport is set up without a failure, the server's idea of its
  buffer is the size of the mapped data area.\<close>

lemma do_comm_shm_buffer:
  assumes "do_comm_shm env st = (0, st')" "int FSCRYPTDPROXY_HEADER_SIZE \<le> e_region env"
    "e_region env < 4294967296" "length (e_first_view env) = FSCRYPTDPROXY_HEADER_SIZE"
    "int (length (e_first_buf env)) = e_region env - int FSCRYPTDPROXY_HEADER_SIZE"
  shows "shm_mode st' \<and> length (shm_view st') = FSCRYPTDPROXY_HEADER_SIZE \<and>
     int (length (buf st')) = buffer_size st'"
  using assms
  by (auto simp: do_comm_shm_def Let_def u32_id FSCRYPTDPROXY_HEADER_SIZE_def split: if_splits)

definition sample_shm :: shm_env where
  "sample_shm = \<lparr>e_malloc = True, e_mapping = True, e_exists = False, e_view = True, e_query = True,
     e_region = 8192, e_mutex = True, e_mutex_free = True, e_request_event = True,
     e_response_event = True, e_wait = True, e_first_view = replicate 4096 0,
     e_first_buf = replicate 4096 0\<rparr>"

lemma do_comm_shm_buffer_witness:
  "shm_mode (snd (do_comm_shm sample_shm sample_server)) \<and>
   length (shm_view (snd (do_comm_shm sample_shm sample_server))) = FSCRYPTDPROXY_HEADER_SIZE \<and>
   int (length (buf (snd (do_comm_shm sample_shm sample_server)))) =
     buffer_size (snd (do_comm_shm sample_shm sample_server))"
proof -
  have "do_comm_shm sample_shm sample_server = (0, snd (do_comm_shm sample_shm sample_server))"
    by (simp add: do_comm_shm_def Let_def sample_shm_def sample_server_def sample_vhd_def u32_id
        FSCRYPTDPROXY_HEADER_SIZE_def)
  from do_comm_shm_buffer [OF this] show ?thesis
    by (simp add: sample_shm_def FSCRYPTDPROXY_HEADER_SIZE_def)
qed

end
