(* ===== verification/Awe_Context.thy ===== *)
theory Awe_Context
  imports FD_Store
begin

text \<open>
  \<open>awefsalloc\<close>, the driver that keeps a file in physical memory (\<open>awefsalloc/awefsalloc.c\<close>): its
  data, the reader/writer protection, the page mapping and the block list.

  Memory obtained with \<open>MmAllocatePagesForMdl\<close> is a numbered region of \<open>ram\<close>; a partial MDL or a
  mapped pointer names a region and an offset in it. What the kernel answers (memory condition,
  pool and page allocations, mappings) is an oracle indexed by the number of calls made so far.
  \<open>live\<close> are the regions not yet freed, \<open>partials\<close> and \<open>pool_blocks\<close> count the partial MDLs and
  pool blocks in existence.
\<close>

section \<open>Constants\<close>

definition ALLOC_PAGE_SIZE :: int where "ALLOC_PAGE_SIZE = 2097152"

definition GetPageBaseFromAbsOffset :: "int \<Rightarrow> int" where
  "GetPageBaseFromAbsOffset absolute_offset = absolute_offset AND NOT (ALLOC_PAGE_SIZE - 1)"

definition GetPageOffsetFromAbsOffset :: "int \<Rightarrow> int" where
  "GetPageOffsetFromAbsOffset absolute_offset = u32 (absolute_offset AND (ALLOC_PAGE_SIZE - 1))"

definition GetRequiredPagesForSize :: "int \<Rightarrow> int" where
  "GetRequiredPagesForSize n = (n + (ALLOC_PAGE_SIZE - 1)) AND NOT (ALLOC_PAGE_SIZE - 1)"

definition MAX_BLOCK_SIZE :: int where "MAX_BLOCK_SIZE = 4294967295 - (ALLOC_PAGE_SIZE - 1)"

definition INVALID_OFFSET :: int where "INVALID_OFFSET = -1"

section \<open>Data\<close>

record mdl =
  m_region :: nat
  ByteCount :: int

record block_descriptor =
  Offset :: int
  Mdl :: mdl

text \<open>A place in the address space: region and offset.\<close>

type_synonym place = "nat \<times> int"

record page_context =
  UsageCount :: int
  PageBase :: int
  PcMdl :: "place option"
  PcPtr :: "place option"

record object_context =
  VirtualSize :: int
  FirstBlock :: "block_descriptor list"
  LatestPageContext :: page_context
  ActiveReaders :: int
  ActiveWriters :: int
  ReadRequestLockConflicts :: int
  WriteRequestLockConflicts :: int

record kernel =
  ram :: "nat \<Rightarrow> int \<Rightarrow> byte"
  next_region :: nat
  live :: "nat set"
  partials :: int
  pool_blocks :: int
  calls :: nat
  high_memory :: "nat \<Rightarrow> bool"
  pool_grant :: "nat \<Rightarrow> bool"
  page_grant :: "nat \<Rightarrow> int \<Rightarrow> int \<Rightarrow> int option"
  mdl_grant :: "nat \<Rightarrow> bool"
  map_grant :: "nat \<Rightarrow> bool"
  win64 :: bool

definition empty_page :: page_context where
  "empty_page = \<lparr>UsageCount = 0, PageBase = 0, PcMdl = None, PcPtr = None\<rparr>"

definition new_context :: object_context where
  "new_context = \<lparr>VirtualSize = 0, FirstBlock = [], LatestPageContext = empty_page,
     ActiveReaders = 0, ActiveWriters = 0, ReadRequestLockConflicts = 0,
     WriteRequestLockConflicts = 0\<rparr>"

definition tick :: "kernel \<Rightarrow> kernel" where
  "tick k = k\<lparr>calls := calls k + 1\<rparr>"

section \<open>The spin lock's interrupt level\<close>

text \<open>The lock routines take the caller's knowledge of the interrupt level: at dispatch level
  they leave the level alone, below it they raise it and restore the old one.\<close>

datatype KIRQL = PASSIVE_LEVEL | DISPATCH_LEVEL

instantiation KIRQL :: linorder
begin

definition less_eq_KIRQL :: "KIRQL \<Rightarrow> KIRQL \<Rightarrow> bool" where
  "less_eq_KIRQL a b \<longleftrightarrow> a = PASSIVE_LEVEL \<or> b = DISPATCH_LEVEL"

definition less_KIRQL :: "KIRQL \<Rightarrow> KIRQL \<Rightarrow> bool" where
  "less_KIRQL a b \<longleftrightarrow> a = PASSIVE_LEVEL \<and> b = DISPATCH_LEVEL"

instance
proof
  fix x y z :: KIRQL
  show "x < y \<longleftrightarrow> x \<le> y \<and> \<not> y \<le> x" "x \<le> x" "x \<le> y \<or> y \<le> x"
    by (cases x; cases y; simp add: less_eq_KIRQL_def less_KIRQL_def)+
  show "x \<le> z" if "x \<le> y" "y \<le> z"
    using that by (cases x; cases y; cases z; simp add: less_eq_KIRQL_def)
  show "x = y" if "x \<le> y" "y \<le> x"
    using that by (cases x; cases y; simp add: less_eq_KIRQL_def)
qed

end

text \<open>Acquire: the level of the processor afterwards and the level saved in the lock handle.\<close>

definition AcquireLock :: "KIRQL \<Rightarrow> KIRQL \<Rightarrow> KIRQL \<times> KIRQL option" where
  "AcquireLock current LowestAssumedIrql =
     (if DISPATCH_LEVEL \<le> LowestAssumedIrql then (current, None) else (DISPATCH_LEVEL, Some current))"

text \<open>Release: the level of the processor and the caller's assumption afterwards.\<close>

definition ReleaseLock :: "KIRQL \<Rightarrow> KIRQL option \<Rightarrow> KIRQL \<Rightarrow> KIRQL \<times> KIRQL" where
  "ReleaseLock current saved LowestAssumedIrql =
     (if DISPATCH_LEVEL \<le> LowestAssumedIrql then (current, LowestAssumedIrql)
      else case saved of None \<Rightarrow> (current, LowestAssumedIrql) | Some old \<Rightarrow> (old, old))"

section \<open>The reader/writer protection\<close>

definition TryAcquireProtection ::
    "object_context \<Rightarrow> bool \<Rightarrow> bool \<Rightarrow> ntstatus \<times> object_context" where
  "TryAcquireProtection ctx ForWriteOperation OwnsReadLock =
     (if ForWriteOperation
      then
        if 1 \<le> ActiveWriters ctx \<or> (if OwnsReadLock then 2 else 1) \<le> ActiveReaders ctx
        then (STATUS_DEVICE_BUSY,
              ctx\<lparr>WriteRequestLockConflicts := s64 (WriteRequestLockConflicts ctx + 1)\<rparr>)
        else
          let ctx = ctx\<lparr>ActiveWriters := s32 (ActiveWriters ctx + 1)\<rparr> in
          (if ActiveWriters ctx \<le> 0 then STATUS_DRIVER_INTERNAL_ERROR else STATUS_SUCCESS, ctx)
      else
        if 1 \<le> ActiveWriters ctx \<or> 2147483647 \<le> ActiveReaders ctx
        then (STATUS_DEVICE_BUSY,
              ctx\<lparr>ReadRequestLockConflicts := s64 (ReadRequestLockConflicts ctx + 1)\<rparr>)
        else
          let ctx = ctx\<lparr>ActiveReaders := s32 (ActiveReaders ctx + 1)\<rparr> in
          (if ActiveReaders ctx \<le> 0 then STATUS_DRIVER_INTERNAL_ERROR else STATUS_SUCCESS, ctx))"

definition ReleaseProtection :: "object_context \<Rightarrow> bool \<Rightarrow> bool \<Rightarrow> object_context" where
  "ReleaseProtection ctx ForReadOperation ForWriteOperation =
     (let ctx = (if ForWriteOperation then ctx\<lparr>ActiveWriters := s32 (ActiveWriters ctx - 1)\<rparr> else ctx)
      in (if ForReadOperation then ctx\<lparr>ActiveReaders := s32 (ActiveReaders ctx - 1)\<rparr> else ctx))"

section \<open>Mapping pages\<close>

definition ExchangeMapPage ::
    "object_context \<Rightarrow> page_context \<Rightarrow> object_context \<times> page_context" where
  "ExchangeMapPage ctx pc =
     (let new = LatestPageContext ctx in
      (ctx\<lparr>LatestPageContext := pc\<rparr>, new\<lparr>UsageCount := s64 (UsageCount new + 1)\<rparr>))"

definition page_is_mapped :: "page_context \<Rightarrow> int \<Rightarrow> int \<Rightarrow> bool" where
  "page_is_mapped pc NewOffset page_base \<longleftrightarrow>
     0 \<le> NewOffset \<and> PageBase pc = page_base \<and> PcMdl pc \<noteq> None \<and> PcPtr pc \<noteq> None"

text \<open>The list is searched from the newest block for the first one that starts at or before the
  page.\<close>

fun find_block :: "block_descriptor list \<Rightarrow> int \<Rightarrow> block_descriptor option" where
  "find_block [] page_base = None"
| "find_block (b # bs) page_base = (if page_base < Offset b then find_block bs page_base else Some b)"

definition MapPage ::
    "kernel \<Rightarrow> object_context \<Rightarrow> int \<Rightarrow> page_context \<Rightarrow>
     ntstatus \<times> kernel \<times> object_context \<times> page_context" where
  "MapPage k ctx NewOffset pc =
     (let page_base = GetPageBaseFromAbsOffset NewOffset in
      if page_is_mapped pc NewOffset page_base then (STATUS_SUCCESS, k, ctx, pc)
      else case ExchangeMapPage ctx pc of (ctx, pc) \<Rightarrow>
      if page_is_mapped pc NewOffset page_base then (STATUS_SUCCESS, k, ctx, pc)
      else
      let k = (if PcMdl pc \<noteq> None then k\<lparr>partials := partials k - 1\<rparr> else k);
          pc = empty_page
      in
      if NewOffset < 0 then (STATUS_SUCCESS, k, ctx, pc)
      else case find_block (FirstBlock ctx) page_base of
        None \<Rightarrow> (STATUS_DRIVER_INTERNAL_ERROR, k, ctx, pc)
      | Some block \<Rightarrow>
      let page_base_within_block = page_base - Offset block in
      if ByteCount (Mdl block) \<le> page_base - Offset block
      then (STATUS_DRIVER_INTERNAL_ERROR, k, ctx, pc)
      else
      let granted = mdl_grant k (calls k); k = tick k in
      if \<not> granted then (STATUS_INSUFFICIENT_RESOURCES, k, ctx, pc)
      else
      let k = k\<lparr>partials := partials k + 1\<rparr>;
          place = (m_region (Mdl block), page_base_within_block);
          pc = pc\<lparr>PcMdl := Some place\<rparr>;
          mapped = map_grant k (calls k);
          k = tick k
      in
      if \<not> mapped
      then (STATUS_INSUFFICIENT_RESOURCES, k\<lparr>partials := partials k - 1\<rparr>, ctx, pc\<lparr>PcMdl := None\<rparr>)
      else (STATUS_SUCCESS, k, ctx, pc\<lparr>PcPtr := Some place, PageBase := page_base\<rparr>))"

section \<open>Blocks and the size of the file\<close>

definition GetTotalSize :: "block_descriptor list \<Rightarrow> int" where
  "GetTotalSize blocks =
     (case blocks of [] \<Rightarrow> 0
      | b # _ \<Rightarrow> Offset b + GetPageBaseFromAbsOffset (ByteCount (Mdl b)))"

definition free_region :: "nat \<Rightarrow> kernel \<Rightarrow> kernel" where
  "free_region r k = k\<lparr>live := live k - {r}\<rparr>"

text \<open>\<open>MmAllocatePagesForMdl\<close>: zeroed pages, possibly fewer than asked for.\<close>

definition MmAllocatePagesForMdl :: "kernel \<Rightarrow> int \<Rightarrow> int \<Rightarrow> mdl option \<times> kernel" where
  "MmAllocatePagesForMdl k low bytes =
     (let grant = page_grant k (calls k) low bytes; k = tick k in
      case grant of None \<Rightarrow> (None, k)
      | Some n \<Rightarrow>
          (Some \<lparr>m_region = next_region k, ByteCount = u32 n\<rparr>,
           k\<lparr>ram := (ram k)(next_region k := (\<lambda>i. 0)), live := insert (next_region k) (live k),
             next_region := next_region k + 1\<rparr>))"

definition AddBlock ::
    "kernel \<Rightarrow> object_context \<Rightarrow> mdl option \<Rightarrow> bool \<times> kernel \<times> object_context" where
  "AddBlock k ctx block_mdl =
     (case block_mdl of
        None \<Rightarrow> (False, k, ctx)
      | Some m \<Rightarrow>
          let bytes = u32 (GetPageBaseFromAbsOffset (ByteCount m)) in
          if bytes = 0 then (False, free_region (m_region m) k, ctx)
          else (True, k, ctx\<lparr>FirstBlock :=
                  \<lparr>Offset = GetTotalSize (FirstBlock ctx), Mdl = m\<rparr> # FirstBlock ctx\<rparr>))"

text \<open>The lowest physical addresses tried, in order.\<close>

definition low_bounds :: "bool \<Rightarrow> int list" where
  "low_bounds is64 = (if is64 then [0] else [8589934592, 6442450944, 5368709120, 4294967296, 0])"

fun try_bounds ::
    "int list \<Rightarrow> int \<Rightarrow> kernel \<Rightarrow> object_context \<Rightarrow> bool \<times> kernel \<times> object_context" where
  "try_bounds [] bytes k ctx = (False, k, ctx)"
| "try_bounds (low # lows) bytes k ctx =
     (case MmAllocatePagesForMdl k low bytes of (m, k) \<Rightarrow>
      case AddBlock k ctx m of (added, k, ctx) \<Rightarrow>
      if added then (True, k, ctx) else try_bounds lows bytes k ctx)"

definition bytes_to_allocate :: "int \<Rightarrow> int" where
  "bytes_to_allocate missing =
     (if MAX_BLOCK_SIZE < missing then MAX_BLOCK_SIZE else GetRequiredPagesForSize missing)"

text \<open>Releasing blocks from the end of the file.\<close>

fun shrink_blocks :: "block_descriptor list \<Rightarrow> int \<Rightarrow> kernel \<Rightarrow> block_descriptor list \<times> kernel" where
  "shrink_blocks [] eof k = ([], k)"
| "shrink_blocks (b # bs) eof k =
     (if eof \<le> Offset b
      then shrink_blocks bs eof
             ((free_region (m_region (Mdl b)) k)\<lparr>pool_blocks := pool_blocks k - 1\<rparr>)
      else (b # bs, k))"

lemma page_base_div: "GetPageBaseFromAbsOffset x = x div ALLOC_PAGE_SIZE * ALLOC_PAGE_SIZE"
proof -
  have "x AND NOT (mask 21) = push_bit 21 (drop_bit 21 x)"
    by (auto simp: bit_eq_iff bit_simps)
  also have "\<dots> = x div 2097152 * 2097152"
    by (simp add: push_bit_eq_mult drop_bit_eq_div)
  finally show ?thesis
    by (simp add: GetPageBaseFromAbsOffset_def ALLOC_PAGE_SIZE_def mask_eq_exp_minus_1)
qed

end
