(* ===== verification/Awe_File.thy ===== *)
theory Awe_File
  imports Awe_Context
begin

text \<open>
  The file operations of \<open>awefsalloc\<close>: \<open>AWE_FS_AllocSetSize\<close>, \<open>AWE_FS_AllocReadWrite\<close>,
  \<open>AWE_FS_AllocControl\<close>, the information queries, loading an image file, and create and close
  (\<open>awefsalloc/awefsalloc.c\<close>). Each handler returns the \<open>NTSTATUS\<close> of the dispatch routine, the
  \<open>IO_STATUS_BLOCK\<close> the caller sees, and the state.
\<close>

section \<open>Changing the size\<close>

lemma page_base_nonneg: "0 \<le> x \<Longrightarrow> 0 \<le> GetPageBaseFromAbsOffset x"
  by (simp add: page_base_div ALLOC_PAGE_SIZE_def)

lemma page_base_le: "GetPageBaseFromAbsOffset x \<le> x"
  using minus_mod_eq_div_mult [of x ALLOC_PAGE_SIZE] pos_mod_sign [of ALLOC_PAGE_SIZE x]
  by (simp add: page_base_div ALLOC_PAGE_SIZE_def)

lemma page_base_dvd: "ALLOC_PAGE_SIZE dvd GetPageBaseFromAbsOffset x"
  by (simp add: page_base_div)

lemma MmAllocatePagesForMdl_count:
  "MmAllocatePagesForMdl k low bytes = (Some m, k') \<Longrightarrow> 0 \<le> ByteCount m \<and> ByteCount m < 4294967296"
  by (auto simp: MmAllocatePagesForMdl_def Let_def u32_range split: option.splits)

lemma AddBlock_grows:
  assumes "AddBlock k ctx (Some m) = (True, k', ctx')" "0 \<le> ByteCount m" "ByteCount m < 4294967296"
  shows "GetTotalSize (FirstBlock ctx) < GetTotalSize (FirstBlock ctx')"
proof -
  have r: "0 \<le> GetPageBaseFromAbsOffset (ByteCount m)"
    "GetPageBaseFromAbsOffset (ByteCount m) < 4294967296"
    using page_base_nonneg [OF assms(2)] page_base_le [of "ByteCount m"] assms(3) by auto
  with assms(1) show ?thesis
    by (auto simp: AddBlock_def Let_def u32_id GetTotalSize_def split: if_splits)
qed

lemma try_bounds_grows:
  "try_bounds lows bytes k ctx = (True, k', ctx') \<Longrightarrow>
     GetTotalSize (FirstBlock ctx) < GetTotalSize (FirstBlock ctx')"
proof (induction lows bytes k ctx rule: try_bounds.induct)
  case (2 low lows bytes k ctx)
  obtain mo k1 where a: "MmAllocatePagesForMdl k low bytes = (mo, k1)" by fastforce
  obtain added k2 ctx2 where b: "AddBlock k1 ctx mo = (added, k2, ctx2)" by (metis prod_cases3)
  show ?case
  proof (cases added)
    case True
    with b obtain m where m: "mo = Some m" by (cases mo) (auto simp: AddBlock_def)
    from True b m have "AddBlock k1 ctx (Some m) = (True, k2, ctx2)" by simp
    from AddBlock_grows [OF this] MmAllocatePagesForMdl_count [OF a [unfolded m]]
    show ?thesis using 2(2) a b True by simp
  next
    case False
    then have "FirstBlock ctx2 = FirstBlock ctx"
      using b by (auto simp: AddBlock_def Let_def split: option.splits if_splits)
    with 2(1) [OF a [symmetric] b [symmetric] refl False] 2(2) a b False show ?thesis by simp
  qed
qed simp

function grow_loop ::
    "kernel \<Rightarrow> object_context \<Rightarrow> int \<Rightarrow> ntstatus \<times> kernel \<times> object_context" where
  "grow_loop k ctx eof =
     (if eof \<le> GetTotalSize (FirstBlock ctx)
      then (STATUS_SUCCESS, k, ctx\<lparr>VirtualSize := eof\<rparr>)
      else
      let plenty = high_memory k (calls k); k = tick k in
      if \<not> plenty then (STATUS_NO_MEMORY, k, ctx)
      else
      let granted = pool_grant k (calls k); k = tick k in
      if \<not> granted then (STATUS_NO_MEMORY, k, ctx)
      else
      case try_bounds (low_bounds (win64 k)) (bytes_to_allocate (eof - GetTotalSize (FirstBlock ctx)))
             (k\<lparr>pool_blocks := pool_blocks k + 1\<rparr>) ctx of (added, k, ctx) \<Rightarrow>
      if added then grow_loop k ctx eof
      else (STATUS_NO_MEMORY, k\<lparr>pool_blocks := pool_blocks k - 1\<rparr>, ctx))"
  by pat_completeness auto
termination
  by (relation "measure (\<lambda>(k, ctx, eof). nat (eof - GetTotalSize (FirstBlock ctx)))")
    (auto dest: try_bounds_grows [OF sym])

declare grow_loop.simps [simp del]

definition SetSize :: "kernel \<Rightarrow> object_context \<Rightarrow> int \<Rightarrow> ntstatus \<times> kernel \<times> object_context" where
  "SetSize k ctx EndOfFile =
     (let total = GetTotalSize (FirstBlock ctx) in
      if EndOfFile \<le> total
      then
        let (k, ctx) =
          (if ALLOC_PAGE_SIZE \<le> u64 (total - EndOfFile)
           then
             let lpc = LatestPageContext ctx;
                 k = (if PcMdl lpc \<noteq> None then k\<lparr>partials := partials k - 1\<rparr> else k);
                 ctx = ctx\<lparr>LatestPageContext := lpc\<lparr>PcMdl := None\<rparr>\<rparr>;
                 (blocks, k) = shrink_blocks (FirstBlock ctx) EndOfFile k
             in (k, ctx\<lparr>FirstBlock := blocks\<rparr>)
           else (k, ctx))
        in (STATUS_SUCCESS, k, ctx\<lparr>VirtualSize := EndOfFile\<rparr>)
      else grow_loop k ctx EndOfFile)"

section \<open>Reading and writing\<close>

datatype major = IRP_MJ_READ | IRP_MJ_WRITE

record irp =
  MajorFunction :: major
  ByteOffset :: int
  Length :: int
  system_buffer :: "byte list option"

record reply =
  returned :: ntstatus
  io_Status :: ntstatus
  io_Information :: int
  io_buffer :: "byte list"
  io_position :: int

definition complete :: "ntstatus \<Rightarrow> int \<Rightarrow> byte list \<Rightarrow> int \<Rightarrow> reply" where
  "complete status info bytes pos =
     \<lparr>returned = status, io_Status = status, io_Information = info, io_buffer = bytes,
      io_position = pos\<rparr>"

text \<open>The copy loop: one page (or what is left of it) per round. \<open>length_done\<close> bytes are done,
  \<open>pos\<close> is the file object's current byte offset. A successful \<open>MapPage\<close> always leaves a pointer.\<close>

definition chunk_size :: "int \<Rightarrow> int \<Rightarrow> int" where
  "chunk_size abs_offset left =
     (let page_offset = GetPageOffsetFromAbsOffset abs_offset in
      if ALLOC_PAGE_SIZE < page_offset + left then ALLOC_PAGE_SIZE - page_offset else left)"

definition copy_chunk ::
    "major \<Rightarrow> kernel \<Rightarrow> page_context \<Rightarrow> int \<Rightarrow> int \<Rightarrow> int \<Rightarrow> byte list \<Rightarrow> kernel \<times> byte list" where
  "copy_chunk mj k pc page_offset length_done count bytes =
     (case PcPtr pc of None \<Rightarrow> (k, bytes)
      | Some (r, base) \<Rightarrow>
          (case mj of
             IRP_MJ_READ \<Rightarrow>
               (k, take (nat length_done) bytes @
                   mem_bytes (ram k r) (base + page_offset) (nat count) @
                   drop (nat (length_done + count)) bytes)
           | IRP_MJ_WRITE \<Rightarrow>
               (k\<lparr>ram := (ram k)(r := mem_write (ram k r) (base + page_offset)
                            (take (nat count) (drop (nat length_done) bytes)))\<rparr>, bytes)))"

lemma page_offset_range:
  "0 \<le> GetPageOffsetFromAbsOffset x" "GetPageOffsetFromAbsOffset x < ALLOC_PAGE_SIZE"
  "GetPageOffsetFromAbsOffset x = x mod ALLOC_PAGE_SIZE"
proof -
  have "x AND mask 21 = take_bit 21 x" by (simp add: take_bit_eq_mask)
  then have m: "x AND (ALLOC_PAGE_SIZE - 1) = x mod ALLOC_PAGE_SIZE"
    by (simp add: ALLOC_PAGE_SIZE_def mask_eq_exp_minus_1 take_bit_eq_mod)
  have r: "0 \<le> x mod ALLOC_PAGE_SIZE" "x mod ALLOC_PAGE_SIZE < ALLOC_PAGE_SIZE"
    by (simp_all add: ALLOC_PAGE_SIZE_def)
  then have "u32 (x mod ALLOC_PAGE_SIZE) = x mod ALLOC_PAGE_SIZE"
    by (intro u32_id) (auto simp: ALLOC_PAGE_SIZE_def)
  then show "GetPageOffsetFromAbsOffset x = x mod ALLOC_PAGE_SIZE"
    by (simp add: GetPageOffsetFromAbsOffset_def m)
  with r show "0 \<le> GetPageOffsetFromAbsOffset x" "GetPageOffsetFromAbsOffset x < ALLOC_PAGE_SIZE"
    by simp_all
qed

lemma chunk_size_pos: "0 < left \<Longrightarrow> 0 < chunk_size abs_offset left \<and> chunk_size abs_offset left \<le> left"
  using page_offset_range [of abs_offset] by (auto simp: chunk_size_def Let_def)

function rw_loop ::
    "major \<Rightarrow> int \<Rightarrow> int \<Rightarrow> int \<Rightarrow> byte list \<Rightarrow> int \<Rightarrow> page_context \<Rightarrow> kernel \<Rightarrow> object_context \<Rightarrow>
     reply \<times> kernel \<times> object_context" where
  "rw_loop mj offset len length_done bytes pos pc k ctx =
     (let abs_offset = offset + length_done in
      if len \<le> length_done
      then case MapPage k ctx INVALID_OFFSET pc of (_, k, ctx, pc) \<Rightarrow>
        (complete STATUS_SUCCESS length_done bytes pos, k, ReleaseProtection ctx True False)
      else
      let count = chunk_size abs_offset (len - length_done) in
      case MapPage k ctx abs_offset pc of (status, k, ctx, pc) \<Rightarrow>
      if \<not> NT_SUCCESS status
      then (complete status 0 bytes pos, k, ReleaseProtection ctx True False)
      else case copy_chunk mj k pc (GetPageOffsetFromAbsOffset abs_offset) length_done count bytes
             of (k, bytes) \<Rightarrow>
        rw_loop mj offset len (length_done + count) bytes (pos + count) pc k ctx)"
  by pat_completeness auto
termination
proof (relation "measure (\<lambda>(mj, offset, len, done, rest). nat (len - done))", goal_cases)
  case (2 mj offset len length_done)
  then show ?case
    using chunk_size_pos [of "len - length_done" "offset + length_done"] by simp
qed simp

declare rw_loop.simps [simp del]

definition ReadWrite ::
    "kernel \<Rightarrow> object_context option \<Rightarrow> irp \<Rightarrow> int \<Rightarrow> reply \<times> kernel \<times> object_context option" where
  "ReadWrite k context_opt irp pos =
     (let offset = ByteOffset irp; len = Length irp;
          caller = (case system_buffer irp of None \<Rightarrow> [] | Some b \<Rightarrow> b)
      in
      if offset < 0 \<or> s64 (offset + len) < 0
      then (\<lparr>returned = STATUS_SUCCESS, io_Status = STATUS_INVALID_PARAMETER, io_Information = 0,
             io_buffer = caller, io_position = pos\<rparr>, k, context_opt)
      else case context_opt of
        None \<Rightarrow> (complete STATUS_INVALID_DEVICE_REQUEST 0 caller pos, k, None)
      | Some ctx \<Rightarrow>
      if len = 0 then (complete STATUS_SUCCESS 0 caller pos, k, Some ctx)
      else case system_buffer irp of
        None \<Rightarrow> (complete STATUS_INSUFFICIENT_RESOURCES 0 caller pos, k, Some ctx)
      | Some bytes \<Rightarrow>
      case TryAcquireProtection ctx False False of (status, ctx) \<Rightarrow>
      if \<not> NT_SUCCESS status then (complete status 0 bytes pos, k, Some ctx)
      else if MajorFunction irp = IRP_MJ_READ \<and> VirtualSize ctx < offset
      then (complete STATUS_END_OF_FILE 0 bytes pos, k, Some (ReleaseProtection ctx True False))
      else
      let (failure, k, ctx) =
        (if VirtualSize ctx < offset + len \<and> MajorFunction irp = IRP_MJ_WRITE
         then
           case TryAcquireProtection ctx True True of (status, ctx) \<Rightarrow>
           if \<not> NT_SUCCESS status then (Some status, k, ReleaseProtection ctx True False)
           else
             case SetSize k ctx (offset + len) of (status, k, ctx) \<Rightarrow>
             if \<not> NT_SUCCESS status then (Some status, k, ReleaseProtection ctx True True)
             else (None, k, ReleaseProtection ctx False True)
         else (None, k, ctx))
      in case failure of
        Some status \<Rightarrow> (complete status 0 bytes pos, k, Some ctx)
      | None \<Rightarrow>
      let len = (if VirtualSize ctx < offset + len then u32 (VirtualSize ctx - offset) else len)
      in case rw_loop (MajorFunction irp) offset len 0 bytes pos empty_page k ctx of
           (reply, k, ctx) \<Rightarrow> (reply, k, Some ctx))"

section \<open>Control requests\<close>

datatype control_major = IRP_MJ_FILE_SYSTEM_CONTROL | IRP_MJ_DEVICE_CONTROL

record control_irp =
  ct_major :: control_major
  ct_user_fs_request :: bool
  FsControlCode :: int
  InputBuffer :: "byte list"
  OutputBufferLength :: int

definition CTL_CODE :: "int \<Rightarrow> int \<Rightarrow> int \<Rightarrow> int \<Rightarrow> int" where
  "CTL_CODE devtype func mthd access =
     push_bit 16 devtype OR push_bit 14 access OR push_bit 2 func OR mthd"

definition FSCTL_AWEFSALLOC_QUERY_CONTEXT :: int where
  "FSCTL_AWEFSALLOC_QUERY_CONTEXT = CTL_CODE 9 2393 0 0"

definition IOCTL_DISK_GET_LENGTH_INFO :: int where
  "IOCTL_DISK_GET_LENGTH_INFO = CTL_CODE 7 23 0 1"

text \<open>\<open>AWE_FS_AllocFsCtlGuid\<close> in memory, and the size of an \<open>OBJECT_CONTEXT\<close> on 64-bit systems.\<close>

definition AWE_FS_AllocFsCtlGuid :: "byte list" where
  "AWE_FS_AllocFsCtlGuid = to_le 4 0xd099e6fd @ to_le 2 0x9287 @ to_le 2 0x4c62 @
     [0xa7, 0x28, 0xdf, 0xa1, 0xd7, 0xab, 0x15, 0xb1]"

definition sizeof_OBJECT_CONTEXT :: int where "sizeof_OBJECT_CONTEXT = 96"

text \<open>The \<open>switch\<close> has no \<open>break\<close> after the successful cases: each falls through to the next one,
  and all of them to \<open>default\<close>. \<open>layout\<close> is the context in memory.\<close>

definition AllocControl ::
    "(object_context \<Rightarrow> byte list) \<Rightarrow> object_context option \<Rightarrow> control_irp \<Rightarrow> reply" where
  "AllocControl layout context_opt irp =
     (case context_opt of
        None \<Rightarrow> complete STATUS_INVALID_DEVICE_REQUEST 0 (InputBuffer irp) 0
      | Some ctx \<Rightarrow>
      let status =
        (if ct_major irp \<noteq> IRP_MJ_FILE_SYSTEM_CONTROL \<or>
            \<not> ct_user_fs_request irp \<and> ct_major irp \<noteq> IRP_MJ_DEVICE_CONTROL
         then STATUS_INVALID_DEVICE_REQUEST
         else if FsControlCode irp AND 3 \<noteq> 0 then STATUS_INVALID_DEVICE_REQUEST
         else if length (InputBuffer irp) < 16 then STATUS_INVALID_PARAMETER
         else if take 16 (InputBuffer irp) \<noteq> AWE_FS_AllocFsCtlGuid then STATUS_INVALID_PARAMETER
         else STATUS_SUCCESS)
      in
      if \<not> NT_SUCCESS status then complete status 0 (InputBuffer irp) 0
      else
      let buffer0 = InputBuffer irp;
          query = FsControlCode irp = FSCTL_AWEFSALLOC_QUERY_CONTEXT;
          small1 = query \<and> OutputBufferLength irp < sizeof_OBJECT_CONTEXT;
          buffer1 = (if query \<and> \<not> small1 then overlay buffer0 (layout ctx) else buffer0);
          length_info = (query \<and> \<not> small1) \<or> FsControlCode irp = IOCTL_DISK_GET_LENGTH_INFO;
          small2 = length_info \<and> OutputBufferLength irp < 8;
          buffer2 = (if length_info \<and> \<not> small2 then overlay buffer1 (to_le 8 (VirtualSize ctx))
                     else buffer1);
          status = (if small1 \<or> small2 then STATUS_BUFFER_TOO_SMALL
                    else STATUS_INVALID_DEVICE_REQUEST);
          info = (if length_info \<and> \<not> small2 then 8 else 0)
      in complete status (if NT_SUCCESS status then info else 0) buffer2 0)"

definition AllocFlushBuffers :: reply where
  "AllocFlushBuffers = complete STATUS_SUCCESS 0 [] 0"

section \<open>File information\<close>

datatype info_class =
    FileAlignmentInformation | FileAttributeTagInformation | FileBasicInformation
  | FileInternalInformation | FileNetworkOpenInformation | FileStandardInformation
  | FilePositionInformation | FileAllocationInformation | FileEndOfFileInformation
  | FileDispositionInformation | FileValidDataLengthInformation | FileOtherInformation

definition at_offset :: "byte list \<Rightarrow> nat \<Rightarrow> byte list \<Rightarrow> byte list" where
  "at_offset buf off new = take off buf @ overlay (drop off buf) new"

definition QueryInformation :: "object_context \<Rightarrow> info_class \<Rightarrow> nat \<Rightarrow> int \<Rightarrow> reply" where
  "QueryInformation ctx cls len pos =
     (let zeros = replicate len 0;
          total = GetTotalSize (FirstBlock ctx)
      in case cls of
        FileAlignmentInformation \<Rightarrow>
          if len < 4 then complete STATUS_INVALID_PARAMETER 0 zeros pos
          else complete STATUS_SUCCESS 4 (at_offset zeros 0 (to_le 4 0)) pos
      | FileAttributeTagInformation \<Rightarrow> complete STATUS_SUCCESS (int len) zeros pos
      | FileBasicInformation \<Rightarrow> complete STATUS_SUCCESS (int len) zeros pos
      | FileInternalInformation \<Rightarrow> complete STATUS_SUCCESS (int len) zeros pos
      | FileNetworkOpenInformation \<Rightarrow>
          if len < 56
          then \<lparr>returned = STATUS_SUCCESS, io_Status = STATUS_INVALID_PARAMETER,
                io_Information = 0, io_buffer = zeros, io_position = pos\<rparr>
          else complete STATUS_SUCCESS 56
                 (at_offset (at_offset zeros 32 (to_le 8 total)) 40 (to_le 8 (VirtualSize ctx))) pos
      | FileStandardInformation \<Rightarrow>
          if len < 24 then complete STATUS_INVALID_PARAMETER 0 zeros pos
          else complete STATUS_SUCCESS 24
                 (at_offset (at_offset (at_offset zeros 0 (to_le 8 total)) 8
                    (to_le 8 (VirtualSize ctx))) 20 [1]) pos
      | FilePositionInformation \<Rightarrow>
          if len < 8 then complete STATUS_INVALID_PARAMETER 0 zeros pos
          else complete STATUS_SUCCESS 8 (at_offset zeros 0 (to_le 8 pos)) pos
      | _ \<Rightarrow> complete STATUS_INVALID_DEVICE_REQUEST 0 zeros pos)"

definition SetInformation ::
    "kernel \<Rightarrow> object_context \<Rightarrow> info_class \<Rightarrow> byte list \<Rightarrow> int \<Rightarrow> reply \<times> kernel \<times> object_context" where
  "SetInformation k ctx cls buffer0 pos =
     (let set_size =
        (if length buffer0 < 8 then (complete STATUS_BUFFER_TOO_SMALL 0 buffer0 pos, k, ctx)
         else case TryAcquireProtection ctx True False of (status, ctx) \<Rightarrow>
           if \<not> NT_SUCCESS status then (complete status 0 buffer0 pos, k, ctx)
           else case SetSize k ctx (s64 (le_of (take 8 buffer0))) of (status, k, ctx) \<Rightarrow>
             (complete status 0 buffer0 pos, k, ReleaseProtection ctx False True))
      in case cls of
        FileAllocationInformation \<Rightarrow> set_size
      | FileEndOfFileInformation \<Rightarrow> set_size
      | FilePositionInformation \<Rightarrow>
          if length buffer0 < 8 then (complete STATUS_INVALID_PARAMETER 0 buffer0 pos, k, ctx)
          else (complete STATUS_SUCCESS 0 buffer0 (s64 (le_of (take 8 buffer0))), k, ctx)
      | FileBasicInformation \<Rightarrow> (complete STATUS_SUCCESS 0 buffer0 pos, k, ctx)
      | FileDispositionInformation \<Rightarrow> (complete STATUS_SUCCESS 0 buffer0 pos, k, ctx)
      | FileValidDataLengthInformation \<Rightarrow> (complete STATUS_SUCCESS 0 buffer0 pos, k, ctx)
      | _ \<Rightarrow> (complete STATUS_INVALID_DEVICE_REQUEST 0 buffer0 pos, k, ctx))"

section \<open>Loading an image file; create and close\<close>

text \<open>The file to load: how opening and querying it end, its bytes, and how each page read ends.\<close>

record image_file =
  open_status :: ntstatus
  query_status :: ntstatus
  EndOfFile :: int
  file_bytes :: "int \<Rightarrow> byte"
  read_status :: "int \<Rightarrow> ntstatus"

function load_loop ::
    "image_file \<Rightarrow> int \<Rightarrow> ntstatus \<Rightarrow> page_context \<Rightarrow> kernel \<Rightarrow> object_context \<Rightarrow>
     ntstatus \<times> page_context \<times> kernel \<times> object_context" where
  "load_loop f offset status pc k ctx =
     (if EndOfFile f \<le> offset then (status, pc, k, ctx)
      else case MapPage k ctx offset pc of (status, k, ctx, pc) \<Rightarrow>
      if \<not> NT_SUCCESS status then (status, pc, k, ctx)
      else
      let status = read_status f offset;
          bytes = mem_bytes (file_bytes f) offset (nat (min ALLOC_PAGE_SIZE (EndOfFile f - offset)));
          k = (if NT_SUCCESS status
               then fst (copy_chunk IRP_MJ_WRITE k pc 0 0 (int (length bytes)) bytes) else k)
      in
      if \<not> NT_SUCCESS status then (status, pc, k, ctx)
      else load_loop f (offset + ALLOC_PAGE_SIZE) status pc k ctx)"
  by pat_completeness auto
termination
  by (relation "measure (\<lambda>(f, offset, rest). nat (EndOfFile f - offset))")
    (auto simp: ALLOC_PAGE_SIZE_def)

declare load_loop.simps [simp del]

definition LoadImageFile ::
    "kernel \<Rightarrow> object_context \<Rightarrow> image_file \<Rightarrow> ntstatus \<times> kernel \<times> object_context" where
  "LoadImageFile k ctx f =
     (if \<not> NT_SUCCESS (open_status f) then (open_status f, k, ctx)
      else if \<not> NT_SUCCESS (query_status f) then (query_status f, k, ctx)
      else case SetSize k ctx (EndOfFile f) of (status, k, ctx) \<Rightarrow>
      if \<not> NT_SUCCESS status then (status, k, ctx)
      else case load_loop f 0 status empty_page k ctx of (status, pc, k, ctx) \<Rightarrow>
      case MapPage k ctx INVALID_OFFSET pc of (_, k, ctx, _) \<Rightarrow> (status, k, ctx))"

text \<open>\<open>AWE_FS_AllocCreate\<close>: the status and \<open>FsContext2\<close>; without a name the file is empty.\<close>

definition AllocCreate ::
    "kernel \<Rightarrow> image_file option \<Rightarrow> ntstatus \<times> kernel \<times> object_context option" where
  "AllocCreate k named =
     (let granted = pool_grant k (calls k); k = tick k in
      if \<not> granted then (STATUS_INSUFFICIENT_RESOURCES, k, None)
      else
      let k = k\<lparr>pool_blocks := pool_blocks k + 1\<rparr> in
      case named of
        None \<Rightarrow> (STATUS_SUCCESS, k, Some new_context)
      | Some f \<Rightarrow>
          (case LoadImageFile k new_context f of (status, k, ctx) \<Rightarrow> (status, k, Some ctx)))"

definition AllocClose :: "kernel \<Rightarrow> object_context option \<Rightarrow> ntstatus \<times> kernel" where
  "AllocClose k context_opt =
     (case context_opt of None \<Rightarrow> (STATUS_SUCCESS, k)
      | Some ctx \<Rightarrow>
          (case SetSize k ctx 0 of (_, k, ctx) \<Rightarrow>
             (STATUS_SUCCESS, k\<lparr>pool_blocks := pool_blocks k - 1\<rparr>)))"

end
