(* ===== verification/Awe_Refine.thy ===== *)
theory Awe_Refine
  imports Awe_File
begin

text \<open>
  What \<open>awefsalloc\<close> promises: its block list is a gap-free address space (\<open>chain\<close>), its resources
  are accounted for (\<open>owns\<close>), and reads and writes work on the flat byte array \<open>awe_bytes\<close>. The
  lemmas follow the code: block list, \<open>MapPage\<close>, the copy loop, \<open>SetSize\<close>, the handlers.
\<close>

section \<open>The address space of a block list\<close>

fun chain :: "block_descriptor list \<Rightarrow> bool" where
  "chain [] = True"
| "chain (b # bs) \<longleftrightarrow> Offset b = GetTotalSize bs \<and> 0 < GetPageBaseFromAbsOffset (ByteCount (Mdl b)) \<and> chain bs"

definition regions :: "block_descriptor list \<Rightarrow> nat list" where
  "regions bs = map (\<lambda>b. m_region (Mdl b)) bs"

lemma regions_simps [simp]:
  "regions [] = []" "regions (b # bs) = m_region (Mdl b) # regions bs"
  by (simp_all add: regions_def)

text \<open>The byte at an offset, and the place of a page.\<close>

definition block_bytes :: "kernel \<Rightarrow> block_descriptor list \<Rightarrow> int \<Rightarrow> byte" where
  "block_bytes k bs i =
     (case find_block bs (GetPageBaseFromAbsOffset i) of None \<Rightarrow> 0
      | Some b \<Rightarrow> ram k (m_region (Mdl b)) (i - Offset b))"

definition page_place :: "block_descriptor list \<Rightarrow> int \<Rightarrow> place option" where
  "page_place bs page_base =
     (case find_block bs page_base of None \<Rightarrow> None
      | Some b \<Rightarrow> if ByteCount (Mdl b) \<le> page_base - Offset b then None
                 else Some (m_region (Mdl b), page_base - Offset b))"

lemma GetTotalSize_simps [simp]:
  "GetTotalSize [] = 0"
  "GetTotalSize (b # bs) = Offset b + GetPageBaseFromAbsOffset (ByteCount (Mdl b))"
  by (simp_all add: GetTotalSize_def)

lemma chain_total: "chain bs \<Longrightarrow> 0 \<le> GetTotalSize bs \<and> ALLOC_PAGE_SIZE dvd GetTotalSize bs"
  by (induction bs) (auto intro: dvd_add page_base_dvd)

lemma page_base_idem [simp]:
  "GetPageBaseFromAbsOffset (GetPageBaseFromAbsOffset x) = GetPageBaseFromAbsOffset x"
  by (simp add: page_base_div ALLOC_PAGE_SIZE_def)

lemma page_base_offset: "GetPageBaseFromAbsOffset x + GetPageOffsetFromAbsOffset x = x"
  by (simp add: page_base_div page_offset_range(3))

lemma page_base_same:
  assumes "GetPageBaseFromAbsOffset x \<le> y" "y < GetPageBaseFromAbsOffset x + ALLOC_PAGE_SIZE"
  shows "GetPageBaseFromAbsOffset y = GetPageBaseFromAbsOffset x"
proof -
  have "y div ALLOC_PAGE_SIZE = x div ALLOC_PAGE_SIZE"
  proof -
    let ?q = "x div ALLOC_PAGE_SIZE"
    have d: "ALLOC_PAGE_SIZE \<noteq> 0" by (simp add: ALLOC_PAGE_SIZE_def)
    have "y div ALLOC_PAGE_SIZE = ((y - ALLOC_PAGE_SIZE * ?q) + ALLOC_PAGE_SIZE * ?q) div ALLOC_PAGE_SIZE"
      by simp
    also have "\<dots> = (y - ALLOC_PAGE_SIZE * ?q) div ALLOC_PAGE_SIZE + ?q"
      by (rule trans [OF div_mult_self2 [OF d]]) simp
    moreover have "(y - ALLOC_PAGE_SIZE * ?q) div ALLOC_PAGE_SIZE = 0"
      using assms by (intro div_pos_pos_trivial) (simp_all add: page_base_div algebra_simps)
    ultimately show ?thesis by simp
  qed
  then show ?thesis by (simp add: page_base_div)
qed

lemma aligned_room:
  assumes "ALLOC_PAGE_SIZE dvd a" "ALLOC_PAGE_SIZE dvd b" "a < b"
  shows "a + ALLOC_PAGE_SIZE \<le> b"
proof -
  have "ALLOC_PAGE_SIZE \<le> b - a" using assms by (intro zdvd_imp_le dvd_diff) auto
  then show ?thesis by simp
qed

lemma find_block_in:
  assumes "chain bs" "ALLOC_PAGE_SIZE dvd p" "0 \<le> p" "p < GetTotalSize bs"
  shows "\<exists>b \<in> set bs. find_block bs p = Some b \<and> Offset b \<le> p \<and>
     p + ALLOC_PAGE_SIZE \<le> Offset b + GetPageBaseFromAbsOffset (ByteCount (Mdl b))"
  using assms
proof (induction bs)
  case (Cons b bs)
  show ?case
  proof (cases "p < Offset b")
    case True
    with Cons show ?thesis by auto
  next
    case False
    have "ALLOC_PAGE_SIZE dvd GetTotalSize (b # bs)" using chain_total [OF Cons.prems(1)] by blast
    with aligned_room [OF Cons.prems(2) _ Cons.prems(4)] False show ?thesis by auto
  qed
qed simp

lemma find_block_mem: "find_block bs p = Some b \<Longrightarrow> b \<in> set bs \<and> Offset b \<le> p"
  by (induction bs) (auto split: if_splits)

lemma page_place_in:
  assumes "chain bs" "0 \<le> i" "i < GetTotalSize bs"
  shows "\<exists>b. find_block bs (GetPageBaseFromAbsOffset i) = Some b \<and>
    page_place bs (GetPageBaseFromAbsOffset i) = Some (m_region (Mdl b), GetPageBaseFromAbsOffset i - Offset b)"
proof -
  have "GetPageBaseFromAbsOffset i < GetTotalSize bs" using page_base_le [of i] assms(3) by linarith
  from find_block_in [OF assms(1) page_base_dvd page_base_nonneg [OF assms(2)] this]
  obtain b where b: "find_block bs (GetPageBaseFromAbsOffset i) = Some b"
    "GetPageBaseFromAbsOffset i + ALLOC_PAGE_SIZE \<le> Offset b + GetPageBaseFromAbsOffset (ByteCount (Mdl b))"
    by blast
  have "\<not> ByteCount (Mdl b) \<le> GetPageBaseFromAbsOffset i - Offset b"
    using b(2) page_base_le [of "ByteCount (Mdl b)"] by (simp add: ALLOC_PAGE_SIZE_def)
  with b show ?thesis by (simp add: page_place_def)
qed

lemma same_region:
  assumes "distinct (regions bs)" "b \<in> set bs" "c \<in> set bs" "m_region (Mdl b) = m_region (Mdl c)"
  shows "b = c"
  using assms inj_onD [of "\<lambda>b. m_region (Mdl b)" "set bs" b c]
  by (auto simp: regions_def distinct_map)

text \<open>Bytes read or written through the place of a page are bytes of the address space.\<close>

lemma place_read:
  assumes "page_place bs (GetPageBaseFromAbsOffset i) = Some (r, base)"
    "GetPageOffsetFromAbsOffset i + int n \<le> ALLOC_PAGE_SIZE"
  shows "mem_bytes (ram k r) (base + GetPageOffsetFromAbsOffset i) n = mem_bytes (block_bytes k bs) i n"
proof -
  obtain b where b: "find_block bs (GetPageBaseFromAbsOffset i) = Some b" "r = m_region (Mdl b)"
    "base = GetPageBaseFromAbsOffset i - Offset b"
    using assms(1) by (auto simp: page_place_def split: option.splits if_splits)
  have "block_bytes k bs (i + int j) = ram k r (base + GetPageOffsetFromAbsOffset i + int j)" if "j < n" for j
  proof -
    have "GetPageBaseFromAbsOffset (i + int j) = GetPageBaseFromAbsOffset i"
      using that assms(2) page_base_offset [of i] page_base_le [of i] by (intro page_base_same) auto
    moreover have e: "i + int j - Offset b = base + GetPageOffsetFromAbsOffset i + int j"
      using b(3) page_base_offset [of i] by linarith
    ultimately show ?thesis using b(1,2) by (simp only: block_bytes_def option.case e)
  qed
  then show ?thesis by (intro nth_equalityI) (auto simp: add.assoc)
qed

lemma place_write:
  assumes "page_place bs (GetPageBaseFromAbsOffset i) = Some (r, base)" "distinct (regions bs)"
    "GetPageOffsetFromAbsOffset i + int (length new) \<le> ALLOC_PAGE_SIZE"
  shows "block_bytes (k\<lparr>ram := (ram k)(r := mem_write (ram k r) (base + GetPageOffsetFromAbsOffset i) new)\<rparr>) bs
     = mem_write (block_bytes k bs) i new"
proof
  fix j
  obtain b where b: "find_block bs (GetPageBaseFromAbsOffset i) = Some b" "r = m_region (Mdl b)"
    "base = GetPageBaseFromAbsOffset i - Offset b"
    using assms(1) by (auto simp: page_place_def split: option.splits if_splits)
  have base: "base + GetPageOffsetFromAbsOffset i = i - Offset b"
    using b(3) page_base_offset [of i] by linarith
  have in_page: "GetPageBaseFromAbsOffset j = GetPageBaseFromAbsOffset i" if "i \<le> j" "j < i + int (length new)"
    using that assms(3) page_base_offset [of i] page_base_le [of i] by (intro page_base_same) auto
  show "block_bytes (k\<lparr>ram := (ram k)(r := mem_write (ram k r) (base + GetPageOffsetFromAbsOffset i) new)\<rparr>) bs j
     = mem_write (block_bytes k bs) i new j"
  proof (cases "find_block bs (GetPageBaseFromAbsOffset j)")
    case None
    then have "\<not> (i \<le> j \<and> j < i + int (length new))" using in_page b(1) by auto
    with None show ?thesis by (auto simp: block_bytes_def mem_write_def)
  next
    case (Some c)
    show ?thesis
    proof (cases "m_region (Mdl c) = r")
      case True
      then have "c = b" using same_region [OF assms(2)] find_block_mem [OF Some] find_block_mem [OF b(1)] b(2) by blast
      with Some b(2) base show ?thesis by (simp add: block_bytes_def mem_write_def)
    next
      case False
      then have "c \<noteq> b" using b(2) by auto
      then have "\<not> (i \<le> j \<and> j < i + int (length new))" using in_page b(1) Some by auto
      with Some False show ?thesis by (auto simp: block_bytes_def mem_write_def)
    qed
  qed
qed

section \<open>Mapped pages and resources\<close>

definition held :: "page_context \<Rightarrow> int" where
  "held pc = (if PcMdl pc = None then 0 else 1)"

definition page_ok :: "block_descriptor list \<Rightarrow> page_context \<Rightarrow> bool" where
  "page_ok bs pc \<longleftrightarrow>
     (\<forall>pl. PcMdl pc = Some pl \<longrightarrow> PcPtr pc = Some pl \<and> page_place bs (PageBase pc) = Some pl \<and>
        PageBase pc < GetTotalSize bs)"

lemma page_ok_empty [simp]: "page_ok bs empty_page" "held empty_page = 0" "PcMdl empty_page = None"
  by (simp_all add: page_ok_def held_def empty_page_def)

definition granting :: "kernel \<Rightarrow> bool" where
  "granting k \<longleftrightarrow> (\<forall>n. mdl_grant k n \<and> map_grant k n)"

text \<open>The outcomes of \<open>MapPage\<close>: the caller's page, the cached page, no page, or a new mapping.\<close>

lemma MapPage_outcomes:
  assumes "MapPage k ctx off pc = (st, k', ctx', pc')"
  obtains
    (mine) "st = STATUS_SUCCESS" "k' = k" "ctx' = ctx" "pc' = pc"
      "page_is_mapped pc off (GetPageBaseFromAbsOffset off)"
  | (cached) n where "st = STATUS_SUCCESS" "k' = k" "ctx' = ctx\<lparr>LatestPageContext := pc\<rparr>"
      "pc' = (LatestPageContext ctx)\<lparr>UsageCount := n\<rparr>" "page_is_mapped pc' off (GetPageBaseFromAbsOffset off)"
  | (none) c where "k' = k\<lparr>partials := partials k - held (LatestPageContext ctx), calls := c\<rparr>"
      "ctx' = ctx\<lparr>LatestPageContext := pc\<rparr>" "pc' = empty_page" "st = STATUS_SUCCESS \<Longrightarrow> off < 0"
      "off < 0 \<Longrightarrow> st = STATUS_SUCCESS"
  | (new) c pl where "k' = k\<lparr>partials := partials k - held (LatestPageContext ctx) + 1, calls := c\<rparr>"
      "ctx' = ctx\<lparr>LatestPageContext := pc\<rparr>" "st = STATUS_SUCCESS" "0 \<le> off"
      "pc' = empty_page\<lparr>PcMdl := Some pl, PcPtr := Some pl, PageBase := GetPageBaseFromAbsOffset off\<rparr>"
      "page_place (FirstBlock ctx) (GetPageBaseFromAbsOffset off) = Some pl"
proof (cases "page_is_mapped pc off (GetPageBaseFromAbsOffset off)")
  case True
  with assms mine show thesis by (simp add: MapPage_def Let_def)
next
  case f1: False
  let ?b = "GetPageBaseFromAbsOffset off"
  let ?l = "(LatestPageContext ctx)\<lparr>UsageCount := s64 (UsageCount (LatestPageContext ctx) + 1)\<rparr>"
  let ?c = "ctx\<lparr>LatestPageContext := pc\<rparr>"
  let ?k = "k\<lparr>partials := partials k - held (LatestPageContext ctx)\<rparr>"
  show thesis
  proof (cases "page_is_mapped ?l off ?b")
    case True
    with assms f1 cached [of "s64 (UsageCount (LatestPageContext ctx) + 1)"] show thesis
      by (simp add: MapPage_def Let_def ExchangeMapPage_def)
  next
    case f2: False
    note m = assms [unfolded MapPage_def Let_def ExchangeMapPage_def prod.case if_not_P [OF f1]
        if_not_P [OF f2]]
    have k: "(if PcMdl ?l \<noteq> None then k\<lparr>partials := partials k - 1\<rparr> else k) = ?k"
      by (simp add: held_def)
    note m = m [unfolded k]
    show thesis
    proof (cases "off < 0")
      case True
      with m have "st = STATUS_SUCCESS \<and> k' = ?k \<and> ctx' = ?c \<and> pc' = empty_page" by simp
      with True none [of "calls k"] show thesis by simp
    next
      case pos: False
      note m = m [unfolded if_not_P [OF pos]]
      show thesis
      proof (cases "find_block (FirstBlock ctx) ?b")
        case None
        with m have "st \<noteq> STATUS_SUCCESS \<and> k' = ?k \<and> ctx' = ?c \<and> pc' = empty_page" by auto
        with pos none [of "calls k"] show thesis by simp
      next
        case (Some block)
        show thesis
        proof (cases "ByteCount (Mdl block) \<le> ?b - Offset block")
          case True
          with m Some have "st \<noteq> STATUS_SUCCESS \<and> k' = ?k \<and> ctx' = ?c \<and> pc' = empty_page" by auto
          with pos none [of "calls k"] show thesis by simp
        next
          case fits: False
          then have pl: "page_place (FirstBlock ctx) ?b = Some (m_region (Mdl block), ?b - Offset block)"
            using Some by (simp add: page_place_def)
          show thesis
          proof (cases "mdl_grant k (calls k)")
            case False
            with m pos Some fits none [of "calls k + 1"] show thesis by (auto simp: tick_def)
          next
            case g1: True
            show thesis
            proof (cases "map_grant k (calls k + 1)")
              case True
              with m pos Some fits g1 pl new [of "calls k + 2"] show thesis
                by (auto simp: tick_def empty_page_def)
            next
              case False
              with m pos Some fits g1 none [of "calls k + 2"] show thesis
                by (auto simp: tick_def empty_page_def)
            qed
          qed
        qed
      qed
    qed
  qed
qed

lemma MapPage_frame:
  assumes "MapPage k ctx off pc = (st, k', ctx', pc')"
  obtains p c pg where "k' = k\<lparr>partials := p, calls := c\<rparr>" "ctx' = ctx\<lparr>LatestPageContext := pg\<rparr>"
proof -
  have "\<exists>p c. k' = k\<lparr>partials := p, calls := c\<rparr>"
    using assms
  proof (cases rule: MapPage_outcomes)
    case mine
    then show ?thesis by (intro exI [of _ "partials k"] exI [of _ "calls k"]) simp
  next
    case cached
    then show ?thesis by (intro exI [of _ "partials k"] exI [of _ "calls k"]) simp
  qed auto
  moreover have "\<exists>pg. ctx' = ctx\<lparr>LatestPageContext := pg\<rparr>"
    using assms
  proof (cases rule: MapPage_outcomes)
    case mine
    then show ?thesis by (intro exI [of _ "LatestPageContext ctx"]) simp
  qed auto
  ultimately show thesis using that by blast
qed

lemma MapPage_account:
  assumes "MapPage k ctx off pc = (st, k', ctx', pc')"
  shows "partials k' - held (LatestPageContext ctx') - held pc' =
         partials k - held (LatestPageContext ctx) - held pc"
  using assms by (rule MapPage_outcomes) (simp_all add: held_def)

lemma MapPage_pages:
  assumes "MapPage k ctx off pc = (st, k', ctx', pc')"
    "page_ok (FirstBlock ctx) (LatestPageContext ctx)" "page_ok (FirstBlock ctx) pc"
    "off < 0 \<or> off < GetTotalSize (FirstBlock ctx)"
  shows "page_ok (FirstBlock ctx) (LatestPageContext ctx')" "page_ok (FirstBlock ctx) pc'"
    "st \<noteq> STATUS_SUCCESS \<Longrightarrow> pc' = empty_page"
  using assms(1)
  by (rule MapPage_outcomes; use assms(2-) page_base_le [of off] in \<open>auto simp: page_ok_def\<close>)+

lemma MapPage_store:
  assumes "MapPage k ctx off pc = (st, k', ctx', pc')" "off < 0"
  shows "st = STATUS_SUCCESS" "pc' = empty_page"
  using assms(1) by (rule MapPage_outcomes; use assms(2) in \<open>auto simp: page_is_mapped_def\<close>)+

lemma MapPage_place:
  assumes "MapPage k ctx off pc = (STATUS_SUCCESS, k', ctx', pc')" "0 \<le> off"
    "page_ok (FirstBlock ctx) (LatestPageContext ctx)" "page_ok (FirstBlock ctx) pc"
  shows "\<exists>pl. PcPtr pc' = Some pl \<and> page_place (FirstBlock ctx) (GetPageBaseFromAbsOffset off) = Some pl"
  using assms(1)
  by (rule MapPage_outcomes; use assms(2-) in \<open>auto simp: page_is_mapped_def page_ok_def\<close>)

lemma MapPage_granted:
  assumes "MapPage k ctx off pc = (st, k', ctx', pc')" "0 \<le> off" "off < GetTotalSize (FirstBlock ctx)"
    "chain (FirstBlock ctx)" "granting k"
  shows "st = STATUS_SUCCESS"
proof -
  obtain b where b: "find_block (FirstBlock ctx) (GetPageBaseFromAbsOffset off) = Some b"
    "page_place (FirstBlock ctx) (GetPageBaseFromAbsOffset off) =
       Some (m_region (Mdl b), GetPageBaseFromAbsOffset off - Offset b)"
    using page_place_in [OF assms(4,2,3)] by blast
  then have "\<not> ByteCount (Mdl b) \<le> GetPageBaseFromAbsOffset off - Offset b"
    by (auto simp: page_place_def)
  with b(1) assms(1,2,5) show ?thesis
    by (auto simp: MapPage_def Let_def ExchangeMapPage_def tick_def granting_def split: if_splits)
qed

section \<open>The copy loop\<close>

lemma chunk_in_page:
  "0 < left \<Longrightarrow> GetPageOffsetFromAbsOffset i + chunk_size i left \<le> ALLOC_PAGE_SIZE"
  by (simp add: chunk_size_def Let_def)

lemma copy_chunk_read:
  assumes "PcPtr pc = Some pl" "page_place bs (GetPageBaseFromAbsOffset i) = Some pl"
    "0 \<le> count" "GetPageOffsetFromAbsOffset i + count \<le> ALLOC_PAGE_SIZE"
  shows "copy_chunk IRP_MJ_READ k pc (GetPageOffsetFromAbsOffset i) length_done count bytes =
    (k, take (nat length_done) bytes @ mem_bytes (block_bytes k bs) i (nat count) @
        drop (nat (length_done + count)) bytes)"
proof -
  obtain r base where pl: "pl = (r, base)" by (cases pl)
  with place_read [of bs i r base "nat count" k] assms show ?thesis by (simp add: copy_chunk_def)
qed

lemma copy_chunk_write:
  assumes "PcPtr pc = Some pl" "page_place bs (GetPageBaseFromAbsOffset i) = Some pl"
    "distinct (regions bs)" "0 \<le> count" "GetPageOffsetFromAbsOffset i + count \<le> ALLOC_PAGE_SIZE"
  shows "\<exists>m. copy_chunk IRP_MJ_WRITE k pc (GetPageOffsetFromAbsOffset i) length_done count bytes =
       (k\<lparr>ram := m\<rparr>, bytes) \<and>
     block_bytes (k\<lparr>ram := m\<rparr>) bs =
       mem_write (block_bytes k bs) i (take (nat count) (drop (nat length_done) bytes))"
proof -
  obtain r base where pl: "pl = (r, base)" by (cases pl)
  have "int (length (take (nat count) (drop (nat length_done) bytes))) \<le> count"
    using assms(4) by simp
  with place_write [of bs i r base "take (nat count) (drop (nat length_done) bytes)" k] pl assms
  show ?thesis
    by (intro exI [of _ "(ram k)(r := mem_write (ram k r) (base + GetPageOffsetFromAbsOffset i)
        (take (nat count) (drop (nat length_done) bytes)))"]) (simp add: copy_chunk_def)
qed

lemma block_bytes_ram: "ram k' = ram k \<Longrightarrow> block_bytes k' bs = block_bytes k bs"
  by (rule ext) (simp add: block_bytes_def split: option.split)

text \<open>The loop's result: what it leaves in the caller's buffer and in the address space.\<close>

fun rw_done :: "major \<Rightarrow> (int \<Rightarrow> byte) \<Rightarrow> int \<Rightarrow> int \<Rightarrow> int \<Rightarrow> byte list \<Rightarrow> byte list \<times> (int \<Rightarrow> byte)" where
  "rw_done IRP_MJ_READ f offset len length_done bytes =
     (take (nat length_done) bytes @ mem_bytes f (offset + length_done) (nat (len - length_done)) @
      drop (nat len) bytes, f)"
| "rw_done IRP_MJ_WRITE f offset len length_done bytes =
     (bytes, mem_write f (offset + length_done) (take (nat (len - length_done)) (drop (nat length_done) bytes)))"

lemma rw_done_end: "rw_done mj f offset len len bytes = (bytes, f)"
  by (cases mj) simp_all

lemma rw_done_read_step:
  assumes "0 \<le> length_done" "0 \<le> count" "length_done + count \<le> len" "len \<le> int (length bytes)"
  shows "rw_done IRP_MJ_READ f offset len (length_done + count)
      (take (nat length_done) bytes @ mem_bytes f (offset + length_done) (nat count) @
       drop (nat (length_done + count)) bytes) = rw_done IRP_MJ_READ f offset len length_done bytes"
proof -
  have n: "nat (len - length_done) = nat count + nat (len - (length_done + count))"
    using assms by (simp add: nat_add_distrib [symmetric])
  have c: "int (nat count) = count" using assms by simp
  have m: "mem_bytes f (offset + length_done) (nat (len - length_done)) =
      mem_bytes f (offset + length_done) (nat count) @
      mem_bytes f (offset + (length_done + count)) (nat (len - (length_done + count)))"
    unfolding n mem_bytes_append [symmetric] c by (simp only: add.assoc)
  let ?new = "take (nat length_done) bytes @ mem_bytes f (offset + length_done) (nat count) @
       drop (nat (length_done + count)) bytes"
  have k: "nat (length_done + count) = nat length_done + nat count" using assms by (simp add: nat_add_distrib)
  have l: "length (take (nat length_done) bytes) = nat length_done" using assms by simp
  have t: "take (nat (length_done + count)) ?new =
      take (nat length_done) bytes @ mem_bytes f (offset + length_done) (nat count)"
    unfolding k using l by simp
  have "nat len = nat (len - (length_done + count)) + nat (length_done + count)"
    using assms by (simp add: nat_add_distrib [symmetric])
  then have dd: "drop (nat len) ys = drop (nat (len - (length_done + count))) (drop (nat (length_done + count)) ys)"
    for ys :: "byte list" by (simp only: drop_drop)
  have "drop (nat (length_done + count)) ?new = drop (nat (length_done + count)) bytes"
    unfolding k using l by simp
  then have d: "drop (nat len) ?new = drop (nat len) bytes" by (simp only: dd)
  show ?thesis unfolding rw_done.simps t d m by simp
qed

lemma rw_done_write_step:
  assumes "0 \<le> length_done" "0 \<le> count" "length_done + count \<le> len" "len \<le> int (length bytes)"
  shows "rw_done IRP_MJ_WRITE
      (mem_write f (offset + length_done) (take (nat count) (drop (nat length_done) bytes)))
      offset len (length_done + count) bytes = rw_done IRP_MJ_WRITE f offset len length_done bytes"
proof -
  have n: "nat (len - length_done) = nat count + nat (len - (length_done + count))"
    using assms by (simp add: nat_add_distrib [symmetric])
  have "take (nat (len - length_done)) (drop (nat length_done) bytes) =
      take (nat count) (drop (nat length_done) bytes) @
      take (nat (len - (length_done + count))) (drop (nat (length_done + count)) bytes)"
    unfolding n take_add using assms by (simp add: drop_drop nat_add_distrib add.commute)
  moreover have "int (length (take (nat count) (drop (nat length_done) bytes))) = count"
    using assms by simp
  ultimately show ?thesis by (simp add: mem_write_append add.assoc)
qed

text \<open>The pages of a context, and what a request may change: memory contents, mappings, the
  counters of the protection.\<close>

definition pages_ok :: "object_context \<Rightarrow> bool" where
  "pages_ok ctx \<longleftrightarrow> chain (FirstBlock ctx) \<and> distinct (regions (FirstBlock ctx)) \<and>
     page_ok (FirstBlock ctx) (LatestPageContext ctx)"

definition loop_post ::
    "major \<Rightarrow> int \<Rightarrow> int \<Rightarrow> int \<Rightarrow> byte list \<Rightarrow> int \<Rightarrow> page_context \<Rightarrow> kernel \<Rightarrow> object_context \<Rightarrow>
     reply \<times> kernel \<times> object_context \<Rightarrow> bool" where
  "loop_post mj offset len length_done bytes pos pc k ctx res =
     (case res of (r, k', ctx') \<Rightarrow>
      (\<exists>m p c pg. k' = k\<lparr>ram := m, partials := p, calls := c\<rparr> \<and>
         ctx' = ReleaseProtection (ctx\<lparr>LatestPageContext := pg\<rparr>) True False \<and>
         page_ok (FirstBlock ctx) pg \<and>
         p - held pg = partials k - held (LatestPageContext ctx) - held pc) \<and>
      returned r = io_Status r \<and>
      (returned r = STATUS_SUCCESS \<longrightarrow>
         io_Information r = len \<and> io_position r = pos + (len - length_done) \<and>
         (io_buffer r, block_bytes k' (FirstBlock ctx)) =
           rw_done mj (block_bytes k (FirstBlock ctx)) offset len length_done bytes) \<and>
      (returned r \<noteq> STATUS_SUCCESS \<longrightarrow> io_Information r = 0) \<and>
      (granting k \<longrightarrow> returned r = STATUS_SUCCESS))"

lemma Release_fields [simp]:
  "FirstBlock (ReleaseProtection ctx a b) = FirstBlock ctx"
  "LatestPageContext (ReleaseProtection ctx a b) = LatestPageContext ctx"
  "VirtualSize (ReleaseProtection ctx a b) = VirtualSize ctx"
  "ReleaseProtection (ctx\<lparr>LatestPageContext := pc\<rparr>) a b = (ReleaseProtection ctx a b)\<lparr>LatestPageContext := pc\<rparr>"
  by (simp_all add: ReleaseProtection_def Let_def)

lemma loop_end:
  assumes "pages_ok ctx" "page_ok (FirstBlock ctx) pc" "MapPage k ctx INVALID_OFFSET pc = (st, k', ctx', pc')"
  shows "loop_post mj offset len len bytes pos pc k ctx
    (complete STATUS_SUCCESS len bytes pos, k', ReleaseProtection ctx' True False)"
proof -
  obtain p c pg where f: "k' = k\<lparr>partials := p, calls := c\<rparr>" "ctx' = ctx\<lparr>LatestPageContext := pg\<rparr>"
    by (rule MapPage_frame [OF assms(3)])
  have "page_ok (FirstBlock ctx) pg" "p - held pg = partials k - held (LatestPageContext ctx) - held pc"
    using MapPage_account [OF assms(3)] MapPage_store [OF assms(3)] MapPage_pages [OF assms(3)] assms(1,2) f
    by (simp_all add: pages_ok_def INVALID_OFFSET_def)
  moreover have "k' = k\<lparr>ram := ram k, partials := p, calls := c\<rparr>" using f by simp
  moreover have "block_bytes k' bs = block_bytes k bs" for bs using f by (intro block_bytes_ram) simp
  ultimately show ?thesis unfolding loop_post_def prod.case
    by (intro conjI exI [of _ "ram k"] exI [of _ p] exI [of _ c] exI [of _ pg])
      (simp_all add: complete_def rw_done_end f)
qed

lemma loop_failed:
  assumes "pages_ok ctx" "page_ok (FirstBlock ctx) pc" "MapPage k ctx off pc = (st, k', ctx', pc')"
    "st \<noteq> STATUS_SUCCESS" "0 \<le> off" "off < GetTotalSize (FirstBlock ctx)"
  shows "loop_post mj offset len length_done bytes pos pc k ctx
    (complete st 0 bytes pos, k', ReleaseProtection ctx' True False)"
proof -
  obtain p c pg where f: "k' = k\<lparr>partials := p, calls := c\<rparr>" "ctx' = ctx\<lparr>LatestPageContext := pg\<rparr>"
    by (rule MapPage_frame [OF assms(3)])
  have "page_ok (FirstBlock ctx) pg" "p - held pg = partials k - held (LatestPageContext ctx) - held pc"
    using MapPage_account [OF assms(3)] MapPage_pages [OF assms(3)] assms(1,2,4,6) f
    by (simp_all add: pages_ok_def)
  moreover have "k' = k\<lparr>ram := ram k, partials := p, calls := c\<rparr>" using f by simp
  moreover have "\<not> granting k"
    using MapPage_granted [OF assms(3,5,6)] assms(1,4) by (auto simp: pages_ok_def)
  ultimately show ?thesis unfolding loop_post_def prod.case
    by (intro conjI exI [of _ "ram k"] exI [of _ p] exI [of _ c] exI [of _ pg])
      (simp_all add: complete_def assms(4) f)
qed

lemma copy_step:
  assumes "PcPtr pc = Some pl" "page_place bs (GetPageBaseFromAbsOffset (offset + length_done)) = Some pl"
    "distinct (regions bs)" "0 \<le> length_done" "0 \<le> count" "length_done + count \<le> len"
    "len \<le> int (length bytes)"
    "GetPageOffsetFromAbsOffset (offset + length_done) + count \<le> ALLOC_PAGE_SIZE"
  shows "\<exists>m bytes'. copy_chunk mj k pc (GetPageOffsetFromAbsOffset (offset + length_done)) length_done count bytes
       = (k\<lparr>ram := m\<rparr>, bytes') \<and> length bytes' = length bytes \<and>
     rw_done mj (block_bytes (k\<lparr>ram := m\<rparr>) bs) offset len (length_done + count) bytes' =
       rw_done mj (block_bytes k bs) offset len length_done bytes"
proof (cases mj)
  case IRP_MJ_READ
  have l: "nat (length_done + count) = nat length_done + nat count" using assms by (simp add: nat_add_distrib)
  have "nat length_done + nat count \<le> length bytes" using assms by linarith
  then have "length (take (nat length_done) bytes @ mem_bytes f i (nat count) @ drop (nat (length_done + count)) bytes)
      = length bytes" for f i by (simp add: l)
  with copy_chunk_read [OF assms(1,2,5,8)] rw_done_read_step [OF assms(4-7)] IRP_MJ_READ show ?thesis
    by (intro exI [of _ "ram k"]) (simp del: rw_done.simps)
next
  case IRP_MJ_WRITE
  from copy_chunk_write [OF assms(1,2,3,5,8)] obtain m where
    "copy_chunk IRP_MJ_WRITE k pc (GetPageOffsetFromAbsOffset (offset + length_done)) length_done count bytes =
       (k\<lparr>ram := m\<rparr>, bytes)"
    "block_bytes (k\<lparr>ram := m\<rparr>) bs = mem_write (block_bytes k bs) (offset + length_done)
       (take (nat count) (drop (nat length_done) bytes))" by blast
  with rw_done_write_step [OF assms(4-7)] IRP_MJ_WRITE show ?thesis
    by (intro exI [of _ m] exI [of _ bytes]) (simp del: rw_done.simps)
qed

lemma loop_compose:
  assumes "loop_post mj offset len (length_done + count) bytes' (pos + count) pc'
      (k\<lparr>partials := p, calls := c, ram := m\<rparr>) (ctx\<lparr>LatestPageContext := pg\<rparr>) res"
    "p - held pg - held pc' = partials k - held (LatestPageContext ctx) - held pc"
    "rw_done mj (block_bytes (k\<lparr>partials := p, calls := c, ram := m\<rparr>) (FirstBlock ctx)) offset len
       (length_done + count) bytes' = rw_done mj (block_bytes k (FirstBlock ctx)) offset len length_done bytes"
  shows "loop_post mj offset len length_done bytes pos pc k ctx res"
proof -
  obtain r k' ctx' where res: "res = (r, k', ctx')" by (metis prod_cases3)
  note a = assms(1) [unfolded loop_post_def res prod.case]
  from a obtain m' p' c' pg' where
    "k' = k\<lparr>partials := p, calls := c, ram := m\<rparr>\<lparr>ram := m', partials := p', calls := c'\<rparr>"
    "ctx' = ReleaseProtection (ctx\<lparr>LatestPageContext := pg\<rparr>\<lparr>LatestPageContext := pg'\<rparr>) True False"
    "page_ok (FirstBlock ctx) pg'" "p' - held pg' = p - held pg - held pc'" by auto
  then have "\<exists>m p c pg. k' = k\<lparr>ram := m, partials := p, calls := c\<rparr> \<and>
         ctx' = ReleaseProtection (ctx\<lparr>LatestPageContext := pg\<rparr>) True False \<and>
         page_ok (FirstBlock ctx) pg \<and>
         p - held pg = partials k - held (LatestPageContext ctx) - held pc"
    using assms(2) by (intro exI [of _ m'] exI [of _ p'] exI [of _ c'] exI [of _ pg']) simp
  moreover have "granting (k\<lparr>partials := p, calls := c, ram := m\<rparr>) = granting k" by (simp add: granting_def)
  ultimately show ?thesis
    using conjunct2 [OF a] assms(3) unfolding loop_post_def res prod.case
    by (elim conjE, intro conjI impI) (simp_all del: rw_done.simps)
qed

lemma rw_loop_post:
  assumes "pages_ok ctx" "page_ok (FirstBlock ctx) pc" "0 \<le> offset" "0 \<le> length_done"
    "length_done \<le> len" "len \<le> int (length bytes)" "offset + len \<le> GetTotalSize (FirstBlock ctx)"
  shows "loop_post mj offset len length_done bytes pos pc k ctx
           (rw_loop mj offset len length_done bytes pos pc k ctx)"
  using assms
proof (induction "nat (len - length_done)" arbitrary: length_done bytes pos pc k ctx rule: less_induct)
  case less
  show ?case
  proof (cases "len \<le> length_done")
    case True
    then have "len = length_done" using less.prems by simp
    then show ?thesis
      using loop_end [OF less.prems(1,2)]
      by (subst rw_loop.simps) (auto simp: Let_def split: prod.splits)
  next
    case False
    define i where "i = offset + length_done"
    define count where "count = chunk_size i (len - length_done)"
    have c: "0 < count" "length_done + count \<le> len"
      "GetPageOffsetFromAbsOffset i + count \<le> ALLOC_PAGE_SIZE"
      using False chunk_size_pos [of "len - length_done" i] chunk_in_page [of "len - length_done" i]
      by (auto simp: count_def)
    have i: "0 \<le> i" "i < GetTotalSize (FirstBlock ctx)" using less.prems False by (auto simp: i_def)
    obtain st k1 ctx1 pc1 where mp: "MapPage k ctx i pc = (st, k1, ctx1, pc1)" by (metis prod_cases4)
    show ?thesis
    proof (cases "st = STATUS_SUCCESS")
      case fail: False
      from loop_failed [OF less.prems(1,2) mp fail i] mp fail False show ?thesis
        by (subst rw_loop.simps) (simp add: Let_def NT_SUCCESS_def i_def)
    next
      case True
      note mp = mp [unfolded True]
      obtain p cl pg where f: "k1 = k\<lparr>partials := p, calls := cl\<rparr>" "ctx1 = ctx\<lparr>LatestPageContext := pg\<rparr>"
        by (rule MapPage_frame [OF mp])
      note ok = less.prems(1) [unfolded pages_ok_def]
      from MapPage_place [OF mp i(1)] less.prems(2) ok obtain pl where pl: "PcPtr pc1 = Some pl"
        "page_place (FirstBlock ctx) (GetPageBaseFromAbsOffset i) = Some pl" by auto
      have acc: "p - held pg - held pc1 = partials k - held (LatestPageContext ctx) - held pc"
        using MapPage_account [OF mp] f by simp
      have pg: "page_ok (FirstBlock ctx) pg" "page_ok (FirstBlock ctx) pc1"
        using MapPage_pages [OF mp] ok less.prems(2) i f by auto
      from copy_step [OF pl(1) pl(2) [unfolded i_def] _ less.prems(4) _ c(2) less.prems(6) c(3) [unfolded i_def],
          of mj k1] ok c(1)
      obtain m bytes' where cp: "copy_chunk mj k1 pc1 (GetPageOffsetFromAbsOffset i) length_done count bytes
          = (k1\<lparr>ram := m\<rparr>, bytes')" "length bytes' = length bytes"
        "rw_done mj (block_bytes (k1\<lparr>ram := m\<rparr>) (FirstBlock ctx)) offset len (length_done + count) bytes' =
           rw_done mj (block_bytes k1 (FirstBlock ctx)) offset len length_done bytes"
        by (auto simp: i_def)
      have b: "block_bytes k1 (FirstBlock ctx) = block_bytes k (FirstBlock ctx)"
        by (rule block_bytes_ram) (simp add: f)
      have ok1: "pages_ok ctx1" using ok pg f by (simp add: pages_ok_def)
      have "loop_post mj offset len (length_done + count) bytes' (pos + count) pc1 (k1\<lparr>ram := m\<rparr>) ctx1
          (rw_loop mj offset len (length_done + count) bytes' (pos + count) pc1 (k1\<lparr>ram := m\<rparr>) ctx1)"
        by (rule less.hyps) (use c False less.prems ok1 pg cp(2) f in auto)
      then have "loop_post mj offset len length_done bytes pos pc k ctx
          (rw_loop mj offset len (length_done + count) bytes' (pos + count) pc1 (k1\<lparr>ram := m\<rparr>) ctx1)"
        using acc cp(3) b unfolding f by (intro loop_compose [where pc' = pc1 and k = k and p = p and c = cl and m = m and pg = pg]) auto
      with mp False cp(1) show ?thesis
        by (subst rw_loop.simps) (simp add: Let_def NT_SUCCESS_def i_def count_def)
    qed
  qed
qed

section \<open>Changing the size\<close>

lemma chain_append: "chain (xs @ bs) \<Longrightarrow> chain bs \<and> GetTotalSize bs \<le> GetTotalSize (xs @ bs)"
  by (induction xs) auto

lemma find_block_append:
  "chain (xs @ bs) \<Longrightarrow> p < GetTotalSize bs \<Longrightarrow> find_block (xs @ bs) p = find_block bs p"
proof (induction xs)
  case (Cons b xs)
  then have "GetTotalSize bs \<le> Offset b" using chain_append [of xs bs] by simp
  with Cons show ?case by simp
qed simp

lemma block_bytes_append:
  assumes "chain (xs @ bs)" "i < GetTotalSize bs"
  shows "block_bytes k (xs @ bs) i = block_bytes k bs i"
proof -
  have "GetPageBaseFromAbsOffset i < GetTotalSize bs" using page_base_le [of i] assms(2) by simp
  with find_block_append [OF assms(1)] show ?thesis by (simp add: block_bytes_def)
qed

lemma page_ok_append: "chain (xs @ bs) \<Longrightarrow> page_ok bs pc \<Longrightarrow> page_ok (xs @ bs) pc"
  using chain_append [of xs bs] by (auto simp: page_ok_def page_place_def find_block_append)

definition fresh_ok :: "kernel \<Rightarrow> block_descriptor list \<Rightarrow> bool" where
  "fresh_ok k bs \<longleftrightarrow> (\<forall>r \<in> live k \<union> set (regions bs). r < next_region k)"

text \<open>What growing does to the kernel and the context, whether it succeeds or not.\<close>

definition grown :: "kernel \<Rightarrow> object_context \<Rightarrow> kernel \<Rightarrow> object_context \<Rightarrow> bool" where
  "grown k ctx k' ctx' \<longleftrightarrow> (\<exists>new v.
     ctx' = ctx\<lparr>FirstBlock := new @ FirstBlock ctx, VirtualSize := v\<rparr> \<and>
     pages_ok ctx' \<and> fresh_ok k' (FirstBlock ctx') \<and>
     live k' = live k \<union> set (regions new) \<and> live k \<inter> set (regions new) = {} \<and>
     pool_blocks k' = pool_blocks k + int (length new) \<and> partials k' = partials k \<and>
     mdl_grant k' = mdl_grant k \<and> map_grant k' = map_grant k \<and>
     (\<forall>i < GetTotalSize (FirstBlock ctx'). block_bytes k' (FirstBlock ctx') i =
        (if i < GetTotalSize (FirstBlock ctx) then block_bytes k (FirstBlock ctx) i else 0)))"

lemma grown_refl:
  assumes "pages_ok ctx" "fresh_ok k (FirstBlock ctx)" "live k' = live k" "next_region k' = next_region k"
    "ram k' = ram k" "pool_blocks k' = pool_blocks k" "partials k' = partials k"
    "mdl_grant k' = mdl_grant k" "map_grant k' = map_grant k"
  shows "grown k ctx k' (ctx\<lparr>VirtualSize := v\<rparr>)"
  unfolding grown_def
  by (intro exI [of _ "[]"] exI [of _ v])
    (use assms block_bytes_ram [OF assms(5)] in \<open>auto simp: pages_ok_def fresh_ok_def\<close>)

lemma grown_trans:
  assumes "grown k ctx k1 ctx1" "grown k1 ctx1 k2 ctx2"
  shows "grown k ctx k2 ctx2"
proof -
  from assms(1) obtain n1 v1 where a: "ctx1 = ctx\<lparr>FirstBlock := n1 @ FirstBlock ctx, VirtualSize := v1\<rparr>"
    "live k1 = live k \<union> set (regions n1)" "live k \<inter> set (regions n1) = {}"
    "pool_blocks k1 = pool_blocks k + int (length n1)" "partials k1 = partials k"
    "mdl_grant k1 = mdl_grant k" "map_grant k1 = map_grant k"
    "\<forall>i < GetTotalSize (FirstBlock ctx1). block_bytes k1 (FirstBlock ctx1) i =
        (if i < GetTotalSize (FirstBlock ctx) then block_bytes k (FirstBlock ctx) i else 0)"
    "pages_ok ctx1"
    by (auto simp: grown_def)
  from assms(2) obtain n2 v2 where b: "ctx2 = ctx1\<lparr>FirstBlock := n2 @ FirstBlock ctx1, VirtualSize := v2\<rparr>"
    "pages_ok ctx2" "fresh_ok k2 (FirstBlock ctx2)"
    "live k2 = live k1 \<union> set (regions n2)" "live k1 \<inter> set (regions n2) = {}"
    "pool_blocks k2 = pool_blocks k1 + int (length n2)" "partials k2 = partials k1"
    "mdl_grant k2 = mdl_grant k1" "map_grant k2 = map_grant k1"
    "\<forall>i < GetTotalSize (FirstBlock ctx2). block_bytes k2 (FirstBlock ctx2) i =
        (if i < GetTotalSize (FirstBlock ctx1) then block_bytes k1 (FirstBlock ctx1) i else 0)"
    by (auto simp: grown_def)
  have t: "GetTotalSize (FirstBlock ctx) \<le> GetTotalSize (FirstBlock ctx1)"
    using a(1,9) chain_append [of n1 "FirstBlock ctx"] by (auto simp: pages_ok_def)
  have c: "\<forall>i < GetTotalSize (FirstBlock ctx2). block_bytes k2 (FirstBlock ctx2) i =
        (if i < GetTotalSize (FirstBlock ctx) then block_bytes k (FirstBlock ctx) i else 0)"
    using a(8) b(10) t by (auto simp: not_less)
  show ?thesis unfolding grown_def
    by (intro exI [of _ "n2 @ n1"] exI [of _ v2] conjI c)
      (use a b in \<open>auto simp: regions_def\<close>)
qed

lemma block_bytes_pool [simp]: "block_bytes (k\<lparr>pool_blocks := x\<rparr>) bs = block_bytes k bs"
  by (rule block_bytes_ram) simp

lemma grown_pool:
  assumes "grown k ctx k' ctx'"
  shows "grown (k\<lparr>pool_blocks := pool_blocks k - 1\<rparr>) ctx (k'\<lparr>pool_blocks := pool_blocks k' - 1\<rparr>) ctx'"
proof -
  from assms obtain new v where
    "ctx' = ctx\<lparr>FirstBlock := new @ FirstBlock ctx, VirtualSize := v\<rparr> \<and>
     pages_ok ctx' \<and> fresh_ok k' (FirstBlock ctx') \<and>
     live k' = live k \<union> set (regions new) \<and> live k \<inter> set (regions new) = {} \<and>
     pool_blocks k' = pool_blocks k + int (length new) \<and> partials k' = partials k \<and>
     mdl_grant k' = mdl_grant k \<and> map_grant k' = map_grant k \<and>
     (\<forall>i < GetTotalSize (FirstBlock ctx'). block_bytes k' (FirstBlock ctx') i =
        (if i < GetTotalSize (FirstBlock ctx) then block_bytes k (FirstBlock ctx) i else 0))"
    unfolding grown_def by blast
  then show ?thesis unfolding grown_def
    by (intro exI [of _ new] exI [of _ v]) (elim conjE, intro conjI; simp add: fresh_ok_def)
qed

lemma grown_block:
  assumes "pages_ok ctx" "fresh_ok k (FirstBlock ctx)" "0 < GetPageBaseFromAbsOffset n"
  defines "r \<equiv> next_region k"
  shows "grown k ctx
    (k\<lparr>calls := c, ram := (ram k)(r := (\<lambda>i. 0)), live := insert r (live k),
       next_region := r + 1, pool_blocks := pool_blocks k + 1\<rparr>)
    (ctx\<lparr>FirstBlock := \<lparr>Offset = GetTotalSize (FirstBlock ctx), Mdl = \<lparr>m_region = r, ByteCount = n\<rparr>\<rparr>
       # FirstBlock ctx\<rparr>)" (is "grown k ctx ?k (ctx\<lparr>FirstBlock := ?b # FirstBlock ctx\<rparr>)")
proof -
  have new: "r \<notin> live k \<union> set (regions (FirstBlock ctx))"
    using assms(2) by (auto simp: fresh_ok_def r_def)
  have ch: "chain ([?b] @ FirstBlock ctx)" using assms(1,3) by (simp add: pages_ok_def)
  have pg: "page_ok ([?b] @ FirstBlock ctx) (LatestPageContext ctx)"
    using page_ok_append [OF ch] assms(1) by (simp add: pages_ok_def)
  have old: "block_bytes ?k (FirstBlock ctx) i = block_bytes k (FirstBlock ctx) i" for i
    using new find_block_mem [of "FirstBlock ctx"]
    by (auto simp: block_bytes_def regions_def split: option.split)
  have bytes: "block_bytes ?k (?b # FirstBlock ctx) i =
      (if i < GetTotalSize (FirstBlock ctx) then block_bytes k (FirstBlock ctx) i else 0)" for i
  proof (cases "i < GetTotalSize (FirstBlock ctx)")
    case True
    with block_bytes_append [OF ch, of i ?k] old show ?thesis by simp
  next
    case False
    obtain m where m: "GetTotalSize (FirstBlock ctx) = m * ALLOC_PAGE_SIZE"
      using assms(1) chain_total [of "FirstBlock ctx"] by (auto simp: pages_ok_def dvd_def mult.commute)
    have "m \<le> i div ALLOC_PAGE_SIZE"
      using False m zdiv_mono1 [of "m * ALLOC_PAGE_SIZE" i ALLOC_PAGE_SIZE] by (simp add: ALLOC_PAGE_SIZE_def)
    then have "GetTotalSize (FirstBlock ctx) \<le> GetPageBaseFromAbsOffset i"
      by (simp add: m page_base_div ALLOC_PAGE_SIZE_def)
    with False show ?thesis by (simp add: block_bytes_def)
  qed
  show ?thesis unfolding grown_def
    by (intro exI [of _ "[?b]"] exI [of _ "VirtualSize ctx"])
      (use assms(1,2) new ch pg bytes in \<open>auto simp: pages_ok_def fresh_ok_def r_def intro: less_SucI\<close>)
qed

lemma try_bounds_grown:
  assumes "try_bounds lows bytes k ctx = (added, k', ctx')" "pages_ok ctx" "fresh_ok k (FirstBlock ctx)"
  shows "grown (if added then k\<lparr>pool_blocks := pool_blocks k - 1\<rparr> else k) ctx k' ctx'"
  using assms
proof (induction lows bytes k ctx rule: try_bounds.induct)
  case (1 bytes k ctx)
  then show ?case using grown_refl [of ctx k k "VirtualSize ctx"] by auto
next
  case (2 low lows bytes k ctx)
  obtain mo k1 where a: "MmAllocatePagesForMdl k low bytes = (mo, k1)" by fastforce
  obtain added1 k2 ctx2 where b: "AddBlock k1 ctx mo = (added1, k2, ctx2)" by (metis prod_cases3)
  show ?case
  proof (cases added1)
    case True
    with b obtain m where m: "mo = Some m" by (cases mo) (auto simp: AddBlock_def)
    from a m obtain n where n: "m = \<lparr>m_region = next_region k, ByteCount = n\<rparr>" "0 \<le> n" "n < 4294967296"
      "k1 = (tick k)\<lparr>ram := (ram k)(next_region k := (\<lambda>i. 0)), live := insert (next_region k) (live k),
             next_region := next_region k + 1\<rparr>"
      by (auto simp: MmAllocatePagesForMdl_def Let_def tick_def u32_range split: option.splits)
    have r: "u32 (GetPageBaseFromAbsOffset n) = GetPageBaseFromAbsOffset n"
      using page_base_nonneg [OF n(2)] page_base_le [of n] n(3) by (simp add: u32_id)
    with b m n(1) True have g: "0 < GetPageBaseFromAbsOffset n" "k2 = k1"
      "ctx2 = ctx\<lparr>FirstBlock := \<lparr>Offset = GetTotalSize (FirstBlock ctx), Mdl = m\<rparr> # FirstBlock ctx\<rparr>"
      using page_base_nonneg [OF n(2)] by (auto simp: AddBlock_def Let_def split: if_splits)
    let ?k = "k\<lparr>pool_blocks := pool_blocks k - 1\<rparr>"
    have "fresh_ok ?k (FirstBlock ctx)" using 2(4) by (simp add: fresh_ok_def)
    from grown_block [OF 2(3) this g(1), of "calls k + 1"] True b a 2(2) n g show ?thesis
      by (simp add: tick_def)
  next
    case False
    have "pages_ok ctx2 \<and> fresh_ok k2 (FirstBlock ctx2) \<and> grown k ctx k2 ctx2"
    proof -
      have c: "ctx2 = ctx" using False b by (auto simp: AddBlock_def Let_def split: option.splits if_splits)
      have "\<exists>c m nr. k2 = k\<lparr>calls := c, ram := m, next_region := nr\<rparr> \<and> next_region k \<le> nr \<and>
          (\<forall>r < next_region k. m r = ram k r)"
      proof (cases mo)
        case None
        with a b show ?thesis
          by (intro exI [of _ "calls k + 1"] exI [of _ "ram k"] exI [of _ "next_region k"])
            (auto simp: AddBlock_def MmAllocatePagesForMdl_def Let_def tick_def split: option.splits)
      next
        case (Some m)
        have "next_region k \<notin> live k" using 2(4) by (auto simp: fresh_ok_def)
        with Some a b False show ?thesis
          by (intro exI [of _ "calls k + 1"] exI [of _ "(ram k)(next_region k := (\<lambda>i. 0))"]
              exI [of _ "next_region k + 1"])
            (auto simp: AddBlock_def MmAllocatePagesForMdl_def Let_def tick_def free_region_def
              split: option.splits if_splits)
      qed
      then obtain cl m nr where k2: "k2 = k\<lparr>calls := cl, ram := m, next_region := nr\<rparr>" "next_region k \<le> nr"
          "\<forall>r < next_region k. m r = ram k r" by blast
      have f: "fresh_ok k2 (FirstBlock ctx)" using 2(4) k2 by (auto simp: fresh_ok_def intro: order_less_le_trans)
      have "block_bytes k2 (FirstBlock ctx) i = block_bytes k (FirstBlock ctx) i" for i
        using 2(4) k2 find_block_mem [of "FirstBlock ctx"]
        by (auto simp: block_bytes_def fresh_ok_def regions_def split: option.split)
      then have "grown k ctx k2 (ctx\<lparr>VirtualSize := VirtualSize ctx\<rparr>)" unfolding grown_def
        by (intro exI [of _ "[]"] exI [of _ "VirtualSize ctx"]) (use 2(3) f k2 in \<open>auto simp: pages_ok_def\<close>)
      with c 2(3) f show ?thesis by simp
    qed
    note this
    moreover have "grown (if added then k2\<lparr>pool_blocks := pool_blocks k2 - 1\<rparr> else k2) ctx2 k' ctx'"
      using 2(1) [OF a [symmetric] b [symmetric] refl False] 2(2) a b False calculation by simp
    moreover have "grown (k\<lparr>pool_blocks := pool_blocks k - 1\<rparr>) ctx (k2\<lparr>pool_blocks := pool_blocks k2 - 1\<rparr>) ctx2"
      using calculation(1) by (blast intro: grown_pool)
    ultimately show ?thesis by (auto intro: grown_trans)
  qed
qed

lemma AddBlock_size: "AddBlock k ctx m = (added, k', ctx') \<Longrightarrow> VirtualSize ctx' = VirtualSize ctx"
  by (auto simp: AddBlock_def Let_def split: option.splits if_splits)

lemma try_bounds_size:
  "try_bounds lows bytes k ctx = (added, k', ctx') \<Longrightarrow> VirtualSize ctx' = VirtualSize ctx"
  by (induction lows bytes k ctx rule: try_bounds.induct)
    (auto dest: AddBlock_size split: prod.splits if_splits)

lemma tick_fields [simp]:
  "live (tick k) = live k" "next_region (tick k) = next_region k" "ram (tick k) = ram k"
  "pool_blocks (tick k) = pool_blocks k" "partials (tick k) = partials k"
  "mdl_grant (tick k) = mdl_grant k" "map_grant (tick k) = map_grant k" "win64 (tick k) = win64 k"
  "high_memory (tick k) = high_memory k" "pool_grant (tick k) = pool_grant k" "page_grant (tick k) = page_grant k" "calls (tick k) = calls k + 1"
  by (simp_all add: tick_def)

lemma tick_pool [simp]: "tick (tick k)\<lparr>pool_blocks := pool_blocks k\<rparr> = tick (tick k)"
  by (simp add: tick_def)

lemma grown_tick: "grown (tick k) ctx k' ctx' = grown k ctx k' ctx'"
proof -
  have "block_bytes (tick k) = block_bytes k" by (rule ext) (rule block_bytes_ram, simp)
  then show ?thesis by (simp add: grown_def)
qed

lemma grow_loop_grown:
  assumes "grow_loop k ctx eof = (st, k', ctx')" "pages_ok ctx" "fresh_ok k (FirstBlock ctx)"
  shows "grown k ctx k' ctx' \<and> (if st = STATUS_SUCCESS
      then VirtualSize ctx' = eof \<and> eof \<le> GetTotalSize (FirstBlock ctx')
      else VirtualSize ctx' = VirtualSize ctx)"
  using assms
proof (induction "nat (eof - GetTotalSize (FirstBlock ctx))" arbitrary: k ctx rule: less_induct)
  case (less ctx k)
  note loop = less(2) [unfolded grow_loop.simps [of k ctx eof] Let_def]
  have keep: "grown k ctx k' ctx" if "live k' = live k" "next_region k' = next_region k"
    "ram k' = ram k" "pool_blocks k' = pool_blocks k" "partials k' = partials k"
    "mdl_grant k' = mdl_grant k" "map_grant k' = map_grant k" for k'
    using grown_refl [OF less(3,4) that, of "VirtualSize ctx"] by simp
  show ?case
  proof (cases "eof \<le> GetTotalSize (FirstBlock ctx)")
    case True
    then have "st = STATUS_SUCCESS" "k' = k" "ctx' = ctx\<lparr>VirtualSize := eof\<rparr>" using loop by auto
    with True grown_refl [OF less(3,4)] show ?thesis by simp
  next
    case more: False
    show ?thesis
    proof (cases "high_memory k (calls k) \<and> pool_grant k (calls k + 1)")
      case False
      then have "st = STATUS_NO_MEMORY \<and> ctx' = ctx \<and> (k' = tick k \<or> k' = tick (tick k))"
        using loop more by (auto split: if_splits)
      then show ?thesis by (auto intro!: keep)
    next
      case granted: True
      let ?k = "tick (tick k)"
      obtain added k2 ctx2 where tb: "try_bounds (low_bounds (win64 k))
          (bytes_to_allocate (eof - GetTotalSize (FirstBlock ctx))) (?k\<lparr>pool_blocks := pool_blocks ?k + 1\<rparr>) ctx
          = (added, k2, ctx2)" by (metis prod_cases3)
      have "fresh_ok (?k\<lparr>pool_blocks := pool_blocks ?k + 1\<rparr>) (FirstBlock ctx)"
        using less(4) by (simp add: fresh_ok_def)
      note g = try_bounds_grown [OF tb less(3) this]
      have v: "VirtualSize ctx2 = VirtualSize ctx" by (rule try_bounds_size [OF tb])
      show ?thesis
      proof (cases added)
        case True
        with g have g: "grown k ctx k2 ctx2" by (simp add: grown_tick)
        then have ok: "pages_ok ctx2" "fresh_ok k2 (FirstBlock ctx2)" by (auto simp: grown_def)
        have "grow_loop k2 ctx2 eof = (st, k', ctx')"
          using loop more granted tb True by simp
        moreover have "nat (eof - GetTotalSize (FirstBlock ctx2)) < nat (eof - GetTotalSize (FirstBlock ctx))"
          using try_bounds_grows tb True more by fastforce
        ultimately have "grown k2 ctx2 k' ctx' \<and> (if st = STATUS_SUCCESS
            then VirtualSize ctx' = eof \<and> eof \<le> GetTotalSize (FirstBlock ctx')
            else VirtualSize ctx' = VirtualSize ctx2)"
          using less(1) ok by blast
        with g v show ?thesis by (auto intro: grown_trans)
      next
        case False
        with loop more granted tb have "st = STATUS_NO_MEMORY" "ctx' = ctx2"
          "k' = k2\<lparr>pool_blocks := pool_blocks k2 - 1\<rparr>" by auto
        moreover have "grown k ctx (k2\<lparr>pool_blocks := pool_blocks k2 - 1\<rparr>) ctx2"
          using grown_pool [OF g] False by (simp add: grown_tick)
        ultimately show ?thesis using v by simp
      qed
    qed
  qed
qed

text \<open>Releasing blocks.\<close>

lemma shrink_blocks_freed:
  "shrink_blocks bs eof k = (bs', k') \<Longrightarrow> chain bs \<Longrightarrow> eof \<le> GetTotalSize bs \<Longrightarrow>
     \<exists>freed. bs = freed @ bs' \<and> k' = k\<lparr>live := live k - set (regions freed),
       pool_blocks := pool_blocks k - int (length freed)\<rparr> \<and> eof \<le> max 0 (GetTotalSize bs')"
proof (induction bs eof k rule: shrink_blocks.induct)
  case (1 eof k)
  then show ?case by (auto intro!: exI [of _ "[]"])
next
  case (2 b bs eof k)
  show ?case
  proof (cases "eof \<le> Offset b")
    case True
    with 2 obtain freed where "bs = freed @ bs'"
      "k' = (free_region (m_region (Mdl b)) k)\<lparr>pool_blocks := pool_blocks k - 1\<rparr>
         \<lparr>live := live (free_region (m_region (Mdl b)) k) - set (regions freed),
          pool_blocks := pool_blocks k - 1 - int (length freed)\<rparr>" "eof \<le> max 0 (GetTotalSize bs')"
      by auto
    moreover have "live k - {m_region (Mdl b)} - set (regions freed) = live k - set (regions (b # freed))"
      by auto
    ultimately show ?thesis by (intro exI [of _ "b # freed"]) (simp add: free_region_def)
  next
    case False
    with 2 show ?thesis by (intro exI [of _ "[]"]) auto
  qed
qed

text \<open>The resources a context accounts for, relative to a kernel \<open>k0\<close> without it.\<close>

definition owns :: "kernel \<Rightarrow> kernel \<Rightarrow> object_context \<Rightarrow> bool" where
  "owns k0 k ctx \<longleftrightarrow>
     live k = live k0 \<union> set (regions (FirstBlock ctx)) \<and> live k0 \<inter> set (regions (FirstBlock ctx)) = {} \<and>
     pool_blocks k = pool_blocks k0 + int (length (FirstBlock ctx)) \<and>
     partials k = partials k0 + held (LatestPageContext ctx)"

definition awe_ok :: "kernel \<Rightarrow> object_context \<Rightarrow> bool" where
  "awe_ok k ctx \<longleftrightarrow> pages_ok ctx \<and> fresh_ok k (FirstBlock ctx) \<and>
     VirtualSize ctx \<le> GetTotalSize (FirstBlock ctx)"

text \<open>What \<open>SetSize\<close> does, whatever the kernel grants.\<close>

definition resized :: "int \<Rightarrow> kernel \<Rightarrow> object_context \<Rightarrow> ntstatus \<times> kernel \<times> object_context \<Rightarrow> bool" where
  "resized eof k ctx res = (case res of (st, k', ctx') \<Rightarrow>
     awe_ok k' ctx' \<and> (\<forall>k0. owns k0 k ctx \<longrightarrow> owns k0 k' ctx') \<and>
     ActiveReaders ctx' = ActiveReaders ctx \<and> ActiveWriters ctx' = ActiveWriters ctx \<and>
     VirtualSize ctx' = (if st = STATUS_SUCCESS then eof else VirtualSize ctx) \<and>
     (eof \<le> GetTotalSize (FirstBlock ctx) \<longrightarrow> st = STATUS_SUCCESS) \<and>
     mdl_grant k' = mdl_grant k \<and> map_grant k' = map_grant k \<and>
     (\<forall>i < GetTotalSize (FirstBlock ctx'). block_bytes k' (FirstBlock ctx') i =
        (if i < GetTotalSize (FirstBlock ctx) then block_bytes k (FirstBlock ctx) i else 0)))"

lemma resized_grown:
  assumes "grown k ctx k' ctx'" "awe_ok k ctx" "GetTotalSize (FirstBlock ctx) < eof"
    "if st = STATUS_SUCCESS then VirtualSize ctx' = eof \<and> eof \<le> GetTotalSize (FirstBlock ctx')
     else VirtualSize ctx' = VirtualSize ctx"
  shows "resized eof k ctx (st, k', ctx')"
proof -
  from assms(1) obtain new v where g:
    "ctx' = ctx\<lparr>FirstBlock := new @ FirstBlock ctx, VirtualSize := v\<rparr>"
    "pages_ok ctx'" "fresh_ok k' (FirstBlock ctx')"
    "live k' = live k \<union> set (regions new)" "live k \<inter> set (regions new) = {}"
    "pool_blocks k' = pool_blocks k + int (length new)" "partials k' = partials k"
    "mdl_grant k' = mdl_grant k" "map_grant k' = map_grant k"
    "\<forall>i < GetTotalSize (FirstBlock ctx'). block_bytes k' (FirstBlock ctx') i =
        (if i < GetTotalSize (FirstBlock ctx) then block_bytes k (FirstBlock ctx) i else 0)"
    unfolding grown_def by blast
  have le: "GetTotalSize (FirstBlock ctx) \<le> GetTotalSize (FirstBlock ctx')"
    using g(1,2) chain_append [of new "FirstBlock ctx"] by (simp add: pages_ok_def)
  have "awe_ok k' ctx'" using g(2,3) assms(2,4) le by (auto simp: awe_ok_def split: if_splits)
  moreover have "owns k0 k' ctx'" if "owns k0 k ctx" for k0
    using that g(1,4-7) unfolding owns_def by (auto simp: regions_def)
  moreover have "ActiveReaders ctx' = ActiveReaders ctx" "ActiveWriters ctx' = ActiveWriters ctx"
    using g(1) by simp_all
  ultimately show ?thesis unfolding resized_def prod.case using g(8-10) assms(3,4) by auto
qed

lemma resized_same:
  assumes "awe_ok k ctx" "eof \<le> GetTotalSize (FirstBlock ctx)"
  shows "resized eof k ctx (STATUS_SUCCESS, k, ctx\<lparr>VirtualSize := eof\<rparr>)"
  using assms by (auto simp: resized_def awe_ok_def pages_ok_def fresh_ok_def owns_def)

lemma resized_shrunk:
  assumes "awe_ok k ctx" "eof \<le> GetTotalSize (FirstBlock ctx)" "FirstBlock ctx = freed @ bs'"
    "eof \<le> max 0 (GetTotalSize bs')" "PcMdl pg = None"
  shows "resized eof k ctx (STATUS_SUCCESS,
    k\<lparr>partials := partials k - held (LatestPageContext ctx), live := live k - set (regions freed),
       pool_blocks := pool_blocks k - int (length freed)\<rparr>,
    ctx\<lparr>LatestPageContext := pg, FirstBlock := bs', VirtualSize := eof\<rparr>)"
proof -
  let ?k = "k\<lparr>partials := partials k - held (LatestPageContext ctx), live := live k - set (regions freed),
       pool_blocks := pool_blocks k - int (length freed)\<rparr>"
  have c: "chain (freed @ bs')" "distinct (regions (freed @ bs'))" "fresh_ok k (freed @ bs')"
    using assms(1,3) by (simp_all add: awe_ok_def pages_ok_def)
  note d = c(2) [unfolded regions_def map_append distinct_append, folded regions_def]
  have t: "chain bs'" "GetTotalSize bs' \<le> GetTotalSize (freed @ bs')" "0 \<le> GetTotalSize bs'"
    using chain_append [OF c(1)] chain_total by auto
  have "awe_ok ?k (ctx\<lparr>LatestPageContext := pg, FirstBlock := bs', VirtualSize := eof\<rparr>)"
    using c t d assms(4,5) by (auto simp: awe_ok_def pages_ok_def fresh_ok_def page_ok_def regions_def)
  moreover have "owns k0 ?k (ctx\<lparr>LatestPageContext := pg, FirstBlock := bs', VirtualSize := eof\<rparr>)"
    if "owns k0 k ctx" for k0
    using that d assms(3,5) by (auto simp: owns_def held_def regions_def)
  moreover have "block_bytes ?k bs' i = block_bytes k (freed @ bs') i" if "i < GetTotalSize bs'" for i
  proof -
    have "block_bytes ?k bs' = block_bytes k bs'" by (rule block_bytes_ram) simp
    with block_bytes_append [OF c(1) that] show ?thesis by simp
  qed
  ultimately show ?thesis unfolding resized_def prod.case using assms(2,3) t by auto
qed

lemma SetSize_resized:
  assumes "awe_ok k ctx"
  shows "resized eof k ctx (SetSize k ctx eof)"
proof (cases "eof \<le> GetTotalSize (FirstBlock ctx)")
  case fits: True
  show ?thesis
  proof (cases "ALLOC_PAGE_SIZE \<le> u64 (GetTotalSize (FirstBlock ctx) - eof)")
    case False
    with fits resized_same [OF assms fits] show ?thesis by (simp add: SetSize_def Let_def)
  next
    case True
    define pg where "pg = (LatestPageContext ctx)\<lparr>PcMdl := None\<rparr>"
    define k1 where "k1 = k\<lparr>partials := partials k - held (LatestPageContext ctx)\<rparr>"
    have k1: "(if PcMdl (LatestPageContext ctx) \<noteq> None then k\<lparr>partials := partials k - 1\<rparr> else k) = k1"
      by (simp add: k1_def held_def)
    obtain bs' k2 where sh: "shrink_blocks (FirstBlock ctx) eof k1 = (bs', k2)" by fastforce
    have "chain (FirstBlock ctx)" using assms by (simp add: awe_ok_def pages_ok_def)
    from shrink_blocks_freed [OF sh this fits] obtain freed where f: "FirstBlock ctx = freed @ bs'"
      "k2 = k1\<lparr>live := live k1 - set (regions freed), pool_blocks := pool_blocks k1 - int (length freed)\<rparr>"
      "eof \<le> max 0 (GetTotalSize bs')" by blast
    have "SetSize k ctx eof = (STATUS_SUCCESS, k2,
        ctx\<lparr>LatestPageContext := pg, FirstBlock := bs', VirtualSize := eof\<rparr>)"
      using fits True sh unfolding SetSize_def Let_def k1 by (simp add: pg_def)
    with resized_shrunk [OF assms fits f(1,3), of pg] f(2) show ?thesis by (simp add: pg_def k1_def)
  qed
next
  case False
  obtain st k' ctx' where g: "grow_loop k ctx eof = (st, k', ctx')" by (metis prod_cases3)
  have "pages_ok ctx" "fresh_ok k (FirstBlock ctx)" using assms by (simp_all add: awe_ok_def)
  from grow_loop_grown [OF g this] have
    "grown k ctx k' ctx'" "if st = STATUS_SUCCESS then VirtualSize ctx' = eof \<and> eof \<le> GetTotalSize (FirstBlock ctx')
     else VirtualSize ctx' = VirtualSize ctx" by auto
  from resized_grown [OF this(1) assms _ this(2)] False g show ?thesis by (simp add: SetSize_def Let_def)
qed

end
