(* ===== verification/Awe_Handlers.thy ===== *)
theory Awe_Handlers
  imports Awe_Refine
begin

text \<open>
  The handlers of \<open>awefsalloc\<close> on a flat file: what reads and writes return, that every request
  keeps the context well formed and accounted for, and that closing the file gives everything
  back. Requests are handled one at a time here; \<open>Awe_Locks\<close> has the protection itself.
\<close>

section \<open>Reads and writes\<close>

definition idle :: "object_context \<Rightarrow> bool" where
  "idle ctx \<longleftrightarrow> ActiveReaders ctx = 0 \<and> ActiveWriters ctx = 0"

text \<open>The state a request may leave behind.\<close>

definition kept :: "kernel \<Rightarrow> object_context \<Rightarrow> kernel \<Rightarrow> object_context \<Rightarrow> bool" where
  "kept k ctx k' ctx' \<longleftrightarrow> awe_ok k' ctx' \<and> idle ctx' \<and> (\<forall>k0. owns k0 k ctx \<longrightarrow> owns k0 k' ctx') \<and>
     mdl_grant k' = mdl_grant k \<and> map_grant k' = map_grant k"

lemma awe_ok_guards [simp]:
  "awe_ok k (ctx\<lparr>ActiveReaders := a\<rparr>) = awe_ok k ctx" "awe_ok k (ctx\<lparr>ActiveWriters := a\<rparr>) = awe_ok k ctx"
  "owns k0 k (ctx\<lparr>ActiveReaders := a\<rparr>) = owns k0 k ctx" "owns k0 k (ctx\<lparr>ActiveWriters := a\<rparr>) = owns k0 k ctx"
  by (simp_all add: awe_ok_def pages_ok_def owns_def)

lemma idle_update: "idle ctx \<Longrightarrow> ctx\<lparr>ActiveReaders := 0\<rparr> = ctx" "idle ctx \<Longrightarrow> ctx\<lparr>ActiveWriters := 0\<rparr> = ctx"
  by (simp_all add: idle_def)

lemma kept_refl: "awe_ok k ctx \<Longrightarrow> idle ctx \<Longrightarrow> kept k ctx k ctx"
  by (simp add: kept_def)

lemma kept_trans: "kept k ctx k1 ctx1 \<Longrightarrow> kept k1 ctx1 k2 ctx2 \<Longrightarrow> kept k ctx k2 ctx2"
  by (simp add: kept_def)

lemma loop_kept:
  assumes "awe_ok k ctx" "ActiveReaders ctx = 1" "ActiveWriters ctx = 0" "0 \<le> offset" "0 \<le> len"
    "len \<le> int (length bytes)" "offset + len \<le> GetTotalSize (FirstBlock ctx)"
    "rw_loop mj offset len 0 bytes pos empty_page k ctx = (r, k', ctx')"
  shows "kept k ctx k' ctx'" "VirtualSize ctx' = VirtualSize ctx" "FirstBlock ctx' = FirstBlock ctx"
    "returned r = io_Status r"
    "returned r = STATUS_SUCCESS \<Longrightarrow> io_Information r = len \<and> io_position r = pos + len \<and>
       (io_buffer r, block_bytes k' (FirstBlock ctx)) =
         rw_done mj (block_bytes k (FirstBlock ctx)) offset len 0 bytes"
    "granting k \<Longrightarrow> returned r = STATUS_SUCCESS"
proof -
  have ok: "pages_ok ctx" using assms(1) by (simp add: awe_ok_def)
  have "loop_post mj offset len 0 bytes pos empty_page k ctx (r, k', ctx')"
    using rw_loop_post [OF ok, of empty_page offset 0 len bytes mj pos k] assms by simp
  note p = this [unfolded loop_post_def prod.case]
  from p obtain m q c pg where f: "k' = k\<lparr>ram := m, partials := q, calls := c\<rparr>"
    "ctx' = ReleaseProtection (ctx\<lparr>LatestPageContext := pg\<rparr>) True False"
    "page_ok (FirstBlock ctx) pg" "q - held pg = partials k - held (LatestPageContext ctx)"
    by auto
  have c: "ctx' = ctx\<lparr>LatestPageContext := pg, ActiveReaders := 0\<rparr>"
    using f(2) assms(2) by (simp add: ReleaseProtection_def Let_def s32_id)
  have "awe_ok k' ctx'" using assms(1) f(1,3) by (simp add: c awe_ok_def pages_ok_def fresh_ok_def)
  moreover have "owns k0 k' ctx'" if "owns k0 k ctx" for k0
    using that f(1,4) by (simp add: owns_def c)
  ultimately show "kept k ctx k' ctx'" using assms(3) f(1) by (simp add: kept_def idle_def c)
  show "VirtualSize ctx' = VirtualSize ctx" "FirstBlock ctx' = FirstBlock ctx" by (simp_all add: c)
  note t = conjunct2 [OF p]
  show "returned r = io_Status r" "granting k \<Longrightarrow> returned r = STATUS_SUCCESS" using t by blast+
  show "io_Information r = len \<and> io_position r = pos + len \<and>
       (io_buffer r, block_bytes k' (FirstBlock ctx)) =
         rw_done mj (block_bytes k (FirstBlock ctx)) offset len 0 bytes" if "returned r = STATUS_SUCCESS"
    using t that by (simp del: rw_done.simps)
qed

lemma idle_acquire:
  assumes "idle ctx"
  shows "TryAcquireProtection ctx False False = (STATUS_SUCCESS, ctx\<lparr>ActiveReaders := 1\<rparr>)"
    "TryAcquireProtection (ctx\<lparr>ActiveReaders := 1\<rparr>) True True =
       (STATUS_SUCCESS, ctx\<lparr>ActiveReaders := 1, ActiveWriters := 1\<rparr>)"
    "TryAcquireProtection ctx True False = (STATUS_SUCCESS, ctx\<lparr>ActiveWriters := 1\<rparr>)"
  using assms by (simp_all add: TryAcquireProtection_def Let_def idle_def s32_id)

text \<open>A valid request: inside the positive offsets, with a mapped buffer of the request's length.\<close>

definition valid_irp :: "irp \<Rightarrow> bool" where
  "valid_irp irp \<longleftrightarrow> 0 \<le> ByteOffset irp \<and> 0 < Length irp \<and> Length irp < 4294967296 \<and>
     ByteOffset irp + Length irp < 9223372036854775808 \<and>
     (\<exists>bytes. system_buffer irp = Some bytes \<and> int (length bytes) = Length irp)"

lemma ReadWrite_start:
  assumes "idle ctx" "0 \<le> ByteOffset irp" "0 < Length irp"
    "ByteOffset irp + Length irp < 9223372036854775808" "system_buffer irp = Some bytes"
  shows "ReadWrite k (Some ctx) irp pos =
    (if MajorFunction irp = IRP_MJ_READ \<and> VirtualSize ctx < ByteOffset irp
     then (complete STATUS_END_OF_FILE 0 bytes pos, k, Some ctx)
     else if VirtualSize ctx < ByteOffset irp + Length irp \<and> MajorFunction irp = IRP_MJ_WRITE
     then case SetSize k (ctx\<lparr>ActiveReaders := 1, ActiveWriters := 1\<rparr>) (ByteOffset irp + Length irp) of
            (status, k, ctx) \<Rightarrow>
          if status \<noteq> STATUS_SUCCESS
          then (complete status 0 bytes pos, k, Some (ReleaseProtection ctx True True))
          else
            let ctx = ReleaseProtection ctx False True;
                len = (if VirtualSize ctx < ByteOffset irp + Length irp
                       then u32 (VirtualSize ctx - ByteOffset irp) else Length irp)
            in case rw_loop (MajorFunction irp) (ByteOffset irp) len 0 bytes pos empty_page k ctx of
                 (reply, k, ctx) \<Rightarrow> (reply, k, Some ctx)
     else
       let len = (if VirtualSize ctx < ByteOffset irp + Length irp
                  then u32 (VirtualSize ctx - ByteOffset irp) else Length irp)
       in case rw_loop (MajorFunction irp) (ByteOffset irp) len 0 bytes pos empty_page k
                 (ctx\<lparr>ActiveReaders := 1\<rparr>) of
            (reply, k, ctx) \<Rightarrow> (reply, k, Some ctx))"
proof -
  have s: "s64 (ByteOffset irp + Length irp) = ByteOffset irp + Length irp"
    using assms by (simp add: s64_id)
  have n: "\<not> (ByteOffset irp < 0 \<or> s64 (ByteOffset irp + Length irp) < 0)" "Length irp \<noteq> 0"
    unfolding s using assms by auto
  have r: "ReleaseProtection (ctx\<lparr>ActiveReaders := 1\<rparr>) True False = ctx"
    using assms(1) by (simp add: ReleaseProtection_def Let_def s32_id idle_def)
  have l: "NT_SUCCESS s = (s = STATUS_SUCCESS)" for s by (simp add: NT_SUCCESS_def)
  show ?thesis
    unfolding ReadWrite_def Let_def if_not_P [OF n(1)] if_not_P [OF n(2)] option.case assms(5)
      idle_acquire(1) [OF assms(1)] prod.case l r
    by (cases "SetSize k (ctx\<lparr>ActiveReaders := 1, ActiveWriters := 1\<rparr>) (ByteOffset irp + Length irp)")
      (simp add: idle_acquire(2) [OF assms(1)] r)
qed

abbreviation contents :: "kernel \<Rightarrow> object_context \<Rightarrow> int \<Rightarrow> byte" where
  "contents k ctx \<equiv> block_bytes k (FirstBlock ctx)"

lemma ReadWrite_read:
  assumes "awe_ok k ctx" "idle ctx" "valid_irp irp" "MajorFunction irp = IRP_MJ_READ"
    "system_buffer irp = Some bytes" "ByteOffset irp \<le> VirtualSize ctx"
  shows "\<exists>r k' ctx'. ReadWrite k (Some ctx) irp pos = (r, k', Some ctx') \<and> kept k ctx k' ctx' \<and>
    VirtualSize ctx' = VirtualSize ctx \<and> returned r = io_Status r \<and>
    (granting k \<longrightarrow> returned r = STATUS_SUCCESS) \<and>
    (returned r = STATUS_SUCCESS \<longrightarrow>
      contents k' ctx' = contents k ctx \<and>
      io_Information r = min (Length irp) (VirtualSize ctx - ByteOffset irp) \<and>
      io_position r = pos + io_Information r \<and>
      io_buffer r = mem_bytes (contents k ctx) (ByteOffset irp) (nat (io_Information r)) @
                    drop (nat (io_Information r)) bytes)"
proof -
  note v = assms(3) [unfolded valid_irp_def]
  define len where "len = min (Length irp) (VirtualSize ctx - ByteOffset irp)"
  have lv: "(if VirtualSize ctx < ByteOffset irp + Length irp then u32 (VirtualSize ctx - ByteOffset irp)
      else Length irp) = len"
    using v assms(6) by (auto simp: len_def u32_id)
  have b: "0 \<le> len" "len \<le> int (length bytes)" "ByteOffset irp + len \<le> GetTotalSize (FirstBlock ctx)"
    using v assms(1,5,6) by (auto simp: len_def awe_ok_def)
  obtain r k' ctx' where l: "rw_loop IRP_MJ_READ (ByteOffset irp) len 0 bytes pos empty_page k
      (ctx\<lparr>ActiveReaders := 1\<rparr>) = (r, k', ctx')" by (metis prod_cases3)
  have rw: "ReadWrite k (Some ctx) irp pos = (r, k', Some ctx')"
    using ReadWrite_start [OF assms(2) _ _ _ assms(5), of k pos] v assms(4,6) l
    by (simp add: Let_def lv)
  have w: "awe_ok k (ctx\<lparr>ActiveReaders := 1\<rparr>)" "ActiveReaders (ctx\<lparr>ActiveReaders := 1\<rparr>) = 1"
    "ActiveWriters (ctx\<lparr>ActiveReaders := 1\<rparr>) = 0" "0 \<le> ByteOffset irp"
    "ByteOffset irp + len \<le> GetTotalSize (FirstBlock (ctx\<lparr>ActiveReaders := 1\<rparr>))"
    using assms(1,2) b(3) v by (simp_all add: idle_def)
  note f = loop_kept [OF w(1-4) b(1,2) w(5) l]
  from f(1-4) f(6) f(5) have "kept k (ctx\<lparr>ActiveReaders := 1\<rparr>) k' ctx'" "VirtualSize ctx' = VirtualSize ctx"
    "FirstBlock ctx' = FirstBlock ctx" "returned r = io_Status r"
    "granting k \<Longrightarrow> returned r = STATUS_SUCCESS"
    "returned r = STATUS_SUCCESS \<Longrightarrow> io_Information r = len \<and> io_position r = pos + len \<and>
       (io_buffer r, block_bytes k' (FirstBlock ctx)) =
         rw_done IRP_MJ_READ (contents k ctx) (ByteOffset irp) len 0 bytes"
    by simp_all
  moreover from this(1) have "kept k ctx k' ctx'" by (simp add: kept_def)
  ultimately show ?thesis using rw unfolding len_def [symmetric]
    by (intro exI [of _ r] exI [of _ k'] exI [of _ ctx'] conjI impI) simp_all
qed

lemma ReadWrite_eof:
  assumes "idle ctx" "valid_irp irp" "MajorFunction irp = IRP_MJ_READ" "VirtualSize ctx < ByteOffset irp"
    "system_buffer irp = Some bytes"
  shows "ReadWrite k (Some ctx) irp pos = (complete STATUS_END_OF_FILE 0 bytes pos, k, Some ctx)"
  using ReadWrite_start [OF assms(1) _ _ _ assms(5), of k pos] assms by (simp add: valid_irp_def)

text \<open>The contents after growing: what was there, then zeros.\<close>

definition extended :: "int \<Rightarrow> (int \<Rightarrow> byte) \<Rightarrow> int \<Rightarrow> byte" where
  "extended old f i = (if i < old then f i else 0)"

lemma ReadWrite_write:
  assumes "awe_ok k ctx" "idle ctx" "valid_irp irp" "MajorFunction irp = IRP_MJ_WRITE"
    "system_buffer irp = Some bytes"
  shows "\<exists>r k' ctx'. ReadWrite k (Some ctx) irp pos = (r, k', Some ctx') \<and> kept k ctx k' ctx' \<and>
    returned r = io_Status r \<and>
    (granting k \<and> ByteOffset irp + Length irp \<le> GetTotalSize (FirstBlock ctx) \<longrightarrow>
       returned r = STATUS_SUCCESS) \<and>
    (returned r = STATUS_SUCCESS \<longrightarrow>
      VirtualSize ctx' = max (VirtualSize ctx) (ByteOffset irp + Length irp) \<and>
      io_Information r = Length irp \<and> io_position r = pos + Length irp \<and>
      (\<forall>i < GetTotalSize (FirstBlock ctx'). contents k' ctx' i =
         mem_write (extended (GetTotalSize (FirstBlock ctx)) (contents k ctx)) (ByteOffset irp) bytes i))"
proof -
  note v = assms(3) [unfolded valid_irp_def]
  let ?eof = "ByteOffset irp + Length irp"
  have t: "take (nat (Length irp)) bytes = bytes" using v assms(5) by auto
  have b: "0 \<le> Length irp" "Length irp \<le> int (length bytes)" using v assms(5) by auto
  note start = ReadWrite_start [OF assms(2) _ _ _ assms(5), of k pos]
  show ?thesis
  proof (cases "VirtualSize ctx < ?eof")
    case False
    obtain r k' ctx' where l: "rw_loop IRP_MJ_WRITE (ByteOffset irp) (Length irp) 0 bytes pos empty_page k
      (ctx\<lparr>ActiveReaders := 1\<rparr>) = (r, k', ctx')" by (metis prod_cases3)
    have rw: "ReadWrite k (Some ctx) irp pos = (r, k', Some ctx')"
      using start v assms(4) l False by (simp add: Let_def)
    have e: "?eof \<le> GetTotalSize (FirstBlock ctx)" using False assms(1) by (simp add: awe_ok_def)
    have w: "awe_ok k (ctx\<lparr>ActiveReaders := 1\<rparr>)" "ActiveReaders (ctx\<lparr>ActiveReaders := 1\<rparr>) = 1"
      "ActiveWriters (ctx\<lparr>ActiveReaders := 1\<rparr>) = 0" "0 \<le> ByteOffset irp"
      "?eof \<le> GetTotalSize (FirstBlock (ctx\<lparr>ActiveReaders := 1\<rparr>))"
      using assms(1,2) e v by (simp_all add: idle_def)
    note f = loop_kept [OF w(1-4) b w(5) l]
    from f(1-4) f(6) f(5) [unfolded rw_done.simps] have "kept k (ctx\<lparr>ActiveReaders := 1\<rparr>) k' ctx'" "VirtualSize ctx' = VirtualSize ctx"
      "FirstBlock ctx' = FirstBlock ctx" "returned r = io_Status r"
      "granting k \<Longrightarrow> returned r = STATUS_SUCCESS"
      "returned r = STATUS_SUCCESS \<Longrightarrow> io_Information r = Length irp \<and> io_position r = pos + Length irp \<and>
         contents k' ctx = mem_write (contents k ctx) (ByteOffset irp) bytes"
      by (simp_all add: t)
    moreover from this(1) have "kept k ctx k' ctx'" by (simp add: kept_def)
    ultimately show ?thesis using False rw
      by (intro exI [of _ r] exI [of _ k'] exI [of _ ctx']) (simp add: mem_write_def extended_def)
  next
    case True
    let ?g = "ctx\<lparr>ActiveReaders := 1, ActiveWriters := 1\<rparr>"
    obtain st k1 ctx1 where ss: "SetSize k ?g ?eof = (st, k1, ctx1)" by (metis prod_cases3)
    have "resized ?eof k ?g (st, k1, ctx1)" using SetSize_resized [of k ?g ?eof] assms(1) ss by simp
    note z = this [unfolded resized_def prod.case]
    show ?thesis
    proof (cases "st = STATUS_SUCCESS")
      case fail: False
      let ?c = "ReleaseProtection ctx1 True True"
      have c: "?c = ctx1\<lparr>ActiveReaders := 0, ActiveWriters := 0\<rparr>"
        using z by (simp add: ReleaseProtection_def Let_def s32_id)
      have "ReadWrite k (Some ctx) irp pos = (complete st 0 bytes pos, k1, Some ?c)"
        using start v assms(4) ss True fail by simp
      moreover have "kept k ctx k1 ?c" unfolding c using z by (simp add: kept_def idle_def)
      ultimately show ?thesis using z fail
        by (intro exI [of _ "complete st 0 bytes pos"] exI [of _ k1] exI [of _ ?c]) (simp add: complete_def)
    next
      case good: True
      let ?c = "ReleaseProtection ctx1 False True"
      have c: "?c = ctx1\<lparr>ActiveWriters := 0\<rparr>" using z by (simp add: ReleaseProtection_def Let_def s32_id)
      have vs: "VirtualSize ctx1 = ?eof" using z good by simp
      obtain r k' ctx' where l: "rw_loop IRP_MJ_WRITE (ByteOffset irp) (Length irp) 0 bytes pos empty_page k1 ?c
        = (r, k', ctx')" by (metis prod_cases3)
      have rw: "ReadWrite k (Some ctx) irp pos = (r, k', Some ctx')"
        using start v assms(4) ss True good vs l by (simp add: Let_def)
      have a: "awe_ok k1 ?c" "ActiveReaders ?c = 1" "ActiveWriters ?c = 0"
        "?eof \<le> GetTotalSize (FirstBlock ?c)"
        using z vs unfolding c by (auto simp: awe_ok_def [of k1 ctx1])
      have o: "0 \<le> ByteOffset irp" using v by simp
      note f = loop_kept [OF a(1-3) o b a(4) l]
      from f(1-4) f(6) f(5) [unfolded rw_done.simps] vs have "kept k1 ?c k' ctx'" "VirtualSize ctx' = ?eof" "FirstBlock ctx' = FirstBlock ctx1"
        "returned r = io_Status r" "granting k1 \<Longrightarrow> returned r = STATUS_SUCCESS"
        "returned r = STATUS_SUCCESS \<Longrightarrow> io_Information r = Length irp \<and> io_position r = pos + Length irp \<and>
           contents k' ctx1 = mem_write (contents k1 ctx1) (ByteOffset irp) bytes"
        by (simp_all add: t)
      moreover from this(1) have "kept k ctx k' ctx'" using z by (simp add: kept_def c)
      moreover have "granting k1 = granting k" using z by (simp add: granting_def)
      moreover have "\<forall>i < GetTotalSize (FirstBlock ctx1). contents k1 ctx1 i =
          extended (GetTotalSize (FirstBlock ctx)) (contents k ctx) i" using z by (simp add: extended_def)
      ultimately show ?thesis using True rw
        by (intro exI [of _ r] exI [of _ k'] exI [of _ ctx']) (simp add: mem_write_def)
    qed
  qed
qed

section \<open>Every handler keeps the context in order\<close>

text \<open>Any request the I/O manager can build: a 32-bit length, a 64-bit offset, a buffer of the
  request's length when it could be mapped.\<close>

definition wf_irp :: "irp \<Rightarrow> bool" where
  "wf_irp irp \<longleftrightarrow> - 9223372036854775808 \<le> ByteOffset irp \<and> ByteOffset irp < 9223372036854775808 \<and>
     0 \<le> Length irp \<and> Length irp < 4294967296 \<and>
     (\<forall>bytes. system_buffer irp = Some bytes \<longrightarrow> int (length bytes) = Length irp)"

lemma ReadWrite_kept:
  assumes "awe_ok k ctx" "idle ctx" "wf_irp irp"
  shows "\<exists>r k' ctx'. ReadWrite k (Some ctx) irp pos = (r, k', Some ctx') \<and> kept k ctx k' ctx'"
proof (cases "0 \<le> ByteOffset irp \<and> 0 \<le> s64 (ByteOffset irp + Length irp) \<and> 0 < Length irp \<and>
    system_buffer irp \<noteq> None")
  case True
  then obtain bytes where b: "system_buffer irp = Some bytes" by auto
  have "ByteOffset irp + Length irp < 9223372036854775808"
  proof (rule ccontr)
    assume "\<not> ?thesis"
    with True assms(3) have "s64 (ByteOffset irp + Length irp) < 0"
      by (subst s64_high) (auto simp: wf_irp_def)
    with True show False by simp
  qed
  with True assms(3) b have v: "valid_irp irp" by (auto simp: valid_irp_def wf_irp_def)
  show ?thesis
  proof (cases "MajorFunction irp")
    case IRP_MJ_READ
    show ?thesis
    proof (cases "ByteOffset irp \<le> VirtualSize ctx")
      case True
      from ReadWrite_read [OF assms(1,2) v IRP_MJ_READ b True] show ?thesis by blast
    next
      case False
      with ReadWrite_eof [OF assms(2) v IRP_MJ_READ _ b] kept_refl [OF assms(1,2)] show ?thesis by simp
    qed
  next
    case IRP_MJ_WRITE
    from ReadWrite_write [OF assms(1,2) v IRP_MJ_WRITE b] show ?thesis by blast
  qed
next
  case False
  with assms(3) kept_refl [OF assms(1,2)] show ?thesis
    by (auto simp: ReadWrite_def Let_def wf_irp_def split: option.splits)
qed

lemma SetInformation_kept:
  assumes "awe_ok k ctx" "idle ctx" "SetInformation k ctx cls buffer0 pos = (r, k', ctx')"
  shows "kept k ctx k' ctx'"
proof (cases "(cls = FileAllocationInformation \<or> cls = FileEndOfFileInformation) \<and> 8 \<le> length buffer0")
  case True
  let ?g = "ctx\<lparr>ActiveWriters := 1\<rparr>"
  let ?eof = "s64 (le_of (take 8 buffer0))"
  obtain st k1 ctx1 where ss: "SetSize k ?g ?eof = (st, k1, ctx1)" by (metis prod_cases3)
  have "resized ?eof k ?g (st, k1, ctx1)" using SetSize_resized [of k ?g ?eof] assms(1) ss by simp
  note z = this [unfolded resized_def prod.case]
  have "ReleaseProtection ctx1 False True = ctx1\<lparr>ActiveWriters := 0\<rparr>"
    using z by (simp add: ReleaseProtection_def Let_def s32_id)
  moreover have "k' = k1 \<and> ctx' = ReleaseProtection ctx1 False True"
    using assms(3) True ss idle_acquire(3) [OF assms(2)]
    by (auto simp: SetInformation_def Let_def NT_SUCCESS_def)
  ultimately show ?thesis using z assms(2) by (simp add: kept_def idle_def)
next
  case False
  with assms show ?thesis
    by (auto simp: SetInformation_def Let_def kept_refl split: info_class.splits if_splits)
qed

section \<open>Requests in sequence\<close>

text \<open>The dispatch table of \<open>DriverEntry\<close>, for an open file: context and file position. Requests
  that fail validation leave the position alone.\<close>

datatype awe_request =
    ReadWriteReq irp
  | ControlReq control_irp
  | FlushReq
  | QueryReq info_class nat
  | SetReq info_class "byte list"

definition dispatch ::
    "(object_context \<Rightarrow> byte list) \<Rightarrow> awe_request \<Rightarrow> kernel \<times> object_context \<times> int \<Rightarrow>
     reply \<times> kernel \<times> object_context \<times> int" where
  "dispatch layout req st =
     (case st of (k, ctx, pos) \<Rightarrow>
      case req of
        ReadWriteReq irp \<Rightarrow>
          (case ReadWrite k (Some ctx) irp pos of (r, k, c) \<Rightarrow>
             (r, k, case c of None \<Rightarrow> ctx | Some c \<Rightarrow> c, io_position r))
      | ControlReq irp \<Rightarrow> (AllocControl layout (Some ctx) irp, k, ctx, pos)
      | FlushReq \<Rightarrow> (AllocFlushBuffers, k, ctx, pos)
      | QueryReq cls len \<Rightarrow> (QueryInformation ctx cls len pos, k, ctx, pos)
      | SetReq cls bytes \<Rightarrow>
          (case SetInformation k ctx cls bytes pos of (r, k, c) \<Rightarrow> (r, k, c, io_position r)))"

fun serve_all ::
    "(object_context \<Rightarrow> byte list) \<Rightarrow> awe_request list \<Rightarrow> kernel \<times> object_context \<times> int \<Rightarrow>
     kernel \<times> object_context \<times> int" where
  "serve_all layout [] st = st"
| "serve_all layout (req # reqs) st = serve_all layout reqs (snd (dispatch layout req st))"

fun wf_request :: "awe_request \<Rightarrow> bool" where
  "wf_request (ReadWriteReq irp) = wf_irp irp"
| "wf_request _ = True"

lemma dispatch_kept:
  assumes "awe_ok k ctx" "idle ctx" "wf_request req" "dispatch layout req (k, ctx, pos) = (r, k', ctx', pos')"
  shows "kept k ctx k' ctx'"
proof (cases req)
  case (ReadWriteReq irp)
  with ReadWrite_kept [OF assms(1,2), of irp pos] assms(3,4) show ?thesis by (auto simp: dispatch_def)
next
  case (SetReq cls bytes)
  with SetInformation_kept [OF assms(1,2), of cls bytes pos] assms(4) show ?thesis
    by (auto simp: dispatch_def split: prod.splits)
qed (use assms kept_refl in \<open>auto simp: dispatch_def\<close>)

lemma serve_all_kept:
  assumes "awe_ok k ctx" "idle ctx" "list_all wf_request reqs"
    "serve_all layout reqs (k, ctx, pos) = (k', ctx', pos')"
  shows "kept k ctx k' ctx'"
  using assms
proof (induction reqs arbitrary: k ctx pos)
  case Nil
  then show ?case by (simp add: kept_refl)
next
  case (Cons req reqs)
  obtain r k1 ctx1 pos1 where d: "dispatch layout req (k, ctx, pos) = (r, k1, ctx1, pos1)"
    by (metis prod_cases4)
  from Cons.prems dispatch_kept [OF _ _ _ d] have s: "kept k ctx k1 ctx1" by simp
  then have "awe_ok k1 ctx1" "idle ctx1" by (simp_all add: kept_def)
  with Cons.IH [of k1 ctx1 pos1] Cons.prems d have "kept k1 ctx1 k' ctx'" by simp
  with s show ?case by (rule kept_trans)
qed

section \<open>Loading, creating and closing\<close>

lemma aligned_page:
  assumes "ALLOC_PAGE_SIZE dvd x"
  shows "GetPageBaseFromAbsOffset x = x" "GetPageOffsetFromAbsOffset x = 0"
  using assms by (auto simp: page_base_div page_offset_range(3))

definition load_post ::
    "image_file \<Rightarrow> int \<Rightarrow> ntstatus \<Rightarrow> page_context \<Rightarrow> kernel \<Rightarrow> object_context \<Rightarrow>
     ntstatus \<times> page_context \<times> kernel \<times> object_context \<Rightarrow> bool" where
  "load_post f offset st0 pc k ctx res = (case res of (st, pc', k', ctx') \<Rightarrow>
     (\<exists>m p c pg. k' = k\<lparr>ram := m, partials := p, calls := c\<rparr> \<and>
        ctx' = ctx\<lparr>LatestPageContext := pg\<rparr> \<and> page_ok (FirstBlock ctx) pg \<and>
        p - held pg - held pc' = partials k - held (LatestPageContext ctx) - held pc) \<and>
     page_ok (FirstBlock ctx) pc' \<and>
     (st = STATUS_SUCCESS \<longrightarrow> st0 = STATUS_SUCCESS \<and> (\<forall>i. block_bytes k' (FirstBlock ctx) i =
        (if offset \<le> i \<and> i < EndOfFile f then file_bytes f i else block_bytes k (FirstBlock ctx) i))))"

lemma load_stop:
  assumes "page_ok (FirstBlock ctx) (LatestPageContext ctx)" "page_ok (FirstBlock ctx) pc"
    "k' = k\<lparr>partials := p, calls := c\<rparr>" "ctx' = ctx\<lparr>LatestPageContext := pg\<rparr>"
    "page_ok (FirstBlock ctx) pg" "page_ok (FirstBlock ctx) pc'"
    "p - held pg - held pc' = partials k - held (LatestPageContext ctx) - held pc"
    "st = STATUS_SUCCESS \<Longrightarrow> st0 = STATUS_SUCCESS \<and> EndOfFile f \<le> offset"
  shows "load_post f offset st0 pc k ctx (st, pc', k', ctx')"
proof -
  have "block_bytes k' (FirstBlock ctx) = block_bytes k (FirstBlock ctx)"
    by (rule block_bytes_ram) (simp add: assms(3))
  moreover have "k' = k\<lparr>ram := ram k, partials := p, calls := c\<rparr>" by (simp add: assms(3))
  ultimately show ?thesis
    unfolding load_post_def prod.case using assms(4-8)
    by (intro conjI exI [of _ "ram k"] exI [of _ p] exI [of _ c] exI [of _ pg] impI) auto
qed

lemma load_compose:
  assumes "load_post f (offset + ALLOC_PAGE_SIZE) STATUS_SUCCESS pc'
      (k\<lparr>partials := p, calls := c, ram := m\<rparr>) (ctx\<lparr>LatestPageContext := pg\<rparr>) res"
    "p - held pg - held pc' = partials k - held (LatestPageContext ctx) - held pc"
    "\<And>i. block_bytes (k\<lparr>partials := p, calls := c, ram := m\<rparr>) (FirstBlock ctx) i =
      (if offset \<le> i \<and> i < offset + min ALLOC_PAGE_SIZE (EndOfFile f - offset) then file_bytes f i
       else block_bytes k (FirstBlock ctx) i)"
    "st0 = STATUS_SUCCESS" "offset < EndOfFile f"
  shows "load_post f offset st0 pc k ctx res"
proof -
  obtain st pc2 k' ctx' where res: "res = (st, pc2, k', ctx')" by (metis prod_cases4)
  note a = assms(1) [unfolded load_post_def res prod.case]
  from a obtain m' p' c' pg' where
    "k' = k\<lparr>partials := p, calls := c, ram := m\<rparr>\<lparr>ram := m', partials := p', calls := c'\<rparr>"
    "ctx' = ctx\<lparr>LatestPageContext := pg\<rparr>\<lparr>LatestPageContext := pg'\<rparr>"
    "page_ok (FirstBlock ctx) pg'" "p' - held pg' - held pc2 = p - held pg - held pc'" by auto
  then have "\<exists>m p c pg. k' = k\<lparr>ram := m, partials := p, calls := c\<rparr> \<and>
        ctx' = ctx\<lparr>LatestPageContext := pg\<rparr> \<and> page_ok (FirstBlock ctx) pg \<and>
        p - held pg - held pc2 = partials k - held (LatestPageContext ctx) - held pc"
    using assms(2) by (intro exI [of _ m'] exI [of _ p'] exI [of _ c'] exI [of _ pg']) simp
  moreover have "block_bytes k' (FirstBlock ctx) i = (if offset \<le> i \<and> i < EndOfFile f then file_bytes f i
      else block_bytes k (FirstBlock ctx) i)" if "st = STATUS_SUCCESS" for i
  proof -
    have "0 \<le> ALLOC_PAGE_SIZE" by (simp add: ALLOC_PAGE_SIZE_def)
    moreover have "block_bytes k' (FirstBlock ctx) i =
      (if offset + ALLOC_PAGE_SIZE \<le> i \<and> i < EndOfFile f then file_bytes f i
       else block_bytes (k\<lparr>partials := p, calls := c, ram := m\<rparr>) (FirstBlock ctx) i)"
      using a that by simp
    ultimately show ?thesis using assms(3) [of i] assms(5) by auto
  qed
  moreover have "page_ok (FirstBlock ctx) pc2" using a by simp
  ultimately show ?thesis unfolding load_post_def res prod.case using assms(4) by blast
qed

lemma load_loop_post:
  assumes "pages_ok ctx" "page_ok (FirstBlock ctx) pc" "ALLOC_PAGE_SIZE dvd offset" "0 \<le> offset"
    "EndOfFile f \<le> GetTotalSize (FirstBlock ctx)" "st0 = STATUS_SUCCESS"
  shows "load_post f offset st0 pc k ctx (load_loop f offset st0 pc k ctx)"
  using assms
proof (induction "nat (EndOfFile f - offset)" arbitrary: offset st0 pc k ctx rule: less_induct)
  case less
  note ok = less.prems(1) [unfolded pages_ok_def]
  have ok1: "page_ok (FirstBlock ctx) (LatestPageContext ctx)" using ok by blast
  show ?case
  proof (cases "EndOfFile f \<le> offset")
    case True
    with load_stop [OF ok1 less.prems(2), where k' = k and k = k and p = "partials k" and c = "calls k" and ctx' = ctx and pg = "LatestPageContext ctx"
        and pc' = pc and st = st0 and st0 = st0 and f = f and offset = offset]
      less.prems ok1 show ?thesis by (subst load_loop.simps) simp
  next
    case more: False
    then have inside: "offset < GetTotalSize (FirstBlock ctx)" using less.prems by simp
    obtain st k1 ctx1 pc1 where mp: "MapPage k ctx offset pc = (st, k1, ctx1, pc1)" by (metis prod_cases4)
    obtain p cl pg where f: "k1 = k\<lparr>partials := p, calls := cl\<rparr>" "ctx1 = ctx\<lparr>LatestPageContext := pg\<rparr>"
      by (rule MapPage_frame [OF mp])
    have acc: "p - held pg - held pc1 = partials k - held (LatestPageContext ctx) - held pc"
      using MapPage_account [OF mp] f by simp
    have pg: "page_ok (FirstBlock ctx) pg" "page_ok (FirstBlock ctx) pc1"
      using MapPage_pages [OF mp ok1 less.prems(2)] inside f by auto
    note stop = load_stop [OF ok1 less.prems(2) f(1,2) pg acc]
    show ?thesis
    proof (cases "st = STATUS_SUCCESS")
      case False
      with more mp stop [of st st0 f offset] show ?thesis
        by (subst load_loop.simps) (simp add: NT_SUCCESS_def)
    next
      case True
      note mp = mp [unfolded True]
      show ?thesis
      proof (cases "read_status f offset = STATUS_SUCCESS")
        case False
        with more mp stop [of "read_status f offset" st0 f offset] show ?thesis
          by (subst load_loop.simps) (simp add: NT_SUCCESS_def Let_def)
      next
        case rd: True
        define n where "n = nat (min ALLOC_PAGE_SIZE (EndOfFile f - offset))"
        let ?new = "mem_bytes (file_bytes f) offset n"
        from MapPage_place [OF mp less.prems(4) ok1 less.prems(2)] obtain pl where pl: "PcPtr pc1 = Some pl"
          "page_place (FirstBlock ctx) (GetPageBaseFromAbsOffset offset) = Some pl" by blast
        have n: "int n = min ALLOC_PAGE_SIZE (EndOfFile f - offset)" "int n \<le> ALLOC_PAGE_SIZE"
          using more by (auto simp: n_def ALLOC_PAGE_SIZE_def)
        from copy_chunk_write [OF pl, of "int n" k1 0 ?new] more ok n aligned_page [OF less.prems(3)]
        obtain m where cp: "copy_chunk IRP_MJ_WRITE k1 pc1 0 0 (int n) ?new = (k1\<lparr>ram := m\<rparr>, ?new)"
          "block_bytes (k1\<lparr>ram := m\<rparr>) (FirstBlock ctx) = mem_write (block_bytes k1 (FirstBlock ctx)) offset ?new"
          by auto
        have b: "block_bytes k1 (FirstBlock ctx) = block_bytes k (FirstBlock ctx)"
          by (rule block_bytes_ram) (simp add: f)
        have bytes: "block_bytes (k1\<lparr>ram := m\<rparr>) (FirstBlock ctx) i =
          (if offset \<le> i \<and> i < offset + min ALLOC_PAGE_SIZE (EndOfFile f - offset) then file_bytes f i
           else block_bytes k (FirstBlock ctx) i)" for i
          unfolding cp(2) b mem_write_def using n(1) by (auto simp: mem_bytes_def)
        have "load_post f (offset + ALLOC_PAGE_SIZE) STATUS_SUCCESS pc1 (k1\<lparr>ram := m\<rparr>) ctx1
            (load_loop f (offset + ALLOC_PAGE_SIZE) STATUS_SUCCESS pc1 (k1\<lparr>ram := m\<rparr>) ctx1)"
        proof (rule less.hyps)
          show "nat (EndOfFile f - (offset + ALLOC_PAGE_SIZE)) < nat (EndOfFile f - offset)"
            using more by (simp add: ALLOC_PAGE_SIZE_def)
          show "0 \<le> offset + ALLOC_PAGE_SIZE" using less.prems(4) by (simp add: ALLOC_PAGE_SIZE_def)
        qed (use less.prems ok pg f in \<open>auto simp: pages_ok_def\<close>)
        from load_compose [OF this [unfolded f] acc bytes [unfolded f] less.prems(6)] more f
        have "load_post f offset st0 pc k ctx
          (load_loop f (offset + ALLOC_PAGE_SIZE) STATUS_SUCCESS pc1 (k1\<lparr>ram := m\<rparr>) ctx1)" by simp
        with more mp rd cp(1) show ?thesis
          by (subst load_loop.simps)
            (simp add: NT_SUCCESS_def Let_def n_def [symmetric] del: of_nat_min int_nat_eq)
      qed
    qed
  qed
qed

lemma LoadImageFile_kept:
  assumes "awe_ok k ctx" "idle ctx" "LoadImageFile k ctx f = (st, k', ctx')" "0 \<le> EndOfFile f"
  shows "kept k ctx k' ctx'"
    "st = STATUS_SUCCESS \<Longrightarrow> VirtualSize ctx' = EndOfFile f \<and>
       (\<forall>i. 0 \<le> i \<and> i < EndOfFile f \<longrightarrow> contents k' ctx' i = file_bytes f i)"
proof -
  have "kept k ctx k' ctx' \<and> (st = STATUS_SUCCESS \<longrightarrow> VirtualSize ctx' = EndOfFile f \<and>
       (\<forall>i. 0 \<le> i \<and> i < EndOfFile f \<longrightarrow> contents k' ctx' i = file_bytes f i))"
  proof (cases "NT_SUCCESS (open_status f) \<and> NT_SUCCESS (query_status f)")
    case False
    with assms show ?thesis by (auto simp: LoadImageFile_def kept_refl NT_SUCCESS_def split: if_splits)
  next
    case opened: True
    obtain s1 k1 ctx1 where ss: "SetSize k ctx (EndOfFile f) = (s1, k1, ctx1)" by (metis prod_cases3)
    have "resized (EndOfFile f) k ctx (s1, k1, ctx1)" using SetSize_resized [OF assms(1), of "EndOfFile f"] ss by simp
    note z = this [unfolded resized_def prod.case]
    have k1: "kept k ctx k1 ctx1" using z assms(2) by (simp add: kept_def idle_def)
    show ?thesis
    proof (cases "s1 = STATUS_SUCCESS")
      case False
      with opened ss assms(3) k1 show ?thesis by (simp add: LoadImageFile_def NT_SUCCESS_def)
    next
      case True
      have a: "awe_ok k1 ctx1" "VirtualSize ctx1 = EndOfFile f" using z True by simp_all
      then have ok: "pages_ok ctx1" "EndOfFile f \<le> GetTotalSize (FirstBlock ctx1)" by (simp_all add: awe_ok_def)
      obtain s2 pc k2 ctx2 where ll: "load_loop f 0 STATUS_SUCCESS empty_page k1 ctx1 = (s2, pc, k2, ctx2)"
        by (metis prod_cases4)
      have "load_post f 0 STATUS_SUCCESS empty_page k1 ctx1 (s2, pc, k2, ctx2)"
        using load_loop_post [OF ok(1), of empty_page 0 f STATUS_SUCCESS k1] ok(2) ll by simp
      note l = this [unfolded load_post_def prod.case]
      from l obtain m p c pg where f2: "k2 = k1\<lparr>ram := m, partials := p, calls := c\<rparr>"
        "ctx2 = ctx1\<lparr>LatestPageContext := pg\<rparr>" "page_ok (FirstBlock ctx1) pg"
        "p - held pg - held pc = partials k1 - held (LatestPageContext ctx1)" by auto
      have ok2: "page_ok (FirstBlock ctx2) (LatestPageContext ctx2)" "page_ok (FirstBlock ctx2) pc"
        using f2 l by auto
      obtain s3 k3 ctx3 pc3 where mp: "MapPage k2 ctx2 INVALID_OFFSET pc = (s3, k3, ctx3, pc3)"
        by (metis prod_cases4)
      obtain p3 c3 pg3 where f3: "k3 = k2\<lparr>partials := p3, calls := c3\<rparr>" "ctx3 = ctx2\<lparr>LatestPageContext := pg3\<rparr>"
        by (rule MapPage_frame [OF mp])
      have m3: "page_ok (FirstBlock ctx1) pg3" "p3 - held pg3 = p - held pg - held pc"
        using MapPage_pages [OF mp ok2] MapPage_account [OF mp] MapPage_store [OF mp] f2 f3
        by (simp_all add: INVALID_OFFSET_def)
      have "kept k1 ctx1 k3 ctx3"
        unfolding kept_def
      proof (intro conjI allI impI)
        show "awe_ok k3 ctx3" using a(1) m3(1) f2 f3 by (simp add: awe_ok_def pages_ok_def fresh_ok_def)
        show "idle ctx3" using k1 f2 f3 by (simp add: kept_def idle_def)
        show "owns k0 k3 ctx3" if "owns k0 k1 ctx1" for k0
          using that m3(2) f2 f3 by (simp add: owns_def)
      qed (simp_all add: f2 f3)
      moreover have "k' = k3" "ctx' = ctx3" "st = s2"
        using assms(3) opened ss True ll mp by (simp_all add: LoadImageFile_def NT_SUCCESS_def)
      moreover have "contents k3 ctx3 i = contents k2 ctx2 i" for i
        using block_bytes_ram [of k3 k2 "FirstBlock ctx2"] by (simp add: f3)
      ultimately show ?thesis using k1 l a(2) f2 f3 by (auto intro: kept_trans)
    qed
  qed
  then show "kept k ctx k' ctx'" "st = STATUS_SUCCESS \<Longrightarrow> VirtualSize ctx' = EndOfFile f \<and>
       (\<forall>i. 0 \<le> i \<and> i < EndOfFile f \<longrightarrow> contents k' ctx' i = file_bytes f i)" by blast+
qed

lemma new_context_ok: "fresh_ok k [] \<Longrightarrow> awe_ok k new_context" "idle new_context" "owns k k new_context"
  by (simp_all add: new_context_def awe_ok_def pages_ok_def idle_def owns_def held_def empty_page_def
      page_ok_def fresh_ok_def)

text \<open>A context that exists accounts for its pool block besides its blocks and its cached page.\<close>

definition context_of :: "kernel \<Rightarrow> kernel \<Rightarrow> object_context \<Rightarrow> bool" where
  "context_of k0 k ctx \<longleftrightarrow> awe_ok k ctx \<and> idle ctx \<and> owns (k0\<lparr>pool_blocks := pool_blocks k0 + 1\<rparr>) k ctx"

lemma context_of_kept: "context_of k0 k ctx \<Longrightarrow> kept k ctx k' ctx' \<Longrightarrow> context_of k0 k' ctx'"
  by (simp add: context_of_def kept_def)

lemma AllocCreate_context:
  assumes "AllocCreate k0 named = (st, k, Some ctx)" "fresh_ok k0 []"
    "\<And>f. named = Some f \<Longrightarrow> 0 \<le> EndOfFile f"
  shows "context_of k0 k ctx"
proof -
  let ?k = "(tick k0)\<lparr>pool_blocks := pool_blocks k0 + 1\<rparr>"
  have f: "fresh_ok ?k []" using assms(2) by (simp add: fresh_ok_def)
  have "owns (k0\<lparr>pool_blocks := pool_blocks k0 + 1\<rparr>) ?k new_context"
    by (simp add: owns_def new_context_def held_def empty_page_def)
  with new_context_ok(1) [OF f] new_context_ok(2) have c: "context_of k0 ?k new_context" by (simp add: context_of_def)
  show ?thesis
  proof (cases named)
    case None
    with assms(1) c show ?thesis by (auto simp: AllocCreate_def Let_def split: if_splits)
  next
    case (Some f)
    with assms(1) obtain st' where l: "LoadImageFile ?k new_context f = (st', k, ctx)"
      by (auto simp: AllocCreate_def Let_def split: if_splits prod.splits)
    from LoadImageFile_kept(1) [OF new_context_ok(1) [OF f] new_context_ok(2) l assms(3)] Some context_of_kept [OF c]
    show ?thesis by auto
  qed
qed

lemma shrink_all: "chain bs \<Longrightarrow> fst (shrink_blocks bs 0 k) = []"
proof (induction bs arbitrary: k)
  case (Cons b bs)
  then show ?case using chain_total [of bs] by simp
qed simp

lemma SetSize_zero:
  assumes "awe_ok k ctx" "GetTotalSize (FirstBlock ctx) < 18446744073709551616" "SetSize k ctx 0 = (st, k', ctx')"
  shows "FirstBlock ctx' = []"
proof (cases "FirstBlock ctx")
  case Nil
  with assms(3) show ?thesis by (auto simp: SetSize_def Let_def split: if_splits prod.splits)
next
  case (Cons b bs)
  have ch: "chain (FirstBlock ctx)" using assms(1) by (simp add: awe_ok_def pages_ok_def)
  have t: "0 \<le> GetTotalSize (FirstBlock ctx)" using chain_total [OF ch] by simp
  have pos: "0 < GetTotalSize (FirstBlock ctx)" using ch Cons chain_total [of bs] by auto
  have "ALLOC_PAGE_SIZE \<le> GetTotalSize (FirstBlock ctx)"
    using chain_total [OF ch] pos by (intro zdvd_imp_le) auto
  with t assms(2) have "ALLOC_PAGE_SIZE \<le> u64 (GetTotalSize (FirstBlock ctx) - 0)"
    by (simp add: u64_id)
  with t assms(3) shrink_all [OF ch] show ?thesis
    by (auto simp: SetSize_def Let_def split: prod.splits) (metis fst_conv)+
qed

lemma AllocClose_frees:
  assumes "context_of k0 k ctx" "AllocClose k (Some ctx) = (st, k')"
    "GetTotalSize (FirstBlock ctx) < 18446744073709551616"
  shows "st = STATUS_SUCCESS \<and> live k' = live k0 \<and> partials k' = partials k0 \<and> pool_blocks k' = pool_blocks k0"
proof -
  obtain s1 k1 ctx1 where ss: "SetSize k ctx 0 = (s1, k1, ctx1)" by (metis prod_cases3)
  have ok: "awe_ok k ctx" "owns (k0\<lparr>pool_blocks := pool_blocks k0 + 1\<rparr>) k ctx"
    using assms(1) by (simp_all add: context_of_def)
  have "resized 0 k ctx (s1, k1, ctx1)" using SetSize_resized [OF ok(1), of 0] ss by simp
  then have "awe_ok k1 ctx1" "owns (k0\<lparr>pool_blocks := pool_blocks k0 + 1\<rparr>) k1 ctx1"
    using ok(2) by (simp_all add: resized_def)
  moreover have e: "FirstBlock ctx1 = []" by (rule SetSize_zero [OF ok(1) assms(3) ss])
  moreover have "PcMdl (LatestPageContext ctx1) = None"
    using \<open>awe_ok k1 ctx1\<close> e
    by (cases "PcMdl (LatestPageContext ctx1)") (auto simp: awe_ok_def pages_ok_def page_ok_def page_place_def)
  moreover have "st = STATUS_SUCCESS" "k' = k1\<lparr>pool_blocks := pool_blocks k1 - 1\<rparr>"
    using assms(2) ss by (simp_all add: AllocClose_def)
  ultimately show ?thesis by (simp add: owns_def held_def)
qed

end
