(* ===== verification/Awe_Theorems.thy ===== *)
theory Awe_Theorems
  imports Awe_Handlers
begin

text \<open>
  The theorems about \<open>awefsalloc\<close>: the file behaves as a flat byte array (also as an instance of
  \<open>disk_store\<close>), loading, the resources over a file's whole life, and what the handlers do on the
  error paths.
\<close>

section \<open>When the kernel grants everything\<close>

definition generous :: "kernel \<Rightarrow> bool" where
  "generous k \<longleftrightarrow> granting k \<and> (\<forall>n. high_memory k n \<and> pool_grant k n) \<and>
     (\<forall>n low bytes. page_grant k n low bytes = Some bytes)"

lemma required_pages:
  assumes "0 < x"
  shows "x \<le> GetRequiredPagesForSize x" "GetRequiredPagesForSize x < x + ALLOC_PAGE_SIZE"
    "GetPageBaseFromAbsOffset (GetRequiredPagesForSize x) = GetRequiredPagesForSize x"
proof -
  have e: "GetRequiredPagesForSize x = GetPageBaseFromAbsOffset (x + (ALLOC_PAGE_SIZE - 1))"
    by (simp add: GetRequiredPagesForSize_def GetPageBaseFromAbsOffset_def)
  show "GetPageBaseFromAbsOffset (GetRequiredPagesForSize x) = GetRequiredPagesForSize x"
    by (simp add: e)
  show "GetRequiredPagesForSize x < x + ALLOC_PAGE_SIZE"
    using page_base_le [of "x + (ALLOC_PAGE_SIZE - 1)"] by (simp add: e)
  show "x \<le> GetRequiredPagesForSize x"
    using page_base_offset [of "x + (ALLOC_PAGE_SIZE - 1)"] page_offset_range(2) [of "x + (ALLOC_PAGE_SIZE - 1)"]
    by (simp add: e)
qed

lemma bytes_to_allocate_good:
  assumes "0 < x"
  shows "0 < bytes_to_allocate x" "bytes_to_allocate x < 4294967296"
    "GetPageBaseFromAbsOffset (bytes_to_allocate x) = bytes_to_allocate x"
proof -
  have m: "GetPageBaseFromAbsOffset MAX_BLOCK_SIZE = MAX_BLOCK_SIZE"
    by (simp add: page_base_div MAX_BLOCK_SIZE_def ALLOC_PAGE_SIZE_def)
  show "GetPageBaseFromAbsOffset (bytes_to_allocate x) = bytes_to_allocate x"
    using required_pages(3) [OF assms] m by (simp add: bytes_to_allocate_def)
  show "0 < bytes_to_allocate x" "bytes_to_allocate x < 4294967296"
    using required_pages(1,2) [OF assms] assms
    by (auto simp: bytes_to_allocate_def MAX_BLOCK_SIZE_def ALLOC_PAGE_SIZE_def)
qed

lemma try_bounds_generous:
  assumes "generous k" "0 < x" "lows \<noteq> []"
  shows "\<exists>k' ctx'. try_bounds lows (bytes_to_allocate x) k ctx = (True, k', ctx') \<and> generous k'"
proof (cases lows)
  case (Cons low rest)
  note b = bytes_to_allocate_good [OF assms(2)]
  from assms(1) b Cons show ?thesis
    by (auto simp: generous_def granting_def MmAllocatePagesForMdl_def AddBlock_def Let_def u32_id)
qed (use assms in simp)

lemma generous_fields [simp]:
  "generous (tick k) = generous k" "generous (k\<lparr>pool_blocks := n\<rparr>) = generous k"
  by (simp_all add: generous_def granting_def)

lemma grow_loop_generous:
  assumes "generous k"
  shows "fst (grow_loop k ctx eof) = STATUS_SUCCESS"
  using assms
proof (induction "nat (eof - GetTotalSize (FirstBlock ctx))" arbitrary: k ctx rule: less_induct)
  case (less ctx k)
  show ?case
  proof (cases "eof \<le> GetTotalSize (FirstBlock ctx)")
    case True
    then show ?thesis by (subst grow_loop.simps) simp
  next
    case False
    let ?k = "(tick (tick k))\<lparr>pool_blocks := pool_blocks k + 1\<rparr>"
    have g: "high_memory k n" "pool_grant k n" "generous ?k" for n
      using less(2) by (simp_all add: generous_def granting_def)
    have "0 < eof - GetTotalSize (FirstBlock ctx)" using False by simp
    moreover have "low_bounds (win64 k) \<noteq> []" by (simp add: low_bounds_def)
    ultimately obtain k1 ctx1 where t: "try_bounds (low_bounds (win64 k))
        (bytes_to_allocate (eof - GetTotalSize (FirstBlock ctx))) ?k ctx = (True, k1, ctx1)" "generous k1"
      using try_bounds_generous [OF g(3)] by blast
    have "nat (eof - GetTotalSize (FirstBlock ctx1)) < nat (eof - GetTotalSize (FirstBlock ctx))"
      using try_bounds_grows [OF t(1)] False by simp
    from less(1) [OF this t(2)] t(1) False g(1,2) show ?thesis
      by (subst grow_loop.simps) (simp add: Let_def)
  qed
qed

text \<open>
  Setting the end of the file: when the kernel grants what it is asked for, every size is
  reached; the file has the new size, keeps its bytes and reads as zeros in the new pages.\<close>

lemma SetSize_grows:
  assumes "awe_ok k ctx" "generous k" "SetSize k ctx eof = (st, k', ctx')"
  shows "st = STATUS_SUCCESS \<and> VirtualSize ctx' = eof \<and> awe_ok k' ctx' \<and>
    (\<forall>i < GetTotalSize (FirstBlock ctx'). contents k' ctx' i =
       extended (GetTotalSize (FirstBlock ctx)) (contents k ctx) i)"
proof -
  have "resized eof k ctx (st, k', ctx')" using SetSize_resized [OF assms(1), of eof] assms(3) by simp
  note z = this [unfolded resized_def prod.case]
  have "st = STATUS_SUCCESS"
  proof (cases "eof \<le> GetTotalSize (FirstBlock ctx)")
    case True
    with z show ?thesis by simp
  next
    case False
    with assms(3) grow_loop_generous [OF assms(2), of ctx eof] show ?thesis
      by (simp add: SetSize_def Let_def)
  qed
  with z show ?thesis by (simp add: extended_def)
qed

definition sample_kernel :: kernel where
  "sample_kernel = \<lparr>ram = (\<lambda>r i. 0), next_region = 0, live = {}, partials = 0, pool_blocks = 0, calls = 0,
     high_memory = (\<lambda>n. True), pool_grant = (\<lambda>n. True), page_grant = (\<lambda>n low bytes. Some bytes),
     mdl_grant = (\<lambda>n. True), map_grant = (\<lambda>n. True), win64 = True\<rparr>"

lemma sample_kernel_ok: "generous sample_kernel" "fresh_ok sample_kernel []" "awe_ok sample_kernel new_context"
  "granting sample_kernel"
  by (simp_all add: sample_kernel_def generous_def granting_def fresh_ok_def new_context_def awe_ok_def
      pages_ok_def page_ok_def empty_page_def)

lemma SetSize_grows_witness:
  "fst (SetSize sample_kernel new_context 5000000000) = STATUS_SUCCESS \<and>
   VirtualSize (snd (snd (SetSize sample_kernel new_context 5000000000))) = 5000000000"
  using SetSize_grows [OF sample_kernel_ok(3,1), of 5000000000] by (metis prod.collapse)

text \<open>A file of two pages: three bytes at the page boundary.\<close>

definition sample_file :: "kernel \<times> object_context" where
  "sample_file =
    (sample_kernel\<lparr>ram := (\<lambda>r i. if r = 1 \<and> i = 2097151 then 7 else if r = 1 \<and> i = 2097152 then 8
         else if r = 1 \<and> i = 2097155 then 9 else 0),
       next_region := 2, live := {1}, pool_blocks := 2\<rparr>,
     new_context\<lparr>VirtualSize := 2097160,
       FirstBlock := [\<lparr>Offset = 0, Mdl = \<lparr>m_region = 1, ByteCount = 4194304\<rparr>\<rparr>]\<rparr>)"

lemma sample_file_ok: "awe_ok (fst sample_file) (snd sample_file)" "idle (snd sample_file)"
  "generous (fst sample_file)" "granting (fst sample_file)" "VirtualSize (snd sample_file) = 2097160"
  "GetTotalSize (FirstBlock (snd sample_file)) = 4194304"
  by (simp_all add: sample_file_def sample_kernel_def new_context_def awe_ok_def pages_ok_def page_ok_def
      fresh_ok_def empty_page_def idle_def generous_def granting_def page_base_div ALLOC_PAGE_SIZE_def)

lemma sample_file_bytes: "contents (fst sample_file) (snd sample_file) i =
  (if i = 2097151 then 7 else if i = 2097152 then 8 else if i = 2097155 then 9 else 0)"
  by (simp add: sample_file_def block_bytes_def page_base_div ALLOC_PAGE_SIZE_def)

section \<open>The file as a byte array\<close>

text \<open>
  C9. A read inside a well-formed file that the kernel grants returns exactly the file's bytes, at
  most up to its end, reports their number, moves the file position and leaves the file alone.\<close>

theorem awe_read_correct:
  assumes "awe_ok k ctx" "idle ctx" "granting k" "valid_irp irp" "MajorFunction irp = IRP_MJ_READ"
    "system_buffer irp = Some bytes" "ByteOffset irp \<le> VirtualSize ctx"
  defines "n \<equiv> min (Length irp) (VirtualSize ctx - ByteOffset irp)"
  shows "\<exists>r k' ctx'. ReadWrite k (Some ctx) irp pos = (r, k', Some ctx') \<and>
    r = complete STATUS_SUCCESS n (mem_bytes (contents k ctx) (ByteOffset irp) (nat n) @ drop (nat n) bytes)
          (pos + n) \<and>
    awe_ok k' ctx' \<and> idle ctx' \<and> contents k' ctx' = contents k ctx \<and> VirtualSize ctx' = VirtualSize ctx"
proof -
  from ReadWrite_read [OF assms(1,2,4,5,6,7), of pos] assms(3) obtain r k' ctx' where
    "ReadWrite k (Some ctx) irp pos = (r, k', Some ctx')" "kept k ctx k' ctx'"
    "VirtualSize ctx' = VirtualSize ctx" "returned r = io_Status r" "returned r = STATUS_SUCCESS"
    "contents k' ctx' = contents k ctx" "io_Information r = n" "io_position r = pos + n"
    "io_buffer r = mem_bytes (contents k ctx) (ByteOffset irp) (nat n) @ drop (nat n) bytes"
    by (auto simp: n_def)
  then show ?thesis
    by (intro exI [of _ r] exI [of _ k'] exI [of _ ctx']) (simp add: complete_def kept_def)
qed

definition sample_read :: irp where
  "sample_read = \<lparr>MajorFunction = IRP_MJ_READ, ByteOffset = 2097150, Length = 4,
     system_buffer = Some [9, 9, 9, 9]\<rparr>"

theorem awe_read_correct_witness:
  "io_buffer (fst (ReadWrite (fst sample_file) (Some (snd sample_file)) sample_read 0)) = [0, 7, 8, 0]"
proof -
  have "valid_irp sample_read" by (simp add: valid_irp_def sample_read_def)
  from awe_read_correct [OF sample_file_ok(1,2,4) this, of "[9, 9, 9, 9]" 0]
  show ?thesis
    by (auto simp: sample_read_def sample_file_ok complete_def mem_bytes_4 sample_file_bytes)
qed

text \<open>
  C8. A write that is answered with success has stored the caller's bytes at the offset, left every
  other byte as it was (new pages are zero) and made the file as long as it needs to be; it is
  answered with success whenever the pages are there and the kernel maps them.\<close>

theorem awe_write_correct:
  assumes "awe_ok k ctx" "idle ctx" "valid_irp irp" "MajorFunction irp = IRP_MJ_WRITE"
    "system_buffer irp = Some bytes" "ReadWrite k (Some ctx) irp pos = (r, k', Some ctx')"
  shows "awe_ok k' ctx' \<and> idle ctx' \<and>
    (granting k \<and> ByteOffset irp + Length irp \<le> GetTotalSize (FirstBlock ctx) \<longrightarrow>
       returned r = STATUS_SUCCESS) \<and>
    (returned r = STATUS_SUCCESS \<longrightarrow>
      r = complete STATUS_SUCCESS (Length irp) (io_buffer r) (pos + Length irp) \<and>
      VirtualSize ctx' = max (VirtualSize ctx) (ByteOffset irp + Length irp) \<and>
      (\<forall>i < GetTotalSize (FirstBlock ctx'). contents k' ctx' i =
         mem_write (extended (GetTotalSize (FirstBlock ctx)) (contents k ctx)) (ByteOffset irp) bytes i))"
  using ReadWrite_write [OF assms(1-5), of pos] assms(6) by (auto simp: kept_def complete_def)

definition sample_write :: irp where
  "sample_write = \<lparr>MajorFunction = IRP_MJ_WRITE, ByteOffset = 2097150, Length = 3,
     system_buffer = Some [1, 2, 3]\<rparr>"

theorem awe_write_correct_witness:
  "returned (fst (ReadWrite (fst sample_file) (Some (snd sample_file)) sample_write 0)) = STATUS_SUCCESS"
proof -
  have v: "valid_irp sample_write" "MajorFunction sample_write = IRP_MJ_WRITE"
    "system_buffer sample_write = Some [1, 2, 3]"
    by (simp_all add: valid_irp_def sample_write_def)
  obtain r k' ctx' where "ReadWrite (fst sample_file) (Some (snd sample_file)) sample_write 0 = (r, k', Some ctx')"
    using ReadWrite_write [OF sample_file_ok(1,2) v, of 0] by blast
  with awe_write_correct [OF sample_file_ok(1,2) v this] show ?thesis
    by (simp add: sample_file_ok sample_write_def)
qed

text \<open>The file as a store: its bytes inside the end of the file.\<close>

definition awe_get :: "kernel \<times> object_context \<Rightarrow> int \<Rightarrow> byte" where
  "awe_get s i = (if 0 \<le> i \<and> i < VirtualSize (snd s) then contents (fst s) (snd s) i else 0)"

definition awe_len :: "kernel \<times> object_context \<Rightarrow> int" where "awe_len s = VirtualSize (snd s)"

definition awe_inv :: "kernel \<times> object_context \<Rightarrow> bool" where
  "awe_inv s \<longleftrightarrow> awe_ok (fst s) (snd s) \<and> idle (snd s) \<and> granting (fst s) \<and>
     VirtualSize (snd s) < 9223372036854775808"

definition awe_rd :: "kernel \<times> object_context \<Rightarrow> byte list \<Rightarrow> int \<Rightarrow>
    (int \<times> byte list \<times> kernel \<times> object_context) option" where
  "awe_rd s io off =
     (case ReadWrite (fst s) (Some (snd s)) \<lparr>MajorFunction = IRP_MJ_READ, ByteOffset = off,
         Length = int (length io), system_buffer = Some io\<rparr> 0 of
        (r, k, Some ctx) \<Rightarrow> Some (io_Information r, io_buffer r, k, ctx)
      | (r, k, None) \<Rightarrow> None)"

definition awe_wr :: "kernel \<times> object_context \<Rightarrow> byte list \<Rightarrow> int \<Rightarrow>
    (int \<times> kernel \<times> object_context) option" where
  "awe_wr s bs off =
     (case ReadWrite (fst s) (Some (snd s)) \<lparr>MajorFunction = IRP_MJ_WRITE, ByteOffset = off,
         Length = int (length bs), system_buffer = Some bs\<rparr> 0 of
        (r, k, Some ctx) \<Rightarrow> Some (io_Information r, k, ctx)
      | (r, k, None) \<Rightarrow> None)"

definition awe_irp :: "major \<Rightarrow> int \<Rightarrow> byte list \<Rightarrow> irp" where
  "awe_irp m off bs = \<lparr>MajorFunction = m, ByteOffset = off, Length = int (length bs), system_buffer = Some bs\<rparr>"

lemma awe_irp_valid:
  assumes "awe_inv s" "fits (awe_len s) off (length bs)"
  shows "valid_irp (awe_irp m off bs)" "off \<le> VirtualSize (snd s)" "0 \<le> off"
    "off + int (length bs) \<le> VirtualSize (snd s)"
  using assms by (auto simp: fits_def awe_len_def awe_inv_def valid_irp_def awe_irp_def)

lemma awe_read_in:
  assumes inv: "awe_inv s" and fits: "fits (awe_len s) off (length io)"
  obtains r k' ctx' where "ReadWrite (fst s) (Some (snd s)) (awe_irp IRP_MJ_READ off io) 0 = (r, k', Some ctx')"
    "io_Status r = STATUS_SUCCESS" "io_Information r = int (length io)"
    "io_buffer r = mem_bytes (awe_get s) off (length io)" "awe_inv (k', ctx')"
    "awe_get (k', ctx') = awe_get s" "awe_len (k', ctx') = awe_len s"
proof -
  have a: "awe_ok (fst s) (snd s)" "idle (snd s)" "granting (fst s)" using inv by (simp_all add: awe_inv_def)
  note le = awe_irp_valid [OF inv fits]
  from ReadWrite_read [OF a(1,2) le(1) [of IRP_MJ_READ], of io 0] le a(3) obtain r k' ctx' where
    r: "ReadWrite (fst s) (Some (snd s)) (awe_irp IRP_MJ_READ off io) 0 = (r, k', Some ctx')"
    "kept (fst s) (snd s) k' ctx'" "VirtualSize ctx' = VirtualSize (snd s)"
    "contents k' ctx' = contents (fst s) (snd s)" "io_Status r = STATUS_SUCCESS"
    "io_Information r = int (length io)"
    "io_buffer r = mem_bytes (contents (fst s) (snd s)) off (length io)"
    by (auto simp: awe_irp_def)
  have "mem_bytes (contents (fst s) (snd s)) off (length io) = mem_bytes (awe_get s) off (length io)"
    using le by (intro mem_bytes_cong) (simp add: awe_get_def)
  moreover have "awe_inv (k', ctx')" using inv r(2,3) by (simp add: awe_inv_def kept_def granting_def)
  moreover have "awe_get (k', ctx') = awe_get s" using r(3,4) by (intro ext) (simp add: awe_get_def)
  ultimately show ?thesis using r that by (simp add: awe_len_def)
qed

lemma awe_write_in:
  assumes inv: "awe_inv s" and fits: "fits (awe_len s) off (length bs)"
  obtains r k' ctx' where "ReadWrite (fst s) (Some (snd s)) (awe_irp IRP_MJ_WRITE off bs) 0 = (r, k', Some ctx')"
    "io_Status r = STATUS_SUCCESS" "io_Information r = int (length bs)" "awe_inv (k', ctx')"
    "awe_get (k', ctx') = mem_write (awe_get s) off bs" "awe_len (k', ctx') = awe_len s"
proof -
  let ?ctx = "snd s"
  have a: "awe_ok (fst s) ?ctx" "idle ?ctx" "granting (fst s)" using inv by (simp_all add: awe_inv_def)
  note le = awe_irp_valid [OF inv fits]
  have tot: "VirtualSize ?ctx \<le> GetTotalSize (FirstBlock ?ctx)" using a(1) by (simp add: awe_ok_def)
  from ReadWrite_write [OF a(1,2) le(1) [of IRP_MJ_WRITE], of bs 0] le tot a(3) obtain r k' ctx' where
    r: "ReadWrite (fst s) (Some ?ctx) (awe_irp IRP_MJ_WRITE off bs) 0 = (r, k', Some ctx')"
    "kept (fst s) ?ctx k' ctx'" "VirtualSize ctx' = VirtualSize ?ctx" "io_Information r = int (length bs)"
    "io_Status r = STATUS_SUCCESS"
    "\<forall>i < GetTotalSize (FirstBlock ctx'). contents k' ctx' i =
       mem_write (extended (GetTotalSize (FirstBlock ?ctx)) (contents (fst s) ?ctx)) off bs i"
    by (auto simp: awe_irp_def)
  have tot': "VirtualSize ?ctx \<le> GetTotalSize (FirstBlock ctx')" using r(2,3) by (simp add: kept_def awe_ok_def)
  have "awe_get (k', ctx') = mem_write (awe_get s) off bs"
    using r(3,6) tot tot' le by (intro ext) (auto simp: awe_get_def mem_write_def extended_def)
  moreover have "awe_inv (k', ctx')" using inv r(2,3) by (simp add: awe_inv_def kept_def granting_def)
  ultimately show ?thesis using r that by (simp add: awe_len_def)
qed

interpretation awe_disk: disk_store awe_rd awe_get awe_len awe_inv awe_wr
proof
  fix s :: "kernel \<times> object_context" and off :: int and io bs :: "byte list"
  assume inv: "awe_inv s"
  {
    assume "fits (awe_len s) off (length io)"
    from awe_read_in [OF inv this] obtain r k' ctx' where
      "ReadWrite (fst s) (Some (snd s)) (awe_irp IRP_MJ_READ off io) 0 = (r, k', Some ctx')"
      "io_Information r = int (length io)" "io_buffer r = mem_bytes (awe_get s) off (length io)"
      "awe_inv (k', ctx')" "awe_get (k', ctx') = awe_get s" "awe_len (k', ctx') = awe_len s" by metis
    then show "\<exists>s'. awe_rd s io off = Some (int (length io), mem_bytes (awe_get s) off (length io), s') \<and>
        awe_inv s' \<and> awe_get s' = awe_get s \<and> awe_len s' = awe_len s"
      by (intro exI [of _ "(k', ctx')"]) (simp add: awe_rd_def flip: awe_irp_def)
  }
  {
    assume "fits (awe_len s) off (length bs)"
    from awe_write_in [OF inv this] obtain r k' ctx' where
      "ReadWrite (fst s) (Some (snd s)) (awe_irp IRP_MJ_WRITE off bs) 0 = (r, k', Some ctx')"
      "io_Information r = int (length bs)" "awe_inv (k', ctx')"
      "awe_get (k', ctx') = mem_write (awe_get s) off bs" "awe_len (k', ctx') = awe_len s" by metis
    then show "\<exists>s'. awe_wr s bs off = Some (int (length bs), s') \<and>
        awe_inv s' \<and> awe_get s' = mem_write (awe_get s) off bs \<and> awe_len s' = awe_len s"
      by (intro exI [of _ "(k', ctx')"]) (simp add: awe_wr_def flip: awe_irp_def)
  }
qed

text \<open>
  C10. Inside the file, the driver is a disk: after any sequence of writes a read returns the bytes a
  flat byte array would hold.\<close>

theorem awe_is_a_disk:
  assumes "awe_inv s" "\<And>off bs. (off, bs) \<in> set ws \<Longrightarrow> fits (awe_len s) off (length bs)"
    "fits (awe_len s) off (length io)"
  shows "\<exists>s1 s2. wr_all awe_wr s ws = Some s1 \<and>
    awe_rd s1 io off = Some (int (length io), mem_bytes (flat_all (awe_get s) ws) off (length io), s2)"
proof -
  obtain s1 where s1: "wr_all awe_wr s ws = Some s1" using awe_disk.wr_all_flat [OF assms(1,2)] by blast
  with awe_disk.read_after_writes [OF assms(1,2) s1 assms(3)] show ?thesis by blast
qed

theorem awe_is_a_disk_witness:
  "\<exists>s1 s2. wr_all awe_wr sample_file [(2097150, [1, 2, 3]), (2097151, [5])] = Some s1 \<and>
     awe_rd s1 [0, 0, 0, 0] 2097150 = Some (4, [1, 5, 3, 0], s2)"
proof -
  let ?ws = "[(2097150, [1, 2, 3]), (2097151, [5])] :: (int \<times> byte list) list"
  have inv: "awe_inv sample_file" by (simp add: awe_inv_def sample_file_ok)
  have f: "fits (awe_len sample_file) off (length bs)" if "(off, bs) \<in> set ?ws" for off bs
    using that by (auto simp: fits_def awe_len_def sample_file_ok)
  have g: "fits (awe_len sample_file) 2097150 (length [0, 0, 0, 0 :: byte])"
    by (simp add: fits_def awe_len_def sample_file_ok)
  have "mem_bytes (flat_all (awe_get sample_file) ?ws) 2097150 (length [0, 0, 0, 0 :: byte]) = [1, 5, 3, 0]"
    by (simp add: mem_bytes_Suc mem_write_def awe_get_def sample_file_ok sample_file_bytes)
  with awe_is_a_disk [where ws = ?ws, OF inv f g] show ?thesis by simp
qed

section \<open>The life of a file\<close>

text \<open>
  C11. No request leaks: whatever the kernel grants or refuses, after a file was created, any
  sequence of well-formed requests was served and the file was closed, the physical pages, the
  partial memory descriptors and the pool blocks are those from before.\<close>

theorem awe_no_leak:
  assumes "AllocCreate k0 named = (st, k1, Some ctx1)" "fresh_ok k0 []"
    "\<And>f. named = Some f \<Longrightarrow> 0 \<le> EndOfFile f" "list_all wf_request reqs"
    "serve_all layout reqs (k1, ctx1, pos) = (k2, ctx2, pos2)"
    "GetTotalSize (FirstBlock ctx2) < 18446744073709551616"
    "AllocClose k2 (Some ctx2) = (st', k3)"
  shows "context_of k0 k2 ctx2 \<and> st' = STATUS_SUCCESS \<and>
    live k3 = live k0 \<and> partials k3 = partials k0 \<and> pool_blocks k3 = pool_blocks k0"
proof -
  have c: "context_of k0 k1 ctx1" by (rule AllocCreate_context [OF assms(1-3)])
  then have "awe_ok k1 ctx1" "idle ctx1" by (simp_all add: context_of_def)
  from serve_all_kept [OF this assms(4,5)] have c2: "context_of k0 k2 ctx2" by (rule context_of_kept [OF c])
  from AllocClose_frees [OF this assms(7,6)] c2 show ?thesis by simp
qed

theorem awe_no_leak_witness:
  "\<exists>k2 ctx2 p. serve_all (\<lambda>c. []) [ReadWriteReq sample_read, FlushReq] (tick sample_kernel\<lparr>pool_blocks := 1\<rparr>, new_context, 0)
       = (k2, ctx2, p) \<and>
     live (snd (AllocClose k2 (Some ctx2))) = live sample_kernel"
proof -
  let ?s = "(tick sample_kernel\<lparr>pool_blocks := 1\<rparr>, new_context, 0)"
  let ?reqs = "[ReadWriteReq sample_read, FlushReq]"
  have c: "AllocCreate sample_kernel None = (STATUS_SUCCESS, tick sample_kernel\<lparr>pool_blocks := 1\<rparr>, Some new_context)"
    by (simp add: AllocCreate_def sample_kernel_def tick_def)
  have w: "wf_irp sample_read" by (simp add: wf_irp_def sample_read_def)
  have s: "serve_all (\<lambda>c. []) ?reqs ?s = (tick sample_kernel\<lparr>pool_blocks := 1\<rparr>, new_context, 0)"
    using ReadWrite_eof [of new_context sample_read "[9, 9, 9, 9]"]
    by (simp add: dispatch_def new_context_ok valid_irp_def sample_read_def complete_def)
      (simp add: new_context_def)
  obtain st' k3 where cl: "AllocClose (tick sample_kernel\<lparr>pool_blocks := 1\<rparr>) (Some new_context) = (st', k3)" by fastforce
  have n: "GetTotalSize (FirstBlock new_context) < 18446744073709551616" by (simp add: new_context_def)
  from awe_no_leak [OF c sample_kernel_ok(2) _ _ s n cl] w s cl show ?thesis by simp
qed

text \<open>
  C13. A file is created with the image's bytes: when creating from a named image succeeds, the file
  has the image's length and contents.\<close>

theorem AllocCreate_loads:
  assumes "AllocCreate k0 (Some f) = (STATUS_SUCCESS, k, Some ctx)" "fresh_ok k0 []" "0 \<le> EndOfFile f"
  shows "VirtualSize ctx = EndOfFile f \<and>
    mem_bytes (contents k ctx) 0 (nat (EndOfFile f)) = mem_bytes (file_bytes f) 0 (nat (EndOfFile f))"
proof -
  let ?k = "(tick k0)\<lparr>pool_blocks := pool_blocks k0 + 1\<rparr>"
  have fr: "fresh_ok ?k []" using assms(2) by (simp add: fresh_ok_def)
  from assms(1) have l: "LoadImageFile ?k new_context f = (STATUS_SUCCESS, k, ctx)"
    by (auto simp: AllocCreate_def Let_def split: if_splits prod.splits)
  from LoadImageFile_kept(2) [OF new_context_ok(1) [OF fr] new_context_ok(2) l assms(3) refl]
  show ?thesis using assms(3) by (intro conjI mem_bytes_cong) auto
qed

definition small_image :: "ntstatus \<Rightarrow> image_file" where
  "small_image st = \<lparr>open_status = STATUS_SUCCESS, query_status = STATUS_SUCCESS, EndOfFile = 3,
     file_bytes = (\<lambda>i. word_of_int (i + 65)), read_status = (\<lambda>i. st)\<rparr>"

lemma create_small:
  "\<exists>k ctx. AllocCreate sample_kernel (Some (small_image st)) = (st, k, Some ctx)"
proof -
  let ?k = "(tick sample_kernel)\<lparr>pool_blocks := 1\<rparr>"
  have fr: "fresh_ok ?k []" "generous ?k" using sample_kernel_ok by (simp_all add: fresh_ok_def)
  obtain st1 k1 ctx1 where ss: "SetSize ?k new_context 3 = (st1, k1, ctx1)" by (metis prod_cases3)
  have z: "resized 3 ?k new_context (st1, k1, ctx1)"
    using SetSize_resized [OF new_context_ok(1) [OF fr(1)], of 3] ss by simp
  have "grow_loop ?k new_context 3 = (st1, k1, ctx1)"
    using ss by (simp add: SetSize_def Let_def new_context_def)
  then have good: "st1 = STATUS_SUCCESS" using grow_loop_generous [OF fr(2), of new_context 3] by simp
  with z have v: "awe_ok k1 ctx1" "VirtualSize ctx1 = 3" "granting k1"
    using fr(2) by (simp_all add: resized_def generous_def granting_def)
  then have "chain (FirstBlock ctx1)" "0 < GetTotalSize (FirstBlock ctx1)" by (auto simp: awe_ok_def pages_ok_def)
  then have mp: "fst (MapPage k1 ctx1 0 empty_page) = STATUS_SUCCESS"
    using MapPage_granted [of k1 ctx1 0 empty_page] v(3) by (cases "MapPage k1 ctx1 0 empty_page") auto
  obtain k2 ctx2 pc2 where m: "MapPage k1 ctx1 0 empty_page = (STATUS_SUCCESS, k2, ctx2, pc2)"
    using mp by (metis prod.collapse)
  obtain s3 pc3 k3 ctx3 where ll: "load_loop (small_image st) 0 STATUS_SUCCESS empty_page k1 ctx1 = (s3, pc3, k3, ctx3)"
    by (metis prod_cases4)
  have "s3 = st"
    using ll m
    by (subst (asm) load_loop.simps, subst (asm) load_loop.simps)
      (auto simp: small_image_def NT_SUCCESS_def Let_def ALLOC_PAGE_SIZE_def split: if_splits)
  moreover obtain s4 k4 ctx4 pc4 where "MapPage k3 ctx3 INVALID_OFFSET pc3 = (s4, k4, ctx4, pc4)"
    by (metis prod_cases4)
  ultimately have "LoadImageFile ?k new_context (small_image st) = (st, k4, ctx4)"
    using ss good ll by (simp add: LoadImageFile_def NT_SUCCESS_def small_image_def)
  then show ?thesis
    by (simp add: AllocCreate_def Let_def sample_kernel_def tick_def)
qed

theorem AllocCreate_loads_witness:
  "\<exists>k ctx. AllocCreate sample_kernel (Some (small_image STATUS_SUCCESS)) = (STATUS_SUCCESS, k, Some ctx) \<and>
     mem_bytes (contents k ctx) 0 3 = [65, 66, 67]"
proof -
  obtain k ctx where c: "AllocCreate sample_kernel (Some (small_image STATUS_SUCCESS)) = (STATUS_SUCCESS, k, Some ctx)"
    using create_small by blast
  from AllocCreate_loads [OF c sample_kernel_ok(2)] have
    "mem_bytes (contents k ctx) 0 3 = mem_bytes (file_bytes (small_image STATUS_SUCCESS)) 0 3"
    by (simp add: small_image_def)
  with c show ?thesis by (simp add: small_image_def numeral_3_eq_3 mem_bytes_Suc)
qed

text \<open>
  A create that fails while the image is loaded leaks: the context stays allocated with every
  block obtained so far, and the I/O manager never closes a file whose create failed.\<close>

lemma AllocCreate_failure_leaks:
  assumes "AllocCreate k0 (Some f) = (st, k, Some ctx)" "st \<noteq> STATUS_SUCCESS" "fresh_ok k0 []" "0 \<le> EndOfFile f"
  shows "pool_blocks k = pool_blocks k0 + 1 + int (length (FirstBlock ctx)) \<and>
    live k = live k0 \<union> set (regions (FirstBlock ctx)) \<and> live k0 \<inter> set (regions (FirstBlock ctx)) = {}"
  using AllocCreate_context [OF assms(1,3)] assms(4) by (simp add: context_of_def owns_def)

lemma AllocCreate_failure_leaks_witness:
  "\<exists>k ctx. AllocCreate sample_kernel (Some (small_image (STATUS_OTHER 5))) = (STATUS_OTHER 5, k, Some ctx) \<and>
     0 < pool_blocks k"
proof -
  obtain k ctx where c: "AllocCreate sample_kernel (Some (small_image (STATUS_OTHER 5))) = (STATUS_OTHER 5, k, Some ctx)"
    using create_small by blast
  from AllocCreate_failure_leaks [OF c _ sample_kernel_ok(2)] have
    "pool_blocks k = 0 + 1 + int (length (FirstBlock ctx))"
    by (simp add: small_image_def sample_kernel_def)
  with c show ?thesis by simp
qed

section \<open>Error paths\<close>

text \<open>
  No control request ever succeeds: the two supported codes fall through to the \<open>default\<close> case
  of the \<open>switch\<close>, so even a correct query is refused, with nothing reported to the caller.\<close>

lemma AllocControl_never_succeeds:
  "returned (AllocControl layout context_opt irp) \<noteq> STATUS_SUCCESS \<and>
   io_Status (AllocControl layout context_opt irp) = returned (AllocControl layout context_opt irp) \<and>
   io_Information (AllocControl layout context_opt irp) = 0"
  by (simp add: AllocControl_def complete_def Let_def NT_SUCCESS_def split: option.split)

text \<open>
  Shrinking the file by less than a page and growing it again brings the old bytes back: the
  bytes beyond a shortened end of file are neither released nor cleared.\<close>

lemma stale_bytes_return:
  assumes "GetTotalSize (FirstBlock ctx) - small < ALLOC_PAGE_SIZE" "0 \<le> small" "small \<le> big"
    "big \<le> GetTotalSize (FirstBlock ctx)"
    "SetSize k ctx small = (st1, k1, ctx1)" "SetSize k1 ctx1 big = (st2, k2, ctx2)"
  shows "st1 = STATUS_SUCCESS \<and> st2 = STATUS_SUCCESS \<and> VirtualSize ctx2 = big \<and>
    contents k2 ctx2 = contents k ctx"
proof -
  have u: "u64 (GetTotalSize (FirstBlock ctx) - small) = GetTotalSize (FirstBlock ctx) - small"
    "u64 (GetTotalSize (FirstBlock ctx) - big) = GetTotalSize (FirstBlock ctx) - big"
    using assms(1-4) by (auto simp: u64_id ALLOC_PAGE_SIZE_def)
  have "(st1, k1, ctx1) = (STATUS_SUCCESS, k, ctx\<lparr>VirtualSize := small\<rparr>)"
    unfolding assms(5) [symmetric] using assms(1-4) u by (simp add: SetSize_def Let_def)
  with assms(6) assms(1,3,4) u have "(st2, k2, ctx2) = (STATUS_SUCCESS, k, ctx\<lparr>VirtualSize := big\<rparr>)"
    by (simp add: SetSize_def Let_def)
  with \<open>(st1, k1, ctx1) = _\<close> show ?thesis by simp
qed

lemma stale_bytes_return_witness:
  "contents (fst (snd (SetSize (fst sample_file) (snd sample_file\<lparr>VirtualSize := 2097153\<rparr>) 2097160)))
     (snd (snd (SetSize (fst sample_file) (snd sample_file\<lparr>VirtualSize := 2097153\<rparr>) 2097160))) 2097155 = 9"
proof -
  have s: "SetSize (fst sample_file) (snd sample_file) 2097153 =
      (STATUS_SUCCESS, fst sample_file, snd sample_file\<lparr>VirtualSize := 2097153\<rparr>)"
    by (simp add: SetSize_def Let_def sample_file_ok u64_id ALLOC_PAGE_SIZE_def case_prod_beta)
  obtain st k ctx where g: "SetSize (fst sample_file) (snd sample_file\<lparr>VirtualSize := 2097153\<rparr>) 2097160
      = (st, k, ctx)" by (metis prod_cases3)
  from stale_bytes_return [OF _ _ _ _ s g] show ?thesis
    by (simp add: g sample_file_ok ALLOC_PAGE_SIZE_def sample_file_bytes)
qed

text \<open>
  A read or write at a negative offset is refused in the status block, but the dispatch routine
  itself reports success.\<close>

lemma ReadWrite_negative_offset:
  assumes "ByteOffset irp < 0"
  shows "\<exists>r. ReadWrite k context_opt irp pos = (r, k, context_opt) \<and>
    io_Status r = STATUS_INVALID_PARAMETER \<and> returned r = STATUS_SUCCESS"
  using assms by (simp add: ReadWrite_def Let_def)

lemma ReadWrite_negative_offset_witness:
  "returned (fst (ReadWrite sample_kernel None (sample_read\<lparr>ByteOffset := -1\<rparr>) 0)) = STATUS_SUCCESS"
  using ReadWrite_negative_offset [of "sample_read\<lparr>ByteOffset := -1\<rparr>" sample_kernel None 0] by auto

end
