(* ===== verification/Awe_Locks.thy ===== *)
theory Awe_Locks
  imports Awe_Context
begin

text \<open>
  The reader/writer protection of \<open>awefsalloc\<close> under any interleaving of threads. A thread reads
  (\<open>AWE_FS_AllocReadWrite\<close>), may upgrade to writing while it grows the file, or writes
  (\<open>AWE_FS_AllocSetInformation\<close>); each step is one call of \<open>AWE_FS_AllocTryAcquireProtection\<close> or
  \<open>AWE_FS_AllocReleaseProtection\<close>, which the spin lock makes atomic. A refused request changes only
  the conflict counters.
\<close>

section \<open>Threads and steps\<close>

datatype hold = Free | Reading | Upgraded | Writing

type_synonym lock_state = "object_context \<times> (nat \<Rightarrow> hold)"

datatype lock_event =
    StartRead nat | Upgrade nat | Downgrade nat | Abort nat | EndRead nat | StartWrite nat | EndWrite nat

text \<open>The thread's hold after \<open>TryAcquireProtection\<close>.\<close>

definition taken :: "ntstatus \<Rightarrow> hold \<Rightarrow> hold \<Rightarrow> hold" where
  "taken status new old = (if NT_SUCCESS status then new else old)"

inductive lock_step :: "lock_state \<Rightarrow> lock_event \<Rightarrow> lock_state \<Rightarrow> bool" where
  start_read: "T t = Free \<Longrightarrow> TryAcquireProtection ctx False False = (st, ctx') \<Longrightarrow>
     lock_step (ctx, T) (StartRead t) (ctx', T(t := taken st Reading Free))"
| upgrade: "T t = Reading \<Longrightarrow> TryAcquireProtection ctx True True = (st, ctx') \<Longrightarrow>
     lock_step (ctx, T) (Upgrade t) (ctx', T(t := taken st Upgraded Reading))"
| downgrade: "T t = Upgraded \<Longrightarrow>
     lock_step (ctx, T) (Downgrade t) (ReleaseProtection ctx False True, T(t := Reading))"
| abort: "T t = Upgraded \<Longrightarrow>
     lock_step (ctx, T) (Abort t) (ReleaseProtection ctx True True, T(t := Free))"
| end_read: "T t = Reading \<Longrightarrow>
     lock_step (ctx, T) (EndRead t) (ReleaseProtection ctx True False, T(t := Free))"
| start_write: "T t = Free \<Longrightarrow> TryAcquireProtection ctx True False = (st, ctx') \<Longrightarrow>
     lock_step (ctx, T) (StartWrite t) (ctx', T(t := taken st Writing Free))"
| end_write: "T t = Writing \<Longrightarrow>
     lock_step (ctx, T) (EndWrite t) (ReleaseProtection ctx False True, T(t := Free))"

inductive_cases lock_stepE: "lock_step (ctx, T) e (ctx', T')"

inductive_simps lock_step_simps:
  "lock_step (ctx, T) (StartRead t) s" "lock_step (ctx, T) (Upgrade t) s"
  "lock_step (ctx, T) (Downgrade t) s" "lock_step (ctx, T) (StartWrite t) s"

inductive lock_steps :: "lock_state \<Rightarrow> lock_event list \<Rightarrow> lock_state \<Rightarrow> bool" where
  none: "lock_steps s [] s"
| more: "lock_step s e s1 \<Longrightarrow> lock_steps s1 es s2 \<Longrightarrow> lock_steps s (e # es) s2"

inductive_simps lock_steps_simps: "lock_steps s [] s'" "lock_steps s (e # es) s'"

definition all_free :: lock_state where "all_free = (new_context, \<lambda>t. Free)"

section \<open>The counters count the threads\<close>

definition reads :: "hold \<Rightarrow> bool" where "reads h \<longleftrightarrow> h = Reading \<or> h = Upgraded"
definition writes :: "hold \<Rightarrow> bool" where "writes h \<longleftrightarrow> h = Writing \<or> h = Upgraded"

definition holders :: "(hold \<Rightarrow> bool) \<Rightarrow> (nat \<Rightarrow> hold) \<Rightarrow> nat set" where
  "holders P T = {t. P (T t)}"

definition lock_inv :: "lock_state \<Rightarrow> bool" where
  "lock_inv s = (case s of (ctx, T) \<Rightarrow>
     finite (holders reads T) \<and> finite (holders writes T) \<and>
     ActiveReaders ctx = int (card (holders reads T)) \<and> ActiveWriters ctx = int (card (holders writes T)) \<and>
     ActiveReaders ctx \<le> 2147483647 \<and>
     (\<forall>t. writes (T t) \<longrightarrow> (\<forall>u. u \<noteq> t \<longrightarrow> T u = Free)))"

lemma holders_update:
  "holders P (T(t := h)) = (if P h then insert t (holders P T) else holders P T - {t})"
  by (auto simp: holders_def)

lemma card_holders:
  assumes "finite (holders P T)"
  shows "int (card (holders P (T(t := h)))) =
    int (card (holders P T)) + (if P h then 1 else 0) - (if P (T t) then 1 else 0)"
proof (cases "P (T t)")
  case True
  then have "t \<in> holders P T" by (simp add: holders_def)
  then have "insert t (holders P T) = holders P T" "card (holders P T) = Suc (card (holders P T - {t}))"
    using assms card.remove [of "holders P T" t] by auto
  with True show ?thesis by (simp add: holders_update)
next
  case False
  then have "t \<notin> holders P T" by (simp add: holders_def)
  with False assms show ?thesis by (simp add: holders_update)
qed

lemma finite_holders: "finite (holders P T) \<Longrightarrow> finite (holders P (T(t := h)))"
  by (simp add: holders_update)

lemma no_holders: "finite (holders P T) \<Longrightarrow> int (card (holders P T)) < 1 \<Longrightarrow> \<not> P (T u)"
  by (auto simp: holders_def)

lemma one_holder:
  assumes "finite (holders P T)" "int (card (holders P T)) < 2" "P (T t)" "u \<noteq> t"
  shows "\<not> P (T u)"
proof
  assume "P (T u)"
  with assms have "{t, u} \<subseteq> holders P T" by (simp add: holders_def)
  from card_mono [OF assms(1) this] assms(2,4) show False by simp
qed

lemma hold_cases: "\<not> reads h \<Longrightarrow> \<not> writes h \<Longrightarrow> h = Free"
  by (cases h) (simp_all add: reads_def writes_def)

lemma lock_inv_start: "lock_inv all_free"
  by (simp add: lock_inv_def all_free_def new_context_def holders_def reads_def writes_def)

text \<open>What a successful acquisition tells, and what a refused one leaves.\<close>

lemma acquire_read:
  assumes "TryAcquireProtection ctx False False = (st, ctx')" "0 \<le> ActiveReaders ctx"
    "ActiveReaders ctx \<le> 2147483647" "0 \<le> ActiveWriters ctx"
  shows "(st = STATUS_SUCCESS \<and> ActiveWriters ctx = 0 \<and> ActiveReaders ctx < 2147483647 \<and>
      ActiveReaders ctx' = ActiveReaders ctx + 1 \<and> ActiveWriters ctx' = ActiveWriters ctx) \<or>
    (st = STATUS_DEVICE_BUSY \<and> ActiveReaders ctx' = ActiveReaders ctx \<and> ActiveWriters ctx' = ActiveWriters ctx)"
  using assms by (auto simp: TryAcquireProtection_def Let_def s32_id split: if_splits)

lemma acquire_write:
  assumes "TryAcquireProtection ctx True owns_read = (st, ctx')" "0 \<le> ActiveReaders ctx" "0 \<le> ActiveWriters ctx"
  shows "(st = STATUS_SUCCESS \<and> ActiveWriters ctx = 0 \<and> ActiveReaders ctx < (if owns_read then 2 else 1) \<and>
      ActiveReaders ctx' = ActiveReaders ctx \<and> ActiveWriters ctx' = 1) \<or>
    (st = STATUS_DEVICE_BUSY \<and> ActiveReaders ctx' = ActiveReaders ctx \<and> ActiveWriters ctx' = ActiveWriters ctx)"
  using assms by (auto simp: TryAcquireProtection_def Let_def s32_id split: if_splits)

lemma lock_inv_update:
  assumes "lock_inv (ctx, T)"
    "ActiveReaders ctx' = ActiveReaders ctx + (if reads h then 1 else 0) - (if reads (T t) then 1 else 0)"
    "ActiveWriters ctx' = ActiveWriters ctx + (if writes h then 1 else 0) - (if writes (T t) then 1 else 0)"
    "ActiveReaders ctx' \<le> 2147483647"
    "\<And>u. h \<noteq> Free \<Longrightarrow> u \<noteq> t \<Longrightarrow> \<not> writes (T u)" "\<And>u. writes h \<Longrightarrow> u \<noteq> t \<Longrightarrow> T u = Free"
  shows "lock_inv (ctx', T(t := h))"
proof -
  note i = assms(1) [unfolded lock_inv_def prod.case]
  have "finite (holders reads T)" "finite (holders writes T)" using i by blast+
  then have "ActiveReaders ctx' = int (card (holders reads (T(t := h))))"
    "ActiveWriters ctx' = int (card (holders writes (T(t := h))))"
    using i assms(2,3) card_holders [of reads T t h] card_holders [of writes T t h] by simp_all
  moreover have "\<forall>w. writes ((T(t := h)) w) \<longrightarrow> (\<forall>u. u \<noteq> w \<longrightarrow> (T(t := h)) u = Free)"
    using i assms(5,6) by auto
  ultimately show ?thesis
    unfolding lock_inv_def prod.case using i assms(4) finite_holders [of reads T t h] finite_holders [of writes T t h]
    by blast
qed

lemma hold_flags [simp]:
  "reads Reading" "reads Upgraded" "\<not> reads Writing" "\<not> reads Free"
  "\<not> writes Reading" "writes Upgraded" "writes Writing" "\<not> writes Free"
  by (simp_all add: reads_def writes_def)

lemma ReleaseProtection_counts:
  assumes "0 \<le> ActiveReaders ctx" "ActiveReaders ctx \<le> 2147483647" "0 \<le> ActiveWriters ctx" "ActiveWriters ctx \<le> 1"
  shows "ActiveReaders (ReleaseProtection ctx rd wr) = ActiveReaders ctx - (if rd then 1 else 0)"
    "ActiveWriters (ReleaseProtection ctx rd wr) = ActiveWriters ctx - (if wr then 1 else 0)"
  using assms by (auto simp: ReleaseProtection_def Let_def s32_id)

lemma lock_inv_counts:
  assumes "lock_inv (ctx, T)"
  shows "0 \<le> ActiveReaders ctx" "ActiveReaders ctx \<le> 2147483647" "0 \<le> ActiveWriters ctx" "ActiveWriters ctx \<le> 1"
proof -
  note i = assms [unfolded lock_inv_def prod.case]
  show "0 \<le> ActiveReaders ctx" "ActiveReaders ctx \<le> 2147483647" "0 \<le> ActiveWriters ctx" using i by auto
  show "ActiveWriters ctx \<le> 1"
  proof (rule ccontr)
    assume "\<not> ?thesis"
    then have "2 \<le> card (holders writes T)" using i by simp
    then obtain t u where "t \<in> holders writes T" "u \<in> holders writes T" "t \<noteq> u"
      by (metis card_2_iff' card_le_Suc0_iff_eq i not_less_eq_eq numeral_2_eq_2)
    with i show False by (auto simp: holders_def)
  qed
qed

lemma lock_inv_idle:
  assumes "lock_inv (ctx, T)"
  shows "ActiveWriters ctx = 0 \<Longrightarrow> \<not> writes (T u)"
    "ActiveReaders ctx < 1 \<Longrightarrow> \<not> reads (T u)"
    "ActiveReaders ctx < 2 \<Longrightarrow> reads (T t) \<Longrightarrow> u \<noteq> t \<Longrightarrow> \<not> reads (T u)"
  using assms no_holders [of writes T u] no_holders [of reads T u] one_holder [of reads T t u]
  by (auto simp: lock_inv_def)

lemma lock_step_inv:
  assumes "lock_step s e s'" "lock_inv s"
  shows "lock_inv s'"
  using assms
proof (induction rule: lock_step.induct)
  case (start_read T t ctx st ctx')
  note c = lock_inv_counts [OF start_read(3)]
  from acquire_read [OF start_read(2) c(1-3)] show ?case
    using start_read(1) lock_inv_idle(1) [OF start_read(3)] c
    by (auto intro!: lock_inv_update [OF start_read(3)] simp: taken_def NT_SUCCESS_def)
next
  case (upgrade T t ctx st ctx')
  note c = lock_inv_counts [OF upgrade(3)]
  note n = lock_inv_idle [OF upgrade(3)]
  from acquire_write [OF upgrade(2) c(1,3)] show ?case
  proof
    assume a: "st = STATUS_SUCCESS \<and> ActiveWriters ctx = 0 \<and> ActiveReaders ctx < (if True then 2 else 1) \<and>
      ActiveReaders ctx' = ActiveReaders ctx \<and> ActiveWriters ctx' = 1"
    then have "T u = Free" if "u \<noteq> t" for u
      using n(1) [of u] n(3) [of t u] that upgrade(1) hold_cases by auto
    with a upgrade(1) c show ?thesis
      by (intro lock_inv_update [OF upgrade(3)]) (auto simp: taken_def NT_SUCCESS_def)
  next
    assume a: "st = STATUS_DEVICE_BUSY \<and> ActiveReaders ctx' = ActiveReaders ctx \<and> ActiveWriters ctx' = ActiveWriters ctx"
    have "\<not> writes (T u)" if "u \<noteq> t" for u
      using upgrade(1,3) that by (fastforce simp: lock_inv_def)
    with a upgrade(1) c show ?thesis
      by (intro lock_inv_update [OF upgrade(3)]) (auto simp: taken_def NT_SUCCESS_def)
  qed
next
  case (start_write T t ctx st ctx')
  note c = lock_inv_counts [OF start_write(3)]
  note n = lock_inv_idle [OF start_write(3)]
  from acquire_write [OF start_write(2) c(1,3)] show ?case
  proof
    assume a: "st = STATUS_SUCCESS \<and> ActiveWriters ctx = 0 \<and> ActiveReaders ctx < (if False then 2 else 1) \<and>
      ActiveReaders ctx' = ActiveReaders ctx \<and> ActiveWriters ctx' = 1"
    then have "T u = Free" for u using n(1,2) [of u] hold_cases by auto
    with a start_write(1) c show ?thesis
      by (intro lock_inv_update [OF start_write(3)]) (auto simp: taken_def NT_SUCCESS_def)
  next
    assume "st = STATUS_DEVICE_BUSY \<and> ActiveReaders ctx' = ActiveReaders ctx \<and> ActiveWriters ctx' = ActiveWriters ctx"
    with start_write(1) c show ?thesis
      by (intro lock_inv_update [OF start_write(3)]) (auto simp: taken_def NT_SUCCESS_def)
  qed
next
  case (downgrade T t ctx)
  have "writes (T t)" using downgrade(1) by simp
  then have "\<forall>u. u \<noteq> t \<longrightarrow> T u = Free" using downgrade(2) by (auto simp: lock_inv_def)
  with downgrade lock_inv_counts [OF downgrade(2)] show ?case
    by (intro lock_inv_update [OF downgrade(2)]) (auto simp: ReleaseProtection_counts)
next
  case (abort T t ctx)
  with lock_inv_counts [OF abort(2)] show ?case
    by (intro lock_inv_update [OF abort(2)]) (auto simp: ReleaseProtection_counts)
next
  case (end_read T t ctx)
  with lock_inv_counts [OF end_read(2)] show ?case
    by (intro lock_inv_update [OF end_read(2)]) (auto simp: ReleaseProtection_counts)
next
  case (end_write T t ctx)
  with lock_inv_counts [OF end_write(2)] show ?case
    by (intro lock_inv_update [OF end_write(2)]) (auto simp: ReleaseProtection_counts)
qed

lemma lock_steps_inv: "lock_steps s es s' \<Longrightarrow> lock_inv s \<Longrightarrow> lock_inv s'"
  by (induction rule: lock_steps.induct) (auto intro: lock_step_inv)

section \<open>Properties\<close>

text \<open>
  C12. Mutual exclusion: however the threads' calls interleave, a thread that may change the block
  list (it holds the write lock, or the upgraded read lock) is alone; nobody else reads or writes.\<close>

theorem writer_is_alone:
  assumes "lock_steps all_free es (ctx, T)" "writes (T t)" "u \<noteq> t"
  shows "T u = Free"
  using lock_steps_inv [OF assms(1) lock_inv_start] assms(2,3) by (auto simp: lock_inv_def)

theorem writer_is_alone_witness:
  "\<exists>ctx T. lock_steps all_free [StartRead 1, Upgrade 1, StartRead 2] (ctx, T) \<and> T 1 = Upgraded \<and> T 2 = Free"
proof -
  define c1 where "c1 = new_context\<lparr>ActiveReaders := 1\<rparr>"
  define c2 where "c2 = c1\<lparr>ActiveWriters := 1\<rparr>"
  define c3 where "c3 = c2\<lparr>ReadRequestLockConflicts := 1\<rparr>"
  have t: "TryAcquireProtection new_context False False = (STATUS_SUCCESS, c1)"
    "TryAcquireProtection c1 True True = (STATUS_SUCCESS, c2)"
    "TryAcquireProtection c2 False False = (STATUS_DEVICE_BUSY, c3)"
    by (simp_all add: TryAcquireProtection_def Let_def new_context_def c1_def c2_def c3_def s32_id s64_id)
  let ?T = "(\<lambda>t :: nat. Free)(1 := Upgraded, 2 := Free)"
  have s: "lock_steps all_free [StartRead 1, Upgrade 1, StartRead 2] (c3, ?T)"
    by (auto simp: all_free_def lock_steps_simps lock_step_simps t taken_def NT_SUCCESS_def)
  have "?T 2 = Free" by (rule writer_is_alone [OF s, of 1]) simp_all
  with s show ?thesis by (intro exI [of _ c3] exI [of _ ?T]) simp
qed

text \<open>
  The counters are exact and never overflow: in every reachable state they count the threads
  that read and write, so no acquisition ends with the internal error that stands for corrupt
  counters, and once every thread is done both are zero again.\<close>

lemma counters_exact:
  assumes "lock_steps all_free es (ctx, T)"
  shows "ActiveReaders ctx = int (card (holders reads T)) \<and> ActiveWriters ctx = int (card (holders writes T)) \<and>
    fst (TryAcquireProtection ctx False False) \<in> {STATUS_SUCCESS, STATUS_DEVICE_BUSY} \<and>
    fst (TryAcquireProtection ctx True owns_read) \<in> {STATUS_SUCCESS, STATUS_DEVICE_BUSY}"
proof -
  have i: "lock_inv (ctx, T)" by (rule lock_steps_inv [OF assms lock_inv_start])
  note c = lock_inv_counts [OF i]
  obtain st1 c1 st2 c2 where a: "TryAcquireProtection ctx False False = (st1, c1)"
    "TryAcquireProtection ctx True owns_read = (st2, c2)" by fastforce
  with acquire_read [OF a(1) c(1-3)] acquire_write [OF a(2) c(1,3)] i show ?thesis
    by (auto simp: lock_inv_def)
qed

lemma counters_exact_witness:
  "\<exists>ctx. lock_steps all_free [StartRead 1] (ctx, (\<lambda>t. Free)(1 := Reading)) \<and> ActiveReaders ctx = 1"
proof -
  have "TryAcquireProtection new_context False False = (STATUS_SUCCESS, new_context\<lparr>ActiveReaders := 1\<rparr>)"
    by (simp add: TryAcquireProtection_def Let_def new_context_def s32_id)
  then have s: "lock_steps all_free [StartRead 1] (new_context\<lparr>ActiveReaders := 1\<rparr>, (\<lambda>t. Free)(1 := Reading))"
    by (simp add: all_free_def lock_steps_simps lock_step_simps taken_def NT_SUCCESS_def)
  with counters_exact [OF s] show ?thesis by (intro exI [of _ "new_context\<lparr>ActiveReaders := 1\<rparr>"]) simp
qed

end
