(* ===== verification/Awe_Driver.thy ===== *)
theory Awe_Driver
  imports Awe_Context
begin

text \<open>
  Loading and unloading \<open>awefsalloc\<close> (\<open>DriverEntry\<close>, \<open>AWE_FS_AllocUnload\<close>): the system objects the
  driver takes, with the outcome of each kernel call as an argument.
\<close>

record driver_objects =
  event_handles :: int
  event_references :: int
  driver_devices :: "nat list"
  symbolic_links :: int
  major_functions :: bool

record entry_env =
  n_open_event :: ntstatus
  n_reference :: ntstatus
  n_create_device :: ntstatus
  n_create_link :: ntstatus
  n_device :: nat

definition no_objects :: driver_objects where
  "no_objects = \<lparr>event_handles = 0, event_references = 0, driver_devices = [], symbolic_links = 0,
     major_functions = False\<rparr>"

definition DriverEntry :: "entry_env \<Rightarrow> driver_objects \<Rightarrow> ntstatus \<times> driver_objects" where
  "DriverEntry env d =
     (if \<not> NT_SUCCESS (n_open_event env) then (n_open_event env, d)
      else
      let d = d\<lparr>event_handles := event_handles d + 1\<rparr>;
          d = (if NT_SUCCESS (n_reference env) then d\<lparr>event_references := event_references d + 1\<rparr> else d);
          d = d\<lparr>event_handles := event_handles d - 1\<rparr>
      in
      if \<not> NT_SUCCESS (n_reference env) then (n_reference env, d)
      else if \<not> NT_SUCCESS (n_create_device env) then (n_create_device env, d)
      else
      let d = d\<lparr>driver_devices := n_device env # driver_devices d\<rparr> in
      if \<not> NT_SUCCESS (n_create_link env)
      then (n_create_link env, d\<lparr>driver_devices := tl (driver_devices d)\<rparr>)
      else (STATUS_SUCCESS, d\<lparr>symbolic_links := symbolic_links d + 1, major_functions := True\<rparr>))"

fun delete_devices :: "nat list \<Rightarrow> driver_objects \<Rightarrow> driver_objects" where
  "delete_devices [] d = d"
| "delete_devices (dev # devs) d = delete_devices devs (d\<lparr>driver_devices := removeAll dev (driver_devices d)\<rparr>)"

definition AllocUnload :: "driver_objects \<Rightarrow> driver_objects" where
  "AllocUnload d =
     (let d = d\<lparr>symbolic_links := symbolic_links d - 1\<rparr>; d = delete_devices (driver_devices d) d
      in d\<lparr>event_references := event_references d - 1\<rparr>)"

text \<open>
  A load that succeeds is undone by unloading; a load that fails after the memory event was
  referenced keeps that reference for ever.\<close>

lemma DriverEntry_resources:
  assumes "DriverEntry env no_objects = (st, d)"
  shows "(st = STATUS_SUCCESS \<longrightarrow> AllocUnload d = no_objects\<lparr>major_functions := True\<rparr>) \<and>
    (st \<noteq> STATUS_SUCCESS \<longrightarrow> driver_devices d = [] \<and> symbolic_links d = 0 \<and> event_handles d = 0 \<and>
       event_references d = (if n_open_event env = STATUS_SUCCESS \<and> n_reference env = STATUS_SUCCESS then 1 else 0))"
  using assms
  by (auto simp: DriverEntry_def AllocUnload_def no_objects_def Let_def NT_SUCCESS_def split: if_splits)

lemma DriverEntry_resources_witness:
  "event_references (snd (DriverEntry \<lparr>n_open_event = STATUS_SUCCESS, n_reference = STATUS_SUCCESS,
     n_create_device = STATUS_OTHER 1, n_create_link = STATUS_SUCCESS, n_device = 0\<rparr> no_objects)) = 1"
proof -
  let ?env = "\<lparr>n_open_event = STATUS_SUCCESS, n_reference = STATUS_SUCCESS,
     n_create_device = STATUS_OTHER 1, n_create_link = STATUS_SUCCESS, n_device = 0\<rparr>"
  obtain st d where e: "DriverEntry ?env no_objects = (st, d)" by fastforce
  moreover from e have "st \<noteq> STATUS_SUCCESS" by (auto simp: DriverEntry_def Let_def NT_SUCCESS_def)
  ultimately show ?thesis using DriverEntry_resources [OF e] by simp
qed

end
