(* ===== verification/Drv_Mbr.thy ===== *)
theory Drv_Mbr
  imports FD_Prelude
begin

text \<open>
  Disk geometry and master boot records of the control library (\<open>cpl/drvio.c\<close>,
  \<open>cpl/mbr.c\<close>): \<open>ConvertLBAToCHS\<close>/\<open>ConvertCHSToLBA\<close> (the three-byte cylinder/head/sector
  addresses of partition tables), \<open>BuildMBR\<close> (a boot record with up to four partitions) and
  \<open>GetFormattedGeometryIndirect\<close> (the geometry stored in a FAT boot sector). The caller's
  buffers are address spaces relative to their first byte. \<open>None\<close> is the processor's divide
  exception, \<open>Inl\<close> the error code of a call that returns \<open>FALSE\<close>.
\<close>

section \<open>Data\<close>

record disk_geometry =
  Cylinders :: int
  MediaType :: int
  TracksPerCylinder :: int
  SectorsPerTrack :: int
  BytesPerSector :: int

record partition_information =
  StartingOffset :: int
  PartitionLength :: int
  HiddenSectors :: int
  PartitionNumber :: int
  PartitionType :: int
  BootIndicator :: bool
  RecognizedPartition :: bool
  RewritePartition :: bool

datatype drv_error =
    ERROR_OPEN
  | ERROR_READ
  | ERROR_DISK_CORRUPT
  | ERROR_CANCELLED
  | ERROR_NOT_FOUND
  | ERROR_INSUFFICIENT_BUFFER
  | ERROR_INVALID_PARAMETER

text \<open>Signed division of C, rounding towards zero.\<close>

definition tdiv :: "int \<Rightarrow> int \<Rightarrow> int" where
  "tdiv a b = (if a < 0 then - (- a div b) else a div b)"

section \<open>CHS addresses\<close>

definition ConvertCHSToLBA :: "disk_geometry \<Rightarrow> byte list \<Rightarrow> int" where
  "ConvertCHSToLBA geo CHS =
     (let cylinder = push_bit 2 (uint (CHS ! 1) AND 0xC0) OR uint (CHS ! 2);
          heads = uint (CHS ! 0);
          sector = uint (CHS ! 1) AND 0x3F
      in u32 ((cylinder * TracksPerCylinder geo + heads) * SectorsPerTrack geo + sector - 1))"

definition ConvertLBAToCHS :: "disk_geometry \<Rightarrow> int \<Rightarrow> int option" where
  "ConvertLBAToCHS geo LBA =
     (let per_cylinder = u32 (TracksPerCylinder geo * SectorsPerTrack geo) in
      if per_cylinder = 0 \<or> SectorsPerTrack geo = 0 then None else
      let cylinder = LBA div per_cylinder;
          temp = LBA mod per_cylinder;
          head = temp div SectorsPerTrack geo;
          sector = u32 (temp mod SectorsPerTrack geo + 1);
          (cylinder, head, sector) =
            (if 1024 \<le> cylinder \<or> 256 \<le> head \<or> 64 \<le> sector then (1023, 254, 63)
             else (cylinder, head, sector))
      in Some (head OR push_bit 8 sector OR push_bit 16 (cylinder AND 0xFF) OR
               push_bit 6 (cylinder AND 0x300)))"

section \<open>Building a boot record\<close>

text \<open>\<open>default_mbr\<close> (the variant without GPL boot code): \<open>hlt\<close>, a jump back to it, and the
  signature.\<close>

definition default_mbr :: "byte list" where
  "default_mbr = [0xF4, 0xEB, 0xFD] @ replicate 507 0 @ [0x55, 0xAA]"

definition default_mbr_size :: int where "default_mbr_size = 512"

text \<open>The four 32-bit stores of an entry overlap; they happen in this order.\<close>

definition store_entry :: "(int \<Rightarrow> byte) \<Rightarrow> int \<Rightarrow> bool \<Rightarrow> int \<Rightarrow> int \<Rightarrow> int \<Rightarrow> int \<Rightarrow> int \<Rightarrow> int \<Rightarrow> byte" where
  "store_entry mbr entry boot chs1 type chs2 start number =
     (let mbr = if boot then mem_write mbr entry [0x80] else mbr;
          mbr = mem_write mbr (entry + 1) (to_le 4 chs1);
          mbr = mem_write mbr (entry + 4) (to_le 1 type);
          mbr = mem_write mbr (entry + 5) (to_le 4 chs2);
          mbr = mem_write mbr (entry + 8) (to_le 4 start)
      in mem_write mbr (entry + 12) (to_le 4 number))"

fun build_entries :: "disk_geometry \<Rightarrow> partition_information list \<Rightarrow> int \<Rightarrow> (int \<Rightarrow> byte) \<Rightarrow>
    ((drv_error + unit) \<times> (int \<Rightarrow> byte)) option" where
  "build_entries geo [] i mbr = Some (Inr (), mbr)"
| "build_entries geo (p # ps) i mbr =
     (let entry = 512 - 66 + 16 * i in
      if BytesPerSector geo = 0 then None else
      let start_sector = u64 (tdiv (StartingOffset p) (BytesPerSector geo));
          number_of_sectors = u64 (tdiv (PartitionLength p) (BytesPerSector geo));
          end_sector = u64 (start_sector + number_of_sectors - 1)
      in
      if (start_sector AND 0xFFFFFFFF00000000) OR (number_of_sectors AND 0xFFFFFFFF00000000) OR
         (end_sector AND 0xFFFFFFFF00000000) \<noteq> 0
      then Some (Inl ERROR_INVALID_PARAMETER, mbr)
      else Option.bind (ConvertLBAToCHS geo (u32 start_sector)) (\<lambda>chs1.
        Option.bind (ConvertLBAToCHS geo (u32 end_sector)) (\<lambda>chs2.
          build_entries geo ps (i + 1)
            (store_entry mbr entry (BootIndicator p) chs1 (PartitionType p) chs2
               (u32 start_sector) (u32 number_of_sectors)))))"

definition BuildMBR :: "disk_geometry \<Rightarrow> partition_information list \<Rightarrow> nat \<Rightarrow> (int \<Rightarrow> byte) \<Rightarrow> int \<Rightarrow>
    ((drv_error + unit) \<times> (int \<Rightarrow> byte)) option" where
  "BuildMBR geo parts NumberOfPartitions MBR MBRSize =
     (if MBRSize < default_mbr_size then Some (Inl ERROR_INSUFFICIENT_BUFFER, MBR)
      else if 4 < NumberOfPartitions then Some (Inl ERROR_INVALID_PARAMETER, MBR)
      else build_entries geo (take NumberOfPartitions parts) 0 (mem_write MBR 0 default_mbr))"

section \<open>The geometry in a FAT boot sector\<close>

type_synonym 'h read_proc = "'h \<Rightarrow> int \<Rightarrow> nat \<Rightarrow> bool \<times> byte list \<times> int \<times> 'h"

text \<open>A \<open>FscryptDiskReadFileProc\<close> reports success, the bytes it stored in the buffer and the
  count it returned. The FAT boot sector is a packed structure: the BIOS parameter block
  starts at byte 11.\<close>

definition GetFormattedGeometryIndirect ::
    "'h read_proc \<Rightarrow> 'h \<Rightarrow> int option \<Rightarrow> disk_geometry \<Rightarrow> (drv_error + disk_geometry) \<times> 'h" where
  "GetFormattedGeometryIndirect ReadFileProc Handle Offset geo =
     (let offset = (case Offset of None \<Rightarrow> 0 | Some o1 \<Rightarrow> o1) in
      case ReadFileProc Handle offset 512 of (ok, data, read_size, Handle) \<Rightarrow>
      if \<not> ok then (Inl ERROR_READ, Handle)
      else
        let fat_vbr = mem_bytes (mem_write (\<lambda>_. 0) 0 data) 0 512 in
        (Inr \<lparr>Cylinders = 0,
              MediaType = uint (fat_vbr ! 21),
              TracksPerCylinder = le_of (take 2 (drop 26 fat_vbr)),
              SectorsPerTrack = le_of (take 2 (drop 24 fat_vbr)),
              BytesPerSector = le_of (take 2 (drop 11 fat_vbr))\<rparr>, Handle))"


section \<open>Address conversion\<close>

text \<open>The packed address, in arithmetic: the two high bits of the cylinder sit above the six bits
  of the sector.\<close>

lemma cylinder_high: "0 \<le> c \<Longrightarrow> c < 1024 \<Longrightarrow> (c :: int) AND 0x300 = 256 * (c div 256)"
proof -
  assume c: "0 \<le> c" "c < 1024"
  have "c AND 0x300 = push_bit 8 (take_bit 2 (drop_bit 8 c))"
  proof -
    have "(0x300 :: int) = push_bit 8 (mask 2)" by (simp add: mask_eq_exp_minus_1)
    then show ?thesis by (simp only:) (auto simp: bit_eq_iff bit_simps)
  qed
  then show ?thesis using c by (simp add: push_bit_eq_mult drop_bit_eq_div take_bit_int_eq_self)
qed

lemma cylinder_low: "(c :: int) AND 0xFF = c mod 256"
proof -
  have "(0xFF :: int) = mask 8" by (simp add: mask_eq_exp_minus_1)
  then show ?thesis by (simp only: flip: take_bit_eq_mask) (simp add: take_bit_eq_mod)
qed

lemma chs_packed:
  fixes c h s :: int
  assumes "0 \<le> c" "c < 1024" "0 \<le> h" "h < 256" "0 \<le> s" "s < 64"
  shows "h OR push_bit 8 s OR push_bit 16 (c AND 0xFF) OR push_bit 6 (c AND 0x300) =
         h + 256 * (s + 64 * (c div 256)) + 65536 * (c mod 256)"
proof -
  define q where "q = c div 256"
  define r where "r = c mod 256"
  have q: "0 \<le> q" "q < 4" using assms by (auto simp: q_def)
  have hi: "push_bit 6 (c AND 0x300) = push_bit 14 q"
    using assms by (simp add: cylinder_high push_bit_eq_mult q_def)
  have low: "push_bit 8 s OR h = push_bit 8 s + h"
    using assms by (intro or_low_bits) auto
  have mid: "push_bit 14 q OR (push_bit 8 s + h) = push_bit 14 q + (push_bit 8 s + h)"
    using assms by (intro or_low_bits) (auto simp: push_bit_eq_mult)
  have top: "push_bit 16 r OR (push_bit 14 q + (push_bit 8 s + h)) =
      push_bit 16 r + (push_bit 14 q + (push_bit 8 s + h))"
    using assms q by (intro or_low_bits) (auto simp: push_bit_eq_mult)
  have "h OR push_bit 8 s OR push_bit 16 (c AND 0xFF) OR push_bit 6 (c AND 0x300) =
      push_bit 16 r OR (push_bit 14 q OR (push_bit 8 s OR h))"
    by (simp only: hi cylinder_low r_def or.assoc or.commute or.left_commute)
  also have "\<dots> = push_bit 16 r + (push_bit 14 q + (push_bit 8 s + h))"
    by (simp only: low mid top)
  finally show ?thesis by (simp add: push_bit_eq_mult q_def r_def)
qed

lemma div_bound:
  fixes x p k :: int
  assumes "0 < p" "x < p * k"
  shows "x div p < k"
proof -
  have "p * (x div p) \<le> x" using assms(1) by (simp add: minus_mod_eq_mult_div [symmetric])
  with assms(2) have "p * (x div p) < p * k" by linarith
  then show ?thesis using assms(1) by (simp only: mult_less_cancel_left_pos)
qed

text \<open>What \<open>ConvertLBAToCHS\<close> returns, for a geometry whose address fits the three bytes.\<close>

definition chs_fits :: "disk_geometry \<Rightarrow> int \<Rightarrow> bool" where
  "chs_fits geo LBA \<longleftrightarrow>
     0 < TracksPerCylinder geo \<and> TracksPerCylinder geo \<le> 256 \<and>
     0 < SectorsPerTrack geo \<and> SectorsPerTrack geo \<le> 63 \<and>
     0 \<le> LBA \<and> LBA < 1024 * (TracksPerCylinder geo * SectorsPerTrack geo)"

lemma LBAToCHS_fits:
  assumes "chs_fits geo LBA"
  defines "t \<equiv> TracksPerCylinder geo" and "n \<equiv> SectorsPerTrack geo"
  defines "c \<equiv> LBA div (t * n)" and "h \<equiv> LBA mod (t * n) div n" and "s \<equiv> LBA mod (t * n) mod n + 1"
  shows "ConvertLBAToCHS geo LBA = Some (h + 256 * (s + 64 * (c div 256)) + 65536 * (c mod 256))"
    and "0 \<le> c" "c < 1024" "0 \<le> h" "h < t" "h < 256" "0 < s" "s < 64"
    and "(c * t + h) * n + s - 1 = LBA"
proof -
  note a = assms(1) [unfolded chs_fits_def, folded t_def n_def]
  have "t * n \<le> 256 * 63" using a by (intro mult_mono) auto
  moreover have "0 < t * n" using a by simp
  ultimately have per: "u32 (t * n) = t * n" "t * n \<noteq> 0"
    by (simp_all only: u32_def) simp_all
  show c: "0 \<le> c" "c < 1024"
    using div_bound [of "t * n" LBA 1024] a \<open>0 < t * n\<close>
    by (simp_all add: c_def pos_imp_zdiv_nonneg_iff mult.commute)
  have m: "0 \<le> LBA mod (t * n)" "LBA mod (t * n) < n * t"
    using \<open>0 < t * n\<close> by (simp_all add: mult.commute)
  show h: "0 \<le> h" "h < t" "h < 256"
  proof -
    show "0 \<le> h" using m a by (simp add: h_def pos_imp_zdiv_nonneg_iff)
    show "h < t" using div_bound [OF _ m(2)] a by (simp add: h_def)
    with a show "h < 256" by simp
  qed
  have "0 \<le> LBA mod (t * n) mod n" "LBA mod (t * n) mod n < n" using a by simp_all
  then show s: "0 < s" "s < 64" using a unfolding s_def by linarith+
  have "u32 s = s" using s by (simp add: u32_def)
  then show "ConvertLBAToCHS geo LBA = Some (h + 256 * (s + 64 * (c div 256)) + 65536 * (c mod 256))"
    using per a c h s chs_packed [of c h s]
    by (simp add: ConvertLBAToCHS_def Let_def flip: t_def n_def c_def h_def s_def)
  have "h * n + (s - 1) = LBA mod (t * n)" by (simp add: h_def s_def)
  moreover have "c * (t * n) + LBA mod (t * n) = LBA" by (simp only: c_def div_mult_mod_eq)
  ultimately show "(c * t + h) * n + s - 1 = LBA" by (simp add: algebra_simps)
qed


text \<open>The three bytes of the stored address.\<close>

lemma uint_of_byte: "0 \<le> x \<Longrightarrow> x < 256 \<Longrightarrow> uint (word_of_int x :: byte) = x"
  by (simp only: uint_word_of_int) simp

lemma to_le_4_digits:
  fixes b0 b1 b2 :: int
  assumes "0 \<le> b0" "b0 < 256" "0 \<le> b1" "b1 < 256" "0 \<le> b2" "b2 < 256"
  shows "take 3 (to_le 4 (b0 + 256 * b1 + 65536 * b2)) = map word_of_int [b0, b1, b2]"
    and "to_le 4 (b0 + 256 * b1 + 65536 * b2) ! 3 = 0"
proof -
  have split: "(b + 256 * x) mod 256 = b" "(b + 256 * x) div 256 = x" if "0 \<le> b" "b < 256" for b x :: int
    using that by simp_all
  have "b0 + 256 * b1 + 65536 * b2 = b0 + 256 * (b1 + 256 * (b2 + 256 * 0))" by simp
  moreover have "to_le 4 x = map word_of_int
      [x mod 256, x div 256 mod 256, x div 256 div 256 mod 256, x div 256 div 256 div 256 mod 256]" for x
    by (simp add: numeral_eq_Suc del: div_mult2_eq)
  ultimately have "to_le 4 (b0 + 256 * b1 + 65536 * b2) = map word_of_int [b0, b1, b2, 0]"
    using assms by (simp only: split) simp
  then show "take 3 (to_le 4 (b0 + 256 * b1 + 65536 * b2)) = map word_of_int [b0, b1, b2]"
    "to_le 4 (b0 + 256 * b1 + 65536 * b2) ! 3 = 0" by simp_all
qed

lemma CHSToLBA_bytes:
  fixes h s c m :: int
  assumes "0 \<le> h" "h < 256" "0 \<le> s" "s < 64" "0 \<le> c" "c < 1024" and m: "m = s + 64 * (c div 256)"
  shows "ConvertCHSToLBA geo (map word_of_int [h, m, c mod 256]) =
         u32 ((c * TracksPerCylinder geo + h) * SectorsPerTrack geo + s - 1)" "0 \<le> m" "m < 256"
proof -
  have q: "0 \<le> c div 256" "c div 256 \<le> 3" using assms by auto
  show r: "0 \<le> m" "m < 256" using q assms(3,4) m by linarith+
  have "(0x3F :: int) = mask 6" "(0xC0 :: int) = push_bit 6 (mask 2)"
    by (simp_all add: mask_eq_exp_minus_1)
  then have "m AND 0x3F = take_bit 6 m" "m AND 0xC0 = push_bit 6 (take_bit 2 (drop_bit 6 m))"
    by (simp_all only:) (auto simp: bit_eq_iff bit_simps)
  moreover have "m mod 64 = s" "m div 64 = c div 256" using assms by simp_all
  moreover have "c div 256 mod 4 = c div 256" using q by simp
  ultimately have b: "m AND 0x3F = s" "m AND 0xC0 = 64 * (c div 256)"
    by (simp_all add: take_bit_eq_mod drop_bit_eq_div push_bit_eq_mult)
  have "push_bit 2 (64 * (c div 256)) OR c mod 256 = push_bit 8 (c div 256) OR c mod 256"
    by (simp add: push_bit_eq_mult mult.commute)
  also have "\<dots> = push_bit 8 (c div 256) + c mod 256" by (intro or_low_bits) auto
  also have "\<dots> = c" by (simp add: push_bit_eq_mult)
  finally have "push_bit 2 (64 * (c div 256)) OR c mod 256 = c" .
  moreover have "0 \<le> c mod 256" "c mod 256 < 256" by simp_all
  ultimately show "ConvertCHSToLBA geo (map word_of_int [h, m, c mod 256]) =
      u32 ((c * TracksPerCylinder geo + h) * SectorsPerTrack geo + s - 1)"
    using assms(1,2) r b
    by (simp only: ConvertCHSToLBA_def Let_def uint_of_byte list.map nth_Cons_0 nth_Cons_numeral
          diff_numeral_simps One_nat_def nth_Cons_Suc nth_Cons_0 numeral_2_eq_2 diff_Suc_1)
qed

text \<open>
  An address converted to the packed form and back is the address itself, for every sector
  the three bytes can address; the fourth byte of the double word stays clear, so that storing it
  does not reach beyond the address.\<close>

lemma CHS_round_trip:
  assumes "chs_fits geo LBA"
  shows "\<exists>chs. ConvertLBAToCHS geo LBA = Some chs \<and>
    ConvertCHSToLBA geo (take 3 (to_le 4 chs)) = u32 LBA \<and> to_le 4 chs ! 3 = 0"
proof -
  note f = LBAToCHS_fits [OF assms]
  note l = CHSToLBA_bytes [OF f(4,6) less_imp_le [OF f(7)] f(8,2,3) refl]
  note b = to_le_4_digits [OF f(4,6) l(2,3)]
  show ?thesis
    by (intro exI conjI, rule f(1)) (simp_all only: b l(1) f(9))
qed

lemma CHS_round_trip_witness:
  "\<exists>chs. ConvertLBAToCHS (\<lparr>Cylinders = 1024, MediaType = 12, TracksPerCylinder = 255,
       SectorsPerTrack = 63, BytesPerSector = 512\<rparr>) 16000000 = Some chs \<and>
    ConvertCHSToLBA (\<lparr>Cylinders = 1024, MediaType = 12, TracksPerCylinder = 255,
       SectorsPerTrack = 63, BytesPerSector = 512\<rparr>) (take 3 (to_le 4 chs)) = u32 16000000 \<and>
    to_le 4 chs ! 3 = 0"
  by (rule CHS_round_trip) (simp add: chs_fits_def)

end
