(* ===== verification/Drv_Parts.thy ===== *)
theory Drv_Parts
  imports Drv_Mbr
begin

text \<open>
  The partition enumeration of the control library (\<open>cpl/drvio.c\<close>): the master boot record and
  the chains of extended boot records are read through a caller's read procedure and every
  partition found is handed to a callback that may stop the search. The stack buffer of two
  sectors is an address space relative to its first byte. \<open>None\<close> is a search that never
  returns. On top of it, the array and the single-partition variants with their file-name
  wrappers, ISO 9660 detection, and the way \<open>cli/fscryptdisk.c\<close> turns the result into the image
  offset of a new device.
\<close>

section \<open>Partition tables\<close>

text \<open>An entry is 16 packed bytes: seven flag bits and the boot indicator, the CHS start, the
  type, the CHS end, first sector and number of sectors.\<close>

definition pt_entry :: "(int \<Rightarrow> byte) \<Rightarrow> int \<Rightarrow> nat \<Rightarrow> byte list" where
  "pt_entry buf table i = mem_bytes buf (table + 16 * int i) 16"

definition pe_zero :: "byte list \<Rightarrow> int" where "pe_zero e = uint (e ! 0) AND 0x7F"
definition pe_boot :: "byte list \<Rightarrow> bool" where "pe_boot e \<longleftrightarrow> 0x80 \<le> uint (e ! 0)"
definition pe_type :: "byte list \<Rightarrow> int" where "pe_type e = uint (e ! 4)"
definition pe_start :: "byte list \<Rightarrow> int" where "pe_start e = le_of (take 4 (drop 8 e))"
definition pe_sectors :: "byte list \<Rightarrow> int" where "pe_sectors e = le_of (take 4 (drop 12 e))"

definition IsContainerPartition :: "int \<Rightarrow> bool" where
  "IsContainerPartition t \<longleftrightarrow> t = 0x05 \<or> t = 0x0F"

definition pt_valid :: "(int \<Rightarrow> byte) \<Rightarrow> int \<Rightarrow> bool" where
  "pt_valid buf table \<longleftrightarrow> le_of (mem_bytes buf (table + 64) 2) = 0xAA55 \<and>
     pe_zero (pt_entry buf table 0) = 0 \<and> pe_zero (pt_entry buf table 1) = 0 \<and>
     pe_zero (pt_entry buf table 2) = 0 \<and> pe_zero (pt_entry buf table 3) = 0"

text \<open>The record filled in for an entry whose sectors count from \<open>origin\<close>.\<close>

definition pe_info :: "int \<Rightarrow> int \<Rightarrow> int \<Rightarrow> byte list \<Rightarrow> partition_information" where
  "pe_info SectorSize origin number e =
     \<lparr>StartingOffset = s64 (origin + SectorSize * pe_start e),
      PartitionLength = s64 (SectorSize * pe_sectors e),
      HiddenSectors = pe_start e,
      PartitionNumber = u32 number,
      PartitionType = pe_type e,
      BootIndicator = pe_boot e,
      RecognizedPartition = False,
      RewritePartition = False\<rparr>"

section \<open>The enumeration\<close>

type_synonym 'u info_proc = "'u \<Rightarrow> partition_information \<Rightarrow> bool \<times> 'u"

text \<open>The locals of the search: the stack buffer, the partition count, the reader's state and
  the caller's data.\<close>

record ('h, 'u) enumeration =
  en_buffer :: "int \<Rightarrow> byte"
  en_count :: int
  en_handle :: 'h
  en_user :: 'u

text \<open>One extended boot record: its entries in order, ending at a link to the next record.\<close>

datatype ebr_end = No_more | Next_ebr int | Refused

fun ebr_entries :: "'u info_proc \<Rightarrow> int \<Rightarrow> int \<Rightarrow> int \<Rightarrow> byte list list \<Rightarrow> int \<Rightarrow> 'u \<Rightarrow> ebr_end \<times> int \<times> 'u" where
  "ebr_entries proc SectorSize first current [] count u = (No_more, count, u)"
| "ebr_entries proc SectorSize first current (e # es) count u =
     (if pe_type e = 0 then ebr_entries proc SectorSize first current es count u
      else if IsContainerPartition (pe_type e)
      then (Next_ebr (s64 (first + SectorSize * pe_start e)), count, u)
      else case proc u (pe_info SectorSize current (count + 1) e) of (go, u) \<Rightarrow>
        if \<not> go then (Refused, count + 1, u)
        else ebr_entries proc SectorSize first current es (count + 1) u)"

definition pt_entries :: "(int \<Rightarrow> byte) \<Rightarrow> int \<Rightarrow> byte list list" where
  "pt_entries buf table = map (pt_entry buf table) [0, 1, 2, 3]"

partial_function (option) ebr_loop ::
    "'h read_proc \<Rightarrow> 'u info_proc \<Rightarrow> int \<Rightarrow> int \<Rightarrow> int \<Rightarrow> ('h, 'u) enumeration \<Rightarrow>
     ((drv_error + unit) \<times> ('h, 'u) enumeration) option" where
  "ebr_loop ReadFileProc proc SectorSize first current st =
     (case ReadFileProc (en_handle st) current (nat SectorSize) of (ok, data, read_size, h) \<Rightarrow>
      (let st = st\<lparr>en_handle := h, en_buffer := mem_write (en_buffer st) SectorSize data\<rparr>;
           table = 2 * SectorSize - 66
       in
       if \<not> ok then Some (Inl ERROR_READ, st)
       else if read_size \<noteq> SectorSize \<or> \<not> pt_valid (en_buffer st) table then Some (Inr (), st)
       else case ebr_entries proc SectorSize first current (pt_entries (en_buffer st) table)
                   (en_count st) (en_user st) of (next, count, u) \<Rightarrow>
         (let st = st\<lparr>en_count := count, en_user := u\<rparr> in
          case next of
            No_more \<Rightarrow> Some (Inr (), st)
          | Refused \<Rightarrow> Some (Inl ERROR_CANCELLED, st)
          | Next_ebr current \<Rightarrow> ebr_loop ReadFileProc proc SectorSize first current st)))"

text \<open>The four entries of the master boot record, taken from the buffer as the reads before
  left it.\<close>

fun mbr_entries :: "'h read_proc \<Rightarrow> 'u info_proc \<Rightarrow> int \<Rightarrow> int \<Rightarrow> nat list \<Rightarrow> ('h, 'u) enumeration \<Rightarrow>
     ((drv_error + unit) \<times> ('h, 'u) enumeration) option" where
  "mbr_entries ReadFileProc proc SectorSize Offset [] st = Some (Inr (), st)"
| "mbr_entries ReadFileProc proc SectorSize Offset (i # js) st =
     (let e = pt_entry (en_buffer st) (512 - 66) i in
      if IsContainerPartition (pe_type e)
      then
        let first = s64 (Offset + s64 (SectorSize * pe_start e)) in
        case ebr_loop ReadFileProc proc SectorSize first first st of
          None \<Rightarrow> None
        | Some (Inl err, st) \<Rightarrow> Some (Inl err, st)
        | Some (Inr _, st) \<Rightarrow> mbr_entries ReadFileProc proc SectorSize Offset js st
      else if pe_type e \<noteq> 0
      then case proc (en_user st) (pe_info SectorSize 0 (en_count st + 1) e) of (go, u) \<Rightarrow>
        (let st = st\<lparr>en_count := en_count st + 1, en_user := u\<rparr> in
         if \<not> go then Some (Inl ERROR_CANCELLED, st)
         else mbr_entries ReadFileProc proc SectorSize Offset js st)
      else mbr_entries ReadFileProc proc SectorSize Offset js st)"

definition GetPartitionInfoIndirectEx ::
    "(int \<Rightarrow> byte) \<Rightarrow> 'h read_proc \<Rightarrow> 'h \<Rightarrow> int \<Rightarrow> int option \<Rightarrow> 'u info_proc \<Rightarrow> 'u \<Rightarrow>
     ((drv_error + unit) \<times> 'h \<times> 'u) option" where
  "GetPartitionInfoIndirectEx stack ReadFileProc Handle SectorSize Offset proc UserData =
     (let Offset = (case Offset of None \<Rightarrow> 0 | Some o1 \<Rightarrow> o1);
          SectorSize = (if SectorSize = 0 then 512 else SectorSize)
      in case ReadFileProc Handle Offset (nat SectorSize) of (ok, data, read_size, h) \<Rightarrow>
      let buffer = mem_write stack 0 data in
      if \<not> ok then Some (Inl ERROR_READ, h, UserData)
      else if read_size \<noteq> SectorSize then Some (Inl ERROR_DISK_CORRUPT, h, UserData)
      else if \<not> pt_valid buffer (512 - 66) then Some (Inl ERROR_DISK_CORRUPT, h, UserData)
      else case mbr_entries ReadFileProc proc SectorSize Offset [0, 1, 2, 3]
                  \<lparr>en_buffer = buffer, en_count = 0, en_handle = h, en_user = UserData\<rparr> of
        None \<Rightarrow> None
      | Some (r, st) \<Rightarrow> Some (r, en_handle st, en_user st))"

section \<open>The callers\<close>

text \<open>The data of the two callbacks: the caller's array, the index written next, a counter.\<close>

record part_data =
  pd_array :: "partition_information list"
  pd_next :: nat
  pd_count :: int

definition GotPartInfoForArray :: "part_data info_proc" where
  "GotPartInfoForArray data p =
     (let data = data\<lparr>pd_array := (pd_array data)[pd_next data := p], pd_next := pd_next data + 1,
                      pd_count := u32 (pd_count data - 1)\<rparr>
      in (0 < pd_count data, data))"

definition GotPartInfoForSingle :: "part_data info_proc" where
  "GotPartInfoForSingle data p =
     (if PartitionNumber p = pd_count data
      then (False, data\<lparr>pd_array := (pd_array data)[pd_next data := p], pd_count := 0\<rparr>)
      else (True, data))"

definition no_partition :: partition_information where
  "no_partition = \<lparr>StartingOffset = 0, PartitionLength = 0, HiddenSectors = 0, PartitionNumber = 0,
     PartitionType = 0, BootIndicator = False, RecognizedPartition = False, RewritePartition = False\<rparr>"

text \<open>The array of eight, as it is when the call returns; \<open>Inl\<close> is \<open>FALSE\<close>.\<close>

definition GetPartitionInfoIndirect ::
    "(int \<Rightarrow> byte) \<Rightarrow> 'h read_proc \<Rightarrow> 'h \<Rightarrow> int \<Rightarrow> int option \<Rightarrow>
     ((drv_error + unit) \<times> 'h \<times> partition_information list) option" where
  "GetPartitionInfoIndirect stack ReadFileProc Handle SectorSize Offset =
     (case GetPartitionInfoIndirectEx stack ReadFileProc Handle SectorSize Offset GotPartInfoForArray
             \<lparr>pd_array = replicate 8 no_partition, pd_next = 0, pd_count = 8\<rparr> of
        None \<Rightarrow> None
      | Some (r, h, data) \<Rightarrow> Some (r, h, pd_array data))"

text \<open>The caller's structure \<open>p0\<close> is overwritten when the partition is found.\<close>

definition GetSinglePartitionInfoIndirect ::
    "(int \<Rightarrow> byte) \<Rightarrow> 'h read_proc \<Rightarrow> 'h \<Rightarrow> int \<Rightarrow> int option \<Rightarrow> partition_information \<Rightarrow> int \<Rightarrow>
     ((drv_error + partition_information) \<times> 'h) option" where
  "GetSinglePartitionInfoIndirect stack ReadFileProc Handle SectorSize Offset p0 PartNo =
     (case GetPartitionInfoIndirectEx stack ReadFileProc Handle SectorSize Offset GotPartInfoForSingle
             \<lparr>pd_array = [p0], pd_next = 0, pd_count = u32 PartNo\<rparr> of
        None \<Rightarrow> None
      | Some (Inr _, h, data) \<Rightarrow> Some (Inl ERROR_NOT_FOUND, h)
      | Some (Inl err, h, data) \<Rightarrow>
          if pd_count data = 0 then Some (Inr (pd_array data ! 0), h) else Some (Inl err, h))"

definition ImageContainsISOFSIndirect ::
    "'h read_proc \<Rightarrow> 'h \<Rightarrow> int option \<Rightarrow> (drv_error + bool) \<times> 'h" where
  "ImageContainsISOFSIndirect ReadFileProc Handle Offset =
     (let final_offset = (case Offset of None \<Rightarrow> 0x8000 | Some o1 \<Rightarrow> s64 (0x8000 + o1)) in
      case ReadFileProc Handle final_offset 7 of (ok, data, read_size, h) \<Rightarrow>
      if \<not> ok then (Inl ERROR_READ, h)
      else if read_size \<noteq> 7 then (Inl ERROR_DISK_CORRUPT, h)
      else (Inr (mem_bytes (mem_write (\<lambda>_. 0) 0 data) 0 7 =
                 [0x01, 0x43, 0x44, 0x30, 0x30, 0x31, 0x01]), h))"

text \<open>The file operations of the host, and the variants that take a file name. The error of the
  search survives closing the file.\<close>

record 'h file_ops =
  fo_open :: "'h \<Rightarrow> string \<Rightarrow> bool \<times> 'h"
  fo_seek :: "'h \<Rightarrow> int \<Rightarrow> bool \<times> 'h"
  fo_read :: "'h \<Rightarrow> nat \<Rightarrow> bool \<times> byte list \<times> int \<times> 'h"
  fo_close :: "'h \<Rightarrow> 'h"

definition ReadFileHandle :: "'h file_ops \<Rightarrow> 'h read_proc" where
  "ReadFileHandle os h off n =
     (case fo_seek os h off of (ok, h) \<Rightarrow>
      if \<not> ok then (False, [], 0, h) else fo_read os h n)"

definition GetPartitionInformationEx ::
    "(int \<Rightarrow> byte) \<Rightarrow> 'h file_ops \<Rightarrow> string \<Rightarrow> 'h \<Rightarrow> int \<Rightarrow> int option \<Rightarrow> 'u info_proc \<Rightarrow> 'u \<Rightarrow>
     ((drv_error + unit) \<times> 'h \<times> 'u) option" where
  "GetPartitionInformationEx stack os ImageFile h SectorSize Offset proc u =
     (case fo_open os h ImageFile of (ok, h) \<Rightarrow>
      if \<not> ok then Some (Inl ERROR_OPEN, h, u) else
      case GetPartitionInfoIndirectEx stack (ReadFileHandle os) h SectorSize Offset proc u of
        None \<Rightarrow> None
      | Some (r, h, u) \<Rightarrow> Some (r, fo_close os h, u))"

definition GetSinglePartitionInformation ::
    "(int \<Rightarrow> byte) \<Rightarrow> 'h file_ops \<Rightarrow> string \<Rightarrow> 'h \<Rightarrow> int \<Rightarrow> int option \<Rightarrow> partition_information \<Rightarrow> int \<Rightarrow>
     ((drv_error + partition_information) \<times> 'h) option" where
  "GetSinglePartitionInformation stack os ImageFile h SectorSize Offset p0 PartNo =
     (case fo_open os h ImageFile of (ok, h) \<Rightarrow>
      if \<not> ok then Some (Inl ERROR_OPEN, h) else
      case GetSinglePartitionInfoIndirect stack (ReadFileHandle os) h SectorSize Offset p0 PartNo of
        None \<Rightarrow> None
      | Some (r, h) \<Rightarrow> Some (r, fo_close os h))"

definition GetPartitionInformation ::
    "(int \<Rightarrow> byte) \<Rightarrow> 'h file_ops \<Rightarrow> string \<Rightarrow> 'h \<Rightarrow> int \<Rightarrow> int option \<Rightarrow> partition_information list \<Rightarrow>
     ((drv_error + unit) \<times> 'h \<times> partition_information list) option" where
  "GetPartitionInformation stack os ImageFile h SectorSize Offset array =
     (case fo_open os h ImageFile of (ok, h) \<Rightarrow>
      if \<not> ok then Some (Inl ERROR_OPEN, h, array) else
      case GetPartitionInfoIndirect stack (ReadFileHandle os) h SectorSize Offset of
        None \<Rightarrow> None
      | Some (r, h, array) \<Rightarrow> Some (r, fo_close os h, array))"

definition ImageContainsISOFS :: "'h file_ops \<Rightarrow> string \<Rightarrow> 'h \<Rightarrow> int option \<Rightarrow> (drv_error + bool) \<times> 'h" where
  "ImageContainsISOFS os ImageFile h Offset =
     (case fo_open os h ImageFile of (ok, h) \<Rightarrow>
      if \<not> ok then (Inl ERROR_OPEN, h) else
      case ImageContainsISOFSIndirect (ReadFileHandle os) h Offset of (r, h) \<Rightarrow> (r, fo_close os h))"

definition GetFormattedGeometry ::
    "'h file_ops \<Rightarrow> string \<Rightarrow> 'h \<Rightarrow> int option \<Rightarrow> disk_geometry \<Rightarrow> (drv_error + disk_geometry) \<times> 'h" where
  "GetFormattedGeometry os ImageFile h Offset geo =
     (case fo_open os h ImageFile of (ok, h) \<Rightarrow>
      if \<not> ok then (Inl ERROR_OPEN, h) else
      case GetFormattedGeometryIndirect (ReadFileHandle os) h Offset geo of (r, h) \<Rightarrow>
        (r, fo_close os h))"


section \<open>Every caller sees the same partitions\<close>

text \<open>The callback that collects everything, and the run of another callback over what it
  collected, up to its first refusal.\<close>

definition collect :: "partition_information list info_proc" where
  "collect ps p = (True, ps @ [p])"

fun feed :: "'u info_proc \<Rightarrow> 'u \<Rightarrow> partition_information list \<Rightarrow> bool \<times> 'u" where
  "feed proc u [] = (True, u)"
| "feed proc u (p # ps) = (case proc u p of (go, u) \<Rightarrow> if go then feed proc u ps else (False, u))"

lemma feed_append: "feed proc u (ps @ qs) =
   (if fst (feed proc u ps) then feed proc (snd (feed proc u ps)) qs else feed proc u ps)"
  by (induction proc u ps rule: feed.induct) (auto split: prod.splits)

text \<open>Partitions are numbered in the order they are reported.\<close>

fun numbered :: "int \<Rightarrow> partition_information list \<Rightarrow> bool" where
  "numbered c [] \<longleftrightarrow> True"
| "numbered c (p # ps) \<longleftrightarrow> PartitionNumber p = u32 (c + 1) \<and> numbered (c + 1) ps"

lemma numbered_append: "numbered c (ps @ qs) \<longleftrightarrow> numbered c ps \<and> numbered (c + int (length ps)) qs"
  by (induction c ps rule: numbered.induct) (auto simp: algebra_simps)

lemma numbered_nth: "numbered c ps \<Longrightarrow> i < length ps \<Longrightarrow> PartitionNumber (ps ! i) = u32 (c + 1 + int i)"
  by (induction c ps arbitrary: i rule: numbered.induct) (auto simp: nth_Cons algebra_simps split: nat.splits)

lemma ebr_entries_collect:
  "ebr_entries collect ss first cur es count us = (r, n, us') \<Longrightarrow>
     r \<noteq> Refused \<and> (\<exists>ps. us' = us @ ps \<and> n = count + int (length ps) \<and> numbered count ps \<and>
       (\<forall>(proc :: 'u info_proc) u. 
          (fst (feed proc u ps) \<longrightarrow> ebr_entries proc ss first cur es count u = (r, n, snd (feed proc u ps))) \<and>
          (\<not> fst (feed proc u ps) \<longrightarrow>
             (\<exists>m. ebr_entries proc ss first cur es count u = (Refused, m, snd (feed proc u ps))))))"
proof (induction es arbitrary: count us)
  case Nil
  then show ?case by simp
next
  case (Cons e es)
  consider "pe_type e = 0" | "pe_type e \<noteq> 0" "IsContainerPartition (pe_type e)"
    | "pe_type e \<noteq> 0" "\<not> IsContainerPartition (pe_type e)" by blast
  then show ?case
  proof cases
    case 1
    with Cons.IH [of count us] Cons.prems show ?thesis by simp
  next
    case 2
    with Cons.prems show ?thesis by auto
  next
    case 3
    let ?p = "pe_info ss cur (count + 1) e"
    from 3 Cons.prems have "ebr_entries collect ss first cur es (count + 1) (us @ [?p]) = (r, n, us')"
      using collect_def [of us ?p] by simp
    from Cons.IH [OF this] obtain ps where r: "r \<noteq> Refused" and
      ps: "us' = us @ ?p # ps" "n = count + 1 + int (length ps)" "numbered (count + 1) ps" and
      all: "\<And>(proc :: 'u info_proc) u. fst (feed proc u ps) \<Longrightarrow>
          ebr_entries proc ss first cur es (count + 1) u = (r, n, snd (feed proc u ps))"
        "\<And>(proc :: 'u info_proc) u. \<not> fst (feed proc u ps) \<Longrightarrow>
          \<exists>m. ebr_entries proc ss first cur es (count + 1) u = (Refused, m, snd (feed proc u ps))"
      by auto
    show ?thesis
    proof (intro conjI r exI [of _ "?p # ps"] allI impI)
      show "us' = us @ ?p # ps" "n = count + int (length (?p # ps))" using ps by simp_all
      show "numbered count (?p # ps)" using ps by (simp add: pe_info_def)
    next
      fix proc :: "'u info_proc" and u
      assume "fst (feed proc u (?p # ps))"
      with 3 all(1) show "ebr_entries proc ss first cur (e # es) count u = (r, n, snd (feed proc u (?p # ps)))"
        by (auto split: prod.splits if_splits)
    next
      fix proc :: "'u info_proc" and u
      assume "\<not> fst (feed proc u (?p # ps))"
      with 3 all(2) show "\<exists>m. ebr_entries proc ss first cur (e # es) count u =
          (Refused, m, snd (feed proc u (?p # ps)))"
        by (auto split: prod.splits if_splits)
    qed
  qed
qed


text \<open>The same for the chain of extended records; where the collecting search returns, every
  other one does.\<close>

abbreviation with_user :: "('h, 'u) enumeration \<Rightarrow> 'v \<Rightarrow> ('h, 'v) enumeration" where
  "with_user st u \<equiv> \<lparr>en_buffer = en_buffer st, en_count = en_count st, en_handle = en_handle st,
     en_user = u\<rparr>"

definition same_search ::
    "'u info_proc \<Rightarrow> 'u \<Rightarrow> partition_information list \<Rightarrow> (drv_error + unit) \<Rightarrow> ('h, 'x) enumeration \<Rightarrow>
     ((drv_error + unit) \<times> ('h, 'u) enumeration) option \<Rightarrow> bool" where
  "same_search proc u ps r st res \<longleftrightarrow>
     (fst (feed proc u ps) \<longrightarrow> res = Some (r, with_user st (snd (feed proc u ps)))) \<and>
     (\<not> fst (feed proc u ps) \<longrightarrow>
        (\<exists>st2. res = Some (Inl ERROR_CANCELLED, st2) \<and> en_user st2 = snd (feed proc u ps)))"

definition collected ::
    "('h, partition_information list) enumeration \<Rightarrow> partition_information list \<Rightarrow>
     ('h, partition_information list) enumeration \<Rightarrow> bool" where
  "collected st ps st' \<longleftrightarrow> en_user st' = en_user st @ ps \<and>
     en_count st' = en_count st + int (length ps) \<and> numbered (en_count st) ps"

lemma ebr_loop_collect:
  fixes rd :: "'h read_proc"
  assumes "ebr_loop rd collect ss first cur st = Some res"
  shows "\<exists>ps. collected st ps (snd res) \<and> fst res \<noteq> Inl ERROR_CANCELLED \<and>
     (\<forall>(proc :: 'u info_proc) u.
        same_search proc u ps (fst res) (snd res) (ebr_loop rd proc ss first cur (with_user st u)))"
proof -
  define P where "P rd p ss first cur st res \<longleftrightarrow> (p = collect \<longrightarrow>
      (\<exists>ps. collected st ps (snd res) \<and> fst res \<noteq> Inl ERROR_CANCELLED \<and>
        (\<forall>(proc :: 'u info_proc) u.
           same_search proc u ps (fst res) (snd res) (ebr_loop rd proc ss first cur (with_user st u)))))"
    for rd :: "'h read_proc" and p ss first cur st res
  have "P rd collect ss first cur st res"
  proof (rule ebr_loop.raw_induct [of P, OF _ assms])
    fix loop :: "'h read_proc \<Rightarrow> partition_information list info_proc \<Rightarrow> int \<Rightarrow> int \<Rightarrow> int \<Rightarrow>
      ('h, partition_information list) enumeration \<Rightarrow>
      ((drv_error + unit) \<times> ('h, partition_information list) enumeration) option"
    fix rd p ss first cur st res
    let ?P = "P rd p ss first cur st res"
    assume IH: "\<And>rd p ss first cur st res. loop rd p ss first cur st = Some res \<Longrightarrow>
        P rd p ss first cur st res"
      and eq: "(case rd (en_handle st) cur (nat ss) of (ok, data, read_size, h) \<Rightarrow>
      (let st = st\<lparr>en_handle := h, en_buffer := mem_write (en_buffer st) ss data\<rparr>;
           table = 2 * ss - 66
       in
       if \<not> ok then Some (Inl ERROR_READ, st)
       else if read_size \<noteq> ss \<or> \<not> pt_valid (en_buffer st) table then Some (Inr (), st)
       else case ebr_entries p ss first cur (pt_entries (en_buffer st) table)
                   (en_count st) (en_user st) of (next, count, u) \<Rightarrow>
         (let st = st\<lparr>en_count := count, en_user := u\<rparr> in
          case next of
            No_more \<Rightarrow> Some (Inr (), st)
          | Next_ebr current \<Rightarrow> loop rd p ss first current st
          | Refused \<Rightarrow> Some (Inl ERROR_CANCELLED, st)))) = Some res"
    show ?P unfolding P_def
    proof
      assume p: "p = collect"
      obtain ok data size h where rd: "rd (en_handle st) cur (nat ss) = (ok, data, size, h)"
        by (metis prod_cases4)
      let ?buf = "mem_write (en_buffer st) ss data"
      let ?es = "pt_entries ?buf (2 * ss - 66)"
      let ?st = "\<lparr>en_buffer = ?buf, en_count = en_count st, en_handle = h, en_user = en_user st\<rparr>"
      consider "\<not> ok" | "ok" "size \<noteq> ss \<or> \<not> pt_valid ?buf (2 * ss - 66)"
        | "ok" "size = ss" "pt_valid ?buf (2 * ss - 66)" by blast
      then show "\<exists>ps. collected st ps (snd res) \<and> fst res \<noteq> Inl ERROR_CANCELLED \<and>
         (\<forall>(proc :: 'u info_proc) u. same_search proc u ps (fst res) (snd res)
            (ebr_loop rd proc ss first cur (with_user st u)))"
      proof cases
        case 1
        with eq rd have "res = (Inl ERROR_READ, ?st)" by (cases st) simp
        with 1 rd show ?thesis
          by (intro exI [of _ "[]"]) (simp add: collected_def same_search_def ebr_loop.simps)
      next
        case 2
        with eq rd have "res = (Inr (), ?st)" by (cases st) auto
        with 2 rd show ?thesis
          by (intro exI [of _ "[]"]) (auto simp: collected_def same_search_def ebr_loop.simps)
      next
        case 3
        obtain nx n us where e: "ebr_entries collect ss first cur ?es (en_count st) (en_user st) = (nx, n, us)"
          by (metis prod_cases3)
        from ebr_entries_collect [OF this, where ?'u = 'u] obtain ps where nx: "nx \<noteq> Refused"
          and ps: "us = en_user st @ ps" "n = en_count st + int (length ps)" "numbered (en_count st) ps"
          and all: "\<And>(proc :: 'u info_proc) u. fst (feed proc u ps) \<Longrightarrow>
              ebr_entries proc ss first cur ?es (en_count st) u = (nx, n, snd (feed proc u ps))"
            "\<And>(proc :: 'u info_proc) u. \<not> fst (feed proc u ps) \<Longrightarrow>
              \<exists>m. ebr_entries proc ss first cur ?es (en_count st) u = (Refused, m, snd (feed proc u ps))"
          by auto
        let ?st2 = "\<lparr>en_buffer = ?buf, en_count = n, en_handle = h, en_user = us\<rparr>"
        have step: "ebr_loop rd proc ss first cur (with_user st u) =
           (case ebr_entries proc ss first cur ?es (en_count st) u of (next, n, u) \<Rightarrow>
              (case next of No_more \<Rightarrow> Some (Inr (), with_user (?st2\<lparr>en_count := n\<rparr>) u)
               | Refused \<Rightarrow> Some (Inl ERROR_CANCELLED, with_user (?st2\<lparr>en_count := n\<rparr>) u)
               | Next_ebr c \<Rightarrow> ebr_loop rd proc ss first c (with_user (?st2\<lparr>en_count := n\<rparr>) u)))"
          for proc :: "'u info_proc" and u
          using 3 rd by (subst ebr_loop.simps) (simp split: prod.splits ebr_end.splits)
        show ?thesis
        proof (cases nx)
          case No_more
          with eq rd 3 p e have "res = (Inr (), ?st2)" by (cases st) simp
          with ps step all No_more show ?thesis
            by (intro exI [of _ ps])
              (fastforce simp: collected_def same_search_def split: prod.splits)
        next
          case (Next_ebr c)
          with eq rd 3 p e have "loop rd collect ss first c ?st2 = Some res"
            by (cases st) simp
          from IH [OF this, unfolded P_def] obtain qs where qs: "collected ?st2 qs (snd res)"
            "fst res \<noteq> Inl ERROR_CANCELLED"
            and q: "\<And>(proc :: 'u info_proc) u. same_search proc u qs (fst res) (snd res)
                (ebr_loop rd proc ss first c (with_user ?st2 u))" by auto
          have "same_search proc u (ps @ qs) (fst res) (snd res)
             (ebr_loop rd proc ss first cur (with_user st u))" for proc :: "'u info_proc" and u
            using step [of proc u] all [of proc u] q [of proc "snd (feed proc u ps)"] Next_ebr
            by (cases "fst (feed proc u ps)") (auto simp: same_search_def feed_append)
          with qs ps show ?thesis
            by (intro exI [of _ "ps @ qs"]) (auto simp: collected_def numbered_append)
        qed (use nx in simp)
      qed
    qed
  qed
  then show ?thesis by (simp add: P_def)
qed


lemma same_search_append:
  "fst (feed proc u ps) \<Longrightarrow> same_search proc (snd (feed proc u ps)) qs r st res \<Longrightarrow>
     same_search proc u (ps @ qs) r st res"
  by (simp add: same_search_def feed_append)

lemma mbr_entries_collect:
  fixes rd :: "'h read_proc"
  assumes "mbr_entries rd collect ss off is st = Some res"
  shows "\<exists>ps. collected st ps (snd res) \<and> fst res \<noteq> Inl ERROR_CANCELLED \<and>
     (\<forall>(proc :: 'u info_proc) u.
        same_search proc u ps (fst res) (snd res) (mbr_entries rd proc ss off is (with_user st u)))"
  using assms
proof (induction "is" arbitrary: st)
  case Nil
  then show ?case by (intro exI [of _ "[]"]) (auto simp: collected_def same_search_def)
next
  case (Cons i js)
  let ?e = "pt_entry (en_buffer st) (512 - 66) i"
  let ?first = "s64 (off + s64 (ss * pe_start ?e))"
  consider "IsContainerPartition (pe_type ?e)" | "pe_type ?e = 0"
    | "\<not> IsContainerPartition (pe_type ?e)" "pe_type ?e \<noteq> 0" by blast
  then show ?case
  proof cases
    case 1
    with Cons.prems obtain r where loop: "ebr_loop rd collect ss ?first ?first st = Some r"
      by (auto simp: Let_def split: option.splits)
    from ebr_loop_collect [OF loop, where ?'u = 'u] obtain ps where ps: "collected st ps (snd r)"
      "fst r \<noteq> Inl ERROR_CANCELLED"
      and all: "\<And>(proc :: 'u info_proc) u. same_search proc u ps (fst r) (snd r)
        (ebr_loop rd proc ss ?first ?first (with_user st u))" by blast
    show ?thesis
    proof (cases "fst r")
      case (Inl err)
      with Cons.prems loop 1 have "res = (Inl err, snd r)" by (cases r) (auto simp: Let_def)
      with ps Inl all 1 show ?thesis
        by (intro exI [of _ ps]) (fastforce simp: same_search_def Let_def)
    next
      case (Inr a)
      with Cons.prems loop 1 have "mbr_entries rd collect ss off js (snd r) = Some res"
        by (cases r) (simp add: Let_def)
      from Cons.IH [OF this] obtain qs where qs: "collected (snd r) qs (snd res)"
        "fst res \<noteq> Inl ERROR_CANCELLED"
        and q: "\<And>(proc :: 'u info_proc) u. same_search proc u qs (fst res) (snd res)
          (mbr_entries rd proc ss off js (with_user (snd r) u))" by blast
      have "same_search proc u (ps @ qs) (fst res) (snd res)
          (mbr_entries rd proc ss off (i # js) (with_user st u))" for proc :: "'u info_proc" and u
      proof (cases "fst (feed proc u ps)")
        case True
        with all [of proc u] q [of proc "snd (feed proc u ps)"] 1 Inr show ?thesis
          by (intro same_search_append) (auto simp: same_search_def Let_def)
      next
        case False
        with all [of proc u] 1 Inr show ?thesis
          by (auto simp: same_search_def feed_append Let_def)
      qed
      with qs ps show ?thesis
        by (intro exI [of _ "ps @ qs"]) (auto simp: collected_def numbered_append)
    qed
  next
    case 2
    with Cons.prems have "mbr_entries rd collect ss off js st = Some res"
      by (simp add: IsContainerPartition_def)
    from Cons.IH [OF this] 2 show ?thesis by (simp add: IsContainerPartition_def)
  next
    case 3
    let ?p = "pe_info ss 0 (en_count st + 1) ?e"
    let ?st = "st\<lparr>en_count := en_count st + 1, en_user := en_user st @ [?p]\<rparr>"
    from 3 Cons.prems have "mbr_entries rd collect ss off js ?st = Some res"
      using collect_def [of "en_user st" ?p] by simp
    from Cons.IH [OF this] obtain qs where qs: "collected ?st qs (snd res)"
      "fst res \<noteq> Inl ERROR_CANCELLED"
      and q: "\<And>(proc :: 'u info_proc) u. same_search proc u qs (fst res) (snd res)
        (mbr_entries rd proc ss off js (with_user ?st u))" by blast
    have "same_search proc u (?p # qs) (fst res) (snd res)
        (mbr_entries rd proc ss off (i # js) (with_user st u))" for proc :: "'u info_proc" and u
      using q [of proc "snd (proc u ?p)"] 3
      by (cases "fst (proc u ?p)") (auto simp: same_search_def split: prod.splits)
    with qs show ?thesis
      by (intro exI [of _ "?p # qs"]) (auto simp: collected_def pe_info_def)
  qed
qed

text \<open>The whole search: what it collects determines its run with any callback.\<close>

lemma search_collect:
  fixes rd :: "'h read_proc" and proc :: "'u info_proc"
  assumes "GetPartitionInfoIndirectEx stack rd h ss off collect [] = Some (r, h', ps)"
  shows "r \<noteq> Inl ERROR_CANCELLED" "numbered 0 ps"
    "fst (feed proc u ps) \<Longrightarrow>
       GetPartitionInfoIndirectEx stack rd h ss off proc u = Some (r, h', snd (feed proc u ps))"
    "\<not> fst (feed proc u ps) \<Longrightarrow> \<exists>h2.
       GetPartitionInfoIndirectEx stack rd h ss off proc u =
         Some (Inl ERROR_CANCELLED, h2, snd (feed proc u ps))"
proof -
  let ?off = "case off of None \<Rightarrow> 0 | Some o1 \<Rightarrow> o1"
  let ?ss = "if ss = 0 then 512 else ss"
  obtain ok data size h1 where rd: "rd h ?off (nat ?ss) = (ok, data, size, h1)"
    by (metis prod_cases4)
  let ?buf = "mem_write stack 0 data"
  let ?good = "ok \<and> size = ?ss \<and> pt_valid ?buf (512 - 66)"
  let ?st = "\<lambda>u. \<lparr>en_buffer = ?buf, en_count = 0, en_handle = h1, en_user = u\<rparr>"
  have Ex: "GetPartitionInfoIndirectEx stack rd h ss off p v =
      (if \<not> ?good then Some (Inl (if ok then ERROR_DISK_CORRUPT else ERROR_READ), h1, v)
       else case mbr_entries rd p ?ss ?off [0, 1, 2, 3] (?st v) of None \<Rightarrow> None
            | Some (r, st) \<Rightarrow> Some (r, en_handle st, en_user st))"
    for p :: "'v info_proc" and v
    using rd by (auto simp: GetPartitionInfoIndirectEx_def Let_def)
  have "r \<noteq> Inl ERROR_CANCELLED \<and> numbered 0 ps \<and>
    (fst (feed proc u ps) \<longrightarrow>
       GetPartitionInfoIndirectEx stack rd h ss off proc u = Some (r, h', snd (feed proc u ps))) \<and>
    (\<not> fst (feed proc u ps) \<longrightarrow> (\<exists>h2.
       GetPartitionInfoIndirectEx stack rd h ss off proc u =
         Some (Inl ERROR_CANCELLED, h2, snd (feed proc u ps))))"
  proof (cases ?good)
    case False
    with assms show ?thesis by (auto simp: Ex simp del: mbr_entries.simps split: if_splits)
  next
    case True
    with assms obtain st where st: "mbr_entries rd collect ?ss ?off [0, 1, 2, 3] (?st []) = Some (r, st)"
      "h' = en_handle st" "ps = en_user st" by (auto simp: Ex simp del: mbr_entries.simps split: option.splits)
    from mbr_entries_collect [OF st(1), where ?'u = 'u] obtain qs where qs: "collected (?st []) qs st"
      "r \<noteq> Inl ERROR_CANCELLED"
      and all: "\<And>(proc :: 'u info_proc) u. same_search proc u qs r st
        (mbr_entries rd proc ?ss ?off [0, 1, 2, 3] (?st u))" by auto
    have "qs = ps" "numbered 0 ps" using qs(1) st by (auto simp: collected_def)
    with qs(2) all [of proc u] True st show ?thesis
      by (auto simp: Ex same_search_def simp del: mbr_entries.simps)
  qed
  then show "r \<noteq> Inl ERROR_CANCELLED" "numbered 0 ps"
    "fst (feed proc u ps) \<Longrightarrow>
       GetPartitionInfoIndirectEx stack rd h ss off proc u = Some (r, h', snd (feed proc u ps))"
    "\<not> fst (feed proc u ps) \<Longrightarrow> \<exists>h2.
       GetPartitionInfoIndirectEx stack rd h ss off proc u =
         Some (Inl ERROR_CANCELLED, h2, snd (feed proc u ps))" by blast+
qed


section \<open>One partition by number, and the array of eight\<close>

lemma feed_single:
  assumes "numbered c ps" "0 \<le> c" "c + int (length ps) < 4294967296" "c < n"
  shows "feed GotPartInfoForSingle \<lparr>pd_array = [p0], pd_next = 0, pd_count = n\<rparr> ps =
    (if n \<le> c + int (length ps)
     then (False, \<lparr>pd_array = [ps ! nat (n - c - 1)], pd_next = 0, pd_count = 0\<rparr>)
     else (True, \<lparr>pd_array = [p0], pd_next = 0, pd_count = n\<rparr>))"
  using assms
proof (induction c ps rule: numbered.induct)
  case (1 c)
  then show ?case by simp
next
  case (2 c p ps)
  have num: "PartitionNumber p = c + 1" using 2 by (simp add: u32_id)
  show ?case
  proof (cases "n = c + 1")
    case True
    with num show ?thesis by (simp add: GotPartInfoForSingle_def)
  next
    case False
    then have "nat (n - c - 1) = Suc (nat (n - (c + 1) - 1))" using 2 by simp
    with False num 2 show ?thesis by (auto simp: GotPartInfoForSingle_def)
  qed
qed

lemma feed_array:
  assumes "length arr = 8" "k < 8"
  shows "feed GotPartInfoForArray \<lparr>pd_array = arr, pd_next = k, pd_count = 8 - int k\<rparr> ps =
    (if k + length ps < 8
     then (True, \<lparr>pd_array = take k arr @ ps @ drop (k + length ps) arr, pd_next = k + length ps,
                  pd_count = 8 - int (k + length ps)\<rparr>)
     else (False, \<lparr>pd_array = take k arr @ take (8 - k) ps, pd_next = 8, pd_count = 0\<rparr>))"
  using assms
proof (induction ps arbitrary: arr k)
  case Nil
  then show ?case by simp
next
  case (Cons p ps)
  have u: "u32 (8 - int k - 1) = 8 - int (Suc k)" using Cons.prems by (simp add: u32_id)
  have arr: "take (Suc k) (arr[k := p]) = take k arr @ [p]"
    "drop (Suc k + length ps) (arr[k := p]) = drop (k + length (p # ps)) arr"
    using Cons.prems by (simp_all add: take_Suc_conv_app_nth)
  show ?case
  proof (cases "k = 7")
    case True
    then have "arr[k := p] = take k arr @ [p]" using Cons.prems arr(1) by simp
    with True u show ?thesis by (simp add: GotPartInfoForArray_def Let_def)
  next
    case False
    then have k: "Suc k < 8" using Cons.prems by simp
    have "8 - k = Suc (8 - Suc k)" using k by simp
    then have t: "take (8 - k) (p # ps) = p # take (8 - Suc k) ps" by simp
    from Cons.IH [of "arr[k := p]" "Suc k"] Cons.prems k u arr show ?thesis
      by (auto simp: GotPartInfoForArray_def Let_def t simp del: take_Suc_Cons)
  qed
qed

end
