(* ===== verification/Drv_Round.thy ===== *)
theory Drv_Round
  imports Drv_Parts
begin

text \<open>
  \<open>BuildMBR\<close> and the partition enumeration fit together: a boot record built from a list of
  partitions is enumerated as that list. The lemmas follow one entry through the overlapping
  stores, then the list of entries, then the scan.
\<close>

section \<open>One entry\<close>

text \<open>The entry at index \<open>k\<close> of a table describes partition \<open>p\<close>, in sectors of the geometry.\<close>

definition entry_describes :: "(int \<Rightarrow> byte) \<Rightarrow> int \<Rightarrow> disk_geometry \<Rightarrow> partition_information \<Rightarrow> bool" where
  "entry_describes mbr a geo p \<longleftrightarrow>
     mbr a = (if BootIndicator p then 0x80 else 0) \<and>
     mbr (a + 4) = word_of_int (PartitionType p) \<and>
     mem_bytes mbr (a + 8) 4 = to_le 4 (StartingOffset p div BytesPerSector geo) \<and>
     mem_bytes mbr (a + 12) 4 = to_le 4 (PartitionLength p div BytesPerSector geo)"

lemma entry_describes_cong:
  assumes "\<And>j. a \<le> j \<Longrightarrow> j < a + 16 \<Longrightarrow> m j = m' j"
  shows "entry_describes m a geo p = entry_describes m' a geo p"
proof -
  have "mem_bytes m (a + 8) 4 = mem_bytes m' (a + 8) 4" "mem_bytes m (a + 12) 4 = mem_bytes m' (a + 12) 4"
    by (intro mem_bytes_cong assms; simp)+
  with assms [of a] assms [of "a + 4"] show ?thesis by (simp add: entry_describes_def)
qed

lemma store_entry_out:
  "i < a \<or> a + 16 \<le> i \<Longrightarrow> store_entry mbr a boot c1 t c2 s n i = mbr i"
  by (auto simp: store_entry_def mem_write_def)

lemma store_entry_in:
  assumes "mbr a = 0" and m_def: "m = store_entry mbr a boot c1 t c2 s n"
  shows "m a = (if boot then 0x80 else 0)" "m (a + 4) = word_of_int (t mod 256)"
    "mem_bytes m (a + 8) 4 = to_le 4 s" "mem_bytes m (a + 12) 4 = to_le 4 n"
proof -
  show "m a = (if boot then 0x80 else 0)" using assms(1)
    by (auto simp: m_def store_entry_def mem_write_def)
  show "m (a + 4) = word_of_int (t mod 256)"
    by (auto simp: m_def store_entry_def mem_write_def)
  show "mem_bytes m (a + 8) 4 = to_le 4 s"
  proof -
    have "mem_bytes m (a + 8) 4 = mem_bytes (mem_write x (a + 8) (to_le 4 s)) (a + 8) 4"
      if "m = mem_write (mem_write x (a + 8) (to_le 4 s)) (a + 12) (to_le 4 n)" for x
      unfolding that by (rule mem_bytes_write_disjoint) simp
    moreover have "mem_bytes (mem_write x (a + 8) (to_le 4 s)) (a + 8) 4 = to_le 4 s" for x
      using mem_bytes_write_same [of x "a + 8" "to_le 4 s"] by simp
    ultimately show ?thesis by (auto simp: m_def store_entry_def Let_def)
  qed
  show "mem_bytes m (a + 12) 4 = to_le 4 n"
    using mem_bytes_write_same [of _ "a + 12" "to_le 4 n"] by (simp add: m_def store_entry_def Let_def)
qed

text \<open>What the builder is given: whole sectors, addressable with 32 bits, ordinary types, and a
  geometry it can divide by.\<close>

definition mbr_geometry :: "disk_geometry \<Rightarrow> bool" where
  "mbr_geometry geo \<longleftrightarrow> 512 \<le> BytesPerSector geo \<and> BytesPerSector geo < 2147483648 \<and>
     u32 (TracksPerCylinder geo * SectorsPerTrack geo) \<noteq> 0 \<and> SectorsPerTrack geo \<noteq> 0"

definition mbr_partition :: "disk_geometry \<Rightarrow> partition_information \<Rightarrow> bool" where
  "mbr_partition geo p \<longleftrightarrow>
     (let s = StartingOffset p div BytesPerSector geo; n = PartitionLength p div BytesPerSector geo in
      StartingOffset p = BytesPerSector geo * s \<and> PartitionLength p = BytesPerSector geo * n \<and>
      0 \<le> s \<and> 0 < n \<and> s + n \<le> 4294967296 \<and> n < 4294967296) \<and>
     0 < PartitionType p \<and> PartitionType p < 256 \<and> \<not> IsContainerPartition (PartitionType p)"

lemma high_bits_0: "0 \<le> x \<Longrightarrow> x < 4294967296 \<Longrightarrow> (x :: int) AND 0xFFFFFFFF00000000 = 0"
proof -
  assume "0 \<le> x" "x < 4294967296"
  then have "x = take_bit 32 x" by (simp add: take_bit_int_eq_self)
  moreover have "(0xFFFFFFFF00000000 :: int) = push_bit 32 (mask 32)" by (simp add: mask_eq_exp_minus_1)
  ultimately have "x AND 0xFFFFFFFF00000000 = take_bit 32 x AND push_bit 32 (mask 32)" by metis
  also have "\<dots> = 0" by (auto simp: bit_eq_iff bit_simps)
  finally show ?thesis .
qed

lemma build_entry:
  assumes "mbr_geometry geo" "mbr_partition geo p" "mbr (446 + 16 * i) = 0"
  shows "\<exists>m. build_entries geo (p # ps) i mbr = build_entries geo ps (i + 1) m \<and>
    entry_describes m (446 + 16 * i) geo p \<and>
    (\<forall>j. j < 446 + 16 * i \<or> 446 + 16 * i + 16 \<le> j \<longrightarrow> m j = mbr j)"
proof -
  let ?a = "446 + 16 * i"
  define s where "s = StartingOffset p div BytesPerSector geo"
  define n where "n = PartitionLength p div BytesPerSector geo"
  note g = assms(1) [unfolded mbr_geometry_def]
  note p = assms(2) [unfolded mbr_partition_def Let_def, folded s_def n_def]
  have b: "BytesPerSector geo \<noteq> 0" "0 \<le> BytesPerSector geo" using g by linarith+
  have pos: "0 \<le> StartingOffset p" "0 \<le> PartitionLength p" using b p by simp_all
  then have d: "tdiv (StartingOffset p) (BytesPerSector geo) = s"
    "tdiv (PartitionLength p) (BytesPerSector geo) = n" by (simp_all add: tdiv_def s_def n_def)
  have w: "u64 s = s" "u64 n = n" "u64 (s + n - 1) = s + n - 1" using p by (simp_all add: u64_id)
  have h: "s AND 0xFFFFFFFF00000000 = 0" "n AND 0xFFFFFFFF00000000 = 0"
    "(s + n - 1) AND 0xFFFFFFFF00000000 = 0" using p by (intro high_bits_0; simp)+
  have chs: "\<exists>c. ConvertLBAToCHS geo lba = Some c" for lba
    using g by (simp add: ConvertLBAToCHS_def Let_def split: prod.splits)
  then obtain c1 c2 where c: "ConvertLBAToCHS geo (u32 s) = Some c1"
    "ConvertLBAToCHS geo (u32 (s + n - 1)) = Some c2" by blast
  have u: "u32 s = s" "u32 n = n" "PartitionType p mod 256 = PartitionType p"
    using p by (simp_all add: u32_id)
  let ?m = "store_entry mbr ?a (BootIndicator p) c1 (PartitionType p) c2 s n"
  have "build_entries geo (p # ps) i mbr = build_entries geo ps (i + 1) ?m"
    using b d w h c u by (simp add: Let_def)
  moreover have "entry_describes ?m ?a geo p"
    using store_entry_in [where mbr = mbr, OF assms(3) refl [of ?m]]
    by (simp only: entry_describes_def u(3) s_def [symmetric] n_def [symmetric])
  moreover have "\<forall>j. j < ?a \<or> ?a + 16 \<le> j \<longrightarrow> ?m j = mbr j"
    by (auto intro: store_entry_out)
  ultimately show ?thesis by blast
qed

section \<open>The table\<close>

lemma build_table:
  assumes "mbr_geometry geo" "\<forall>p \<in> set ps. mbr_partition geo p"
    "\<forall>j. 0 \<le> j \<and> j < int (length ps) \<longrightarrow> mbr (446 + 16 * (i + j)) = 0"
  shows "\<exists>m. build_entries geo ps i mbr = Some (Inr (), m) \<and>
    (\<forall>j < length ps. entry_describes m (446 + 16 * (i + int j)) geo (ps ! j)) \<and>
    (\<forall>j. j < 446 + 16 * i \<or> 446 + 16 * (i + int (length ps)) \<le> j \<longrightarrow> m j = mbr j)"
  using assms
proof (induction ps arbitrary: i mbr)
  case Nil
  then show ?case by simp
next
  case (Cons p ps)
  from build_entry [of geo p mbr i ps] Cons.prems obtain m where
    m: "build_entries geo (p # ps) i mbr = build_entries geo ps (i + 1) m"
      "entry_describes m (446 + 16 * i) geo p"
      "\<And>j. j < 446 + 16 * i \<or> 446 + 16 * i + 16 \<le> j \<Longrightarrow> m j = mbr j"
    by fastforce
  have "\<forall>j. 0 \<le> j \<and> j < int (length ps) \<longrightarrow> m (446 + 16 * (i + 1 + j)) = 0"
  proof (intro allI impI)
    fix j :: int assume j: "0 \<le> j \<and> j < int (length ps)"
    then have "m (446 + 16 * (i + 1 + j)) = mbr (446 + 16 * (i + (1 + j)))"
      using m(3) [of "446 + 16 * (i + 1 + j)"] by (simp add: add.assoc)
    also have "\<dots> = 0" using Cons.prems(3) [rule_format, of "1 + j"] j by simp
    finally show "m (446 + 16 * (i + 1 + j)) = 0" .
  qed
  with Cons.IH [of m "i + 1"] Cons.prems(1,2) obtain m2 where
    m2: "build_entries geo ps (i + 1) m = Some (Inr (), m2)"
      "\<And>j. j < length ps \<Longrightarrow> entry_describes m2 (446 + 16 * (i + 1 + int j)) geo (ps ! j)"
      "\<forall>j. j < 446 + 16 * (i + 1) \<or> 446 + 16 * (i + 1 + int (length ps)) \<le> j \<longrightarrow> m2 j = m j"
    by auto
  have first: "entry_describes m2 (446 + 16 * i) geo p"
    using m(2) m2(3) by (subst entry_describes_cong [where m' = m]) auto
  have "entry_describes m2 (446 + 16 * (i + int j)) geo ((p # ps) ! j)" if "j < length (p # ps)" for j
  proof (cases j)
    case 0
    with first show ?thesis by simp
  next
    case (Suc k)
    with m2(2) [of k] that show ?thesis by (simp add: algebra_simps)
  qed
  moreover have "m2 j = mbr j" if "j < 446 + 16 * i \<or> 446 + 16 * (i + int (length (p # ps))) \<le> j" for j
    using that m2(3) [rule_format, of j] m(3) [of j] by auto
  ultimately show ?case using m(1) m2(1) by auto
qed


section \<open>Enumerating a built table\<close>

text \<open>The record the enumeration reports for a partition in the list the table was built from.\<close>

definition listing :: "disk_geometry \<Rightarrow> int \<Rightarrow> partition_information \<Rightarrow> partition_information" where
  "listing geo number p =
     p\<lparr>HiddenSectors := StartingOffset p div BytesPerSector geo, PartitionNumber := number,
       RecognizedPartition := False, RewritePartition := False\<rparr>"

fun listings :: "disk_geometry \<Rightarrow> int \<Rightarrow> partition_information list \<Rightarrow> partition_information list" where
  "listings geo i [] = []"
| "listings geo i (p # ps) = listing geo i p # listings geo (i + 1) ps"

lemma le_4_32: "0 \<le> x \<Longrightarrow> x < 4294967296 \<Longrightarrow> le_of (to_le 4 x) = x"
  by (simp add: le_of_to_le)

lemma pe_of_described:
  assumes "mbr_geometry geo" "mbr_partition geo p" "entry_describes buf (446 + 16 * int i) geo p"
    "0 \<le> c" "c < 4294967296"
  defines "e \<equiv> pt_entry buf 446 i"
  shows "pe_type e = PartitionType p" "pe_zero e = 0"
    "pe_info (BytesPerSector geo) 0 c e = listing geo c p"
proof -
  let ?B = "BytesPerSector geo"
  define s where "s = StartingOffset p div ?B"
  define n where "n = PartitionLength p div ?B"
  note p = assms(2) [unfolded mbr_partition_def Let_def, folded s_def n_def]
  note d = assms(3) [unfolded entry_describes_def, folded s_def n_def]
  have e0: "e ! 0 = (if BootIndicator p then 0x80 else 0)" "e ! 4 = word_of_int (PartitionType p)"
    using d by (simp_all add: e_def pt_entry_def)
  have "take 4 (drop 8 e) = mem_bytes buf (446 + 16 * int i + 8) 4"
    "take 4 (drop 12 e) = mem_bytes buf (446 + 16 * int i + 12) 4"
    by (simp_all add: e_def pt_entry_def drop_mem_bytes take_mem_bytes)
  with d have en: "pe_start e = s" "pe_sectors e = n"
    using p by (simp_all add: pe_start_def pe_sectors_def le_4_32)
  show t: "pe_type e = PartitionType p"
    using e0 p by (simp only: pe_type_def) (simp only: uint_of_byte less_imp_le)
  show "pe_zero e = 0" using e0 by (simp add: pe_zero_def)
  have boot: "pe_boot e = BootIndicator p" using e0 by (simp add: pe_boot_def)
  have "?B * s < 9223372036854775808" "?B * n < 9223372036854775808"
    using mult_strict_mono [of ?B 2147483648 s 4294967296]
      mult_strict_mono [of ?B 2147483648 n 4294967296] p assms(1) by (simp_all add: mbr_geometry_def)
  moreover have "0 \<le> ?B * s" "0 \<le> ?B * n" using p assms(1) by (simp_all add: mbr_geometry_def)
  ultimately have "s64 (?B * s) = StartingOffset p" "s64 (?B * n) = PartitionLength p"
    using p by (simp_all add: s64_id)
  with assms(4,5) show "pe_info ?B 0 c e = listing geo c p"
    by (simp add: pe_info_def listing_def en t boot s_def [symmetric] u32_id)
qed

lemma mbr_entries_unused:
  "\<forall>i \<in> set is. pe_type (pt_entry (en_buffer st) 446 i) = 0 \<Longrightarrow>
     mbr_entries rd proc ss off is st = Some (Inr (), st)"
  by (induction "is") (auto simp: IsContainerPartition_def)

lemma mbr_entries_built:
  assumes "mbr_geometry geo" "\<forall>p \<in> set ps. mbr_partition geo p"
    "\<And>j. j < length ps \<Longrightarrow> entry_describes (en_buffer st) (446 + 16 * int (i + j)) geo (ps ! j)"
    "en_count st = int i" "i + length ps \<le> 4"
  shows "mbr_entries rd collect (BytesPerSector geo) off ([i..<i + length ps] @ rest) st =
    mbr_entries rd collect (BytesPerSector geo) off rest
      (st\<lparr>en_count := int i + int (length ps), en_user := en_user st @ listings geo (int i + 1) ps\<rparr>)"
  using assms
proof (induction ps arbitrary: i st)
  case Nil
  then show ?case by (cases st) simp
next
  case (Cons p ps)
  let ?e = "pt_entry (en_buffer st) 446 i"
  have "entry_describes (en_buffer st) (446 + 16 * int i) geo p" using Cons.prems(3) [of 0] by simp
  from pe_of_described [OF Cons.prems(1) _ this, of "int i + 1"] Cons.prems(2,5)
  have e: "pe_type ?e = PartitionType p"
    "pe_info (BytesPerSector geo) 0 (int i + 1) ?e = listing geo (int i + 1) p" by simp_all
  let ?st = "st\<lparr>en_count := int i + 1, en_user := en_user st @ [listing geo (int i + 1) p]\<rparr>"
  have "[i..<i + length (p # ps)] = i # [Suc i..<Suc i + length ps]" by (simp add: upt_conv_Cons del: upt_Suc)
  moreover have "mbr_entries rd collect (BytesPerSector geo) off (i # [Suc i..<Suc i + length ps] @ rest) st =
      mbr_entries rd collect (BytesPerSector geo) off ([Suc i..<Suc i + length ps] @ rest) ?st"
    using e Cons.prems(2,4) collect_def [of "en_user st" "listing geo (int i + 1) p"]
    by (simp add: mbr_partition_def)
  moreover have "\<dots> = mbr_entries rd collect (BytesPerSector geo) off rest
      (?st\<lparr>en_count := int (Suc i) + int (length ps),
           en_user := en_user ?st @ listings geo (int (Suc i) + 1) ps\<rparr>)"
  proof (rule Cons.IH)
    show "entry_describes (en_buffer ?st) (446 + 16 * int (Suc i + j)) geo (ps ! j)"
      if "j < length ps" for j using Cons.prems(3) [of "Suc j"] that by simp
  qed (use Cons.prems in auto)
  ultimately show ?case by (simp add: algebra_simps)
qed


lemma signature_at: "f 510 = 0x55 \<Longrightarrow> f 511 = 0xAA \<Longrightarrow> le_of (mem_bytes f 510 2) = 0xAA55"
  by (simp add: mem_bytes_def upt_conv_Cons)

lemma default_mbr_nth: "i < 510 \<Longrightarrow> 3 \<le> i \<Longrightarrow> default_mbr ! i = 0"
  "default_mbr ! 510 = 0x55" "default_mbr ! 511 = 0xAA" "length default_mbr = 512"
  by (simp_all add: default_mbr_def nth_append)

text \<open>The built sector, read through any procedure, lists the partitions.\<close>

lemma BuildMBR_listed:
  assumes "mbr_geometry geo" "length parts \<le> 4" "\<forall>p \<in> set parts. mbr_partition geo p"
  shows "\<exists>mbr. BuildMBR geo parts (length parts) MBR 512 = Some (Inr (), mbr) \<and>
    (\<forall>(rd :: 'h read_proc) h h1 rest stack.
       rd h 0 (nat (BytesPerSector geo)) =
         (True, mem_bytes mbr 0 512 @ rest, BytesPerSector geo, h1) \<longrightarrow>
       GetPartitionInfoIndirectEx stack rd h (BytesPerSector geo) None collect [] =
         Some (Inr (), h1, listings geo 1 parts))"
proof -
  let ?B = "BytesPerSector geo"
  let ?mbr0 = "mem_write MBR 0 default_mbr"
  have z: "?mbr0 j = 0" if "446 \<le> j" "j < 510" for j
    using that by (simp add: mem_write_def default_mbr_nth)
  obtain mbr where mbr: "build_entries geo parts 0 ?mbr0 = Some (Inr (), mbr)"
    "\<And>j. j < length parts \<Longrightarrow> entry_describes mbr (446 + 16 * int j) geo (parts ! j)"
    "\<forall>j. j < 446 \<or> 446 + 16 * int (length parts) \<le> j \<longrightarrow> mbr j = ?mbr0 j"
    using build_table [of geo parts ?mbr0 0] assms z by auto
  have build: "BuildMBR geo parts (length parts) MBR 512 = Some (Inr (), mbr)"
    using mbr(1) assms(2) by (simp add: BuildMBR_def default_mbr_size_def)
  have "GetPartitionInfoIndirectEx stack rd h ?B None collect [] = Some (Inr (), h1, listings geo 1 parts)"
    if rd: "rd h 0 (nat ?B) = (True, mem_bytes mbr 0 512 @ rest, ?B, h1)"
    for rd :: "'h read_proc" and h h1 rest stack
  proof -
    let ?buf = "mem_write stack 0 (mem_bytes mbr 0 512 @ rest)"
    have buf: "?buf j = mbr j" if "0 \<le> j" "j < 512" for j
      using that by (simp add: mem_write_def nth_append nat_less_iff)
    have d: "entry_describes ?buf (446 + 16 * int j) geo (parts ! j)" if "j < length parts" for j
      using mbr(2) [OF that] that assms(2) buf by (subst entry_describes_cong [where m' = mbr]) auto
    have unused: "?buf (446 + 16 * int j + k) = 0" if "length parts \<le> j" "j < 4" "0 \<le> k" "k < 16" for j k
    proof -
      have "?buf (446 + 16 * int j + k) = ?mbr0 (446 + 16 * int j + k)"
        using that buf [of "446 + 16 * int j + k"] mbr(3) [rule_format, of "446 + 16 * int j + k"] by simp
      then show ?thesis using z [of "446 + 16 * int j + k"] that by simp
    qed
    have zero: "pe_zero (pt_entry ?buf 446 j) = 0" if "j < 4" for j
    proof (cases "j < length parts")
      case True
      with pe_of_described(2) [OF assms(1) _ d [OF True], of 1] assms(3) show ?thesis by simp
    next
      case False
      with unused [of j 0] that show ?thesis by (simp add: pe_zero_def pt_entry_def)
    qed
    have sig: "le_of (mem_bytes ?buf 510 2) = 0xAA55"
    proof -
      have "?buf 510 = 0x55" "?buf 511 = 0xAA"
        using buf [of 510] buf [of 511] mbr(3) [rule_format, of 510] mbr(3) [rule_format, of 511] assms(2)
        by (simp_all add: mem_write_def default_mbr_nth)
      then show ?thesis by (rule signature_at)
    qed
    have valid: "pt_valid ?buf 446"
      using zero [of 0] zero [of 1] zero [of 2] zero [of 3] sig by (simp add: pt_valid_def)
    let ?st = "\<lparr>en_buffer = ?buf, en_count = 0, en_handle = h1, en_user = []\<rparr>"
    have "[0, 1, 2, 3] = [0..<4::nat]" by (simp add: upt_conv_Cons)
    also have "\<dots> = [0..<0 + length parts] @ [length parts..<4]"
      using assms(2) upt_add_eq_append [of 0 "length parts" "4 - length parts"] by simp
    finally have "[0, 1, 2, 3] = [0..<0 + length parts] @ [length parts..<4]" .
    then have "mbr_entries rd collect ?B 0 [0, 1, 2, 3] ?st = mbr_entries rd collect ?B 0 [length parts..<4]
        (?st\<lparr>en_count := int 0 + int (length parts), en_user := en_user ?st @ listings geo (int 0 + 1) parts\<rparr>)"
      using mbr_entries_built [of geo parts ?st 0 rd 0 "[length parts..<4]"] assms d by simp
    also have "\<dots> = Some (Inr (), ?st\<lparr>en_count := int 0 + int (length parts),
        en_user := en_user ?st @ listings geo (int 0 + 1) parts\<rparr>)"
    proof (rule mbr_entries_unused, intro ballI)
      fix j assume "j \<in> set [length parts..<4]"
      then show "pe_type (pt_entry (en_buffer (?st\<lparr>en_count := int 0 + int (length parts),
          en_user := en_user ?st @ listings geo (int 0 + 1) parts\<rparr>)) 446 j) = 0"
        using unused [of j 4] by (simp add: pe_type_def pt_entry_def)
    qed
    finally have scan: "mbr_entries rd collect ?B 0 [0, 1, 2, 3] ?st =
       Some (Inr (), \<lparr>en_buffer = ?buf, en_count = int (length parts), en_handle = h1,
         en_user = listings geo 1 parts\<rparr>)" by simp
    have "?B \<noteq> 0" using assms(1) by (auto simp: mbr_geometry_def)
    then show ?thesis
      using rd valid scan by (simp add: GetPartitionInfoIndirectEx_def Let_def del: mbr_entries.simps)
  qed
  with build show ?thesis by blast
qed


text \<open>
  C15. A master boot record built by \<open>BuildMBR\<close> from up to four partitions (whole sectors, 32-bit
  addresses, ordinary types) reads back as those partitions: enumerating a disk that starts with
  the built sector, with any read procedure and whatever was on the stack, succeeds and reports
  exactly the list it was built from, numbered from 1.\<close>

theorem BuildMBR_round_trip:
  assumes "mbr_geometry geo" "length parts \<le> 4" "\<forall>p \<in> set parts. mbr_partition geo p"
  shows "\<exists>mbr. BuildMBR geo parts (length parts) MBR 512 = Some (Inr (), mbr) \<and>
    (\<forall>(rd :: 'h read_proc) h h1 rest stack.
       rd h 0 (nat (BytesPerSector geo)) =
         (True, mem_bytes mbr 0 512 @ rest, BytesPerSector geo, h1) \<longrightarrow>
       GetPartitionInfoIndirectEx stack rd h (BytesPerSector geo) None collect [] =
         Some (Inr (), h1, listings geo 1 parts))"
  using assms by (rule BuildMBR_listed)

definition sample_geometry :: disk_geometry where
  "sample_geometry = \<lparr>Cylinders = 64, MediaType = 12, TracksPerCylinder = 255, SectorsPerTrack = 63,
     BytesPerSector = 512\<rparr>"

definition sample_parts :: "partition_information list" where
  "sample_parts =
     [no_partition\<lparr>StartingOffset := 32256, PartitionLength := 1048576, PartitionType := 6, BootIndicator := True\<rparr>,
      no_partition\<lparr>StartingOffset := 2097152, PartitionLength := 536870912, PartitionType := 7\<rparr>]"

lemma sample_ok: "mbr_geometry sample_geometry" "length sample_parts \<le> 4"
  "\<forall>p \<in> set sample_parts. mbr_partition sample_geometry p"
  by (simp_all add: mbr_geometry_def sample_geometry_def sample_parts_def u32_def mbr_partition_def
      IsContainerPartition_def Let_def no_partition_def)

theorem BuildMBR_round_trip_witness:
  "\<exists>mbr. BuildMBR sample_geometry sample_parts (length sample_parts) (\<lambda>_. 0) 512 = Some (Inr (), mbr) \<and>
     GetPartitionInfoIndirectEx (\<lambda>_. 0) (\<lambda>h off n. (True, mem_bytes mbr off n, int n, h)) () 512 None collect []
       = Some (Inr (), (), listings sample_geometry 1 sample_parts)"
proof -
  have B: "BytesPerSector sample_geometry = 512" by (simp add: sample_geometry_def)
  obtain mbr where "BuildMBR sample_geometry sample_parts (length sample_parts) (\<lambda>_. 0) 512 = Some (Inr (), mbr)"
    and "\<And>(rd :: unit read_proc) h h1 rest stack.
       rd h 0 (nat (BytesPerSector sample_geometry)) =
         (True, mem_bytes mbr 0 512 @ rest, BytesPerSector sample_geometry, h1) \<Longrightarrow>
       GetPartitionInfoIndirectEx stack rd h (BytesPerSector sample_geometry) None collect [] =
         Some (Inr (), h1, listings sample_geometry 1 sample_parts)"
    using BuildMBR_round_trip [OF sample_ok, where MBR = "\<lambda>_. 0" and 'h = unit] by blast
  from this(1) this(2) [of "\<lambda>h off n. (True, mem_bytes mbr off n, int n, h)" "()" "[]" "()" "\<lambda>_. 0"]
  show ?thesis by (intro exI [of _ mbr]) (simp add: B)
qed


lemma sample_listed:
  "\<exists>mbr. GetPartitionInfoIndirectEx (\<lambda>_. 0) (\<lambda>h off n. (True, mem_bytes mbr off n, int n, h)) () 512 None
     collect [] = Some (Inr (), (), listings sample_geometry 1 sample_parts)"
proof -
  have B: "BytesPerSector sample_geometry = 512" by (simp add: sample_geometry_def)
  obtain mbr where "\<And>(rd :: unit read_proc) h h1 rest stack.
       rd h 0 (nat (BytesPerSector sample_geometry)) =
         (True, mem_bytes mbr 0 512 @ rest, BytesPerSector sample_geometry, h1) \<Longrightarrow>
       GetPartitionInfoIndirectEx stack rd h (BytesPerSector sample_geometry) None collect [] =
         Some (Inr (), h1, listings sample_geometry 1 sample_parts)"
    using BuildMBR_listed [OF sample_ok, where MBR = "\<lambda>_. 0" and 'h = unit] by blast
  from this [of "\<lambda>h off n. (True, mem_bytes mbr off n, int n, h)" "()" "[]" "()" "\<lambda>_. 0"]
  show ?thesis by (intro exI [of _ mbr]) (simp add: B)
qed

section \<open>The callers of the enumeration\<close>

text \<open>
  C16. Looking a partition up by its number agrees with the enumeration: on any disk and
  through any read procedure, the call for number \<open>n\<close> returns the \<open>n\<close>-th partition that a
  complete enumeration of the same disk reports, and fails with \<open>ERROR_NOT_FOUND\<close> when there
  are fewer.\<close>

theorem single_is_nth:
  assumes "GetPartitionInfoIndirectEx stack rd h ss off collect [] = Some (Inr (), h', ps)"
    and "1 \<le> n" "n < 2147483648" "length ps < 2147483648"
  shows "\<exists>h2. GetSinglePartitionInfoIndirect stack rd h ss off p0 n =
    Some (if n \<le> int (length ps) then Inr (ps ! nat (n - 1)) else Inl ERROR_NOT_FOUND, h2)"
proof -
  note c = search_collect(3,4) [OF assms(1), where proc = GotPartInfoForSingle and
    u = "\<lparr>pd_array = [p0], pd_next = 0, pd_count = n\<rparr>"]
  have "u32 n = n" using assms by (simp add: u32_id)
  moreover note feed_single [OF search_collect(2) [OF assms(1)], of n p0]
  ultimately show ?thesis using c assms
    by (auto simp: GetSinglePartitionInfoIndirect_def split: if_splits)
qed

theorem single_is_nth_witness:
  "\<exists>mbr h2 h3. GetSinglePartitionInfoIndirect (\<lambda>_. 0) (\<lambda>h off n. (True, mem_bytes mbr off n, int n, h)) () 512
       None no_partition 2 = Some (Inr (listing sample_geometry 2 (sample_parts ! 1)), h2) \<and>
     GetSinglePartitionInfoIndirect (\<lambda>_. 0) (\<lambda>h off n. (True, mem_bytes mbr off n, int n, h)) () 512
       None no_partition 3 = Some (Inl ERROR_NOT_FOUND, h3)"
proof -
  obtain mbr where m: "GetPartitionInfoIndirectEx (\<lambda>_. 0) (\<lambda>h off n. (True, mem_bytes mbr off n, int n, h))
      () 512 None collect [] = Some (Inr (), (), listings sample_geometry 1 sample_parts)"
    using sample_listed by blast
  show ?thesis
    using single_is_nth [OF m, of 2 no_partition] single_is_nth [OF m, of 3 no_partition]
    by (intro exI [of _ mbr]) (simp add: sample_parts_def)
qed

text \<open>
  The array variant stores the partitions in the order of the enumeration, followed by
  zeroes; but with eight partitions or more it returns \<open>FALSE\<close> with \<open>ERROR_CANCELLED\<close> although
  the array holds the first eight, because the callback refuses as soon as the array is full.\<close>

lemma array_of_eight:
  assumes "GetPartitionInfoIndirectEx stack rd h ss off collect [] = Some (Inr (), h', ps)"
  shows "\<exists>h2. GetPartitionInfoIndirect stack rd h ss off =
    Some (if length ps < 8 then Inr () else Inl ERROR_CANCELLED, h2,
          take 8 (ps @ replicate (8 - length ps) no_partition))"
proof -
  note c = search_collect(3,4) [OF assms, where proc = GotPartInfoForArray and
    u = "\<lparr>pd_array = replicate 8 no_partition, pd_next = 0, pd_count = 8\<rparr>"]
  note f = feed_array [of "replicate 8 no_partition" 0 ps]
  show ?thesis using c f
    by (auto simp: GetPartitionInfoIndirect_def split: if_splits)
qed

lemma array_of_eight_witness:
  "\<exists>mbr h2. GetPartitionInfoIndirect (\<lambda>_. 0) (\<lambda>h off n. (True, mem_bytes mbr off n, int n, h)) () 512 None =
     Some (Inr (), h2, listings sample_geometry 1 sample_parts @ replicate 6 no_partition)"
proof -
  obtain mbr where m: "GetPartitionInfoIndirectEx (\<lambda>_. 0) (\<lambda>h off n. (True, mem_bytes mbr off n, int n, h))
      () 512 None collect [] = Some (Inr (), (), listings sample_geometry 1 sample_parts)"
    using sample_listed by blast
  show ?thesis using array_of_eight [OF m] by (intro exI [of _ mbr]) (simp add: sample_parts_def)
qed

text \<open>
  Asked for partition number 0, the single-partition call takes its own counter for the
  mark of success: when the disk cannot be read it returns \<open>TRUE\<close> with the caller's structure
  as it was.\<close>

lemma partition_zero_hides_errors:
  assumes "rd h (case off of None \<Rightarrow> 0 | Some o1 \<Rightarrow> o1) (nat (if ss = 0 then 512 else ss)) =
    (False, data, count, h1)"
  shows "GetSinglePartitionInfoIndirect stack rd h ss off p0 0 = Some (Inr p0, h1)"
  using assms by (simp add: GetSinglePartitionInfoIndirect_def GetPartitionInfoIndirectEx_def Let_def u32_def)


lemma partition_zero_hides_errors_witness:
  "GetSinglePartitionInfoIndirect (\<lambda>_. 0) (\<lambda>h off n. (False, [], 0, h)) () 512 None no_partition 0 =
     Some (Inr no_partition, ())"
  by (rule partition_zero_hides_errors [of "\<lambda>h off n. (False, [], 0, h)" "()" None 512 "[]" 0 "()"]) simp

end
