(* ===== verification/Drv_Files.thy ===== *)
theory Drv_Files
  imports Drv_Parts
begin

text \<open>
  File names, partition names and image files of the control library (\<open>cpl/drvio.c\<close>): the
  name of a partition type, the offset known for a file name extension, the conversion of
  native paths, copying a device to an image file and adjusting that file's size; and how
  \<open>cli/fscryptdisk.c\<close> finds the offset and size of a new device in an image.
\<close>

section \<open>Names\<close>

definition hex_digit :: "int \<Rightarrow> char" where
  "hex_digit d = (if d < 10 then char_of (nat (48 + d)) else char_of (nat (55 + d)))"

text \<open>The partition constants of \<open>winioctl.h\<close> appear by value.\<close>

definition partition_type_name :: "int \<Rightarrow> string" where
  "partition_type_name t =
     (let m = t AND 0x6F in
      if m = 0x00 then ''Unused''
      else if m = 0x05 \<or> m = 0x0F then ''Extended''
      else if m = 0x01 then ''FAT12''
      else if m = 0x04 \<or> m = 0x06 \<or> m = 0x0E then ''FAT16''
      else if m = 0x0B \<or> m = 0x0C then ''FAT32''
      else if m = 0x0A then ''OS/2 Boot Manager''
      else if m = 0x02 \<or> m = 0x03 then ''Xenix''
      else if m = 0x07 then ''NTFS or HPFS''
      else if m = 0x41 then ''PReP''
      else if m = 0x42 then ''LDM''
      else if m = 0x63 then ''Unix''
      else if t = 0xA5 then ''BSD''
      else ''Type '' @ [hex_digit (t div 16), hex_digit (t mod 16)] @ ''h'')"

text \<open>The string in the caller's buffer of \<open>NameSize\<close> characters; \<open>None\<close> is a copy without bound
  (the subtraction wraps at size 0).\<close>

definition GetPartitionTypeName :: "int \<Rightarrow> nat \<Rightarrow> string option" where
  "GetPartitionTypeName PartType NameSize =
     (if NameSize = 0 then None else Some (take (NameSize - 1) (partition_type_name PartType)))"

text \<open>\<open>wcsrchr\<close>: the rest of the string from the last occurrence on.\<close>

fun wcsrchr :: "string \<Rightarrow> char \<Rightarrow> string option" where
  "wcsrchr [] c = None"
| "wcsrchr (x # xs) c =
     (case wcsrchr xs c of Some r \<Rightarrow> Some r | None \<Rightarrow> if x = c then Some (x # xs) else None)"

definition KnownFormats :: "(string \<times> int) list" where
  "KnownFormats = [(''nrg'', push_bit 9 600), (''sdi'', push_bit 9 8)]"

fun known_offset :: "string \<Rightarrow> (string \<times> int) list \<Rightarrow> int option" where
  "known_offset ext [] = None"
| "known_offset ext ((e, off) # fs) = (if stricmp ext e then Some off else known_offset ext fs)"

definition GetOffsetByFileExt :: "string \<Rightarrow> int option" where
  "GetOffsetByFileExt ImageFile =
     (let f = (case wcsrchr ImageFile (CHR ''/'') of Some r \<Rightarrow> tl r | None \<Rightarrow> ImageFile);
          f = (case wcsrchr f (CHR 0x5C) of Some r \<Rightarrow> tl r | None \<Rightarrow> f)
      in case wcsrchr f (CHR ''.'') of
           None \<Rightarrow> None
         | Some r \<Rightarrow> known_offset (tl r) KnownFormats)"

text \<open>The path is changed in place and its start moves: the buffer and the position. \<open>bsl\<close> is the
  backslash.\<close>

abbreviation bsl :: char where "bsl \<equiv> CHR 0x5C"

definition NativePathToWin32 :: "string \<Rightarrow> nat \<Rightarrow> string \<times> nat" where
  "NativePathToWin32 buf pos =
     (let finish = (\<lambda>buf pos.
        if 4 < length (drop pos buf) \<and> 5 < length (drop pos buf) \<and> drop pos buf ! 5 = CHR '':''
        then (buf, pos + 4)
        else if take 8 (drop pos buf) = [bsl, bsl, CHR ''?'', bsl, CHR ''U'', CHR ''N'', CHR ''C'', bsl]
        then (buf[pos + 6 := bsl], pos + 6)
        else (buf, pos))
      in
      if take 4 (drop pos buf) = [bsl, CHR ''?'', CHR ''?'', bsl]
      then finish (buf[pos + 1 := bsl]) pos
      else if take 12 (drop pos buf) = bsl # ''DosDevices'' @ [bsl]
      then finish (buf[pos + 8 := bsl, pos + 9 := bsl, pos + 11 := CHR ''?'']) (pos + 8)
      else (buf, pos))"

section \<open>Saving a device to an image file\<close>

text \<open>The calls on the two handles and on the cancel flag, with their state: reading the device
  and writing the file at their current positions (\<open>None\<close> is a failed call).\<close>

record 's save_ops =
  so_volume_size :: "'s \<Rightarrow> int option \<times> 's"
  so_allow_dasd :: "'s \<Rightarrow> 's"
  so_alloc :: "int \<Rightarrow> bool"
  so_cancelled :: "'s \<Rightarrow> bool \<times> 's"
  so_read :: "'s \<Rightarrow> int \<Rightarrow> byte list option \<times> 's"
  so_write :: "'s \<Rightarrow> byte list \<Rightarrow> int option \<times> 's"
  so_clear_modified :: "'s \<Rightarrow> 's"

datatype save_error = SaveCancelled | SaveSystem

partial_function (option) save_loop ::
    "'s save_ops \<Rightarrow> bool \<Rightarrow> int \<Rightarrow> int \<Rightarrow> int \<Rightarrow> 's \<Rightarrow> ((save_error + unit) \<times> 's) option" where
  "save_loop os has_flag disk_size saved_size BufferSize s =
     (case (if has_flag then so_cancelled os s else (False, s)) of (cancel, s) \<Rightarrow>
      if cancel then Some (Inl SaveCancelled, s) else
      (let BufferSize =
             (if disk_size - saved_size < BufferSize then u32 (disk_size - saved_size) else BufferSize)
       in case so_read os s BufferSize of
            (None, s) \<Rightarrow> Some (Inl SaveSystem, s)
          | (Some data, s) \<Rightarrow>
              if data = [] then Some (Inr (), s) else
              (case so_write os s data of
                 (None, s) \<Rightarrow> Some (Inl SaveSystem, s)
               | (Some n, s) \<Rightarrow>
                   if n \<noteq> int (length data) then Some (Inl SaveSystem, s)
                   else save_loop os has_flag disk_size (s64 (saved_size + n)) BufferSize s)))"

definition SaveImageFile ::
    "'s save_ops \<Rightarrow> bool \<Rightarrow> int \<Rightarrow> 's \<Rightarrow> ((save_error + unit) \<times> 's) option" where
  "SaveImageFile os has_flag BufferSize s =
     (case so_volume_size os s of
        (None, s) \<Rightarrow> Some (Inl SaveSystem, s)
      | (Some disk_size, s) \<Rightarrow>
          if disk_size = 0 then Some (Inr (), s) else
          let BufferSize = (if BufferSize = 0 then push_bit 19 1 else BufferSize);
              s = so_allow_dasd os s
          in
          if \<not> so_alloc os BufferSize then Some (Inl SaveSystem, s)
          else case save_loop os has_flag disk_size 0 BufferSize s of
                 None \<Rightarrow> None
               | Some (Inl err, s) \<Rightarrow> Some (Inl err, s)
               | Some (Inr _, s) \<Rightarrow> Some (Inr (), so_clear_modified os s))"

text \<open>The device control calls behind \<open>GetVolumeSize\<close>: the partition length, or the geometry.\<close>

record 's volume_ops =
  vo_update :: "'s \<Rightarrow> 's"
  vo_partition_length :: "'s \<Rightarrow> int option \<times> 's"
  vo_geometry :: "'s \<Rightarrow> disk_geometry option \<times> 's"

definition GetVolumeSize :: "'s volume_ops \<Rightarrow> 's \<Rightarrow> int option \<times> 's" where
  "GetVolumeSize os s =
     (let s = vo_update os s in
      case vo_partition_length os s of
        (Some n, s) \<Rightarrow> (Some n, s)
      | (None, s) \<Rightarrow>
          (case vo_geometry os s of
             (Some g, s) \<Rightarrow>
               (Some (s64 (Cylinders g * TracksPerCylinder g * SectorsPerTrack g * BytesPerSector g)), s)
           | (None, s) \<Rightarrow> (None, s)))"

record 's size_ops =
  zo_size :: "'s \<Rightarrow> int option"
  zo_seek :: "'s \<Rightarrow> int \<Rightarrow> bool \<times> 's"
  zo_set_end :: "'s \<Rightarrow> bool \<times> 's"

datatype size_error = DiskOperationFailed | SizeSystem

definition AdjustImageFileSize :: "'s size_ops \<Rightarrow> int \<Rightarrow> 's \<Rightarrow> (size_error + unit) \<times> 's" where
  "AdjustImageFileSize os FileSize s =
     (case zo_size os s of
        None \<Rightarrow> (Inl SizeSystem, s)
      | Some existing_size \<Rightarrow>
          if existing_size < u64 FileSize then (Inl DiskOperationFailed, s)
          else case zo_seek os s FileSize of (ok, s) \<Rightarrow>
            if \<not> ok then (Inl SizeSystem, s)
            else case zo_set_end os s of (ok, s) \<Rightarrow>
              (if ok then Inr () else Inl SizeSystem, s))"

section \<open>Where a new device starts in its image\<close>

text \<open>The creation branch of the command line tool: the offset for the extension when it was
  asked for, then the chosen partition, or the first one. \<open>Inl\<close> are the exit codes; the size is
  \<open>None\<close> when the geometry given on the command line stands.\<close>

datatype cli_exit = CLI_SYNTAX | CLI_PARTITION_NOT_FOUND

definition locate_image ::
    "(int \<Rightarrow> byte) \<Rightarrow> 'h file_ops \<Rightarrow> 'h \<Rightarrow> string option \<Rightarrow> bool \<Rightarrow> int \<Rightarrow> int \<Rightarrow> int \<Rightarrow> partition_information \<Rightarrow>
     ((cli_exit + int \<times> int option) \<times> 'h) option" where
  "locate_image stack os h file_name auto_find_offset auto_entry sector_size image_offset p0 =
     (if auto_find_offset \<and> file_name = None then Some (Inl CLI_SYNTAX, h) else
      let name = (case file_name of None \<Rightarrow> [] | Some f \<Rightarrow> f);
          image_offset =
            (if auto_find_offset
             then (case GetOffsetByFileExt name of Some off \<Rightarrow> off | None \<Rightarrow> image_offset)
             else image_offset)
      in
      if auto_entry \<noteq> 0
      then case GetSinglePartitionInformation stack os name h sector_size (Some image_offset) p0 auto_entry of
             None \<Rightarrow> None
           | Some (Inl err, h) \<Rightarrow> Some (Inl CLI_PARTITION_NOT_FOUND, h)
           | Some (Inr p, h) \<Rightarrow>
               if PartitionLength p = 0 then Some (Inl CLI_PARTITION_NOT_FOUND, h)
               else Some (Inr (s64 (image_offset + StartingOffset p), Some (PartitionLength p)), h)
      else if auto_find_offset
      then case GetSinglePartitionInformation stack os name h sector_size (Some image_offset) p0 1 of
             None \<Rightarrow> None
           | Some (Inl err, h) \<Rightarrow> Some (Inr (image_offset, None), h)
           | Some (Inr p, h) \<Rightarrow>
               if PartitionLength p \<noteq> 0
               then Some (Inr (s64 (image_offset + StartingOffset p), Some (PartitionLength p)), h)
               else Some (Inr (image_offset, None), h)
      else Some (Inr (image_offset, None), h))"

end
