(* ===== verification/Drv_Files_Props.thy ===== *)
theory Drv_Files_Props
  imports Drv_Files
begin

text \<open>
  What the file operations of the control library do: native paths, copying a device, and the
  offset computed for a partition inside an extended partition.
\<close>

section \<open>Native paths\<close>

definition win32_path :: "string \<Rightarrow> string" where
  "win32_path p = (case NativePathToWin32 p 0 of (buf, pos) \<Rightarrow> drop pos buf)"

text \<open>
  Native paths become Win32 paths: \<open>\??\X:...\<close> and \<open>\DosDevices\X:...\<close> lose their prefix and
  \<open>\??\UNC\server\...\<close> becomes \<open>\\server\...\<close>. For \<open>\DosDevices\UNC\...\<close> the code writes the
  question mark one character too far, so that the path ends up as \<open>\\s?UNC\...\<close>, which names
  nothing.\<close>

lemma native_paths:
  "win32_path ([bsl, CHR ''?'', CHR ''?'', bsl, x, CHR '':''] @ rest) = [x, CHR '':''] @ rest \<and>
   win32_path ((bsl # ''DosDevices'' @ [bsl]) @ [x, CHR '':''] @ rest) = [x, CHR '':''] @ rest \<and>
   win32_path ([bsl, CHR ''?'', CHR ''?'', bsl] @ ''UNC'' @ [bsl] @ rest) = [bsl, bsl] @ rest \<and>
   win32_path ((bsl # ''DosDevices'' @ [bsl]) @ ''UNC'' @ [bsl] @ rest) =
     [bsl, bsl] @ ''s?UNC'' @ [bsl] @ rest"
  by (simp_all add: win32_path_def NativePathToWin32_def Let_def)

section \<open>Saving an image\<close>

lemma save_loop_copies:
  fixes f :: "int \<Rightarrow> byte" and dpos :: "'s \<Rightarrow> int" and saved :: "'s \<Rightarrow> byte list"
  assumes read: "\<And>s n. 0 \<le> dpos s \<Longrightarrow> dpos s \<le> N \<Longrightarrow> 0 \<le> n \<Longrightarrow>
      \<exists>k s'. so_read os s n = (Some (mem_bytes f (dpos s) k), s') \<and> int k \<le> n \<and>
        dpos s' = dpos s + int k \<and> dpos s' \<le> N \<and> saved s' = saved s \<and>
        (0 < n \<and> dpos s < N \<longrightarrow> 0 < k)"
    and wr: "\<And>s bs. \<exists>s'. so_write os s bs = (Some (int (length bs)), s') \<and>
        dpos s' = dpos s \<and> saved s' = saved s @ bs"
    and cancel: "\<And>s. flag \<Longrightarrow> \<exists>s'. so_cancelled os s = (False, s') \<and> dpos s' = dpos s \<and> saved s' = saved s"
    and N: "N < 9223372036854775808"
    and st: "0 \<le> dpos s" "dpos s \<le> N" "0 < B \<or> dpos s = N" "0 \<le> B" "B < 4294967296"
  shows "\<exists>s'. save_loop os flag N (dpos s) B s = Some (Inr (), s') \<and>
    saved s' = saved s @ mem_bytes f (dpos s) (nat (N - dpos s))"
  using st
proof (induction "nat (N - dpos s)" arbitrary: s B rule: less_induct)
  case less
  obtain s1 where s1: "(if flag then so_cancelled os s else (False, s)) = (False, s1)"
    "dpos s1 = dpos s" "saved s1 = saved s" using cancel by (cases flag) auto
  define n where "n = (if N - dpos s < B then u32 (N - dpos s) else B)"
  have B: "n = (if N - dpos s < B then N - dpos s else B)" "0 \<le> n" "0 \<le> dpos s1" "dpos s1 \<le> N"
    using less.prems s1 by (auto simp: n_def u32_id)
  obtain k s2 where r: "so_read os s1 n = (Some (mem_bytes f (dpos s) k), s2)" "int k \<le> n"
    "dpos s2 = dpos s + int k" "dpos s2 \<le> N" "saved s2 = saved s"
    "0 < n \<and> dpos s < N \<longrightarrow> 0 < k"
    using read [OF B(3,4,2)] unfolding s1(2,3) by blast
  have unf: "save_loop os flag N (dpos s) B s =
     (if mem_bytes f (dpos s) k = [] then Some (Inr (), s2) else
      (case so_write os s2 (mem_bytes f (dpos s) k) of
         (None, s) \<Rightarrow> Some (Inl SaveSystem, s)
       | (Some m, s3) \<Rightarrow> if m \<noteq> int (length (mem_bytes f (dpos s) k)) then Some (Inl SaveSystem, s3)
           else save_loop os flag N (s64 (dpos s + m)) n s3))"
    by (subst save_loop.simps) (simp add: s1 r(1) Let_def flip: n_def)
  show ?case
  proof (cases "dpos s = N")
    case True
    with r have "k = 0" by simp
    with True r(5) unf show ?thesis by simp
  next
    case False
    then have k: "0 < k" using r(6) B(1) less.prems by auto
    obtain s3 where w: "so_write os s2 (mem_bytes f (dpos s) k) = (Some (int k), s3)"
      "dpos s3 = dpos s2" "saved s3 = saved s2 @ mem_bytes f (dpos s) k"
      using wr [of s2 "mem_bytes f (dpos s) k"] by auto
    have u: "s64 (dpos s + int k) = dpos s3" using r w less.prems N by (simp add: s64_id)
    have step: "save_loop os flag N (dpos s) B s = save_loop os flag N (dpos s3) n s3"
      using r k w u by (simp add: unf flip: length_0_conv)
    have "\<exists>s'. save_loop os flag N (dpos s3) n s3 = Some (Inr (), s') \<and>
        saved s' = saved s3 @ mem_bytes f (dpos s3) (nat (N - dpos s3))"
      using r w k less.prems B False by (intro less.hyps) auto
    then obtain s' where s': "save_loop os flag N (dpos s3) n s3 = Some (Inr (), s')"
      "saved s' = saved s3 @ mem_bytes f (dpos s3) (nat (N - dpos s3))" by blast
    have "nat (N - dpos s) = k + nat (N - dpos s3)" using r w by simp
    then have "saved s' = saved s @ mem_bytes f (dpos s) (nat (N - dpos s))"
      using s'(2) w r mem_bytes_append [of f "dpos s" k "nat (N - dpos s3)"] by simp
    with step s'(1) show ?thesis by simp
  qed
qed


definition sample_save :: "(int \<times> byte list) save_ops" where
  "sample_save =
     \<lparr>so_volume_size = (\<lambda>s. (Some 2000, s)), so_allow_dasd = (\<lambda>s. s), so_alloc = (\<lambda>_. True),
      so_cancelled = (\<lambda>s. (False, s)),
      so_read = (\<lambda>(p, out) n. let k = nat (min n (min 512 (2000 - p))) in
        (Some (mem_bytes word_of_int p k), (p + int k, out))),
      so_write = (\<lambda>(p, out) bs. (Some (int (length bs)), (p, out @ bs))),
      so_clear_modified = (\<lambda>s. s)\<rparr>"



section \<open>Partitions inside an image with a header\<close>

text \<open>A table inside bytes that were read from \<open>f\<close> is the table of \<open>f\<close>.\<close>

lemma read_at: "a \<le> j \<Longrightarrow> j < a + int n \<Longrightarrow> mem_write s a (mem_bytes f off n) j = f (j - a + off)"
  by (simp add: mem_write_def add.commute)

lemma mem_bytes_read:
  "a \<le> t \<Longrightarrow> t + int m \<le> a + int n \<Longrightarrow>
     mem_bytes (mem_write s a (mem_bytes f off n)) t m = mem_bytes f (t - a + off) m"
  by (rule nth_equalityI) (auto simp: read_at algebra_simps)

lemma pt_entry_read:
  "a \<le> t \<Longrightarrow> t + 64 \<le> a + int n \<Longrightarrow> i < 4 \<Longrightarrow>
     pt_entry (mem_write s a (mem_bytes f off n)) t i = pt_entry f (t - a + off) i"
  unfolding pt_entry_def by (subst mem_bytes_read) (auto simp: algebra_simps)

lemma pt_valid_read:
  "a \<le> t \<Longrightarrow> t + 66 \<le> a + int n \<Longrightarrow>
     pt_valid (mem_write s a (mem_bytes f off n)) t = pt_valid f (t - a + off)"
  unfolding pt_valid_def by (simp add: pt_entry_read mem_bytes_read algebra_simps)

text \<open>
  A logical partition of an image with a header is not where the tool mounts it. When the
  boot record at the header's end \<open>O\<close> starts with an extended partition whose first record at
  absolute position \<open>E\<close> describes a partition \<open>b\<close> sectors further, the enumeration reports the
  absolute position, header included, and the tool adds the header again: the device starts \<open>O\<close>
  bytes behind the partition.\<close>

lemma logical_offset_counted_twice:
  fixes f :: "int \<Rightarrow> byte" and os :: "'h file_ops"
  assumes E_def: "E = O1 + 512 * pe_start (pt_entry f (O1 + 446) 0)"
    and e_def: "e = pt_entry f (E + 446) 0"
    and files: "fo_open os h name = (True, h0)"
      "ReadFileHandle os h0 O1 512 = (True, mem_bytes f O1 512, 512, h1)"
      "ReadFileHandle os h1 E 512 = (True, mem_bytes f E 512, 512, h2)"
    and mbr: "pt_valid f (O1 + 446)" "IsContainerPartition (pe_type (pt_entry f (O1 + 446) 0))"
    and ebr: "pt_valid f (E + 446)" "pe_type e \<noteq> 0" "\<not> IsContainerPartition (pe_type e)"
    and bounds: "0 \<le> O1" "O1 < 2305843009213693952" "pe_sectors e \<noteq> 0"
  shows "locate_image stack os h (Some name) False 1 512 O1 p0 =
    Some (Inr (O1 + (E + 512 * pe_start e), Some (512 * pe_sectors e)), fo_close os h2)"
proof -
  have le: "0 \<le> pe_start x \<and> pe_start x < 4294967296" "0 \<le> pe_sectors x \<and> pe_sectors x < 4294967296" for x
    using le_of_range [of "take 4 (drop 8 x)"] le_of_range [of "take 4 (drop 12 x)"]
      power_increasing [of "length (take 4 (drop 8 x))" 4 "256::int"]
      power_increasing [of "length (take 4 (drop 12 x))" 4 "256::int"]
    by (auto simp: pe_start_def pe_sectors_def)
  define a where "a = pe_start (pt_entry f (O1 + 446) 0)"
  have a: "0 \<le> a" "a < 4294967296" using le by (auto simp: a_def)
  have E: "E = O1 + 512 * a" "s64 (O1 + s64 (512 * a)) = E" "0 \<le> E" "E < 2305845208236949504"
    using a bounds by (auto simp: E_def a_def [symmetric] s64_id)
  let ?data = "\<lparr>pd_array = [p0], pd_next = 0, pd_count = 1\<rparr>"
  let ?buf = "mem_write stack 0 (mem_bytes f O1 512)"
  let ?buf2 = "mem_write ?buf 512 (mem_bytes f E 512)"
  let ?st = "\<lparr>en_buffer = ?buf, en_count = 0, en_handle = h1, en_user = ?data\<rparr>"
  let ?p = "pe_info 512 E 1 e"
  have v: "pt_valid ?buf 446" using mbr(1) pt_valid_read [of 0 446 512] by (simp add: add.commute)
  have e0: "pt_entry ?buf 446 0 = pt_entry f (O1 + 446) 0"
    using pt_entry_read [of 0 446 512 0] by (simp add: add.commute)
  have v2: "pt_valid ?buf2 958" using ebr(1) pt_valid_read [of 512 958 512] by (simp add: add.commute)
  have e2: "pt_entry ?buf2 958 0 = e"
    using pt_entry_read [of 512 958 512 0] by (simp add: e_def add.commute)
  have num: "PartitionNumber ?p = 1" by (simp add: pe_info_def u32_def)
  have "ebr_entries GotPartInfoForSingle 512 E E (pt_entries ?buf2 958) 0 ?data =
      (Refused, 1, \<lparr>pd_array = [?p], pd_next = 0, pd_count = 0\<rparr>)"
    using ebr(2,3) num e2 by (simp add: pt_entries_def GotPartInfoForSingle_def)
  then have loop: "ebr_loop (ReadFileHandle os) GotPartInfoForSingle 512 E E ?st =
      Some (Inl ERROR_CANCELLED, \<lparr>en_buffer = ?buf2, en_count = 1, en_handle = h2,
        en_user = \<lparr>pd_array = [?p], pd_next = 0, pd_count = 0\<rparr>\<rparr>)"
    using files(3) v2 by (subst ebr_loop.simps) (simp add: Let_def)
  have scan: "mbr_entries (ReadFileHandle os) GotPartInfoForSingle 512 O1 [0, 1, 2, 3] ?st =
      Some (Inl ERROR_CANCELLED, \<lparr>en_buffer = ?buf2, en_count = 1, en_handle = h2,
        en_user = \<lparr>pd_array = [?p], pd_next = 0, pd_count = 0\<rparr>\<rparr>)"
    using mbr(2) e0 loop E(2) by (simp add: Let_def flip: a_def)
  have single: "GetSinglePartitionInformation stack os name h 512 (Some O1) p0 1 = Some (Inr ?p, fo_close os h2)"
    using files(1,2) v scan
    by (simp add: GetSinglePartitionInformation_def GetSinglePartitionInfoIndirect_def
        GetPartitionInfoIndirectEx_def Let_def u32_def del: mbr_entries.simps)
  have "s64 (E + 512 * pe_start e) = E + 512 * pe_start e" "s64 (512 * pe_sectors e) = 512 * pe_sectors e"
    "s64 (O1 + (E + 512 * pe_start e)) = O1 + (E + 512 * pe_start e)"
    using E(3,4) le [of e] bounds by (auto simp: s64_id)
  with single bounds(3) show ?thesis
    by (simp add: locate_image_def pe_info_def)
qed


text \<open>The image of the witness: a header of 4096 bytes (an \<open>sdi\<close> file), an extended partition at
  sector 1, whose record describes a partition of 8 sectors, 2 sectors further.\<close>

definition header_image :: "int \<Rightarrow> byte" where
  "header_image i =
     (if i \<in> {4096 + 510, 4608 + 510} then 0x55 else if i \<in> {4096 + 511, 4608 + 511} then 0xAA
      else if i = 4096 + 450 then 5 else if i = 4096 + 454 then 1
      else if i = 4608 + 450 then 6 else if i = 4608 + 454 then 2 else if i = 4608 + 458 then 8
      else 0)"

definition header_os :: "int file_ops" where
  "header_os = \<lparr>fo_open = (\<lambda>h f. (True, 0)), fo_seek = (\<lambda>h p. (True, p)),
     fo_read = (\<lambda>h n. (True, mem_bytes header_image h n, int n, h)), fo_close = (\<lambda>h. h)\<rparr>"

lemma header_image_bytes:
  "mem_bytes header_image 4606 2 = [0x55, 0xAA]" "mem_bytes header_image 5118 2 = [0x55, 0xAA]"
  "mem_bytes header_image 4550 4 = [1, 0, 0, 0]" "mem_bytes header_image 5062 4 = [2, 0, 0, 0]"
  "mem_bytes header_image 5066 4 = [8, 0, 0, 0]"
  by (simp_all add: mem_bytes_def upt_conv_Cons header_image_def)

lemma logical_offset_counted_twice_witness:
  "locate_image (\<lambda>_. 0) header_os 0 (Some ''a.sdi'') False 1 512 4096 no_partition =
     Some (Inr (9728, Some 4096), 4608)"
proof -
  let ?e = "pt_entry header_image 5054 0"
  have e: "pe_start ?e = 2" "pe_sectors ?e = 8" "pe_type ?e = 6" "pe_start (pt_entry header_image 4542 0) = 1"
    "pe_type (pt_entry header_image 4542 0) = 5"
    by (simp_all add: pe_start_def pe_sectors_def pe_type_def pt_entry_def drop_mem_bytes take_mem_bytes
        header_image_bytes) (simp_all add: header_image_def)
  have v: "pt_valid header_image 4542" "pt_valid header_image 5054"
    by (simp_all add: pt_valid_def header_image_bytes pe_zero_def pt_entry_def header_image_def)
  show ?thesis
    using logical_offset_counted_twice [where f = header_image and ?O1.0 = 4096 and E = 4608 and e = ?e and
        os = header_os and h = 0 and name = "''a.sdi''" and ?h0.0 = 0 and ?h1.0 = 4096 and ?h2.0 = 4608 and
        stack = "\<lambda>_. 0" and ?p0.0 = no_partition]
    by (simp add: e v header_os_def ReadFileHandle_def IsContainerPartition_def)
qed

end
