(* ===== verification/Drv_Registry.thy ===== *)
theory Drv_Registry
  imports FD_Prelude
begin

text \<open>
  The settings of devices that are created at boot: the control library writes them under the
  driver's \<open>Parameters\<close> key (\<open>cpl/drvio.c\<close>). A key is a map from value names to typed data; the
  outcomes of the system's calls (opening the key, formatting a name, storing a value) are in the
  record \<open>reg_env\<close>.
\<close>

section \<open>Keys and names\<close>

type_synonym wchar = "16 word"

datatype reg_type = REG_SZ | REG_BINARY | REG_DWORD | REG_QWORD | REG_OTHER

type_synonym reg_key = "string \<Rightarrow> (reg_type \<times> byte list) option"

fun dec :: "nat \<Rightarrow> string" where
  "dec n = (if n < 10 then [char_of (48 + n)] else dec (n div 10) @ [char_of (48 + n mod 10)])"

declare dec.simps [simp del]

definition FSCRYPTDISK_AUTO_DEVICE_NUMBER :: int where "FSCRYPTDISK_AUTO_DEVICE_NUMBER = 4294967295"

definition CFG_LOAD_DEVICES :: string where "CFG_LOAD_DEVICES = ''LoadDevices''"
definition CFG_MAX_DEVICES :: string where "CFG_MAX_DEVICES = ''MaxDevices''"
definition CFG_DISALLOWED :: string where "CFG_DISALLOWED = ''DisallowedDriveLetters''"

definition file_name_value :: "int \<Rightarrow> string" where "file_name_value n = ''FileName'' @ dec (nat n)"
definition size_value :: "int \<Rightarrow> string" where "size_value n = ''Size'' @ dec (nat n)"
definition flags_value :: "int \<Rightarrow> string" where "flags_value n = ''Flags'' @ dec (nat n)"
definition letter_value :: "int \<Rightarrow> string" where "letter_value n = ''DriveLetter'' @ dec (nat n)"
definition offset_value :: "int \<Rightarrow> string" where "offset_value n = ''ImageOffset'' @ dec (nat n)"

text \<open>Wide characters in memory.\<close>

definition wbytes :: "wchar list \<Rightarrow> byte list" where
  "wbytes ws = concat (map (\<lambda>w. to_le 2 (uint w)) ws)"

section \<open>Creation data\<close>

text \<open>The total size is in the geometry's \<open>Cylinders\<close>; \<open>FileName\<close> is the buffer that holds the
  name, \<open>FileNameLength\<close> its length in bytes.\<close>

record create_data =
  DeviceNumber :: int
  Cylinders :: int
  ImageOffset :: int
  Flags :: int
  DriveLetter :: wchar
  FileNameLength :: int
  FileName :: "wchar list"

section \<open>Saving\<close>

record reg_env =
  open_key :: int
  format_name :: "string \<Rightarrow> bool"
  format_file_name :: bool
  set_value :: "string \<Rightarrow> int"

datatype reg_error = RegError int | FormatFailed

text \<open>A value read into a zeroed \<open>DWORD\<close>: \<open>ERROR_FILE_NOT_FOUND\<close> (2), \<open>ERROR_MORE_DATA\<close> (234), or the
  number. The type is not looked at.\<close>

definition query_dword :: "reg_key \<Rightarrow> string \<Rightarrow> int + int" where
  "query_dword key name =
     (case key name of None \<Rightarrow> Inl 2 | Some (ty, d) \<Rightarrow> if length d \<le> 4 then Inr (le_of d) else Inl 234)"

text \<open>The name that is stored: \<open>%.*ws\<close> takes at most so many characters and stops at a NUL.\<close>

definition stored_name :: "create_data \<Rightarrow> wchar list" where
  "stored_name cd = takeWhile (\<lambda>c. c \<noteq> 0) (take (nat (FileNameLength cd div 2)) (FileName cd))"

text \<open>The stanzas of one device: the value's name, and its data unless it is deleted.\<close>

definition settings :: "create_data \<Rightarrow> (string \<times> (reg_type \<times> byte list) option) list" where
  "settings cd =
     [(file_name_value (DeviceNumber cd),
       if 0 < FileNameLength cd then Some (REG_SZ, wbytes (stored_name cd @ [0])) else None),
      (size_value (DeviceNumber cd),
       if 0 < Cylinders cd then Some (REG_QWORD, to_le 8 (u64 (Cylinders cd))) else None),
      (flags_value (DeviceNumber cd),
       if Flags cd \<noteq> 0 then Some (REG_DWORD, to_le 4 (Flags cd)) else None),
      (letter_value (DeviceNumber cd),
       if DriveLetter cd \<noteq> 0 then Some (REG_SZ, wbytes [DriveLetter cd, 0]) else None),
      (offset_value (DeviceNumber cd),
       if 0 < ImageOffset cd then Some (REG_QWORD, to_le 8 (u64 (ImageOffset cd))) else None)]"

fun save_values ::
    "reg_env \<Rightarrow> bool \<Rightarrow> (string \<times> (reg_type \<times> byte list) option) list \<Rightarrow> reg_key \<Rightarrow> (reg_error + unit) \<times> reg_key" where
  "save_values env format_data [] key = (Inr (), key)"
| "save_values env format_data ((name, v) # rest) key =
     (if \<not> format_name env name then (Inl FormatFailed, key)
      else case v of
        None \<Rightarrow> save_values env True rest (key(name := None))
      | Some data \<Rightarrow>
          if \<not> format_data then (Inl FormatFailed, key)
          else if set_value env name \<noteq> 0 then (Inl (RegError (set_value env name)), key)
          else save_values env True rest (key(name \<mapsto> data)))"

text \<open>The number of devices to load, and the device's number when it is chosen here.\<close>

definition next_load :: "int + int \<Rightarrow> int \<Rightarrow> int \<times> int" where
  "next_load load number =
     (case load of
        Inr n \<Rightarrow>
          if number = FSCRYPTDISK_AUTO_DEVICE_NUMBER then (n, u32 (n + 1))
          else (number, max n (u32 (number + 1)))
      | Inl e \<Rightarrow>
          if number = FSCRYPTDISK_AUTO_DEVICE_NUMBER then (0, 1) else (number, u32 (number + 1)))"

definition SaveRegistrySettings ::
    "reg_env \<Rightarrow> create_data \<Rightarrow> reg_key \<Rightarrow> (reg_error + unit) \<times> create_data \<times> reg_key" where
  "SaveRegistrySettings env cd key =
     (if open_key env \<noteq> 0 then (Inl (RegError (open_key env)), cd, key)
      else case next_load (query_dword key CFG_LOAD_DEVICES) (DeviceNumber cd) of (number, load) \<Rightarrow>
      let cd = cd\<lparr>DeviceNumber := number\<rparr> in
      if set_value env CFG_LOAD_DEVICES \<noteq> 0 then (Inl (RegError (set_value env CFG_LOAD_DEVICES)), cd, key)
      else case save_values env (format_file_name env) (settings cd)
                  (key(CFG_LOAD_DEVICES \<mapsto> (REG_DWORD, to_le 4 load))) of
        (res, key) \<Rightarrow> (res, cd, key))"

section \<open>Removing, and the number of devices\<close>

fun delete_values :: "reg_env \<Rightarrow> string list \<Rightarrow> reg_key \<Rightarrow> (reg_error + unit) \<times> reg_key" where
  "delete_values env [] key = (Inr (), key)"
| "delete_values env (name # rest) key =
     (if \<not> format_name env name then (Inl FormatFailed, key)
      else delete_values env rest (key(name := None)))"

definition setting_names :: "int \<Rightarrow> string list" where
  "setting_names n = [file_name_value n, size_value n, flags_value n, letter_value n, offset_value n]"

definition RemoveRegistrySettings :: "reg_env \<Rightarrow> int \<Rightarrow> reg_key \<Rightarrow> (reg_error + unit) \<times> reg_key" where
  "RemoveRegistrySettings env number key =
     (if open_key env \<noteq> 0 then (Inl (RegError (open_key env)), key)
      else case query_dword key CFG_LOAD_DEVICES of
        Inl e \<Rightarrow> (Inl (RegError e), key)
      | Inr load \<Rightarrow>
          if load = u32 (number + 1)
          then (if set_value env CFG_LOAD_DEVICES \<noteq> 0
                then (Inl (RegError (set_value env CFG_LOAD_DEVICES)), key)
                else delete_values env (setting_names number)
                       (key(CFG_LOAD_DEVICES \<mapsto> (REG_DWORD, to_le 4 (u32 (load - 1))))))
          else delete_values env (setting_names number) key)"

definition GetRegistryAutoLoadDevices :: "reg_env \<Rightarrow> reg_key \<Rightarrow> reg_error + int" where
  "GetRegistryAutoLoadDevices env key =
     (if open_key env \<noteq> 0 then Inl (RegError (open_key env))
      else case query_dword key CFG_LOAD_DEVICES of Inl e \<Rightarrow> Inl (RegError e) | Inr n \<Rightarrow> Inr n)"

end
