(* ===== verification/Sys_Common.thy ===== *)
theory Sys_Common
  imports FD_Prelude
begin

text \<open>
  The kernel driver's transfer routines (\<open>sys/commonio.cpp\<close>) and its buffer helpers
  (\<open>sys/fscryptdsksys.h\<close>): reading a file up to a length with smaller and smaller requests, and
  reading or writing a stream until a buffer is transferred. The calls into other drivers are
  arguments; what a call stored in memory is a byte list, whose length is the \<open>Information\<close> the
  call reports. \<open>None\<close> is a routine that does not return.
\<close>

section \<open>Buffers\<close>

text \<open>The test for an all-zero buffer. The word-wise variant needs an aligned buffer and length;
  the byte-wise one looks at the byte \<open>behind\<close> the buffer as well.\<close>

definition IsBufferZero :: "bool \<Rightarrow> byte \<Rightarrow> byte list \<Rightarrow> bool" where
  "IsBufferZero aligned behind buf =
     (if aligned \<and> length buf mod 4 = 0 then buf = replicate (length buf) 0
      else length (takeWhile (\<lambda>b. b = 0) (buf @ [behind])) = length buf)"

fun ByteSwapBuffer :: "byte list \<Rightarrow> byte list" where
  "ByteSwapBuffer (a # b # rest) = b # a # ByteSwapBuffer rest"
| "ByteSwapBuffer rest = rest"

text \<open>The call swaps the first \<open>n\<close> bytes of a buffer in pairs; with an odd \<open>n\<close> it reaches one byte
  further. A byte behind the whole buffer is not modelled: there the last byte stays.\<close>

definition swap_first :: "nat \<Rightarrow> byte list \<Rightarrow> byte list" where
  "swap_first n buf = ByteSwapBuffer (take (n + n mod 2) buf) @ drop (n + n mod 2) buf"

section \<open>Reading a file\<close>

record 'f file_reader =
  pool_alloc :: "nat \<Rightarrow> bool"
  zw_read :: "'f \<Rightarrow> int \<Rightarrow> nat \<Rightarrow> ntstatus \<times> byte list \<times> 'f"

definition too_large :: "ntstatus \<Rightarrow> bool" where
  "too_large status \<longleftrightarrow> status = STATUS_INSUFFICIENT_RESOURCES \<or>
     status = STATUS_INVALID_BUFFER_SIZE \<or> status = STATUS_INVALID_PARAMETER"

text \<open>One transfer: \<open>None\<close> when the intermediate buffer cannot be allocated; otherwise the status,
  the bytes, and the request length that was used.\<close>

function read_piece :: "'f file_reader \<Rightarrow> bool \<Rightarrow> int \<Rightarrow> nat \<Rightarrow> 'f \<Rightarrow> (ntstatus \<times> byte list \<times> nat) option \<times> 'f" where
  "read_piece os have_buffer off request_length f =
     (if \<not> have_buffer \<and> \<not> pool_alloc os request_length then (None, f)
      else case zw_read os f off request_length of (status, data, f) \<Rightarrow>
      if too_large status \<and> 2048 \<le> request_length
      then read_piece os False off (request_length div 4) f
      else (Some (status, data, request_length), f))"
  by pat_completeness auto
termination
  by (relation "measure (\<lambda>(os, have, off, n, f). n)") auto

declare read_piece.simps [simp del]

text \<open>The loop; \<open>got\<close> are the bytes in the caller's buffer. The result is the status, the
  \<open>Information\<close> and the buffer's new bytes.\<close>

function read_pieces :: "'f file_reader \<Rightarrow> nat \<Rightarrow> int \<Rightarrow> bool \<Rightarrow> nat \<Rightarrow> byte list \<Rightarrow> 'f \<Rightarrow>
    ntstatus \<times> nat \<times> byte list \<times> 'f" where
  "read_pieces os Length Offset have_buffer request_length got f =
     (if Length \<le> length got then (STATUS_SUCCESS, length got, got, f)
      else
      let request_length = min (Length - length got) request_length in
      case read_piece os have_buffer (s64 (Offset + int (length got))) request_length f of
        (None, f) \<Rightarrow> (STATUS_INSUFFICIENT_RESOURCES, 0, got, f)
      | (Some (status, data, request_length), f) \<Rightarrow>
          if \<not> NT_SUCCESS status then (status, length got, got, f)
          else if data = [] then (STATUS_CONNECTION_RESET, length got, got, f)
          else read_pieces os Length Offset True request_length (got @ data) f)"
  by pat_completeness auto
termination
  by (relation "measure (\<lambda>(os, n, off, have, r, got, f). n - length got)") (auto simp flip: length_greater_0_conv)

declare read_pieces.simps [simp del]

definition SafeReadFile :: "'f file_reader \<Rightarrow> nat \<Rightarrow> int \<Rightarrow> 'f \<Rightarrow> ntstatus \<times> nat \<times> byte list \<times> 'f" where
  "SafeReadFile os Length Offset f =
     read_pieces os Length Offset False (if 8388608 < Length then 8388608 else Length) [] f"

section \<open>Streams\<close>

text \<open>How a request to another driver ends: it cannot be built, the driver refuses it at once, or
  it completes with a status.\<close>

datatype irp_end = No_irp | Failed_now ntstatus | Ended ntstatus

record 's stream_ops =
  io_read :: "'s \<Rightarrow> nat \<Rightarrow> irp_end \<times> byte list \<times> 's"
  io_write :: "'s \<Rightarrow> byte list \<Rightarrow> irp_end \<times> nat \<times> 's"
  io_cancelled :: "'s \<Rightarrow> bool"
  io_alloc :: "nat \<Rightarrow> bool"

text \<open>The inner loop: a request that completes as too large is sent again with half the length.\<close>

partial_function (option) io_attempt ::
    "('s \<Rightarrow> nat \<Rightarrow> irp_end \<times> 'd \<times> 's) \<Rightarrow> nat \<Rightarrow> 's \<Rightarrow> (irp_end \<times> 'd \<times> 's) option" where
  "io_attempt call n s =
     (case call s n of (e, d, s') \<Rightarrow>
      if e = Ended STATUS_INVALID_BUFFER_SIZE \<or> e = Ended STATUS_INVALID_PARAMETER
      then io_attempt call (n div 2) s'
      else Some (e, d, s'))"

text \<open>The two directions of \<open>SafeIOStream\<close>: status, \<open>Information\<close>, the bytes received, the stream.\<close>

partial_function (option) stream_read ::
    "'s stream_ops \<Rightarrow> nat \<Rightarrow> byte list \<Rightarrow> 's \<Rightarrow> (ntstatus \<times> nat \<times> byte list \<times> 's) option" where
  "stream_read os Length got s =
     (if Length \<le> length got then Some (STATUS_SUCCESS, length got, got, s)
      else Option.bind (io_attempt (io_read os) (Length - length got) s) (\<lambda>(e, data, s).
        case e of
          No_irp \<Rightarrow> Some (STATUS_INSUFFICIENT_RESOURCES, length got, got, s)
        | Failed_now status \<Rightarrow> Some (status, 0, got @ data, s)
        | Ended status \<Rightarrow>
            if \<not> NT_SUCCESS status then Some (status, 0, got @ data, s)
            else if data = [] then Some (STATUS_CONNECTION_RESET, 0, got, s)
            else stream_read os Length (got @ data) s))"

partial_function (option) stream_write ::
    "'s stream_ops \<Rightarrow> byte list \<Rightarrow> nat \<Rightarrow> 's \<Rightarrow> (ntstatus \<times> nat \<times> 's) option" where
  "stream_write os Buffer length_done s =
     (if length Buffer \<le> length_done then Some (STATUS_SUCCESS, length_done, s)
      else Option.bind (io_attempt (\<lambda>s n. io_write os s (take n (drop length_done Buffer)))
                          (length Buffer - length_done) s) (\<lambda>(e, n, s).
        case e of
          No_irp \<Rightarrow> Some (STATUS_INSUFFICIENT_RESOURCES, length_done, s)
        | Failed_now status \<Rightarrow> Some (status, 0, s)
        | Ended status \<Rightarrow>
            if \<not> NT_SUCCESS status then Some (status, 0, s)
            else if n = 0 then Some (STATUS_CONNECTION_RESET, 0, s)
            else stream_write os Buffer (length_done + n) s))"


section \<open>What the transfers do\<close>

lemma takeWhile_zero: "takeWhile (\<lambda>b. b = 0) xs = xs \<longleftrightarrow> xs = replicate (length xs) (0 :: byte)"
  by (induction xs) auto

lemma IsBufferZero_char:
  "IsBufferZero aligned behind buf \<longleftrightarrow>
     (if aligned \<and> length buf mod 4 = 0 then buf = replicate (length buf) 0
      else buf = replicate (length buf) 0 \<and> behind \<noteq> 0)"
proof (cases "aligned \<and> length buf mod 4 = 0")
  case True
  then show ?thesis by (simp add: IsBufferZero_def)
next
  case False
  have eq: "length (takeWhile (\<lambda>b. b = 0) (buf @ [behind])) = length buf \<longleftrightarrow>
      takeWhile (\<lambda>b. b = 0) buf = buf \<and> behind \<noteq> 0"
  proof (cases "\<forall>b \<in> set buf. b = 0")
    case True
    then have "takeWhile (\<lambda>b. b = 0) buf = buf" by (simp add: takeWhile_eq_all_conv)
    with True show ?thesis by (simp add: takeWhile_append2)
  next
    case False
    then have "takeWhile (\<lambda>b. b = 0) (buf @ [behind]) = takeWhile (\<lambda>b. b = 0) buf"
      by (meson takeWhile_append1)
    moreover have "takeWhile (\<lambda>b. b = 0) buf \<noteq> buf" using False by (simp add: takeWhile_eq_all_conv)
    moreover from this have "length (takeWhile (\<lambda>b. b = 0) buf) \<noteq> length buf"
      by (metis append_Nil2 append_eq_append_conv takeWhile_dropWhile_id)
    ultimately show ?thesis by simp
  qed
  show ?thesis unfolding IsBufferZero_def if_not_P [OF False] eq takeWhile_zero using False by blast
qed

lemma IsBufferZero_zeros: "IsBufferZero aligned behind buf \<Longrightarrow> buf = replicate (length buf) 0"
  by (simp add: IsBufferZero_char split: if_splits)

text \<open>
  The zero test never takes other data for zeros, but the byte-wise variant misses buffers of
  zeros: it runs over the end, and a zero byte behind the buffer makes it answer no.\<close>

lemma IsBufferZero_iff:
  "IsBufferZero aligned behind buf \<longleftrightarrow>
     (if aligned \<and> length buf mod 4 = 0 then buf = replicate (length buf) 0
      else buf = replicate (length buf) 0 \<and> behind \<noteq> 0)"
  by (rule IsBufferZero_char)

lemma ByteSwapBuffer_length [simp]: "length (ByteSwapBuffer xs) = length xs"
  by (induction xs rule: ByteSwapBuffer.induct) auto

lemma ByteSwapBuffer_twice [simp]: "ByteSwapBuffer (ByteSwapBuffer xs) = xs"
  by (induction xs rule: ByteSwapBuffer.induct) auto

lemma ByteSwapBuffer_append:
  "length xs mod 2 = 0 \<Longrightarrow> ByteSwapBuffer (xs @ ys) = ByteSwapBuffer xs @ ByteSwapBuffer ys"
  by (induction xs rule: ByteSwapBuffer.induct) (auto simp: mod_Suc split: if_splits)

text \<open>A piece of a file: with smaller and smaller requests, some bytes at the offset.\<close>

definition delivers :: "'f file_reader \<Rightarrow> (int \<Rightarrow> byte) \<Rightarrow> bool" where
  "delivers os d \<longleftrightarrow> (\<forall>n. pool_alloc os n) \<and>
     (\<forall>f off n. 0 < n \<longrightarrow> (\<exists>status bytes f'. zw_read os f off n = (status, bytes, f') \<and>
        (too_large status \<and> 2048 \<le> n \<or>
         status = STATUS_SUCCESS \<and> (\<exists>k. 0 < k \<and> k \<le> n \<and> bytes = mem_bytes d off k))))"

lemma read_piece_delivers:
  assumes "delivers os d" "0 < n"
  shows "\<exists>k m f'. read_piece os hb off n f = (Some (STATUS_SUCCESS, mem_bytes d off k, m), f') \<and>
    0 < k \<and> k \<le> m \<and> m \<le> n"
  using assms(2)
proof (induction n arbitrary: hb f rule: less_induct)
  case (less n)
  obtain status bytes f' where r: "zw_read os f off n = (status, bytes, f')"
    "too_large status \<and> 2048 \<le> n \<or>
     status = STATUS_SUCCESS \<and> (\<exists>k. 0 < k \<and> k \<le> n \<and> bytes = mem_bytes d off k)"
    using assms(1) less.prems unfolding delivers_def by metis
  have a: "pool_alloc os n" using assms(1) by (simp add: delivers_def)
  show ?case
  proof (cases "too_large status \<and> 2048 \<le> n")
    case True
    then have "read_piece os hb off n f = read_piece os False off (n div 4) f'"
      using r(1) a by (subst read_piece.simps) simp
    moreover have "n div 4 < n" "0 < n div 4" using True by auto
    ultimately show ?thesis using less.IH [of "n div 4" False f'] by fastforce
  next
    case False
    with r obtain k where "status = STATUS_SUCCESS" "0 < k" "k \<le> n" "bytes = mem_bytes d off k" by auto
    then show ?thesis using r(1) a False by (subst read_piece.simps) (auto simp: too_large_def)
  qed
qed

lemma read_pieces_delivers:
  assumes "delivers os d" "0 \<le> off" "off + int n < 9223372036854775808"
  shows "length got \<le> n \<Longrightarrow> 0 < r \<or> length got = n \<Longrightarrow> got = mem_bytes d off (length got) \<Longrightarrow>
    \<exists>f'. read_pieces os n off hb r got f = (STATUS_SUCCESS, n, mem_bytes d off n, f')"
proof (induction "n - length got" arbitrary: got hb r f rule: less_induct)
  case less
  show ?case
  proof (cases "length got = n")
    case True
    with less.prems show ?thesis by (subst read_pieces.simps) simp
  next
    case False
    let ?r = "min (n - length got) r"
    let ?off = "off + int (length got)"
    have "s64 ?off = ?off" using assms less.prems by (simp add: s64_id)
    moreover obtain k m f' where p: "read_piece os hb ?off ?r f =
        (Some (STATUS_SUCCESS, mem_bytes d ?off k, m), f')" "0 < k" "k \<le> m" "m \<le> ?r"
      using read_piece_delivers [OF assms(1), of ?r hb ?off f] less.prems False by auto
    ultimately have step: "read_pieces os n off hb r got f =
        read_pieces os n off True m (got @ mem_bytes d ?off k) f'"
      using False less.prems by (subst read_pieces.simps) (simp add: Let_def flip: length_0_conv)
    have "got @ mem_bytes d ?off k = mem_bytes d off (length (got @ mem_bytes d ?off k))"
      using less.prems(3) mem_bytes_append [of d off "length got" k] by simp
    with p False less.prems(1) have "\<exists>f2. read_pieces os n off True m (got @ mem_bytes d ?off k) f' =
        (STATUS_SUCCESS, n, mem_bytes d off n, f2)"
      by (intro less.hyps) auto
    with step show ?thesis by simp
  qed
qed

text \<open>
  C17. \<open>SafeReadFile\<close> reads the whole range: as long as a request that is refused as too large was
  at least 2048 bytes long and other requests deliver something, the call succeeds with all the
  file's bytes, in whatever pieces they come.\<close>

theorem SafeReadFile_reads:
  assumes "delivers os d" "0 \<le> off" "off + int n < 9223372036854775808"
  shows "\<exists>f'. SafeReadFile os n off f = (STATUS_SUCCESS, n, mem_bytes d off n, f')"
  unfolding SafeReadFile_def by (rule read_pieces_delivers [OF assms]) auto

definition sample_reader :: "unit file_reader" where
  "sample_reader = \<lparr>pool_alloc = (\<lambda>_. True), zw_read = (\<lambda>f off n.
     if 4096 < n then (STATUS_INVALID_PARAMETER, [], f) else (STATUS_SUCCESS, mem_bytes word_of_int off n, f))\<rparr>"

theorem SafeReadFile_reads_witness:
  "\<exists>f'. SafeReadFile sample_reader 100000 512 () = (STATUS_SUCCESS, 100000, mem_bytes word_of_int 512 100000, f')"
  by (rule SafeReadFile_reads) (auto simp: delivers_def sample_reader_def too_large_def)

text \<open>
  \<open>SafeIOStream\<close> halves a request that completes with \<open>STATUS_INVALID_PARAMETER\<close> or
  \<open>STATUS_INVALID_BUFFER_SIZE\<close> and sends it again, down to length 0 and beyond: with a device that
  keeps answering so, the driver's thread never returns.\<close>

lemma refused_stream_never_returns:
  fixes os :: "'s stream_ops"
  assumes "\<And>s n. \<exists>d s'. io_read os s n = (Ended STATUS_INVALID_PARAMETER, d, s')" "length got < n"
  shows "stream_read os n got s = None"
proof -
  define P where "P = (\<lambda>call (m :: nat) (s :: 's) (y :: irp_end \<times> byte list \<times> 's). call \<noteq> io_read os)"
  have "P (io_read os) m s y" if "io_attempt (io_read os) m s = Some y" for m s y
  proof (rule io_attempt.raw_induct [of P, OF _ that])
    fix loop call m s y
    assume IH: "\<And>call m s y. loop call m s = Some y \<Longrightarrow> P call m s y"
      and eq: "(case call s m of (e, d, s') \<Rightarrow>
        if e = Ended STATUS_INVALID_BUFFER_SIZE \<or> e = Ended STATUS_INVALID_PARAMETER
        then loop call (m div 2) s' else Some (e, d, s')) = Some y"
    show "P call m s y"
    proof (rule ccontr)
      assume "\<not> P call m s y"
      then have c: "call = io_read os" by (simp add: P_def)
      obtain d s' where "call s m = (Ended STATUS_INVALID_PARAMETER, d, s')" using assms(1) c by blast
      with eq have "loop call (m div 2) s' = Some y" by simp
      from IH [OF this] c show False by (simp add: P_def)
    qed
  qed
  then have "io_attempt (io_read os) (n - length got) s = None"
    by (cases "io_attempt (io_read os) (n - length got) s") (auto simp: P_def)
  with assms(2) show ?thesis by (subst stream_read.simps) simp
qed

lemma refused_stream_never_returns_witness:
  "stream_read \<lparr>io_read = (\<lambda>s n. (Ended STATUS_INVALID_PARAMETER, [], s)),
     io_write = (\<lambda>s bs. (No_irp, 0, s)), io_cancelled = (\<lambda>_. False), io_alloc = (\<lambda>_. True)\<rparr> 16 [] () = None"
  by (rule refused_stream_never_returns) simp_all

end
