(* ===== verification/Sys_Proxy.thy ===== *)
theory Sys_Proxy
  imports Sys_Common
begin

text \<open>
  The driver's side of the proxy protocol (\<open>sys/proxy.cpp\<close>): one request/response exchange over
  a device (a pipe or socket) or over shared memory, connecting and closing, and the requests
  for information, reading, writing and unmapping. The connected device is the stream of
  \<open>Sys_Common\<close>; in shared memory the peer's turn is one call, from the view the driver leaves to
  the view the peer leaves, or a wait that the cancel event ends.
\<close>

section \<open>The connection\<close>

datatype connection_type = PROXY_CONNECTION_DEVICE | PROXY_CONNECTION_SHM

definition PROXY_HEADER_SIZE :: nat where "PROXY_HEADER_SIZE = 4096"

record 's proxy_ops =
  px_stream :: "'s stream_ops"
  px_turn :: "'s \<Rightarrow> byte list \<Rightarrow> byte list option \<times> 's"
  px_claim :: "'s \<Rightarrow> int \<Rightarrow> ntstatus option \<times> 's"
  px_switch :: "'s \<Rightarrow> int \<Rightarrow> 's"

text \<open>The handles are only counted as open or not.\<close>

record 's proxy =
  connection_type :: connection_type
  device :: bool
  request_event_handle :: bool
  request_event :: bool
  response_event_handle :: bool
  response_event :: bool
  shared_memory :: "byte list"
  shared_memory_size :: nat
  peer :: 's

text \<open>The view after a copy of \<open>bs\<close> to position \<open>p\<close>.\<close>

definition put_at :: "nat \<Rightarrow> byte list \<Rightarrow> byte list \<Rightarrow> byte list" where
  "put_at p bs view = take p view @ bs @ drop (p + length bs) view"

section \<open>One exchange\<close>

text \<open>\<open>rsize\<close> reads \<open>*ResponseDataSize\<close> (it lies inside the response header) or is \<open>None\<close> for NULL.
  The result: status, \<open>Information\<close>, response header, response data, connection.\<close>

definition response_size :: "(byte list \<Rightarrow> nat) option \<Rightarrow> byte list \<Rightarrow> nat" where
  "response_size rsize header = (case rsize of None \<Rightarrow> 0 | Some f \<Rightarrow> f header)"

definition call_device ::
    "'s proxy_ops \<Rightarrow> 's proxy \<Rightarrow> byte list \<Rightarrow> byte list \<Rightarrow> nat \<Rightarrow> nat \<Rightarrow> (byte list \<Rightarrow> nat) option \<Rightarrow>
     (ntstatus \<times> nat \<times> byte list \<times> byte list \<times> 's proxy) option" where
  "call_device os p RequestHeader RequestData ResponseHeaderSize ResponseDataBufferSize rsize =
     (let st = px_stream os; io_buffer = RequestHeader @ RequestData in
      if RequestHeader \<noteq> [] \<and> RequestData \<noteq> [] \<and> \<not> io_alloc st (length io_buffer)
      then Some (STATUS_INSUFFICIENT_RESOURCES, 0, [], [], p)
      else if io_buffer \<noteq> [] \<and> io_cancelled st (peer p) then Some (STATUS_CANCELLED, 0, [], [], p)
      else Option.bind (if io_buffer = [] then Some (STATUS_SUCCESS, 0, peer p)
                        else stream_write st io_buffer 0 (peer p)) (\<lambda>(status, _, s).
      let p = p\<lparr>peer := s\<rparr> in
      if \<not> NT_SUCCESS status then Some (STATUS_IO_DEVICE_ERROR, 0, [], [], p)
      else if 0 < ResponseHeaderSize \<and> io_cancelled st s then Some (STATUS_CANCELLED, 0, [], [], p)
      else Option.bind (if ResponseHeaderSize = 0 then Some (STATUS_SUCCESS, 0, [], s)
                        else stream_read st ResponseHeaderSize [] s) (\<lambda>(status, _, header, s).
      let p = p\<lparr>peer := s\<rparr>; size = response_size rsize header in
      if \<not> NT_SUCCESS status then Some (STATUS_IO_DEVICE_ERROR, 0, header, [], p)
      else if ResponseDataBufferSize < size then Some (STATUS_IO_DEVICE_ERROR, 0, header, [], p)
      else if 0 < size \<and> io_cancelled st s then Some (STATUS_CANCELLED, 0, header, [], p)
      else Option.bind (if size = 0 then Some (STATUS_SUCCESS, 0, [], s)
                        else stream_read st size [] s) (\<lambda>(status, _, data, s).
      let p = p\<lparr>peer := s\<rparr> in
      if \<not> NT_SUCCESS status then Some (STATUS_IO_DEVICE_ERROR, 0, header, data, p)
      else Some (STATUS_SUCCESS, length RequestData + size, header, data, p)))))"

definition call_shm ::
    "'s proxy_ops \<Rightarrow> 's proxy \<Rightarrow> byte list \<Rightarrow> byte list \<Rightarrow> nat \<Rightarrow> nat \<Rightarrow> (byte list \<Rightarrow> nat) option \<Rightarrow>
     ntstatus \<times> nat \<times> byte list \<times> byte list \<times> 's proxy" where
  "call_shm os p RequestHeader RequestData ResponseHeaderSize ResponseDataBufferSize rsize =
     (if PROXY_HEADER_SIZE < length RequestHeader \<or> PROXY_HEADER_SIZE < ResponseHeaderSize \<or>
         shared_memory_size p < length RequestData + PROXY_HEADER_SIZE
      then (STATUS_INVALID_BUFFER_SIZE, 0, [], [], p)
      else
      let view = put_at PROXY_HEADER_SIZE RequestData (put_at 0 RequestHeader (shared_memory p)) in
      case px_turn os (peer p) view of (answer, s) \<Rightarrow>
      case answer of
        None \<Rightarrow> (STATUS_CANCELLED, 0, [], [], p\<lparr>shared_memory := view, peer := s\<rparr>)
      | Some view \<Rightarrow>
          let p = p\<lparr>shared_memory := view, peer := s\<rparr>;
              header = take ResponseHeaderSize view;
              size = response_size rsize header
          in
          if 0 < size \<and> (ResponseDataBufferSize < size \<or> shared_memory_size p < size + PROXY_HEADER_SIZE)
          then (STATUS_IO_DEVICE_ERROR, 0, header, [], p)
          else (STATUS_SUCCESS,
                if 0 < size then size else length RequestData,
                header, take size (drop PROXY_HEADER_SIZE view), p))"

definition CallProxy ::
    "'s proxy_ops \<Rightarrow> 's proxy \<Rightarrow> byte list \<Rightarrow> byte list \<Rightarrow> nat \<Rightarrow> nat \<Rightarrow> (byte list \<Rightarrow> nat) option \<Rightarrow>
     (ntstatus \<times> nat \<times> byte list \<times> byte list \<times> 's proxy) option" where
  "CallProxy os p header data hsize bufsize rsize =
     (case connection_type p of
        PROXY_CONNECTION_DEVICE \<Rightarrow> call_device os p header data hsize bufsize rsize
      | PROXY_CONNECTION_SHM \<Rightarrow> Some (call_shm os p header data hsize bufsize rsize))"

section \<open>Requests\<close>

definition REQ_INFO :: int where "REQ_INFO = 1"
definition REQ_READ :: int where "REQ_READ = 2"
definition REQ_WRITE :: int where "REQ_WRITE = 3"
definition REQ_CONNECT :: int where "REQ_CONNECT = 4"
definition REQ_CLOSE :: int where "REQ_CLOSE = 5"
definition REQ_UNMAP :: int where "REQ_UNMAP = 6"
definition REQ_ZERO :: int where "REQ_ZERO = 7"

text \<open>\<open>FILE_512_BYTE_ALIGNMENT\<close> is the largest alignment mask the driver accepts.\<close>

definition FILE_512_BYTE_ALIGNMENT :: int where "FILE_512_BYTE_ALIGNMENT = 0x1FF"

text \<open>The answer holds file size, alignment and flags. The second component is what arrived in the
  caller's structure.\<close>

definition QueryInformationProxy :: "'s proxy_ops \<Rightarrow> 's proxy \<Rightarrow> nat \<Rightarrow> (ntstatus \<times> byte list \<times> 's proxy) option" where
  "QueryInformationProxy os p ResponseLength =
     (if ResponseLength < 24 then Some (STATUS_BUFFER_OVERFLOW, [], p)
      else Option.bind (CallProxy os p (to_le 8 REQ_INFO) [] 24 0 None) (\<lambda>(status, _, header, _, p).
        if \<not> NT_SUCCESS status then Some (status, header, p)
        else if FILE_512_BYTE_ALIGNMENT < u64 (le_of (take 8 (drop 8 header)) - 1)
        then Some (STATUS_INVALID_PARAMETER, header, p)
        else Some (STATUS_SUCCESS, header, p)))"

definition max_transfer :: "'s proxy \<Rightarrow> nat \<Rightarrow> int" where
  "max_transfer p Length =
     (if connection_type p = PROXY_CONNECTION_SHM
      then u64 (int (shared_memory_size p) - int PROXY_HEADER_SIZE) else int Length)"

text \<open>The read loop; \<open>got\<close> is what the buffer received so far. The response is an error number and
  a length, of which the low 32 bits count.\<close>

partial_function (option) read_proxy_loop ::
    "'s proxy_ops \<Rightarrow> nat \<Rightarrow> int \<Rightarrow> int \<Rightarrow> byte list \<Rightarrow> 's proxy \<Rightarrow>
     (ntstatus \<times> nat \<times> byte list \<times> 's proxy) option" where
  "read_proxy_loop os Length ByteOffset max_size got p =
     (if Length \<le> length got then Some (STATUS_SUCCESS, length got, got, p)
      else
      (let length_to_do = Length - length got;
           req_length = (if int length_to_do \<le> max_size then int length_to_do else max_size)
       in Option.bind (CallProxy os p
            (to_le 8 REQ_READ @ to_le 8 (u64 (ByteOffset + int (length got))) @ to_le 8 req_length) []
            16 (nat (u32 req_length)) (Some (\<lambda>h. nat (le_of (take 4 (drop 8 h))))))
          (\<lambda>(status, _, header, data, p).
            if \<not> NT_SUCCESS status then Some (STATUS_IO_DEVICE_ERROR, length got, got, p)
            else if le_of (take 8 header) \<noteq> 0
            then Some (STATUS_IO_DEVICE_ERROR, length (got @ data), got @ data, p)
            else if le_of (drop 8 header) = 0
            then Some (STATUS_SUCCESS, length (got @ data), got @ data, p)
            else read_proxy_loop os Length ByteOffset max_size (got @ data) p)))"

definition ReadProxy ::
    "'s proxy_ops \<Rightarrow> 's proxy \<Rightarrow> nat \<Rightarrow> int \<Rightarrow> (ntstatus \<times> nat \<times> byte list \<times> 's proxy) option" where
  "ReadProxy os p Length ByteOffset =
     read_proxy_loop os Length ByteOffset (max_transfer p Length) [] p"

partial_function (option) write_proxy_loop ::
    "'s proxy_ops \<Rightarrow> byte list \<Rightarrow> int \<Rightarrow> int \<Rightarrow> nat \<Rightarrow> 's proxy \<Rightarrow> (ntstatus \<times> nat \<times> 's proxy) option" where
  "write_proxy_loop os Buffer ByteOffset max_size length_done p =
     (if length Buffer \<le> length_done then Some (STATUS_SUCCESS, length_done, p)
      else
      (let length_to_do = length Buffer - length_done;
           req_length = (if int length_to_do \<le> max_size then int length_to_do else max_size)
       in Option.bind (CallProxy os p
            (to_le 8 REQ_WRITE @ to_le 8 (u64 (ByteOffset + int length_done)) @ to_le 8 req_length)
            (take (nat (u32 req_length)) (drop length_done Buffer)) 16 0 None)
          (\<lambda>(status, _, header, _, p).
            if \<not> NT_SUCCESS status then Some (STATUS_IO_DEVICE_ERROR, length_done, p)
            else if le_of (take 8 header) \<noteq> 0 then Some (STATUS_IO_DEVICE_ERROR, length_done, p)
            else if le_of (drop 8 header) \<noteq> req_length then Some (STATUS_IO_DEVICE_ERROR, length_done, p)
            else write_proxy_loop os Buffer ByteOffset max_size (length_done + nat (u32 req_length)) p)))"

definition WriteProxy ::
    "'s proxy_ops \<Rightarrow> 's proxy \<Rightarrow> byte list \<Rightarrow> int \<Rightarrow> (ntstatus \<times> nat \<times> 's proxy) option" where
  "WriteProxy os p Buffer ByteOffset =
     write_proxy_loop os Buffer ByteOffset (max_transfer p (length Buffer)) 0 p"

text \<open>The ranges of a request to unmap or zero: start and length in bytes.\<close>

definition range_bytes :: "(int \<times> int) list \<Rightarrow> byte list" where
  "range_bytes ranges = concat (map (\<lambda>(start, len). to_le 8 start @ to_le 8 len) ranges)"

definition UnmapOrZeroProxy ::
    "'s proxy_ops \<Rightarrow> 's proxy \<Rightarrow> int \<Rightarrow> (int \<times> int) list \<Rightarrow> (ntstatus \<times> 's proxy) option" where
  "UnmapOrZeroProxy os p RequestCode Ranges =
     (let byte_size = u32 (int (length Ranges) * 16) in
      if connection_type p = PROXY_CONNECTION_SHM \<and>
         u64 (int (shared_memory_size p) - int PROXY_HEADER_SIZE) \<le> byte_size
      then Some (STATUS_BUFFER_OVERFLOW, p)
      else Option.bind (CallProxy os p (to_le 8 RequestCode @ to_le 8 byte_size)
                          (take (nat byte_size) (range_bytes Ranges)) 8 0 None)
        (\<lambda>(status, _, header, _, p).
          if \<not> NT_SUCCESS status then Some (status, p)
          else if le_of (take 8 header) \<noteq> 0 then Some (STATUS_IO_DEVICE_ERROR, p)
          else Some (STATUS_SUCCESS, p)))"

section \<open>Connecting and closing\<close>

text \<open>The outcomes of the calls that open the two events of a shared-memory connection.\<close>

record event_env =
  name_alloc :: bool
  open_request :: ntstatus
  ref_request :: ntstatus
  open_response :: ntstatus
  ref_response :: ntstatus

definition connect_shm :: "event_env \<Rightarrow> 's proxy \<Rightarrow> ntstatus \<times> 's proxy" where
  "connect_shm env p =
     (if \<not> name_alloc env then (STATUS_INSUFFICIENT_RESOURCES, p)
      else if \<not> NT_SUCCESS (open_request env) then (open_request env, p\<lparr>request_event_handle := False\<rparr>)
      else
      let p = p\<lparr>request_event_handle := True\<rparr> in
      if \<not> NT_SUCCESS (ref_request env) then (ref_request env, p\<lparr>request_event := False\<rparr>)
      else
      let p = p\<lparr>request_event := True\<rparr> in
      if \<not> NT_SUCCESS (open_response env) then (open_response env, p\<lparr>response_event_handle := False\<rparr>)
      else
      let p = p\<lparr>response_event_handle := True\<rparr> in
      if \<not> NT_SUCCESS (ref_response env) then (ref_response env, p\<lparr>response_event := False\<rparr>)
      else (STATUS_SUCCESS, p\<lparr>response_event := True\<rparr>))"

definition ConnectProxy ::
    "'s proxy_ops \<Rightarrow> event_env \<Rightarrow> 's proxy \<Rightarrow> bool \<Rightarrow> int \<Rightarrow> byte list \<Rightarrow> (ntstatus \<times> 's proxy) option" where
  "ConnectProxy os env p is_shm Flags ConnectionString =
     (if is_shm then Some (connect_shm env p)
      else Option.bind (CallProxy os p
             (to_le 8 REQ_CONNECT @ to_le 8 Flags @ to_le 8 (int (length ConnectionString)))
             ConnectionString 16 0 None) (\<lambda>(status, _, header, _, p).
        let error_code = le_of (take 8 header); object_ptr = le_of (drop 8 header) in
        if \<not> NT_SUCCESS status then Some (status, p)
        else if error_code \<noteq> 0 then Some (STATUS_CONNECTION_REFUSED, p)
        else if object_ptr \<noteq> 0
        then case px_claim os (peer p) object_ptr of (claimed, s) \<Rightarrow>
               let p = p\<lparr>peer := s\<rparr> in
               (case claimed of
                  None \<Rightarrow> Some (STATUS_INSUFFICIENT_RESOURCES, p)
                | Some status \<Rightarrow>
                    if \<not> NT_SUCCESS status then Some (status, p)
                    else Some (STATUS_SUCCESS, p\<lparr>peer := px_switch os s object_ptr\<rparr>))
        else Some (STATUS_SUCCESS, p)))"

text \<open>Closing gives up every handle. The first component is the view in which the peer of a
  complete shared-memory connection finds the close request when its event is set.\<close>

definition CloseProxy :: "'s proxy \<Rightarrow> byte list option \<times> 's proxy" where
  "CloseProxy p =
     (case connection_type p of
        PROXY_CONNECTION_DEVICE \<Rightarrow> (None, p\<lparr>device := False\<rparr>)
      | PROXY_CONNECTION_SHM \<Rightarrow>
          (if request_event p \<and> response_event p \<and> shared_memory p \<noteq> []
           then Some (put_at 0 (to_le 8 REQ_CLOSE) (shared_memory p)) else None,
           p\<lparr>request_event_handle := False, response_event_handle := False,
             request_event := False, response_event := False, shared_memory := []\<rparr>))"

end
