(* ===== verification/Sys_Proxy_Props.thy ===== *)
theory Sys_Proxy_Props
  imports Sys_Proxy Devio_Comm
begin

text \<open>
  What the driver's proxy client achieves: over a stream that delivers in any portions, a read or
  write is one request and one answer of the protocol that \<open>devio\<close> serves, so that the two ends
  together behave as a flat disk; and the cases in which the client never returns.
\<close>

lemma take_to_le: "take m (to_le (m + k) x) = to_le m x"
  by (induction m arbitrary: x) auto

section \<open>The stream the driver relies on\<close>

locale driver_stream =
  fixes os :: "'s stream_ops"
    and incoming :: "'s \<Rightarrow> byte list"
    and outgoing :: "'s \<Rightarrow> byte list"
    and ok :: "'s \<Rightarrow> bool"
  assumes read_law: "ok s \<Longrightarrow> 0 < n \<Longrightarrow> incoming s \<noteq> [] \<Longrightarrow>
      \<exists>d s'. io_read os s n = (Ended STATUS_SUCCESS, d, s') \<and> d \<noteq> [] \<and> length d \<le> n \<and>
        incoming s = d @ incoming s' \<and> outgoing s' = outgoing s \<and> ok s'"
    and write_law: "ok s \<Longrightarrow> bs \<noteq> [] \<Longrightarrow>
      \<exists>k s'. io_write os s bs = (Ended STATUS_SUCCESS, k, s') \<and> 0 < k \<and> k \<le> length bs \<and>
        incoming s' = incoming s \<and> outgoing s' = outgoing s @ take k bs \<and> ok s'"
    and undisturbed: "ok s \<Longrightarrow> \<not> io_cancelled os s" "io_alloc os n"
begin

lemma attempt_read:
  assumes "ok s" "0 < n" "incoming s \<noteq> []"
  shows "\<exists>d s'. io_attempt (io_read os) n s = Some (Ended STATUS_SUCCESS, d, s') \<and> d \<noteq> [] \<and>
    length d \<le> n \<and> incoming s = d @ incoming s' \<and> outgoing s' = outgoing s \<and> ok s'"
  using read_law [OF assms] by (subst io_attempt.simps) fastforce

lemma read_all:
  assumes "ok s" "n \<le> length (incoming s)"
  shows "\<exists>s'. stream_read os (length got + n) got s =
      Some (STATUS_SUCCESS, length got + n, got @ take n (incoming s), s') \<and> ok s' \<and>
    incoming s' = drop n (incoming s) \<and> outgoing s' = outgoing s"
  using assms
proof (induction n arbitrary: got s rule: less_induct)
  case (less n)
  show ?case
  proof (cases "n = 0")
    case True
    with less.prems show ?thesis by (subst stream_read.simps) simp
  next
    case False
    with less.prems obtain d s' where a: "io_attempt (io_read os) n s = Some (Ended STATUS_SUCCESS, d, s')"
      "d \<noteq> []" "length d \<le> n" "incoming s = d @ incoming s'" "outgoing s' = outgoing s" "ok s'"
      using attempt_read [of s n] by fastforce
    have n: "length got + n = length (got @ d) + (n - length d)" using a(3) by simp
    have "\<exists>s2. stream_read os (length (got @ d) + (n - length d)) (got @ d) s' =
        Some (STATUS_SUCCESS, length (got @ d) + (n - length d), (got @ d) @ take (n - length d) (incoming s'), s2) \<and>
      ok s2 \<and> incoming s2 = drop (n - length d) (incoming s') \<and> outgoing s2 = outgoing s'"
      using a less.prems False by (intro less.IH) auto
    then obtain s2 where "stream_read os (length got + n) (got @ d) s' =
        Some (STATUS_SUCCESS, length got + n, got @ take n (incoming s), s2)"
      "ok s2" "incoming s2 = drop n (incoming s)" "outgoing s2 = outgoing s"
      using a by (auto simp: n [symmetric])
    moreover have "stream_read os (length got + n) got s = stream_read os (length got + n) (got @ d) s'"
      using a(1,2) False by (subst stream_read.simps) simp
    ultimately show ?thesis by simp
  qed
qed

lemma write_all:
  assumes "ok s" "done \<le> length bs"
  shows "\<exists>s'. stream_write os bs done s = Some (STATUS_SUCCESS, length bs, s') \<and> ok s' \<and>
    incoming s' = incoming s \<and> outgoing s' = outgoing s @ drop done bs"
  using assms
proof (induction "length bs - done" arbitrary: "done" s rule: less_induct)
  case less
  show ?case
  proof (cases "length bs \<le> done")
    case True
    with less.prems show ?thesis by (subst stream_write.simps) simp
  next
    case False
    have "drop done bs \<noteq> []" using False by simp
    with less.prems obtain k s' where w: "io_write os s (drop done bs) = (Ended STATUS_SUCCESS, k, s')"
      "0 < k" "k \<le> length (drop done bs)" "incoming s' = incoming s"
      "outgoing s' = outgoing s @ take k (drop done bs)" "ok s'"
      using write_law [of s "drop done bs"] by blast
    have "\<exists>s2. stream_write os bs (done + k) s' = Some (STATUS_SUCCESS, length bs, s2) \<and> ok s2 \<and>
        incoming s2 = incoming s' \<and> outgoing s2 = outgoing s' @ drop (done + k) bs"
      using w False by (intro less.hyps) auto
    then obtain s2 where s2: "stream_write os bs (done + k) s' = Some (STATUS_SUCCESS, length bs, s2)"
      "ok s2" "incoming s2 = incoming s'" "outgoing s2 = outgoing s' @ drop (done + k) bs" by blast
    have "take k (drop done bs) @ drop (done + k) bs = drop done bs"
      by (metis append_take_drop_id drop_drop add.commute)
    moreover have "stream_write os bs done s = stream_write os bs (done + k) s'"
      using w(1,2) False by (subst stream_write.simps, subst io_attempt.simps) simp
    ultimately show ?thesis using s2 w by simp
  qed
qed

text \<open>One exchange over the stream.\<close>

lemma exchange:
  assumes "px_stream px = os" "ok (peer p)" "header \<noteq> []" "0 < hsize"
    and "incoming (peer p) = rhdr @ rdata @ rest" "length rhdr = hsize"
    and "response_size rsize rhdr = length rdata" "length rdata \<le> bufsize"
  shows "\<exists>s'. call_device px p header data hsize bufsize rsize =
      Some (STATUS_SUCCESS, length data + length rdata, rhdr, rdata, p\<lparr>peer := s'\<rparr>) \<and> ok s' \<and>
    incoming s' = rest \<and> outgoing s' = outgoing (peer p) @ header @ data"
proof -
  obtain s1 where s1: "stream_write os (header @ data) 0 (peer p) =
      Some (STATUS_SUCCESS, length (header @ data), s1)" "ok s1" "incoming s1 = incoming (peer p)"
    "outgoing s1 = outgoing (peer p) @ header @ data"
    using write_all [OF assms(2), of 0 "header @ data"] by auto
  obtain s2 where s2: "stream_read os hsize [] s1 = Some (STATUS_SUCCESS, hsize, rhdr, s2)" "ok s2"
    "incoming s2 = rdata @ rest" "outgoing s2 = outgoing s1"
    using read_all [OF s1(2), of hsize "[]"] s1(3) assms(5,6) by auto
  obtain s3 where s3: "stream_read os (length rdata) [] s2 =
      Some (STATUS_SUCCESS, length rdata, rdata, s3)" "ok s3" "incoming s3 = rest" "outgoing s3 = outgoing s2"
    using read_all [OF s2(2), of "length rdata" "[]"] s2(3) by auto
  show ?thesis
  proof (cases "rdata = []")
    case True
    with s1 s2 assms undisturbed show ?thesis by (auto simp: call_device_def Let_def)
  next
    case False
    with s1 s2 s3 assms undisturbed show ?thesis by (auto simp: call_device_def Let_def)
  qed
qed

text \<open>The three requests over a connected device.\<close>

lemma read_request:
  assumes "px_stream px = os" "connection_type p = PROXY_CONNECTION_DEVICE" "ok (peer p)"
    and "0 < n" "n < 4294967296" "0 \<le> off" "off < 18446744073709551616"
    and "incoming (peer p) = to_le 8 0 @ to_le 8 (int n) @ d @ rest" "length d = n"
  shows "\<exists>s'. ReadProxy px p n off = Some (STATUS_SUCCESS, n, d, p\<lparr>peer := s'\<rparr>) \<and> ok s' \<and>
    incoming s' = rest \<and> outgoing s' = outgoing (peer p) @ encode (ReqRead off n)"
proof -
  let ?hdr = "to_le 8 0 @ to_le 8 (int n)"
  let ?rs = "Some (\<lambda>h. nat (le_of (take 4 (drop 8 h))))"
  have low: "take 4 (to_le 8 (int n)) = to_le 4 (int n)"
    using take_to_le [of 4 4 "int n"] by simp
  have n32: "le_of (to_le 4 (int n)) = int n" "le_of (to_le 8 (int n)) = int n" "u32 (int n) = int n"
    using assms(5) by (simp_all add: le_of_to_le u32_id)
  have rs: "response_size ?rs ?hdr = length d" using assms(9) by (simp add: response_size_def low n32)
  obtain s' where s': "call_device px p (encode (ReqRead off n)) [] 16 n ?rs =
      Some (STATUS_SUCCESS, length d, ?hdr, d, p\<lparr>peer := s'\<rparr>)" "ok s'" "incoming s' = rest"
    "outgoing s' = outgoing (peer p) @ encode (ReqRead off n)"
    using exchange [OF assms(1,3), where header = "encode (ReqRead off n)" and
      data = "[]" and hsize = 16 and rhdr = ?hdr and rdata = d and rest = rest and rsize = ?rs and bufsize = n]
      assms(1,8,9) rs by (auto simp flip: length_greater_0_conv)
  have "u64 off = off" using assms(6,7) by (simp add: u64_id)
  moreover have "read_proxy_loop px n off (int n) d q = Some (STATUS_SUCCESS, n, d, q)" for q
    using assms(9) by (subst read_proxy_loop.simps) simp
  ultimately have "ReadProxy px p n off = Some (STATUS_SUCCESS, n, d, p\<lparr>peer := s'\<rparr>)"
    using s'(1) assms(2,4,9) n32 unfolding ReadProxy_def max_transfer_def
    by (subst read_proxy_loop.simps) (simp add: CallProxy_def Let_def REQ_READ_def le_of_to_le)
  with s' assms(9) show ?thesis by (intro exI [of _ s']) simp
qed

lemma write_request:
  assumes "px_stream px = os" "connection_type p = PROXY_CONNECTION_DEVICE" "ok (peer p)"
    and "bs \<noteq> []" "length bs < 4294967296" "0 \<le> off" "off < 18446744073709551616"
    and "incoming (peer p) = to_le 8 0 @ to_le 8 (int (length bs)) @ rest"
  shows "\<exists>s'. WriteProxy px p bs off = Some (STATUS_SUCCESS, length bs, p\<lparr>peer := s'\<rparr>) \<and> ok s' \<and>
    incoming s' = rest \<and> outgoing s' = outgoing (peer p) @ encode (ReqWrite off bs)"
proof -
  let ?n = "int (length bs)"
  let ?hdr = "to_le 8 0 @ to_le 8 ?n"
  let ?req = "to_le 8 REQ_WRITE @ to_le 8 off @ to_le 8 ?n"
  have n32: "le_of (to_le 8 ?n) = ?n" "u32 ?n = ?n"
    using assms(5) by (simp_all add: le_of_to_le u32_id)
  obtain s' where s': "call_device px p ?req bs 16 0 None =
      Some (STATUS_SUCCESS, length bs, ?hdr, [], p\<lparr>peer := s'\<rparr>)" "ok s'" "incoming s' = rest"
    "outgoing s' = outgoing (peer p) @ ?req @ bs"
    using exchange [OF assms(1,3), where header = ?req and
      data = bs and hsize = 16 and rhdr = ?hdr and rdata = "[]" and rest = rest and rsize = None and bufsize = 0]
      assms(1,8) by (auto simp: response_size_def simp flip: length_greater_0_conv)
  have "u64 off = off" using assms(6,7) by (simp add: u64_id)
  then have "WriteProxy px p bs off = Some (STATUS_SUCCESS, length bs, p\<lparr>peer := s'\<rparr>)"
    using s'(1) assms(2,4) n32
    by (simp add: WriteProxy_def max_transfer_def, subst write_proxy_loop.simps)
      (simp add: CallProxy_def Let_def le_of_to_le write_proxy_loop.simps [of _ _ _ _ "length bs"])
  with s' show ?thesis by (intro exI [of _ s']) (simp add: REQ_WRITE_def)
qed

lemma info_request:
  assumes "px_stream px = os" "connection_type p = PROXY_CONNECTION_DEVICE" "ok (peer p)"
    and "incoming (peer p) = info @ rest" "length info = 24"
    and "1 \<le> le_of (take 8 (drop 8 info))" "le_of (take 8 (drop 8 info)) \<le> 512"
  shows "\<exists>s'. QueryInformationProxy px p 24 = Some (STATUS_SUCCESS, info, p\<lparr>peer := s'\<rparr>) \<and> ok s' \<and>
    incoming s' = rest \<and> outgoing s' = outgoing (peer p) @ encode ReqInfo"
proof -
  obtain s' where s': "call_device px p (to_le 8 REQ_INFO) [] 24 0 None =
      Some (STATUS_SUCCESS, 0, info, [], p\<lparr>peer := s'\<rparr>)" "ok s'" "incoming s' = rest"
    "outgoing s' = outgoing (peer p) @ to_le 8 REQ_INFO"
    using exchange [OF assms(1,3), where header = "to_le 8 REQ_INFO" and
      data = "[]" and hsize = 24 and rhdr = info and rdata = "[]" and rest = rest and rsize = None and bufsize = 0]
      assms(1,4,5) by (auto simp: response_size_def simp flip: length_greater_0_conv)
  have "u64 (le_of (take 8 (drop 8 info)) - 1) = le_of (take 8 (drop 8 info)) - 1"
    using assms(6,7) by (simp add: u64_id)
  with s' assms show ?thesis
    by (intro exI [of _ s']) (simp add: QueryInformationProxy_def CallProxy_def REQ_INFO_def FILE_512_BYTE_ALIGNMENT_def)
qed

end


section \<open>A channel as the driver's stream\<close>

text \<open>The same channel that \<open>devio\<close> reads from: a transport error ends the request with an error.\<close>

definition chan_ops :: "chan stream_ops" where
  "chan_ops = \<lparr>io_read = (\<lambda>ch n. case posix_read ch n of (k, d, ch) \<Rightarrow>
       (Ended (if k = -1 then STATUS_IO_DEVICE_ERROR else STATUS_SUCCESS), d, ch)),
     io_write = (\<lambda>ch bs. case posix_write ch bs of (k, ch) \<Rightarrow>
       (Ended (if k = -1 then STATUS_IO_DEVICE_ERROR else STATUS_SUCCESS), nat k, ch)),
     io_cancelled = (\<lambda>_. False), io_alloc = (\<lambda>_. True)\<rparr>"

interpretation pipe: driver_stream chan_ops sock_in tx sock_ok
proof (unfold_locales, goal_cases)
  case (1 s n)
  then obtain c es where c: "rx s = Chunk c # es" "c \<noteq> []"
    by (cases "rx s") (auto simp: sock_ok_def sock_in_def)
  define s' where "s' = s\<lparr>rx := (if n < length c then Chunk (drop n c) # es else es)\<rparr>"
  have "io_read chan_ops s n = (Ended STATUS_SUCCESS, take n c, s')"
    using c by (simp add: chan_ops_def posix_read_def s'_def)
  moreover have "take n c \<noteq> []" "length (take n c) \<le> n" using c 1(2) by auto
  moreover have "sock_in s = take n c @ sock_in s'" "tx s' = tx s"
    using c by (auto simp: sock_in_def s'_def)
  moreover have "sock_ok s'" using 1(1) c by (auto simp: sock_ok_def s'_def)
  ultimately show ?case by blast
next
  case (2 s bs)
  show ?case
  proof (cases "tx_caps s")
    case Nil
    with 2 show ?thesis
      by (intro exI [of _ "length bs"] exI [of _ "s\<lparr>tx := tx s @ bs\<rparr>"])
        (auto simp: chan_ops_def posix_write_def sock_in_def sock_ok_def)
  next
    case (Cons e es)
    with 2(1) obtain k where c: "tx_caps s = Accept (Suc k) # es" by (auto simp: sock_ok_def)
    define s' where "s' = s\<lparr>tx := tx s @ take (Suc k) bs, tx_caps := es\<rparr>"
    have "io_write chan_ops s bs = (Ended STATUS_SUCCESS, min (Suc k) (length bs), s')"
      using c by (simp add: chan_ops_def posix_write_def s'_def)
    moreover have "tx s' = tx s @ take (min (Suc k) (length bs)) bs"
      by (auto simp: s'_def min_def)
    moreover have "0 < min (Suc k) (length bs)" "min (Suc k) (length bs) \<le> length bs"
      using 2(2) by simp_all
    moreover have "sock_in s' = sock_in s" "sock_ok s'"
      using 2(1) c by (auto simp: s'_def sock_in_def sock_ok_def)
    ultimately show ?thesis by blast
  qed
qed (simp_all add: chan_ops_def)

section \<open>The two ends together\<close>

text \<open>A client session: each request through its routine, with status and bytes received.\<close>

fun client_session :: "'s proxy_ops \<Rightarrow> 's proxy \<Rightarrow> request list \<Rightarrow> ((ntstatus \<times> byte list) list \<times> 's proxy) option" where
  "client_session px p [] = Some ([], p)"
| "client_session px p (r # rs) =
     Option.bind
       (case r of
          ReqRead off n \<Rightarrow> map_option (\<lambda>(status, _, data, p). ((status, data), p)) (ReadProxy px p n off)
        | ReqWrite off bs \<Rightarrow> map_option (\<lambda>(status, _, p). ((status, []), p)) (WriteProxy px p bs off)
        | _ \<Rightarrow> map_option (\<lambda>(status, info, p). ((status, info), p)) (QueryInformationProxy px p 24))
       (\<lambda>(result, p). map_option (\<lambda>(results, p). (result # results, p)) (client_session px p rs))"

text \<open>What a flat disk gives.\<close>

fun flat_session :: "byte list \<Rightarrow> int \<Rightarrow> (int \<Rightarrow> byte) \<Rightarrow> request list \<Rightarrow> (ntstatus \<times> byte list) list" where
  "flat_session info base d [] = []"
| "flat_session info base d (r # rs) =
     (STATUS_SUCCESS, case r of ReqRead off n \<Rightarrow> mem_bytes d (base + off) n | ReqWrite off bs \<Rightarrow> [] | _ \<Rightarrow> info) #
     flat_session info base (effect base d r) rs"

definition sendable :: "request \<Rightarrow> bool" where
  "sendable r \<longleftrightarrow> (\<forall>c. r \<noteq> ReqOther c)"

lemma client_flat:
  assumes "px_stream px = chan_ops" "connection_type p = PROXY_CONNECTION_DEVICE" "sock_ok (peer p)"
    and "length info = 24" "1 \<le> le_of (take 8 (drop 8 info))" "le_of (take 8 (drop 8 info)) \<le> 512"
    and "\<And>r. r \<in> set rs \<Longrightarrow> valid_req len base bufsize r \<and> sendable r"
    and "sock_in (peer p) = answers info base d rs" "0 \<le> base" "len < 9223372036854775808"
  shows "\<exists>p'. client_session px p rs = Some (flat_session info base d rs, p') \<and>
    tx (peer p') = tx (peer p) @ concat (map encode rs)"
  using assms(2,3,7,8)
proof (induction rs arbitrary: p d)
  case Nil
  then show ?case by simp
next
  case (Cons r rs)
  let ?d = "effect base d r"
  let ?rest = "answers info base ?d rs"
  have v: "valid_req len base bufsize r" "sendable r" using Cons.prems(3) by auto
  have "\<exists>s'. (case r of
          ReqRead off n \<Rightarrow> map_option (\<lambda>(status, _, data, p). ((status, data), p)) (ReadProxy px p n off)
        | ReqWrite off bs \<Rightarrow> map_option (\<lambda>(status, _, p). ((status, []), p)) (WriteProxy px p bs off)
        | _ \<Rightarrow> map_option (\<lambda>(status, info, p). ((status, info), p)) (QueryInformationProxy px p 24)) =
      Some ((STATUS_SUCCESS, case r of ReqRead off n \<Rightarrow> mem_bytes d (base + off) n
               | ReqWrite off bs \<Rightarrow> [] | _ \<Rightarrow> info), p\<lparr>peer := s'\<rparr>) \<and>
      sock_ok s' \<and> sock_in s' = ?rest \<and> tx s' = tx (peer p) @ encode r"
  proof (cases r)
    case ReqInfo
    with pipe.info_request [OF assms(1) Cons.prems(1,2), of info ?rest] Cons.prems(4) assms(4-6)
    show ?thesis by auto
  next
    case (ReqRead off n)
    have b: "0 < n" "n < 4294967296" "0 \<le> off" "off < 18446744073709551616"
      using v(1) ReqRead assms(9,10) by (auto simp: fits_def)
    from pipe.read_request [OF assms(1) Cons.prems(1,2) b, of "mem_bytes d (base + off) n" ?rest]
      Cons.prems(4) ReqRead show ?thesis by auto
  next
    case (ReqWrite off bs)
    have b: "bs \<noteq> []" "length bs < 4294967296" "0 \<le> off" "off < 18446744073709551616"
      using v(1) ReqWrite assms(9,10) by (auto simp: fits_def)
    from pipe.write_request [OF assms(1) Cons.prems(1,2) b, of ?rest] Cons.prems(4) ReqWrite
    show ?thesis by auto
  next
    case (ReqOther c)
    with v(2) show ?thesis by (simp add: sendable_def)
  qed
  then obtain s' where s': "(case r of
          ReqRead off n \<Rightarrow> map_option (\<lambda>(status, _, data, p). ((status, data), p)) (ReadProxy px p n off)
        | ReqWrite off bs \<Rightarrow> map_option (\<lambda>(status, _, p). ((status, []), p)) (WriteProxy px p bs off)
        | _ \<Rightarrow> map_option (\<lambda>(status, info, p). ((status, info), p)) (QueryInformationProxy px p 24)) =
      Some ((STATUS_SUCCESS, case r of ReqRead off n \<Rightarrow> mem_bytes d (base + off) n
               | ReqWrite off bs \<Rightarrow> [] | _ \<Rightarrow> info), p\<lparr>peer := s'\<rparr>)"
    "sock_ok s'" "sock_in s' = ?rest" "tx s' = tx (peer p) @ encode r" by blast
  from Cons.IH [of "p\<lparr>peer := s'\<rparr>" ?d] s'(2-4) Cons.prems(1,3) obtain p' where
    "client_session px (p\<lparr>peer := s'\<rparr>) rs = Some (flat_session info base ?d rs, p')"
    "tx (peer p') = tx (peer p) @ encode r @ concat (map encode rs)" by auto
  with s'(1) show ?case by simp
qed

text \<open>
  C14. The driver and the server together are a disk. Take any sequence of reads, writes and
  information requests the server can serve, and any way the two streams are cut into pieces:
  if the server receives what the driver's client sends and the client receives what the server
  sends, then the two byte streams match exactly, every request of the client succeeds with the
  bytes a flat disk would give, and the image ends as the writes leave a flat disk.\<close>

theorem driver_and_server_are_a_disk:
  assumes server: "stream_ok st" "info_flags st AND FSCRYPTDPROXY_FLAG_RO = 0"
      "sock_in (sd st) = concat (map encode rs)"
      "1 \<le> info_req_alignment st" "info_req_alignment st \<le> 512"
    and requests: "\<And>r. r \<in> set rs \<Longrightarrow>
      valid_req (disk_len (img st)) (image_offset st) (buffer_size st) r \<and> sendable r"
    and client: "px_stream px = chan_ops" "connection_type p = PROXY_CONNECTION_DEVICE" "sock_ok (peer p)"
      "sock_in (peer p) = answers (info_bytes st) (image_offset st) (disk_bytes (img st)) rs"
  shows "\<exists>st' p'. do_comm_loop st = Some (0, st') \<and>
    client_session px p rs =
      Some (flat_session (info_bytes st) (image_offset st) (disk_bytes (img st)) rs, p') \<and>
    tx (sd st') = tx (sd st) @ sock_in (peer p) \<and> tx (peer p') = tx (peer p) @ sock_in (sd st) \<and>
    disk_bytes (img st') = effects (image_offset st) (disk_bytes (img st)) rs"
proof -
  obtain st' where st': "do_comm_loop st = Some (0, st')"
    "tx (sd st') = tx (sd st) @ answers (info_bytes st) (image_offset st) (disk_bytes (img st)) rs"
    "disk_bytes (img st') = effects (image_offset st) (disk_bytes (img st)) rs"
    using do_comm_session [OF server(1,2) _ server(3)] requests by blast
  have info: "length (info_bytes st) = 24"
    "le_of (take 8 (drop 8 (info_bytes st))) = info_req_alignment st"
    using server(4,5) by (simp_all add: info_bytes_def le_of_to_le)
  have off: "0 \<le> image_offset st" "disk_len (img st) < 9223372036854775808"
    using server(1) by (simp_all add: stream_ok_def)
  obtain p' where "client_session px p rs =
      Some (flat_session (info_bytes st) (image_offset st) (disk_bytes (img st)) rs, p')"
    "tx (peer p') = tx (peer p) @ concat (map encode rs)"
    using client_flat [OF client(1-3) info(1) _ _ requests client(4) off] server(4,5) info(2) by auto
  with st' client(4) server(3) show ?thesis by auto
qed


definition session_requests :: "request list" where
  "session_requests = [ReqInfo, ReqRead 510 4, ReqWrite 600 [1, 2], ReqRead 600 2]"

definition session_server :: "unit devio" where
  "session_server = sample_server\<lparr>sd := \<lparr>rx = [Chunk (concat (map encode session_requests))], tx = [],
     tx_caps = []\<rparr>\<rparr>"

definition session_answers :: "byte list" where
  "session_answers = answers (info_bytes session_server) 0 (disk_bytes sample_vhd) session_requests"

definition session_client :: "chan proxy" where
  "session_client = \<lparr>connection_type = PROXY_CONNECTION_DEVICE, device = True, request_event_handle = False,
     request_event = False, response_event_handle = False, response_event = False, shared_memory = [],
     shared_memory_size = 0,
     peer = \<lparr>rx = [Chunk (take 7 session_answers), Chunk (drop 7 session_answers)], tx = [],
             tx_caps = [Accept 5]\<rparr>\<rparr>"

definition chan_proxy :: "chan proxy_ops" where
  "chan_proxy = \<lparr>px_stream = chan_ops, px_turn = (\<lambda>s view. (None, s)), px_claim = (\<lambda>s ptr. (None, s)),
     px_switch = (\<lambda>s ptr. s)\<rparr>"

theorem driver_and_server_are_a_disk_witness:
  "\<exists>st' p'. do_comm_loop session_server = Some (0, st') \<and>
    client_session chan_proxy session_client session_requests =
      Some (flat_session (info_bytes session_server) 0 (disk_bytes sample_vhd) session_requests, p') \<and>
    tx (sd st') = session_answers \<and> tx (peer p') = concat (map encode session_requests)"
proof -
  have f: "img session_server = sample_vhd" "image_offset session_server = 0"
    "buffer_size session_server = 512" "disk_len sample_vhd = 1024"
    "info_flags session_server AND FSCRYPTDPROXY_FLAG_RO = 0" "info_req_alignment session_server = 1"
    "sock_in (sd session_server) = concat (map encode session_requests)" "tx (sd session_server) = []"
    by (simp_all add: session_server_def sample_server_def disk_len_def sock_in_def)
  have ok: "stream_ok session_server"
    unfolding session_server_def by (rule stream_ok_sd [OF sample_server_ok])
      (simp add: sock_ok_def session_requests_def flip: length_greater_0_conv)
  have v: "valid_req (disk_len (img session_server)) (image_offset session_server)
      (buffer_size session_server) r \<and> sendable r" if "r \<in> set session_requests" for r
    using that by (auto simp: f session_requests_def fits_def sendable_def)
  have long: "7 < length session_answers"
    by (simp add: session_answers_def session_requests_def info_bytes_def)
  have c: "px_stream chan_proxy = chan_ops" "connection_type session_client = PROXY_CONNECTION_DEVICE"
    "sock_ok (peer session_client)" "sock_in (peer session_client) = session_answers" "tx (peer session_client) = []"
    using long by (auto simp: chan_proxy_def session_client_def sock_ok_def sock_in_def
        intro: exI [of _ 4])
  show ?thesis
    using driver_and_server_are_a_disk [OF ok f(5,7) _ _ v c(1-3)] c(4,5)
    by (simp add: f session_answers_def [symmetric]) blast
qed

end
