(* ===== verification/Sys_Device.thy ===== *)
theory Sys_Device
  imports Sys_Proxy
begin

text \<open>
  The virtual disk device of the kernel driver: the dispatch of reads and writes
  (\<open>sys/iodisp.cpp\<close>) with its cache of the last transfer, the worker thread's handlers
  (\<open>sys/devthrd.cpp\<close>) for the three kinds of backing (memory, image file, proxy), and the direct
  path to the image's own device (\<open>sys/lowerdev.cpp\<close>).

  The image file is the argument \<open>nt_file_ops\<close>; a proxy is the connection of \<open>Sys_Proxy\<close>. The cache
  block \<open>last_io_data\<close> is a list as long as its allocation. A request whose mapped buffer is
  \<open>None\<close> could not be mapped. \<open>None\<close> as a result is a handler that does not return.
\<close>

section \<open>State\<close>

record 'f nt_file_ops =
  nt_read :: "'f \<Rightarrow> int \<Rightarrow> nat \<Rightarrow> ntstatus \<times> byte list \<times> 'f"
  nt_write :: "'f \<Rightarrow> byte list \<Rightarrow> int \<Rightarrow> ntstatus \<times> nat \<times> 'f"
  nt_zero_data :: "'f \<Rightarrow> int \<Rightarrow> int \<Rightarrow> ntstatus \<times> 'f"
  nt_trim :: "'f \<Rightarrow> (int \<times> int) list \<Rightarrow> ntstatus \<times> 'f"
  nt_size :: "'f \<Rightarrow> ntstatus \<times> int"
  nt_set_size :: "'f \<Rightarrow> int \<Rightarrow> ntstatus \<times> 'f"

record ('f, 's) dev_ops =
  files :: "'f nt_file_ops"
  proxies :: "'s proxy_ops"
  pool :: "nat \<Rightarrow> bool"
  byte_behind :: byte
  new_memory :: "int \<Rightarrow> (int \<Rightarrow> byte) option"

record ('f, 's) device_extension =
  file_handle :: 'f
  proxy :: "'s proxy"
  image_buffer :: "int \<Rightarrow> byte"
  disk_size :: int
  image_offset :: int
  vm_disk :: bool
  awefsalloc_disk :: bool
  use_proxy :: bool
  proxy_unmap :: bool
  proxy_zero :: bool
  parallel_io :: bool
  direct_io :: bool
  byte_swap :: bool
  shared_image :: bool
  read_only :: bool
  image_modified :: bool
  use_set_zero_data :: bool
  no_file_level_trim :: bool
  terminate_thread :: bool
  media_change_count :: int
  last_io_data :: "byte list option"
  last_io_offset :: int
  last_io_length :: nat

record irp =
  ByteOffset :: int
  IoLength :: nat
  system_buffer :: "byte list option"
  Status :: ntstatus
  Information :: nat
  CurrentByteOffset :: int

datatype major = IRP_MJ_READ | IRP_MJ_WRITE

definition finish :: "irp \<Rightarrow> ntstatus \<Rightarrow> nat \<Rightarrow> irp" where
  "finish irp status info = irp\<lparr>Status := status, Information := info\<rparr>"

text \<open>The data part of a successful transfer moves the file position.\<close>

definition advance :: "irp \<Rightarrow> irp" where
  "advance irp = irp\<lparr>CurrentByteOffset := s64 (CurrentByteOffset irp + int (Information irp))\<rparr>"

section \<open>The worker thread: reading\<close>

text \<open>Both handlers begin by making room in the cache block: a block that holds less valid data
  than the request needs is freed, and the cache is marked empty. The flag says that a block is
  there.\<close>

definition claim_cache :: "('f, 's) dev_ops \<Rightarrow> nat \<Rightarrow> ('f, 's) device_extension \<Rightarrow> bool \<times> ('f, 's) device_extension" where
  "claim_cache os Len dx =
     (let dx = (if last_io_data dx \<noteq> None \<and> last_io_length dx < Len then dx\<lparr>last_io_data := None\<rparr> else dx);
          dx = dx\<lparr>last_io_offset := 0, last_io_length := 0\<rparr>;
          dx = (if last_io_data dx = None \<and> pool os Len
                then dx\<lparr>last_io_data := Some (replicate Len 0)\<rparr> else dx)
      in (last_io_data dx \<noteq> None, dx))"

definition copy_to :: "byte list \<Rightarrow> byte list \<Rightarrow> byte list" where
  "copy_to new old = new @ drop (length new) old"

definition DeviceThreadRead ::
    "('f, 's) dev_ops \<Rightarrow> irp \<Rightarrow> ('f, 's) device_extension \<Rightarrow> (irp \<times> ('f, 's) device_extension) option" where
  "DeviceThreadRead os irp dx =
     (case system_buffer irp of
        None \<Rightarrow> Some (finish irp STATUS_INSUFFICIENT_RESOURCES 0, dx)
      | Some sysbuf \<Rightarrow>
     (if vm_disk dx
      then Some (advance (finish (irp\<lparr>system_buffer :=
                   Some (copy_to (mem_bytes (image_buffer dx) (ByteOffset irp) (IoLength irp)) sysbuf)\<rparr>)
                   STATUS_SUCCESS (IoLength irp)), dx)
      else
      let offset = s64 (ByteOffset irp + image_offset dx) in
      case claim_cache os (IoLength irp) dx of (room, dx) \<Rightarrow>
      if \<not> room then Some (finish irp STATUS_INSUFFICIENT_RESOURCES 0, dx)
      else Option.bind
        (if use_proxy dx
         then Option.bind (ReadProxy (proxies os) (proxy dx) (IoLength irp) offset) (\<lambda>(status, info, data, px).
                Some (if NT_SUCCESS status then (status, info, data, dx\<lparr>proxy := px\<rparr>)
                      else (STATUS_DEVICE_DOES_NOT_EXIST, 0, data, dx\<lparr>proxy := px\<rparr>)))
         else case nt_read (files os) (file_handle dx) offset (IoLength irp) of (status, data, f) \<Rightarrow>
                Some (status, length data, data, dx\<lparr>file_handle := f\<rparr>))
        (\<lambda>(status, info, data, dx).
          if NT_SUCCESS status
          then
            let block = copy_to data (the (last_io_data dx));
                sysbuf = copy_to (take info block) sysbuf;
                sysbuf = (if byte_swap dx then swap_first info sysbuf else sysbuf)
            in Some (advance (finish (irp\<lparr>system_buffer := Some sysbuf\<rparr>) status info),
                     dx\<lparr>last_io_data := Some block, last_io_offset := ByteOffset irp, last_io_length := info\<rparr>)
          else Some (finish irp status info, dx\<lparr>last_io_data := None\<rparr>))))"

section \<open>The worker thread: writing\<close>

text \<open>\<open>write_backing\<close> sends \<open>Len\<close> bytes of the block to the image, or asks for zeros instead.\<close>

definition write_backing ::
    "('f, 's) dev_ops \<Rightarrow> byte list \<Rightarrow> nat \<Rightarrow> int \<Rightarrow> bool \<Rightarrow> ('f, 's) device_extension \<Rightarrow>
     (ntstatus \<times> nat \<times> ('f, 's) device_extension) option" where
  "write_backing os block Len offset set_zero_data dx =
     (if use_proxy dx
      then Option.bind
        (if set_zero_data \<and> proxy_zero dx
         then Option.bind (UnmapOrZeroProxy (proxies os) (proxy dx) REQ_ZERO [(offset, int Len)]) (\<lambda>(status, px).
                Some (status, if NT_SUCCESS status then Len else 0, px))
         else WriteProxy (proxies os) (proxy dx) (take Len block) offset)
        (\<lambda>(status, info, px).
          if NT_SUCCESS status then Some (status, info, dx\<lparr>proxy := px\<rparr>)
          else Some (STATUS_DEVICE_DOES_NOT_EXIST, 0, dx\<lparr>proxy := px\<rparr>))
      else
        case (if set_zero_data
              then (case nt_zero_data (files os) (file_handle dx) offset (s64 (offset + int Len)) of (status, f) \<Rightarrow>
                      (let dx = dx\<lparr>file_handle := f\<rparr> in
                       if NT_SUCCESS status then (Some status, dx)
                       else (None, dx\<lparr>use_set_zero_data := False\<rparr>)))
              else (None, dx)) of
          (Some status, dx) \<Rightarrow> Some (status, Len, dx)
        | (None, dx) \<Rightarrow>
            (case nt_write (files os) (file_handle dx) (take Len block) offset of (status, info, f) \<Rightarrow>
               Some (status, info, dx\<lparr>file_handle := f\<rparr>)))"

definition DeviceThreadWrite ::
    "('f, 's) dev_ops \<Rightarrow> irp \<Rightarrow> ('f, 's) device_extension \<Rightarrow> (irp \<times> ('f, 's) device_extension) option" where
  "DeviceThreadWrite os irp dx =
     (case system_buffer irp of
        None \<Rightarrow> Some (finish irp STATUS_INSUFFICIENT_RESOURCES 0, dx)
      | Some sysbuf \<Rightarrow>
     (let dx = dx\<lparr>image_modified := True\<rparr> in
      if vm_disk dx
      then Some (advance (finish irp STATUS_SUCCESS (IoLength irp)),
                 dx\<lparr>image_buffer := mem_write (image_buffer dx) (ByteOffset irp) (take (IoLength irp) sysbuf)\<rparr>)
      else
      let offset = s64 (ByteOffset irp + image_offset dx) in
      case claim_cache os (IoLength irp) dx of (room, dx) \<Rightarrow>
      if \<not> room then Some (finish irp STATUS_INSUFFICIENT_RESOURCES 0, dx)
      else
      let block = copy_to (take (IoLength irp) sysbuf) (the (last_io_data dx));
          set_zero_data = ((use_set_zero_data dx \<or> use_proxy dx \<and> proxy_zero dx) \<and>
                           IsBufferZero True (byte_behind os) (take (IoLength irp) block));
          block = (if \<not> set_zero_data \<and> byte_swap dx then swap_first (Information irp) block else block)
      in Option.bind (write_backing os block (IoLength irp) offset set_zero_data dx) (\<lambda>(status, info, dx).
        if NT_SUCCESS status
        then Some (advance (finish irp status info),
                   dx\<lparr>last_io_data := Some block, last_io_offset := ByteOffset irp, last_io_length := IoLength irp\<rparr>)
        else Some (finish irp status info, dx\<lparr>last_io_data := None\<rparr>))))"

text \<open>After each request: a status that says the connection is gone removes the device.\<close>

definition connection_died :: "ntstatus \<Rightarrow> bool" where
  "connection_died status \<longleftrightarrow> status \<in> {STATUS_CONNECTION_RESET, STATUS_DEVICE_REMOVED,
     STATUS_DEVICE_DOES_NOT_EXIST, STATUS_PIPE_BROKEN, STATUS_PIPE_DISCONNECTED,
     STATUS_PORT_DISCONNECTED, STATUS_REMOTE_DISCONNECT}"

definition RemoveVirtualDisk :: "('f, 's) device_extension \<Rightarrow> ('f, 's) device_extension" where
  "RemoveVirtualDisk dx = dx\<lparr>terminate_thread := True\<rparr>"

definition after_request :: "irp \<Rightarrow> ('f, 's) device_extension \<Rightarrow> irp \<times> ('f, 's) device_extension" where
  "after_request irp dx =
     (if connection_died (Status irp)
      then (finish irp STATUS_DEVICE_DOES_NOT_EXIST 0, RemoveVirtualDisk dx)
      else (irp, dx))"

definition thread_request ::
    "('f, 's) dev_ops \<Rightarrow> major \<Rightarrow> irp \<Rightarrow> ('f, 's) device_extension \<Rightarrow> (irp \<times> ('f, 's) device_extension) option" where
  "thread_request os major irp dx =
     map_option (\<lambda>(irp, dx). after_request irp dx)
       (case major of IRP_MJ_READ \<Rightarrow> DeviceThreadRead os irp dx
        | IRP_MJ_WRITE \<Rightarrow> DeviceThreadWrite os irp dx)"

section \<open>The image's own device\<close>

text \<open>A request forwarded to the image's device, and the completion routine of the buffered
  variant, which keeps the buffer as the new cache block.\<close>

definition lower_completion ::
    "major \<Rightarrow> ntstatus \<Rightarrow> nat \<Rightarrow> byte list \<Rightarrow> irp \<Rightarrow> ('f, 's) device_extension \<Rightarrow> irp \<times> ('f, 's) device_extension" where
  "lower_completion major status info buffer irp dx =
     (let irp = finish irp status info in
      if \<not> NT_SUCCESS status
      then (if connection_died status
            then (finish irp STATUS_DEVICE_DOES_NOT_EXIST 0, RemoveVirtualDisk dx) else (irp, dx))
      else
      let irp = (if major = IRP_MJ_READ
                 then irp\<lparr>system_buffer := map_option (copy_to (take info buffer)) (system_buffer irp)\<rparr>
                 else irp)
      in (irp, if shared_image dx then dx
               else dx\<lparr>last_io_data := Some buffer, last_io_offset := ByteOffset irp, last_io_length := info\<rparr>))"

definition lower_transfer ::
    "('f, 's) dev_ops \<Rightarrow> major \<Rightarrow> byte list \<Rightarrow> int \<Rightarrow> ('f, 's) device_extension \<Rightarrow>
     ntstatus \<times> nat \<times> byte list \<times> ('f, 's) device_extension" where
  "lower_transfer os major buffer offset dx =
     (case major of
        IRP_MJ_READ \<Rightarrow>
          (case nt_read (files os) (file_handle dx) offset (length buffer) of (status, data, f) \<Rightarrow>
             (status, length data, copy_to data buffer, dx\<lparr>file_handle := f\<rparr>))
      | IRP_MJ_WRITE \<Rightarrow>
          (case nt_write (files os) (file_handle dx) buffer offset of (status, info, f) \<Rightarrow>
             (status, info, buffer, dx\<lparr>file_handle := f\<rparr>)))"

definition ReadWriteLowerDevice ::
    "('f, 's) dev_ops \<Rightarrow> major \<Rightarrow> irp \<Rightarrow> ('f, 's) device_extension \<Rightarrow> irp \<times> ('f, 's) device_extension" where
  "ReadWriteLowerDevice os major irp dx =
     (let offset = s64 (ByteOffset irp + image_offset dx);
          modified = dx\<lparr>image_modified := (image_modified dx \<or> major = IRP_MJ_WRITE)\<rparr>
      in
      if direct_io dx
      then
        (case system_buffer irp of
           None \<Rightarrow> (finish irp STATUS_INSUFFICIENT_RESOURCES 0, modified)
         | Some sysbuf \<Rightarrow>
             (case lower_transfer os major (take (IoLength irp) sysbuf) offset modified of
                (status, info, buffer, dx) \<Rightarrow>
                  (finish (irp\<lparr>system_buffer := Some (copy_to buffer sysbuf)\<rparr>) status info, dx)))
      else
        (case system_buffer irp of
           None \<Rightarrow> (finish irp STATUS_INSUFFICIENT_RESOURCES 0, dx)
         | Some sysbuf \<Rightarrow>
             if \<not> pool os (IoLength irp) then (finish irp STATUS_INSUFFICIENT_RESOURCES 0, dx)
             else
             let buffer = (if major = IRP_MJ_WRITE then take (IoLength irp) sysbuf else replicate (IoLength irp) 0)
             in case lower_transfer os major buffer offset modified of
                  (status, info, buffer, dx) \<Rightarrow> lower_completion major status info buffer irp dx))"

section \<open>Dispatch of reads and writes\<close>

text \<open>A request is completed at once, handed to the image's device, or queued for the thread.\<close>

datatype ('f, 's) dispatched =
    Completed irp "('f, 's) device_extension"
  | Lower irp "('f, 's) device_extension"
  | Queued irp "('f, 's) device_extension"

definition cache_hit :: "irp \<Rightarrow> ('f, 's) device_extension \<Rightarrow> bool" where
  "cache_hit irp dx \<longleftrightarrow> last_io_offset dx \<le> ByteOffset irp \<and>
     s64 (ByteOffset irp + int (IoLength irp)) \<le> s64 (last_io_offset dx + int (last_io_length dx))"

definition read_cached :: "irp \<Rightarrow> ('f, 's) device_extension \<Rightarrow> irp" where
  "read_cached irp dx =
     (case system_buffer irp of
        None \<Rightarrow> finish irp STATUS_INSUFFICIENT_RESOURCES 0
      | Some sysbuf \<Rightarrow>
          let data = take (IoLength irp) (drop (nat (ByteOffset irp - last_io_offset dx)) (the (last_io_data dx)));
              sysbuf = copy_to data sysbuf;
              sysbuf = (if byte_swap dx then swap_first (IoLength irp) sysbuf else sysbuf)
          in advance (finish (irp\<lparr>system_buffer := Some sysbuf\<rparr>) STATUS_SUCCESS (IoLength irp)))"

definition DispatchReadWrite ::
    "('f, 's) dev_ops \<Rightarrow> bool \<Rightarrow> major \<Rightarrow> irp \<Rightarrow> ('f, 's) device_extension \<Rightarrow> ('f, 's) dispatched" where
  "DispatchReadWrite os is_ctl major irp dx =
     (let end_offset = s64 (ByteOffset irp + int (IoLength irp)) in
      if ByteOffset irp < 0 \<or> end_offset < 0 then Completed (finish irp STATUS_INVALID_PARAMETER 0) dx
      else if is_ctl then Completed (finish irp STATUS_INVALID_DEVICE_REQUEST 0) dx
      else if terminate_thread dx then Completed (finish irp STATUS_DEVICE_REMOVED 0) dx
      else if major = IRP_MJ_WRITE \<and> read_only dx then Completed (finish irp STATUS_MEDIA_WRITE_PROTECTED 0) dx
      else if disk_size dx < end_offset then Completed (finish irp STATUS_SUCCESS 0) dx
      else if IoLength irp = 0 then Completed (finish irp STATUS_SUCCESS 0) dx
      else
      let cached = (major = IRP_MJ_READ \<and> last_io_data dx \<noteq> None \<and> \<not> shared_image dx \<and> cache_hit irp dx);
          irp = (if cached then read_cached irp dx else irp)
      in
      if \<not> cached \<and> parallel_io dx
      then
        (let small = use_set_zero_data dx \<and> major = IRP_MJ_WRITE \<and> 8 < IoLength irp in
         if small \<and> system_buffer irp \<noteq> None \<and>
            IsBufferZero True (byte_behind os) (take (IoLength irp) (the (system_buffer irp)))
         then Queued irp dx
         else Lower irp dx)
      else if cached then Completed irp dx
      else Queued irp dx)"

text \<open>A request from its dispatch to its completion, when no other is under way.\<close>

definition serve ::
    "('f, 's) dev_ops \<Rightarrow> major \<Rightarrow> irp \<Rightarrow> ('f, 's) device_extension \<Rightarrow> (irp \<times> ('f, 's) device_extension) option" where
  "serve os major irp dx =
     (case DispatchReadWrite os False major irp dx of
        Completed irp dx \<Rightarrow> Some (irp, dx)
      | Lower irp dx \<Rightarrow> Some (ReadWriteLowerDevice os major irp dx)
      | Queued irp dx \<Rightarrow> thread_request os major irp dx)"

end
