(* ===== verification/Sys_Device_Props.thy ===== *)
theory Sys_Device_Props
  imports Sys_Device FD_Store
begin

text \<open>
  What the device promises. The locale \<open>backing_file\<close> is the contract of the image a device is
  backed by; under it, requests served one after the other behave as a flat disk, because the
  cache of the last transfer always agrees with the image. Independently of the image, every
  transfer stays inside its buffers.
\<close>

section \<open>The image's contract\<close>

text \<open>Transfers inside the file are complete; a request to zero a range does so or changes nothing.\<close>

locale backing_file =
  fixes fo :: "'f nt_file_ops"
    and content :: "'f \<Rightarrow> int \<Rightarrow> byte"
    and flen :: "'f \<Rightarrow> int"
    and finv :: "'f \<Rightarrow> bool"
  assumes read_in: "finv f \<Longrightarrow> fits (flen f) off n \<Longrightarrow>
      \<exists>f'. nt_read fo f off n = (STATUS_SUCCESS, mem_bytes (content f) off n, f') \<and>
           finv f' \<and> content f' = content f \<and> flen f' = flen f"
    and write_in: "finv f \<Longrightarrow> fits (flen f) off (length bs) \<Longrightarrow>
      \<exists>f'. nt_write fo f bs off = (STATUS_SUCCESS, length bs, f') \<and>
           finv f' \<and> content f' = mem_write (content f) off bs \<and> flen f' = flen f"
    and zero_in: "finv f \<Longrightarrow> fits (flen f) off n \<Longrightarrow>
      \<exists>status f'. nt_zero_data fo f off (off + int n) = (status, f') \<and> finv f' \<and> flen f' = flen f \<and>
           content f' = (if NT_SUCCESS status then mem_write (content f) off (replicate n 0) else content f)"

section \<open>The device as a store\<close>

definition request :: "int \<Rightarrow> byte list \<Rightarrow> irp" where
  "request off buf = \<lparr>ByteOffset = off, IoLength = length buf, system_buffer = Some buf,
     Status = STATUS_PENDING, Information = 0, CurrentByteOffset = 0\<rparr>"

definition device_read ::
    "('f, 's) dev_ops \<Rightarrow> ('f, 's) device_extension \<Rightarrow> byte list \<Rightarrow> int \<Rightarrow>
     (int \<times> byte list \<times> ('f, 's) device_extension) option" where
  "device_read os dx io off =
     map_option (\<lambda>(irp, dx). (if NT_SUCCESS (Status irp) then int (Information irp) else -1,
                              the (system_buffer irp), dx))
       (serve os IRP_MJ_READ (request off io) dx)"

definition device_write ::
    "('f, 's) dev_ops \<Rightarrow> ('f, 's) device_extension \<Rightarrow> byte list \<Rightarrow> int \<Rightarrow>
     (int \<times> ('f, 's) device_extension) option" where
  "device_write os dx bs off =
     map_option (\<lambda>(irp, dx). (if NT_SUCCESS (Status irp) then int (Information irp) else -1, dx))
       (serve os IRP_MJ_WRITE (request off bs) dx)"

text \<open>The bytes of the device: its memory, or its part of the image.\<close>

definition disk_bytes :: "('f \<Rightarrow> int \<Rightarrow> byte) \<Rightarrow> ('f, 's) device_extension \<Rightarrow> int \<Rightarrow> byte" where
  "disk_bytes content dx =
     (if vm_disk dx then image_buffer dx else (\<lambda>i. content (file_handle dx) (image_offset dx + i)))"

text \<open>The cache: its valid part is inside its block and, where reads use it, equal to the disk.\<close>

definition cache_coherent :: "('f \<Rightarrow> int \<Rightarrow> byte) \<Rightarrow> ('f, 's) device_extension \<Rightarrow> bool" where
  "cache_coherent content dx \<longleftrightarrow>
     (\<forall>block. last_io_data dx = Some block \<longrightarrow>
        last_io_length dx \<le> length block \<and>
        (shared_image dx \<or>
         0 \<le> last_io_offset dx \<and> last_io_offset dx + int (last_io_length dx) \<le> disk_size dx \<and>
         take (last_io_length dx) block = mem_bytes (disk_bytes content dx) (last_io_offset dx) (last_io_length dx)))"

text \<open>A device in service, backed by memory or an image file. With direct I/O in parallel no zero
  blocks are taken out and the cache is empty. \<open>plain_ok\<close>: without byte swapping.\<close>

definition device_base ::
    "('f \<Rightarrow> int \<Rightarrow> byte) \<Rightarrow> ('f \<Rightarrow> int) \<Rightarrow> ('f \<Rightarrow> bool) \<Rightarrow> ('f, 's) device_extension \<Rightarrow> bool" where
  "device_base content flen finv dx \<longleftrightarrow>
     \<not> use_proxy dx \<and> \<not> read_only dx \<and> \<not> terminate_thread dx \<and>
     0 \<le> disk_size dx \<and> disk_size dx < 2 ^ 62 \<and> cache_coherent content dx \<and>
     (if vm_disk dx then \<not> parallel_io dx \<and> last_io_data dx = None
      else finv (file_handle dx) \<and> 0 \<le> image_offset dx \<and> image_offset dx < 2 ^ 62 \<and>
           image_offset dx + disk_size dx \<le> flen (file_handle dx))"

definition device_ok ::
    "('f \<Rightarrow> int \<Rightarrow> byte) \<Rightarrow> ('f \<Rightarrow> int) \<Rightarrow> ('f \<Rightarrow> bool) \<Rightarrow> ('f, 's) device_extension \<Rightarrow> bool" where
  "device_ok content flen finv dx \<longleftrightarrow> device_base content flen finv dx \<and>
     (parallel_io dx \<and> direct_io dx \<longrightarrow> last_io_data dx = None \<and> \<not> use_set_zero_data dx)"

definition plain_ok ::
    "('f \<Rightarrow> int \<Rightarrow> byte) \<Rightarrow> ('f \<Rightarrow> int) \<Rightarrow> ('f \<Rightarrow> bool) \<Rightarrow> ('f, 's) device_extension \<Rightarrow> bool" where
  "plain_ok content flen finv dx \<longleftrightarrow> device_ok content flen finv dx \<and> \<not> byte_swap dx"

text \<open>What the worker thread and the cache hand out for the image's bytes.\<close>

definition swapped :: "('f, 's) device_extension \<Rightarrow> byte list \<Rightarrow> byte list" where
  "swapped dx data = (if byte_swap dx \<and> \<not> vm_disk dx then swap_first (length data) data else data)"

lemma copy_to_full [simp]: "length new = length old \<Longrightarrow> copy_to new old = new"
  by (simp add: copy_to_def)

lemma take_copy_to: "length new = n \<Longrightarrow> take n (copy_to new old) = new"
  by (simp add: copy_to_def)

lemma swap_first_all [simp]: "swap_first (length data) data = ByteSwapBuffer data"
  by (simp add: swap_first_def)

lemma swap_none: "swap_first 0 data = data"
  by (simp add: swap_first_def)

lemma length_copy_to [simp]: "length (copy_to new old) = max (length new) (length old)"
  by (simp add: copy_to_def)

lemma irp_simps [simp]:
  "ByteOffset (request off buf) = off" "IoLength (request off buf) = length buf"
  "system_buffer (request off buf) = Some buf" "Information (request off buf) = 0"
  by (simp_all add: request_def)

lemma finish_simps [simp]:
  "Status (finish irp st n) = st" "Information (finish irp st n) = n"
  "system_buffer (finish irp st n) = system_buffer irp" "ByteOffset (finish irp st n) = ByteOffset irp"
  "IoLength (finish irp st n) = IoLength irp"
  "Status (advance irp) = Status irp" "Information (advance irp) = Information irp"
  "system_buffer (advance irp) = system_buffer irp" "ByteOffset (advance irp) = ByteOffset irp"
  "IoLength (advance irp) = IoLength irp"
  by (simp_all add: finish_def advance_def)

lemma after_request_success [simp]: "Status irp = STATUS_SUCCESS \<Longrightarrow> after_request irp dx = (irp, dx)"
  by (simp add: after_request_def connection_died_def)

lemma claim_cache_room:
  assumes "\<And>b. last_io_data dx = Some b \<Longrightarrow> last_io_length dx \<le> length b" "pool os n"
  obtains b where "claim_cache os n dx = (True, dx\<lparr>last_io_data := Some b, last_io_offset := 0, last_io_length := 0\<rparr>)"
    "n \<le> length b"
proof (cases "\<exists>b. last_io_data dx = Some b \<and> n \<le> last_io_length dx")
  case True
  then obtain b where b: "last_io_data dx = Some b" "n \<le> last_io_length dx" by blast
  with assms(1) have "n \<le> length b" by fastforce
  moreover have "claim_cache os n dx = (True, dx\<lparr>last_io_data := Some b, last_io_offset := 0, last_io_length := 0\<rparr>)"
    using b by (simp add: claim_cache_def Let_def)
  ultimately show ?thesis using that by blast
next
  case False
  have "claim_cache os n dx =
      (True, dx\<lparr>last_io_data := Some (replicate n 0), last_io_offset := 0, last_io_length := 0\<rparr>)"
  proof (cases "last_io_data dx")
    case None
    then show ?thesis using assms(2) by (simp add: claim_cache_def Let_def)
  next
    case (Some b)
    with False have "last_io_length dx < n" by auto
    then show ?thesis using assms(2) Some by (simp add: claim_cache_def Let_def)
  qed
  then show ?thesis using that by simp
qed

text \<open>What a completed request leaves behind: the request succeeded, the caller's buffer holds the
  bytes, and the device is as before up to the cache and the image's bytes.\<close>

definition same_config :: "('f, 's) device_extension \<Rightarrow> ('f, 's) device_extension \<Rightarrow> bool" where
  "same_config dx dx' \<longleftrightarrow>
     vm_disk dx' = vm_disk dx \<and> use_proxy dx' = use_proxy dx \<and> byte_swap dx' = byte_swap dx \<and>
     read_only dx' = read_only dx \<and> terminate_thread dx' = terminate_thread dx \<and>
     disk_size dx' = disk_size dx \<and> image_offset dx' = image_offset dx \<and>
     shared_image dx' = shared_image dx \<and> parallel_io dx' = parallel_io dx \<and>
     direct_io dx' = direct_io dx \<and> (use_set_zero_data dx' \<longrightarrow> use_set_zero_data dx)"

lemma s64_sum: "0 \<le> a \<Longrightarrow> 0 \<le> b \<Longrightarrow> a < 2 ^ 62 \<Longrightarrow> b \<le> 2 ^ 62 \<Longrightarrow> s64 (a + b) = a + b"
  by (simp add: s64_id)

lemma mem_write_shift:
  "(\<lambda>i. mem_write f (base + off) bs (base + i)) = mem_write (\<lambda>i. f (base + i)) off bs"
  by (rule ext) (auto simp: mem_write_def)

lemma mem_bytes_shift: "mem_bytes (\<lambda>i. f (base + i)) off n = mem_bytes f (base + off) n"
  by (simp add: mem_bytes_def add.assoc)

text \<open>A block whose valid part is the disk's makes the cache coherent.\<close>

lemma coherent_block:
  assumes "0 \<le> off" "off + int n \<le> disk_size dx" "n \<le> length block"
    "take n block = mem_bytes (disk_bytes content dx) off n"
  shows "cache_coherent content
           (dx\<lparr>last_io_data := Some block, last_io_offset := off, last_io_length := n\<rparr>)"
  using assms by (simp add: cache_coherent_def disk_bytes_def)

lemma device_ok_base: "device_ok content flen finv dx \<Longrightarrow> device_base content flen finv dx"
  by (simp add: device_ok_def)

lemma device_ok_image:
  assumes "device_base content flen finv dx" "\<not> vm_disk dx"
  shows "\<not> use_proxy dx" "last_io_data dx = Some b \<Longrightarrow> last_io_length dx \<le> length b" "\<not> read_only dx" "\<not> terminate_thread dx"
    "0 \<le> disk_size dx" "disk_size dx < 2 ^ 62" "finv (file_handle dx)" "0 \<le> image_offset dx"
    "image_offset dx < 2 ^ 62" "image_offset dx + disk_size dx \<le> flen (file_handle dx)"
    "\<And>b. last_io_data dx = Some b \<Longrightarrow> last_io_length dx \<le> length b"
  using assms by (auto simp: device_base_def cache_coherent_def)

lemma device_base_transfer:
  assumes "device_base content flen finv dx" "same_config dx dx'" "cache_coherent content dx'"
    "vm_disk dx \<Longrightarrow> last_io_data dx' = None"
    "\<not> vm_disk dx \<Longrightarrow> finv (file_handle dx') \<and> flen (file_handle dx') = flen (file_handle dx)"
  shows "device_base content flen finv dx'"
  using assms by (auto simp: device_base_def same_config_def split: if_splits)

lemma device_ok_transfer:
  assumes "device_ok content flen finv dx" "same_config dx dx'" "cache_coherent content dx'"
    "vm_disk dx \<Longrightarrow> last_io_data dx' = None"
    "\<not> vm_disk dx \<Longrightarrow> finv (file_handle dx') \<and> flen (file_handle dx') = flen (file_handle dx)"
    "parallel_io dx \<Longrightarrow> direct_io dx \<Longrightarrow> last_io_data dx' = last_io_data dx"
  shows "device_ok content flen finv dx'"
  using assms device_base_transfer [OF device_ok_base [OF assms(1)] assms(2,3)]
  by (auto simp: device_ok_def same_config_def)

lemma same_use_set_zero_data [simp]:
  "dx\<lparr>file_handle := f, use_set_zero_data := use_set_zero_data dx\<rparr> = dx\<lparr>file_handle := f\<rparr>"
  "dx\<lparr>file_handle := file_handle dx\<rparr> = (dx :: ('f, 's) device_extension)"
  by (cases dx; simp)+

context backing_file
begin

lemma thread_read:
  assumes ok: "device_ok content flen finv dx" and fo: "files os = fo" "pool os (length io)"
    and fits: "fits (disk_size dx) off (length io)"
    and serial: "\<not> (parallel_io dx \<and> direct_io dx)"
  shows "\<exists>irp' dx'. thread_request os IRP_MJ_READ (request off io) dx = Some (irp', dx') \<and>
     Status irp' = STATUS_SUCCESS \<and> Information irp' = length io \<and>
     system_buffer irp' = Some (swapped dx (mem_bytes (disk_bytes content dx) off (length io))) \<and>
     device_ok content flen finv dx' \<and> same_config dx dx' \<and>
     disk_bytes content dx' = disk_bytes content dx"
proof (cases "vm_disk dx")
  case True
  then show ?thesis using ok
    by (simp add: thread_request_def DeviceThreadRead_def swapped_def
        disk_bytes_def same_config_def)
next
  case False
  note img = device_ok_image [OF device_ok_base [OF ok] False]
  have f: "fits (flen (file_handle dx)) (image_offset dx + off) (length io)"
    using fits img(5,8,10) by (auto simp: fits_def)
  have off: "0 \<le> off" "off + int (length io) \<le> disk_size dx" "s64 (off + image_offset dx) = image_offset dx + off"
    using fits img(5,6,8,9) by (auto simp: fits_def s64_id)
  obtain b where b: "claim_cache os (length io) dx =
      (True, dx\<lparr>last_io_data := Some b, last_io_offset := 0, last_io_length := 0\<rparr>)" "length io \<le> length b"
    using claim_cache_room [of dx os "length io"] img(11) fo(2) by metis
  from read_in [OF img(7) f] obtain f' where
    r: "nt_read fo (file_handle dx) (image_offset dx + off) (length io) =
        (STATUS_SUCCESS, mem_bytes (content (file_handle dx)) (image_offset dx + off) (length io), f')"
      "finv f'" "content f' = content (file_handle dx)" "flen f' = flen (file_handle dx)" by auto
  let ?data = "mem_bytes (content (file_handle dx)) (image_offset dx + off) (length io)"
  define dx' where "dx' = dx\<lparr>file_handle := f', last_io_data := Some (copy_to ?data b),
      last_io_offset := off, last_io_length := length io\<rparr>"
  have same: "same_config dx dx'" by (simp add: same_config_def dx'_def)
  have bytes: "disk_bytes content dx' = disk_bytes content dx"
    using False r(3) by (simp add: dx'_def disk_bytes_def)
  have data: "?data = mem_bytes (disk_bytes content dx) off (length io)"
    using False by (simp add: disk_bytes_def mem_bytes_shift)
  have coh: "cache_coherent content dx'"
    unfolding dx'_def using b(2) off data False r(3)
    by (intro coherent_block) (simp_all add: take_copy_to disk_bytes_def)
  have run: "thread_request os IRP_MJ_READ (request off io) dx =
      Some (advance (finish ((request off io)\<lparr>system_buffer := Some (swapped dx ?data)\<rparr>) STATUS_SUCCESS (length io)), dx')"
    using img(1) False b r(1) fo(1) off(3)
    by (simp add: thread_request_def DeviceThreadRead_def Let_def swapped_def
        take_copy_to dx'_def)
  show ?thesis
    using run data bytes same device_ok_transfer [OF ok same coh] False serial r(2,4)
    by (simp add: dx'_def)
qed

lemma write_backing_image:
  assumes f: "fits (flen (file_handle dx)) off (length bs)" "finv (file_handle dx)"
    and os: "files os = fo" "\<not> use_proxy dx"
    and block: "take n block = bs" "n = length bs"
    and zero: "set_zero_data \<Longrightarrow> bs = replicate n 0"
    and off: "off + int n < 2 ^ 63"
  shows "\<exists>f' z. write_backing os block n off set_zero_data dx =
      Some (STATUS_SUCCESS, n, dx\<lparr>file_handle := f', use_set_zero_data := z\<rparr>) \<and>
     (z \<longrightarrow> use_set_zero_data dx) \<and> finv f' \<and> flen f' = flen (file_handle dx) \<and>
     content f' = mem_write (content (file_handle dx)) off bs"
proof -
  let ?f = "file_handle dx"
  obtain f1 z1 where w: "(if set_zero_data
       then (case nt_zero_data (files os) ?f off (s64 (off + int n)) of (status, f) \<Rightarrow>
              (let dx = dx\<lparr>file_handle := f\<rparr> in
               if NT_SUCCESS status then (Some status, dx) else (None, dx\<lparr>use_set_zero_data := False\<rparr>)))
       else (None, dx)) =
      (if z1 then Some STATUS_SUCCESS else None,
       dx\<lparr>file_handle := f1, use_set_zero_data := (use_set_zero_data dx \<and> (z1 \<or> \<not> set_zero_data))\<rparr>)"
      "finv f1" "flen f1 = flen ?f"
      "content f1 = (if z1 then mem_write (content ?f) off bs else content ?f)"
  proof (cases set_zero_data)
    case True
    from f(1) have f': "fits (flen ?f) off n" by (simp add: block(2))
    have s: "s64 (off + int n) = off + int n" using f(1) off block(2) by (simp add: fits_def s64_id)
    from zero_in [OF f(2) f'] obtain status f' where z:
      "nt_zero_data fo ?f off (off + int n) = (status, f')" "finv f'" "flen f' = flen ?f"
      "content f' = (if NT_SUCCESS status then mem_write (content ?f) off (replicate n 0) else content ?f)"
      by blast
    show ?thesis
    proof (cases "NT_SUCCESS status")
      case True
      then show ?thesis using z s zero \<open>set_zero_data\<close> os(1)
        by (intro that [of True f']) (simp_all add: NT_SUCCESS_def Let_def)
    next
      case False
      then show ?thesis using z s \<open>set_zero_data\<close> os(1)
        by (intro that [of False f']) (simp_all add: Let_def)
    qed
  next
    case False
    then show ?thesis using f(2) by (intro that [of False ?f]) simp_all
  qed
  show ?thesis
  proof (cases z1)
    case False
    from f(1) w(2,3) have "fits (flen f1) off (length bs)" by simp
    from write_in [OF w(2) this] obtain f2 where
      "nt_write fo f1 bs off = (STATUS_SUCCESS, length bs, f2)" "finv f2"
      "content f2 = mem_write (content f1) off bs" "flen f2 = flen f1" by blast
    then show ?thesis unfolding write_backing_def w(1) using w(3,4) False os block
      by (intro exI [of _ f2] exI [of _ "use_set_zero_data dx \<and> \<not> set_zero_data"]) simp
  next
    case True
    then show ?thesis unfolding write_backing_def w(1) using w(2-4) os
      by (intro exI [of _ f1] exI [of _ "use_set_zero_data dx"]) simp
  qed
qed

lemma thread_write_base:
  assumes ok: "device_base content flen finv dx" and os: "files os = fo" "pool os (length bs)"
    and fits: "fits (disk_size dx) off (length bs)"
  shows "\<exists>irp' dx'. thread_request os IRP_MJ_WRITE (request off bs) dx = Some (irp', dx') \<and>
     Status irp' = STATUS_SUCCESS \<and> Information irp' = length bs \<and>
     device_base content flen finv dx' \<and> same_config dx dx' \<and>
     disk_bytes content dx' = mem_write (disk_bytes content dx) off bs \<and>
     (\<not> vm_disk dx \<longrightarrow> last_io_data dx' \<noteq> None \<and> last_io_offset dx' = off \<and> last_io_length dx' = length bs)"
proof (cases "vm_disk dx")
  case True
  then show ?thesis using ok
    by (simp add: thread_request_def DeviceThreadWrite_def disk_bytes_def same_config_def
        device_base_def cache_coherent_def)
next
  case False
  note img = device_ok_image [OF ok False]
  have f: "fits (flen (file_handle dx)) (image_offset dx + off) (length bs)"
    using fits img(5,8,10) by (auto simp: fits_def)
  have off: "0 \<le> off" "off + int (length bs) \<le> disk_size dx" "s64 (off + image_offset dx) = image_offset dx + off"
    "image_offset dx + off + int (length bs) < 2 ^ 63"
    using fits img(5,6,8,9) by (auto simp: fits_def s64_id)
  let ?dx = "dx\<lparr>image_modified := True\<rparr>"
  have "last_io_length ?dx \<le> length b" if "last_io_data ?dx = Some b" for b
    using img(11) [of b] that by simp
  then obtain b where b: "claim_cache os (length bs) ?dx =
      (True, ?dx\<lparr>last_io_data := Some b, last_io_offset := 0, last_io_length := 0\<rparr>)" "length bs \<le> length b"
    using claim_cache_room [of ?dx os "length bs"] os(2) by metis
  let ?dx1 = "?dx\<lparr>last_io_data := Some b, last_io_offset := 0, last_io_length := 0\<rparr>"
  let ?block = "copy_to bs b"
  define zero where "zero = (use_set_zero_data dx \<and> IsBufferZero True (byte_behind os) bs)"
  have "zero \<Longrightarrow> bs = replicate (length bs) 0" unfolding zero_def by (blast dest: IsBufferZero_zeros)
  then obtain f' z where w: "write_backing os ?block (length bs) (image_offset dx + off) zero ?dx1 =
      Some (STATUS_SUCCESS, length bs, ?dx1\<lparr>file_handle := f', use_set_zero_data := z\<rparr>)"
    "z \<longrightarrow> use_set_zero_data dx" "finv f'" "flen f' = flen (file_handle dx)"
    "content f' = mem_write (content (file_handle dx)) (image_offset dx + off) bs"
    using write_backing_image [of ?dx1 "image_offset dx + off" bs os "length bs" ?block zero]
      f img(1,7) os(1) off(4) by (auto simp: take_copy_to)
  define dx' where "dx' = ?dx\<lparr>file_handle := f', use_set_zero_data := z, last_io_data := Some ?block,
      last_io_offset := off, last_io_length := length bs\<rparr>"
  have same: "same_config dx dx'" using w(2) by (simp add: same_config_def dx'_def)
  have bytes: "disk_bytes content dx' = mem_write (disk_bytes content dx) off bs"
    using False w(5) by (simp add: dx'_def disk_bytes_def mem_write_shift)
  have "mem_bytes (disk_bytes content dx') off (length bs) = bs" by (simp add: bytes mem)
  then have coh: "cache_coherent content dx'"
    using b(2) off(1,2) by (simp add: dx'_def cache_coherent_def take_copy_to disk_bytes_def)
  have run: "thread_request os IRP_MJ_WRITE (request off bs) dx =
      Some (advance (finish (request off bs) STATUS_SUCCESS (length bs)), dx')"
    using img(1) False b w(1) off(3)
    by (simp add: thread_request_def DeviceThreadWrite_def Let_def swap_none take_copy_to dx'_def
        zero_def [symmetric])
  show ?thesis
    using run bytes same device_base_transfer [OF ok same coh] False w(3,4)
    by (simp add: dx'_def)
qed

lemma thread_write:
  assumes ok: "device_ok content flen finv dx" and os: "files os = fo" "pool os (length bs)"
    and fits: "fits (disk_size dx) off (length bs)"
    and serial: "\<not> (parallel_io dx \<and> direct_io dx)"
  shows "\<exists>irp' dx'. thread_request os IRP_MJ_WRITE (request off bs) dx = Some (irp', dx') \<and>
     Status irp' = STATUS_SUCCESS \<and> Information irp' = length bs \<and>
     device_ok content flen finv dx' \<and> same_config dx dx' \<and>
     disk_bytes content dx' = mem_write (disk_bytes content dx) off bs"
  using thread_write_base [OF device_ok_base [OF ok] os fits] serial
  unfolding device_ok_def same_config_def by blast

lemma lower_read:
  assumes ok: "device_ok content flen finv dx" and os: "files os = fo" "pool os (length io)"
    and fits: "fits (disk_size dx) off (length io)" and img0: "\<not> vm_disk dx"
  shows "\<exists>irp' dx'. ReadWriteLowerDevice os IRP_MJ_READ (request off io) dx = (irp', dx') \<and>
     Status irp' = STATUS_SUCCESS \<and> Information irp' = length io \<and>
     system_buffer irp' = Some (mem_bytes (disk_bytes content dx) off (length io)) \<and>
     device_ok content flen finv dx' \<and> same_config dx dx' \<and>
     disk_bytes content dx' = disk_bytes content dx"
proof -
  note img = device_ok_image [OF device_ok_base [OF ok] img0]
  have f: "fits (flen (file_handle dx)) (image_offset dx + off) (length io)"
    using fits img(5,8,10) by (auto simp: fits_def)
  have off: "0 \<le> off" "off + int (length io) \<le> disk_size dx" "s64 (off + image_offset dx) = image_offset dx + off"
    using fits img(5,6,8,9) by (auto simp: fits_def s64_id)
  let ?data = "mem_bytes (content (file_handle dx)) (image_offset dx + off) (length io)"
  from read_in [OF img(7) f] obtain f' where
    r: "nt_read fo (file_handle dx) (image_offset dx + off) (length io) = (STATUS_SUCCESS, ?data, f')"
      "finv f'" "content f' = content (file_handle dx)" "flen f' = flen (file_handle dx)" by auto
  have data: "?data = mem_bytes (disk_bytes content dx) off (length io)"
    using img0 by (simp add: disk_bytes_def mem_bytes_shift)
  define dx' where "dx' = (if direct_io dx \<or> shared_image dx then dx\<lparr>file_handle := f'\<rparr>
     else dx\<lparr>file_handle := f', last_io_data := Some ?data, last_io_offset := off, last_io_length := length io\<rparr>)"
  have same: "same_config dx dx'" by (simp add: same_config_def dx'_def)
  have bytes: "disk_bytes content dx' = disk_bytes content dx"
    using img0 r(3) by (simp add: dx'_def disk_bytes_def)
  have coh: "cache_coherent content dx'"
    using ok off data bytes r(3) by (auto simp: dx'_def cache_coherent_def device_ok_def device_base_def disk_bytes_def)
  obtain irp' where run: "ReadWriteLowerDevice os IRP_MJ_READ (request off io) dx = (irp', dx')"
    "Status irp' = STATUS_SUCCESS" "Information irp' = length io" "system_buffer irp' = Some ?data"
    using r(1) os off(3)
    by (cases "direct_io dx"; cases "shared_image dx")
       (auto simp: ReadWriteLowerDevice_def lower_transfer_def lower_completion_def Let_def dx'_def)
  have "device_ok content flen finv dx'"
    by (rule device_ok_transfer [OF ok same coh]) (use img0 r(2,4) in \<open>auto simp: dx'_def\<close>)
  then show ?thesis using run data bytes same by simp
qed

lemma lower_write:
  assumes ok: "device_ok content flen finv dx" and os: "files os = fo" "pool os (length bs)"
    and fits: "fits (disk_size dx) off (length bs)" and img0: "\<not> vm_disk dx"
    and direct: "direct_io dx \<Longrightarrow> last_io_data dx = None"
  shows "\<exists>irp' dx'. ReadWriteLowerDevice os IRP_MJ_WRITE (request off bs) dx = (irp', dx') \<and>
     Status irp' = STATUS_SUCCESS \<and> Information irp' = length bs \<and>
     device_ok content flen finv dx' \<and> same_config dx dx' \<and>
     disk_bytes content dx' = mem_write (disk_bytes content dx) off bs"
proof -
  note img = device_ok_image [OF device_ok_base [OF ok] img0]
  have f: "fits (flen (file_handle dx)) (image_offset dx + off) (length bs)"
    using fits img(5,8,10) by (auto simp: fits_def)
  have off: "0 \<le> off" "off + int (length bs) \<le> disk_size dx" "s64 (off + image_offset dx) = image_offset dx + off"
    using fits img(5,6,8,9) by (auto simp: fits_def s64_id)
  from write_in [OF img(7) f] obtain f' where
    w: "nt_write fo (file_handle dx) bs (image_offset dx + off) = (STATUS_SUCCESS, length bs, f')"
      "finv f'" "content f' = mem_write (content (file_handle dx)) (image_offset dx + off) bs"
      "flen f' = flen (file_handle dx)" by auto
  define dx' where "dx' = (if direct_io dx \<or> shared_image dx then dx\<lparr>image_modified := True, file_handle := f'\<rparr>
     else dx\<lparr>image_modified := True, file_handle := f', last_io_data := Some bs, last_io_offset := off,
             last_io_length := length bs\<rparr>)"
  have same: "same_config dx dx'" by (simp add: same_config_def dx'_def)
  have bytes: "disk_bytes content dx' = mem_write (disk_bytes content dx) off bs"
    using img0 w(3) by (simp add: dx'_def disk_bytes_def mem_write_shift)
  have "mem_bytes (disk_bytes content dx') off (length bs) = bs" by (simp add: bytes mem)
  then have coh: "cache_coherent content dx'"
    using ok off direct by (auto simp: dx'_def cache_coherent_def device_ok_def device_base_def disk_bytes_def)
  obtain irp' where run: "ReadWriteLowerDevice os IRP_MJ_WRITE (request off bs) dx = (irp', dx')"
    "Status irp' = STATUS_SUCCESS" "Information irp' = length bs"
    using w(1) os off(3)
    by (cases "direct_io dx"; cases "shared_image dx")
       (auto simp: ReadWriteLowerDevice_def lower_transfer_def lower_completion_def Let_def dx'_def)
  have "device_ok content flen finv dx'"
    by (rule device_ok_transfer [OF ok same coh]) (use img0 w(2,4) direct in \<open>auto simp: dx'_def\<close>)
  then show ?thesis using run bytes same by simp
qed

lemma read_from_cache:
  assumes ok: "device_base content flen finv dx" and fits: "fits (disk_size dx) off (length io)"
    and hit: "last_io_data dx \<noteq> None" "\<not> shared_image dx" "cache_hit (request off io) dx"
  shows "system_buffer (read_cached (request off io) dx) =
      Some (swapped dx (mem_bytes (disk_bytes content dx) off (length io)))"
    "Status (read_cached (request off io) dx) = STATUS_SUCCESS"
    "Information (read_cached (request off io) dx) = length io"
proof -
  obtain block where b: "last_io_data dx = Some block" using hit(1) by blast
  with ok hit(2) have c: "last_io_length dx \<le> length block" "0 \<le> last_io_offset dx"
    "last_io_offset dx + int (last_io_length dx) \<le> disk_size dx" "disk_size dx < 2 ^ 62" "\<not> vm_disk dx"
    "take (last_io_length dx) block = mem_bytes (disk_bytes content dx) (last_io_offset dx) (last_io_length dx)"
    using b by (auto simp: device_base_def cache_coherent_def split: if_splits)
  define d where "d = nat (off - last_io_offset dx)"
  from hit(3) c fits have h: "last_io_offset dx \<le> off" "d + length io \<le> last_io_length dx"
    "last_io_offset dx + int d = off"
    by (auto simp: cache_hit_def s64_id fits_def d_def)
  have "take (length io) (drop d block) = take (length io) (drop d (take (last_io_length dx) block))"
    using h(2) by (simp add: drop_take min_absorb1)
  also have "\<dots> = mem_bytes (disk_bytes content dx) off (length io)"
    unfolding c(6) using h(2,3) by (simp add: mem)
  finally have "take (length io) (drop d block) = mem_bytes (disk_bytes content dx) off (length io)" .
  then show "system_buffer (read_cached (request off io) dx) =
      Some (swapped dx (mem_bytes (disk_bytes content dx) off (length io)))"
    "Status (read_cached (request off io) dx) = STATUS_SUCCESS"
    "Information (read_cached (request off io) dx) = length io"
    using b c(5) by (simp_all add: read_cached_def Let_def d_def [symmetric] swapped_def)
qed

text \<open>A request that passes the guards of the dispatcher.\<close>

lemma dispatch_passes:
  assumes "device_base content flen finv dx" "fits (disk_size dx) off (length buf)"
  shows "DispatchReadWrite os False major (request off buf) dx =
     (if major = IRP_MJ_READ \<and> last_io_data dx \<noteq> None \<and> \<not> shared_image dx \<and> cache_hit (request off buf) dx
      then Completed (read_cached (request off buf) dx) dx
      else if parallel_io dx \<and>
              \<not> (use_set_zero_data dx \<and> major = IRP_MJ_WRITE \<and> 8 < length buf \<and>
                 IsBufferZero True (byte_behind os) buf)
      then Lower (request off buf) dx else Queued (request off buf) dx)"
  using assms by (auto simp: DispatchReadWrite_def device_base_def fits_def s64_id Let_def)

lemma serve_read:
  assumes ok: "device_ok content flen finv dx" and os: "files os = fo" "pool os (length io)"
    and fits: "fits (disk_size dx) off (length io)" and serial: "byte_swap dx \<Longrightarrow> \<not> parallel_io dx"
  shows "\<exists>irp' dx'. serve os IRP_MJ_READ (request off io) dx = Some (irp', dx') \<and>
     Status irp' = STATUS_SUCCESS \<and> Information irp' = length io \<and>
     system_buffer irp' = Some (swapped dx (mem_bytes (disk_bytes content dx) off (length io))) \<and>
     device_ok content flen finv dx' \<and> same_config dx dx' \<and>
     disk_bytes content dx' = disk_bytes content dx"
proof (cases "last_io_data dx \<noteq> None \<and> \<not> shared_image dx \<and> cache_hit (request off io) dx")
  case True
  then show ?thesis using read_from_cache [OF device_ok_base [OF ok] fits] ok
    unfolding serve_def dispatch_passes [OF device_ok_base [OF ok] fits] by (simp add: same_config_def)
next
  case False
  show ?thesis
  proof (cases "parallel_io dx")
    case True
    then have "\<not> vm_disk dx" using ok by (auto simp: device_ok_def device_base_def split: if_splits)
    moreover have "\<not> byte_swap dx" using serial True by blast
    ultimately show ?thesis
      using lower_read [OF ok os fits] True False
      unfolding serve_def dispatch_passes [OF device_ok_base [OF ok] fits] by (auto simp: swapped_def)
  next
    case par: False
    from thread_read [OF ok os fits] par False show ?thesis
      unfolding serve_def dispatch_passes [OF device_ok_base [OF ok] fits] by auto
  qed
qed

lemma serve_write:
  assumes ok: "device_ok content flen finv dx" and os: "files os = fo" "pool os (length bs)"
    and fits: "fits (disk_size dx) off (length bs)"
  shows "\<exists>irp' dx'. serve os IRP_MJ_WRITE (request off bs) dx = Some (irp', dx') \<and>
     Status irp' = STATUS_SUCCESS \<and> Information irp' = length bs \<and>
     device_ok content flen finv dx' \<and> same_config dx dx' \<and>
     disk_bytes content dx' = mem_write (disk_bytes content dx) off bs"
proof (cases "parallel_io dx \<and>
      \<not> (use_set_zero_data dx \<and> 8 < length bs \<and> IsBufferZero True (byte_behind os) bs)")
  case True
  then have "\<not> vm_disk dx" "direct_io dx \<Longrightarrow> last_io_data dx = None"
    using ok by (auto simp: device_ok_def device_base_def split: if_splits)
  from lower_write [OF ok os fits this] True show ?thesis
    unfolding serve_def dispatch_passes [OF device_ok_base [OF ok] fits] by simp
next
  case False
  then have "\<not> (parallel_io dx \<and> direct_io dx)" using ok by (auto simp: device_ok_def device_base_def split: if_splits)
  from thread_write [OF ok os fits this] False show ?thesis
    unfolding serve_def dispatch_passes [OF device_ok_base [OF ok] fits] by auto
qed

lemma device_is_a_store:
  fixes os :: "('f, 'p) dev_ops"
  assumes "files os = fo" "\<And>n. n < 2 ^ 31 \<Longrightarrow> pool os n"
  shows "disk_store (device_read os) (disk_bytes content) disk_size (plain_ok content flen finv) (device_write os)"
proof unfold_locales
  fix dx :: "('f, 'p) device_extension" and off :: int and io :: "byte list"
  assume plain: "plain_ok content flen finv dx" and fits: "fits (disk_size dx) off (length io)"
  then have ok: "device_ok content flen finv dx" and swap: "\<not> byte_swap dx" by (simp_all add: plain_ok_def)
  from fits have pool: "pool os (length io)" using assms(2) by (simp add: fits_def)
  from serve_read [OF ok assms(1) pool fits] swap obtain irp' dx' where
    r: "serve os IRP_MJ_READ (request off io) dx = Some (irp', dx')" "Status irp' = STATUS_SUCCESS"
      "Information irp' = length io" "system_buffer irp' = Some (mem_bytes (disk_bytes content dx) off (length io))"
      "plain_ok content flen finv dx'" "disk_bytes content dx' = disk_bytes content dx" "disk_size dx' = disk_size dx"
    unfolding same_config_def plain_ok_def swapped_def by auto
  from r show "\<exists>s'. device_read os dx io off = Some (int (length io), mem_bytes (disk_bytes content dx) off (length io), s') \<and>
      plain_ok content flen finv s' \<and> disk_bytes content s' = disk_bytes content dx \<and> disk_size s' = disk_size dx"
    by (intro exI [of _ dx']) (simp add: device_read_def)
  from serve_write [OF ok assms(1) pool fits] swap obtain irp2 dx2 where
    w: "serve os IRP_MJ_WRITE (request off io) dx = Some (irp2, dx2)" "Status irp2 = STATUS_SUCCESS"
      "Information irp2 = length io" "plain_ok content flen finv dx2" "disk_size dx2 = disk_size dx"
      "disk_bytes content dx2 = mem_write (disk_bytes content dx) off io"
    unfolding same_config_def plain_ok_def by auto
  from w show "\<exists>s'. device_write os dx io off = Some (int (length io), s') \<and>
      plain_ok content flen finv s' \<and> disk_bytes content s' = mem_write (disk_bytes content dx) off io \<and>
      disk_size s' = disk_size dx"
    by (intro exI [of _ dx2]) (simp add: device_write_def)
qed

text \<open>With byte swapping (and no parallel requests) a write goes to the image as it is, and the read
  after it comes back swapped.\<close>

lemma swapped_write_read:
  assumes ok: "device_ok content flen finv dx" and swap: "byte_swap dx" "\<not> vm_disk dx" "\<not> parallel_io dx"
    and os: "files os = fo" "\<And>n. n < 2 ^ 31 \<Longrightarrow> pool os n"
    and fits: "fits (disk_size dx) off (length bs)" and io: "length io = length bs"
  shows "\<exists>dx1 dx2. device_write os dx bs off = Some (int (length bs), dx1) \<and>
     disk_bytes content dx1 = mem_write (disk_bytes content dx) off bs \<and>
     device_read os dx1 io off = Some (int (length bs), ByteSwapBuffer bs, dx2)"
proof -
  from fits os(2) have pool: "pool os (length bs)" "pool os (length io)" by (simp_all add: fits_def io)
  from serve_write [OF ok os(1) pool(1) fits] obtain irp1 dx1 where
    w: "serve os IRP_MJ_WRITE (request off bs) dx = Some (irp1, dx1)" "Status irp1 = STATUS_SUCCESS"
      "Information irp1 = length bs" "device_ok content flen finv dx1" "same_config dx dx1"
      "disk_bytes content dx1 = mem_write (disk_bytes content dx) off bs" by blast
  from w(5) fits io swap have c: "fits (disk_size dx1) off (length io)" "byte_swap dx1" "\<not> vm_disk dx1" "\<not> parallel_io dx1"
    by (simp_all add: same_config_def)
  from serve_read [OF w(4) os(1) pool(2) c(1)] c(4) obtain irp2 dx2 where
    r: "serve os IRP_MJ_READ (request off io) dx1 = Some (irp2, dx2)" "Status irp2 = STATUS_SUCCESS"
      "Information irp2 = length io"
      "system_buffer irp2 = Some (swapped dx1 (mem_bytes (disk_bytes content dx1) off (length io)))" by blast
  have "mem_bytes (disk_bytes content dx1) off (length io) = bs" by (simp add: w(6) io mem)
  with w r c io show ?thesis by (simp add: device_write_def device_read_def swapped_def)
qed

text \<open>With direct I/O in parallel, a write of zeros through the thread fills the cache, and a write
  that goes past the thread leaves it as it is.\<close>

lemma stale_zeros:
  assumes ok: "device_base content flen finv dx"
    and par: "parallel_io dx" "direct_io dx" "use_set_zero_data dx" "\<not> shared_image dx" "\<not> byte_swap dx"
    and os: "files os = fo" "\<And>n. n < 2 ^ 31 \<Longrightarrow> pool os n"
    and fits: "fits (disk_size dx) off (length bs)" "8 < length bs" "length bs mod 4 = 0"
    and bs: "bs \<noteq> replicate (length bs) 0" and io: "length io = length bs"
  shows "\<exists>dx1 dx2 dx3. device_write os dx (replicate (length bs) 0) off = Some (int (length bs), dx1) \<and>
     device_write os dx1 bs off = Some (int (length bs), dx2) \<and>
     disk_bytes content dx2 = mem_write (disk_bytes content dx) off bs \<and>
     device_read os dx2 io off = Some (int (length bs), replicate (length bs) 0, dx3)"
proof -
  let ?n = "length bs" and ?z = "replicate (length bs) (0 :: byte)"
  have img0: "\<not> vm_disk dx" using ok par(1) by (auto simp: device_base_def)
  from fits(1) os(2) have pool: "pool os (length ?z)" by (simp add: fits_def)
  have fz: "fits (disk_size dx) off (length ?z)" using fits(1) by simp
  have zero: "IsBufferZero True (byte_behind os) ?z" using fits(3) by (simp add: IsBufferZero_def)
  have nz: "\<not> IsBufferZero True b bs" for b using bs IsBufferZero_zeros by blast
  from thread_write_base [OF ok os(1) pool fz] img0 obtain irp1 dx1 where
    t: "thread_request os IRP_MJ_WRITE (request off ?z) dx = Some (irp1, dx1)" "Status irp1 = STATUS_SUCCESS"
      "Information irp1 = ?n" "device_base content flen finv dx1" "same_config dx dx1"
      "disk_bytes content dx1 = mem_write (disk_bytes content dx) off ?z"
      "last_io_data dx1 \<noteq> None" "last_io_offset dx1 = off" "last_io_length dx1 = ?n" by auto
  have w1: "device_write os dx ?z off = Some (int ?n, dx1)"
    using t(1-3) par zero fits(2) by (simp add: device_write_def serve_def dispatch_passes [OF ok fz])
  note c = t(5) [unfolded same_config_def]
  have f1: "fits (disk_size dx1) off (length bs)" "\<not> vm_disk dx1" using fits(1) c img0 by simp_all
  note img = device_ok_image [OF t(4) f1(2)]
  have f: "fits (flen (file_handle dx1)) (image_offset dx1 + off) (length bs)"
    using f1(1) img(5,8,10) by (auto simp: fits_def)
  have off: "s64 (off + image_offset dx1) = image_offset dx1 + off"
    using f1(1) img(5,6,8,9) by (auto simp: fits_def s64_id)
  from write_in [OF img(7) f] obtain f' where
    w: "nt_write fo (file_handle dx1) bs (image_offset dx1 + off) = (STATUS_SUCCESS, ?n, f')"
      "content f' = mem_write (content (file_handle dx1)) (image_offset dx1 + off) bs" by blast
  define dx2 where "dx2 = dx1\<lparr>image_modified := True, file_handle := f'\<rparr>"
  have w2: "device_write os dx1 bs off = Some (int ?n, dx2)"
    using w(1) os(1) off par c nz
    by (simp add: device_write_def serve_def dispatch_passes [OF t(4) f1(1)] ReadWriteLowerDevice_def
        lower_transfer_def Let_def dx2_def)
  have b2: "disk_bytes content dx2 = mem_write (disk_bytes content dx) off bs"
  proof -
    have "disk_bytes content dx2 = mem_write (disk_bytes content dx1) off bs"
      using f1(2) w(2) by (simp add: dx2_def disk_bytes_def mem_write_shift)
    also have "\<dots> = mem_write (disk_bytes content dx) off bs"
      unfolding t(6) by (rule ext) (auto simp: mem_write_def)
    finally show ?thesis .
  qed
  have hit: "cache_hit (request off io) dx1" using t(8,9) io by (simp add: cache_hit_def)
  have same: "read_cached (request off io) dx2 = read_cached (request off io) dx1"
    "cache_hit (request off io) dx2 = cache_hit (request off io) dx1"
    by (simp_all add: read_cached_def cache_hit_def dx2_def)
  have fio: "fits (disk_size dx1) off (length io)" using f1(1) io by simp
  note rc = read_from_cache [OF t(4) fio t(7) _ hit]
  have "mem_bytes (disk_bytes content dx1) off (length io) = ?z"
    using io mem_bytes_write_same [of "disk_bytes content dx" off ?z] by (simp add: t(6))
  moreover have "DispatchReadWrite os False IRP_MJ_READ (request off io) dx2 =
      Completed (read_cached (request off io) dx2) dx2"
    using f1(1) fio t(4,7) c par(4) same(2) hit
    by (auto simp: DispatchReadWrite_def Let_def fits_def s64_id dx2_def device_base_def)
  ultimately have "device_read os dx2 io off = Some (int ?n, ?z, dx2)"
    using rc c par(4,5) io by (simp add: device_read_def serve_def same swapped_def)
  with w1 w2 b2 show ?thesis by blast
qed

end

end
