(* ===== verification/Sys_Bounds.thy ===== *)
theory Sys_Bounds
  imports Sys_Device_Props
begin

text \<open>
  Every transfer stays inside its buffers: whatever the server, the image and the memory manager
  answer, the cache block is at least as long as its valid part, the caller's buffer keeps its length
  and its bytes behind the request.
\<close>

section \<open>Streams and proxies deliver no more than asked for\<close>

text \<open>A stream that never delivers more than was asked for.\<close>

definition modest :: "'s stream_ops \<Rightarrow> bool" where
  "modest st \<longleftrightarrow> (\<forall>s n. length (fst (snd (io_read st s n))) \<le> n)"

lemma io_attempt_bounded:
  fixes st :: "'s stream_ops"
  assumes "io_attempt (io_read st) n s = Some (e, d, s')" "modest st"
  shows "length d \<le> n"
proof -
  define P where "P = (\<lambda>call (m :: nat) (s :: 's) (y :: irp_end \<times> byte list \<times> 's).
     call = io_read st \<longrightarrow> length (fst (snd y)) \<le> m)"
  have "P (io_read st) n s (e, d, s')"
  proof (rule io_attempt.raw_induct [of P, OF _ assms(1)])
    fix loop call m s y
    assume IH: "\<And>call m s y. loop call m s = Some y \<Longrightarrow> P call m s y"
      and eq: "(case call s m of (e, d, s') \<Rightarrow>
        if e = Ended STATUS_INVALID_BUFFER_SIZE \<or> e = Ended STATUS_INVALID_PARAMETER
        then loop call (m div 2) s' else Some (e, d, s')) = Some y"
    obtain e' d' s'' where c: "call s m = (e', d', s'')" by (cases "call s m")
    show "P call m s y"
    proof (cases "e' = Ended STATUS_INVALID_BUFFER_SIZE \<or> e' = Ended STATUS_INVALID_PARAMETER")
      case True
      with eq c have "loop call (m div 2) s'' = Some y" by simp
      from IH [OF this] show ?thesis unfolding P_def by (meson div_le_dividend order_trans)
    next
      case False
      with eq c have y: "y = (e', d', s'')" by simp
      show ?thesis
      proof (unfold P_def, intro impI)
        assume "call = io_read st"
        then show "length (fst (snd y)) \<le> m" using assms(2) c y by (metis modest_def fst_conv snd_conv)
      qed
    qed
  qed
  then show ?thesis by (simp add: P_def)
qed

lemma stream_read_bounded:
  assumes "stream_read st n got s = Some (status, info, data, s')" "modest st" "length got \<le> n"
  shows "length data \<le> n"
  using assms(1,3)
proof (induction "n - length got" arbitrary: got s rule: less_induct)
  case less
  show ?case
  proof (cases "n \<le> length got")
    case True
    with less.prems show ?thesis by (subst (asm) stream_read.simps) simp
  next
    case False
    from less.prems(1) False obtain e d s1 where
      a: "io_attempt (io_read st) (n - length got) s = Some (e, d, s1)"
      and r: "(case e of No_irp \<Rightarrow> Some (STATUS_INSUFFICIENT_RESOURCES, length got, got, s1)
        | Failed_now status \<Rightarrow> Some (status, 0, got @ d, s1)
        | Ended status \<Rightarrow>
            if \<not> NT_SUCCESS status then Some (status, 0, got @ d, s1)
            else if d = [] then Some (STATUS_CONNECTION_RESET, 0, got, s1)
            else stream_read st n (got @ d) s1) = Some (status, info, data, s')"
      by (subst (asm) stream_read.simps) (auto simp: bind_eq_Some_conv)
    have d: "length got + length d \<le> n" using io_attempt_bounded [OF a assms(2)] False by simp
    show ?thesis
    proof (cases "\<exists>st1. e = Ended st1 \<and> NT_SUCCESS st1 \<and> d \<noteq> []")
      case True
      then have go: "stream_read st n (got @ d) s1 = Some (status, info, data, s')" using r by auto
      have lt: "n - length (got @ d) < n - length got" using True False by (auto simp: neq_Nil_conv)
      have "length (got @ d) \<le> n" using d by simp
      then show ?thesis by (rule less.hyps [OF lt go])
    next
      case False
      with r d less.prems(2) show ?thesis by (cases e) (auto split: if_splits)
    qed
  qed
qed

text \<open>What holds of every result, by the structure of the routine.\<close>

lemma wp_if: "(c \<Longrightarrow> pred_option Q a) \<Longrightarrow> (\<not> c \<Longrightarrow> pred_option Q b) \<Longrightarrow> pred_option Q (if c then a else b)"
  by simp

lemma wp_bind: "pred_option (\<lambda>x. pred_option Q (f x)) m \<Longrightarrow> pred_option Q (Option.bind m f)"
  by (cases m) simp_all

lemma wp_any: "(\<And>x. Q x) \<Longrightarrow> pred_option Q m"
  by (cases m) simp_all

lemma wp_case3: "(\<And>a b c. pred_option Q (f a b c)) \<Longrightarrow> pred_option Q (case x of (a, b, c) \<Rightarrow> f a b c)"
  by (cases x) simp

lemma wp_case4: "(\<And>a b c d. pred_option Q (f a b c d)) \<Longrightarrow> pred_option Q (case x of (a, b, c, d) \<Rightarrow> f a b c d)"
  by (cases x) simp

lemma wp_stream:
  assumes "modest st" "k \<le> lim" "\<And>status info data s. length data \<le> lim \<Longrightarrow> Q (status, info, data, s)"
  shows "pred_option Q (if k = 0 then Some (STATUS_SUCCESS, 0, [], s) else stream_read st k [] s)"
proof (cases "k = 0")
  case False
  show ?thesis
  proof (cases "stream_read st k [] s")
    case (Some r)
    obtain status info data s' where r: "r = (status, info, data, s')" by (cases r)
    from stream_read_bounded [OF Some [unfolded r] assms(1)] assms(2) have "length data \<le> lim" by simp
    from assms(3) [OF this] False Some r show ?thesis by simp
  qed (use False in simp)
qed (use assms(3) in simp)

definition within :: "nat \<Rightarrow> ntstatus \<times> nat \<times> byte list \<times> byte list \<times> 's proxy \<Rightarrow> bool" where
  "within lim = (\<lambda>(status, info, header, data, p). NT_SUCCESS status \<longrightarrow> length data \<le> lim)"

lemma within_simps [simp]:
  "within lim (status, info, header, data, p) \<longleftrightarrow> (NT_SUCCESS status \<longrightarrow> length data \<le> lim)"
  by (simp add: within_def)

lemma call_device_bounded:
  assumes "modest (px_stream os)"
  shows "pred_option (within bufsize) (call_device os p h d hs bufsize rsize)"
  unfolding call_device_def Let_def
  by (rule wp_if, simp, rule wp_if, simp, rule wp_bind, rule wp_any, rule wp_case3,
      rule wp_if, simp, rule wp_if, simp, rule wp_bind, rule wp_any, rule wp_case4,
      rule wp_if, simp, rule wp_if, simp, rule wp_if, simp, rule wp_bind,
      rule wp_stream [OF assms, where lim = bufsize]) simp_all

lemma CallProxy_bounded:
  assumes "modest (px_stream os)"
  shows "pred_option (within bufsize) (CallProxy os p h d hs bufsize rsize)"
proof (cases "connection_type p")
  case PROXY_CONNECTION_DEVICE
  then show ?thesis using call_device_bounded [OF assms] by (simp add: CallProxy_def)
next
  case PROXY_CONNECTION_SHM
  then show ?thesis
    by (auto simp: CallProxy_def call_shm_def Let_def split: prod.splits option.splits)
qed

lemma ReadProxy_bounded:
  assumes "ReadProxy os px n off = Some (status, info, data, px')" "modest (px_stream os)"
  shows "info = length data" "length data \<le> n"
proof -
  define P where "P = (\<lambda>(os' :: 'a proxy_ops) len (off :: int) (mx :: int) (got :: byte list) (p :: 'a proxy)
     (y :: ntstatus \<times> nat \<times> byte list \<times> 'a proxy). os' = os \<longrightarrow> 0 \<le> mx \<longrightarrow> length got \<le> len \<longrightarrow>
        fst (snd y) = length (fst (snd (snd y))) \<and> length (fst (snd (snd y))) \<le> len)"
  have "P os n off (max_transfer px n) [] px (status, info, data, px')"
  proof (rule read_proxy_loop.raw_induct [of P, OF _ assms(1) [unfolded ReadProxy_def]])
    fix loop os' len off mx got p y
    assume IH: "\<And>os' len off mx got p y. loop os' len off mx got p = Some y \<Longrightarrow> P os' len off mx got p y"
      and eq: "(if len \<le> length got then Some (STATUS_SUCCESS, length got, got, p)
       else
      (let length_to_do = len - length got;
           req_length = (if int length_to_do \<le> mx then int length_to_do else mx)
       in Option.bind (CallProxy os' p
            (to_le 8 REQ_READ @ to_le 8 (u64 (off + int (length got))) @ to_le 8 req_length) []
            16 (nat (u32 req_length)) (Some (\<lambda>h. nat (le_of (take 4 (drop 8 h))))))
          (\<lambda>(status, _, header, data, p).
            if \<not> NT_SUCCESS status then Some (STATUS_IO_DEVICE_ERROR, length got, got, p)
            else if le_of (take 8 header) \<noteq> 0
            then Some (STATUS_IO_DEVICE_ERROR, length (got @ data), got @ data, p)
            else if le_of (drop 8 header) = 0
            then Some (STATUS_SUCCESS, length (got @ data), got @ data, p)
            else loop os' len off mx (got @ data) p))) = Some y"
    show "P os' len off mx got p y"
    proof (cases "os' = os \<and> 0 \<le> mx \<and> length got < len")
      case False
      then show ?thesis using eq by (auto simp: P_def)
    next
      case True
      define req where "req = (if int (len - length got) \<le> mx then int (len - length got) else mx)"
      have "nat (u32 req) \<le> nat req" using True by (intro nat_mono) (auto simp: req_def u32_def zmod_le_nonneg_dividend)
      then have req: "nat (u32 req) \<le> len - length got" by (simp add: req_def split: if_splits)
      let ?h = "to_le 8 REQ_READ @ to_le 8 (u64 (off + int (length got))) @ to_le 8 req"
      let ?size = "Some (\<lambda>h. nat (le_of (take 4 (drop 8 h))))"
      let ?next = "\<lambda>(status, _, header, data, p).
            if \<not> NT_SUCCESS status then Some (STATUS_IO_DEVICE_ERROR, length got, got, p)
            else if le_of (take 8 header) \<noteq> 0
            then Some (STATUS_IO_DEVICE_ERROR, length (got @ data), got @ data, p)
            else if le_of (drop 8 header) = 0
            then Some (STATUS_SUCCESS, length (got @ data), got @ data, p)
            else loop os len off mx (got @ data) p"
      from eq True have "Option.bind (CallProxy os p ?h [] 16 (nat (u32 req)) ?size) ?next = Some y"
        unfolding req_def Let_def by (simp only: if_not_P not_le)
      then obtain z where z: "CallProxy os p ?h [] 16 (nat (u32 req)) ?size = Some z" "?next z = Some y"
        unfolding bind_eq_Some_conv by blast
      obtain st i header d p1 where zz: "z = (st, i, header, d, p1)" by (cases z)
      note r = z(2) [unfolded zz prod.case]
      have "length d \<le> len - length got" if "NT_SUCCESS st"
        using CallProxy_bounded [OF assms(2), of "nat (u32 req)" p ?h "[]" 16 ?size] z(1) zz that
          order_trans [OF _ req] by simp
      then have d: "NT_SUCCESS st \<Longrightarrow> length (got @ d) \<le> len" using True by (simp add: le_diff_conv2 add.commute)
      show ?thesis
      proof (cases "loop os len off mx (got @ d) p1 = Some y \<and> NT_SUCCESS st")
        case again: True
        then show ?thesis using IH [of os len off mx "got @ d" p1 y] d True by (auto simp: P_def)
      next
        case False
        then show ?thesis using r d True by (auto simp: P_def split: if_splits)
      qed
    qed
  qed
  moreover have "0 \<le> max_transfer px n" by (simp add: max_transfer_def u64_def)
  ultimately show "info = length data" "length data \<le> n" by (simp_all add: P_def)
qed

section \<open>The device's buffers\<close>

text \<open>The cache block covers its valid part; the image delivers and takes no more than asked for.\<close>

definition in_bounds :: "('f, 's) device_extension \<Rightarrow> bool" where
  "in_bounds dx \<longleftrightarrow> (\<forall>block. last_io_data dx = Some block \<longrightarrow> last_io_length dx \<le> length block)"

definition modest_ops :: "('f, 's) dev_ops \<Rightarrow> bool" where
  "modest_ops os \<longleftrightarrow> modest (px_stream (proxies os)) \<and>
     (\<forall>f off n. length (fst (snd (nt_read (files os) f off n))) \<le> n) \<and>
     (\<forall>f bs off. fst (snd (nt_write (files os) f bs off)) \<le> length bs)"

text \<open>The caller's buffer after a request: its length and the bytes behind the request are the same.\<close>

definition kept_behind :: "irp \<Rightarrow> irp \<Rightarrow> bool" where
  "kept_behind irp irp' \<longleftrightarrow> IoLength irp' = IoLength irp \<and>
     map_option length (system_buffer irp') = map_option length (system_buffer irp) \<and>
     map_option (drop (IoLength irp + IoLength irp mod 2)) (system_buffer irp') =
     map_option (drop (IoLength irp + IoLength irp mod 2)) (system_buffer irp)"

definition buffer_fits :: "irp \<Rightarrow> bool" where
  "buffer_fits irp \<longleftrightarrow> (\<forall>buf. system_buffer irp = Some buf \<longrightarrow> IoLength irp \<le> length buf)"

lemma kept_behind_refl [simp]: "kept_behind irp irp"
  by (simp add: kept_behind_def)

lemma kept_behind_simps [simp]:
  "kept_behind irp (finish irp' status n) = kept_behind irp irp'"
  "kept_behind irp (advance irp') = kept_behind irp irp'"
  by (simp_all add: kept_behind_def finish_def advance_def)

lemma length_swap_first [simp]: "length (swap_first n xs) = length xs"
  by (simp add: swap_first_def)

lemma drop_swapped: "m \<le> k \<Longrightarrow> drop k (ByteSwapBuffer (take m xs) @ drop m xs) = drop k xs"
  by (cases "m \<le> length xs") simp_all

lemma kept_behind_copy:
  assumes "system_buffer irp = Some buf" "length data \<le> IoLength irp" "IoLength irp \<le> length buf"
  shows "kept_behind irp (irp\<lparr>system_buffer := Some (copy_to data buf)\<rparr>)"
    "n \<le> IoLength irp \<Longrightarrow> kept_behind irp (irp\<lparr>system_buffer := Some (swap_first n (copy_to data buf))\<rparr>)"
proof -
  have d: "drop k (copy_to data buf) = drop k buf" if "length data \<le> k" for k
    using that by (simp add: copy_to_def)
  have l: "length (copy_to data buf) = length buf" using assms by simp
  show "kept_behind irp (irp\<lparr>system_buffer := Some (copy_to data buf)\<rparr>)"
    using assms d l by (simp add: kept_behind_def)
  assume n: "n \<le> IoLength irp"
  have "length (swap_first n xs) = length xs" for xs by (simp add: swap_first_def)
  moreover have "drop k (swap_first n xs) = drop k xs" if "n + n mod 2 \<le> k" for k xs
    unfolding swap_first_def using that by (rule drop_swapped)
  moreover have "n + n mod 2 \<le> IoLength irp + IoLength irp mod 2"
  proof (cases "n = IoLength irp")
    case False
    with n have "n + 1 \<le> IoLength irp" by simp
    moreover have "n mod 2 \<le> 1" by simp
    ultimately show ?thesis by linarith
  qed simp
  ultimately show "kept_behind irp (irp\<lparr>system_buffer := Some (swap_first n (copy_to data buf))\<rparr>)"
    using assms d l by (simp add: kept_behind_def)
qed

lemma claim_cache_bounds:
  assumes "in_bounds dx" "claim_cache os n dx = (room, dx')"
  shows "in_bounds dx'" "room \<Longrightarrow> \<exists>b. last_io_data dx' = Some b \<and> n \<le> length b"
  using assms by (auto simp: claim_cache_def in_bounds_def Let_def split: if_splits)

lemma thread_read_bounds:
  assumes "DeviceThreadRead os irp dx = Some (irp', dx')" "modest_ops os" "in_bounds dx" "buffer_fits irp"
  shows "in_bounds dx' \<and> kept_behind irp irp'"
proof (cases "system_buffer irp = None \<or> vm_disk dx")
  case True
  then show ?thesis using assms
    by (cases "system_buffer irp")
       (auto simp: DeviceThreadRead_def buffer_fits_def intro!: kept_behind_copy(1))
next
  case False
  then obtain buf where buf: "system_buffer irp = Some buf" "IoLength irp \<le> length buf" "\<not> vm_disk dx"
    using assms(4) by (auto simp: buffer_fits_def)
  let ?off = "s64 (ByteOffset irp + image_offset dx)"
  obtain room dx0 where c: "claim_cache os (IoLength irp) dx = (room, dx0)" by fastforce
  note cb = claim_cache_bounds [OF assms(3) c]
  show ?thesis
  proof (cases room)
    case False
    then show ?thesis using assms(1) buf c cb(1) by (auto simp: DeviceThreadRead_def)
  next
    case True
    with cb(2) obtain b where b: "last_io_data dx0 = Some b" "IoLength irp \<le> length b" by blast
    let ?fetch = "(if use_proxy dx0
         then Option.bind (ReadProxy (proxies os) (proxy dx0) (IoLength irp) ?off) (\<lambda>(status, info, data, px).
                Some (if NT_SUCCESS status then (status, info, data, dx0\<lparr>proxy := px\<rparr>)
                      else (STATUS_DEVICE_DOES_NOT_EXIST, 0, data, dx0\<lparr>proxy := px\<rparr>)))
         else case nt_read (files os) (file_handle dx0) ?off (IoLength irp) of (status, data, f) \<Rightarrow>
                Some (status, length data, data, dx0\<lparr>file_handle := f\<rparr>))"
    let ?finish = "\<lambda>(status, info, data, dx).
          if NT_SUCCESS status
          then
            let block = copy_to data (the (last_io_data dx));
                sysbuf = copy_to (take info block) buf;
                sysbuf = (if byte_swap dx then swap_first info sysbuf else sysbuf)
            in Some (advance (finish (irp\<lparr>system_buffer := Some sysbuf\<rparr>) status info),
                     dx\<lparr>last_io_data := Some block, last_io_offset := ByteOffset irp, last_io_length := info\<rparr>)
          else Some (finish irp status info, dx\<lparr>last_io_data := None\<rparr>)"
    from assms(1) have "Option.bind ?fetch ?finish = Some (irp', dx')"
      using buf c True by (simp add: DeviceThreadRead_def Let_def)
    then obtain status info data dx1 where
      f: "?fetch = Some (status, info, data, dx1)" "?finish (status, info, data, dx1) = Some (irp', dx')"
      unfolding bind_eq_Some_conv by fastforce
    have d: "NT_SUCCESS status \<Longrightarrow> info = length data \<and> length data \<le> IoLength irp"
      "last_io_data dx1 = Some b"
      using f(1) assms(2) b(1) ReadProxy_bounded [of "proxies os" "proxy dx0" "IoLength irp" ?off]
      by (auto simp: bind_eq_Some_conv modest_ops_def split: if_splits prod.splits)
         (metis fst_conv snd_conv)+
    show ?thesis
    proof (cases "NT_SUCCESS status")
      case True
      with d f(2) show ?thesis
        using kept_behind_copy [OF buf(1) _ buf(2), of data] b(2)
        by (auto simp: Let_def in_bounds_def take_copy_to)
    next
      case False
      with f(2) show ?thesis by (auto simp: in_bounds_def)
    qed
  qed
qed

lemma write_backing_cache:
  assumes "write_backing os block n off z dx = Some (status, info, dx')"
  shows "last_io_data dx' = last_io_data dx"
  using assms
  by (auto simp: write_backing_def bind_eq_Some_conv Let_def split: if_splits prod.splits option.splits)

lemma thread_write_bounds:
  assumes "DeviceThreadWrite os irp dx = Some (irp', dx')" "in_bounds dx" "buffer_fits irp"
  shows "in_bounds dx' \<and> kept_behind irp irp'"
proof (cases "system_buffer irp = None \<or> vm_disk dx")
  case True
  then show ?thesis using assms(1,2)
    by (cases "system_buffer irp") (auto simp: DeviceThreadWrite_def in_bounds_def)
next
  case False
  then obtain buf where buf: "system_buffer irp = Some buf" "IoLength irp \<le> length buf" "\<not> vm_disk dx"
    using assms(3) by (auto simp: buffer_fits_def)
  let ?off = "s64 (ByteOffset irp + image_offset dx)" and ?dx = "dx\<lparr>image_modified := True\<rparr>"
  obtain room dx0 where c: "claim_cache os (IoLength irp) ?dx = (room, dx0)" by fastforce
  have "in_bounds ?dx" using assms(2) by (simp add: in_bounds_def)
  note cb = claim_cache_bounds [OF this c]
  show ?thesis
  proof (cases room)
    case False
    then show ?thesis using assms(1) buf c cb(1) by (auto simp: DeviceThreadWrite_def)
  next
    case True
    with cb(2) obtain b where b: "last_io_data dx0 = Some b" "IoLength irp \<le> length b" by blast
    define block0 where "block0 = copy_to (take (IoLength irp) buf) b"
    define z where "z = ((use_set_zero_data dx0 \<or> use_proxy dx0 \<and> proxy_zero dx0) \<and>
        IsBufferZero True (byte_behind os) (take (IoLength irp) block0))"
    define block where "block = (if \<not> z \<and> byte_swap dx0 then swap_first (Information irp) block0 else block0)"
    have len: "IoLength irp \<le> length block"
      using b(2) buf(2) by (simp add: block_def block0_def)
    let ?finish = "\<lambda>(status, info, dx). if NT_SUCCESS status
        then Some (advance (finish irp status info),
                   dx\<lparr>last_io_data := Some block, last_io_offset := ByteOffset irp, last_io_length := IoLength irp\<rparr>)
        else Some (finish irp status info, dx\<lparr>last_io_data := None\<rparr>)"
    from assms(1) have "Option.bind (write_backing os block (IoLength irp) ?off z dx0) ?finish = Some (irp', dx')"
      using buf c True b(1)
      by (simp add: DeviceThreadWrite_def Let_def block_def block0_def z_def split del: if_split cong: if_cong)
    then obtain status info dx1 where "?finish (status, info, dx1) = Some (irp', dx')"
      unfolding bind_eq_Some_conv by fast
    then show ?thesis using len by (auto simp: in_bounds_def split: if_splits)
  qed
qed

lemma lower_bounds:
  assumes "ReadWriteLowerDevice os major irp dx = (irp', dx')" "modest_ops os" "in_bounds dx" "buffer_fits irp"
  shows "in_bounds dx' \<and> kept_behind irp irp'"
proof (cases "system_buffer irp")
  case None
  then show ?thesis using assms(1,3)
    by (auto simp: ReadWriteLowerDevice_def in_bounds_def Let_def split: if_splits)
next
  case (Some buf)
  with assms(4) have buf: "IoLength irp \<le> length buf" by (simp add: buffer_fits_def)
  define off where "off = s64 (ByteOffset irp + image_offset dx)"
  define dx1 where "dx1 = dx\<lparr>image_modified := (image_modified dx \<or> major = IRP_MJ_WRITE)\<rparr>"
  have t: "length buffer' = length buffer \<and> info \<le> length buffer \<and> in_bounds dx2 \<and>
      last_io_data dx2 = last_io_data dx"
    if "lower_transfer os major buffer off dx1 = (status, info, buffer', dx2)" for buffer status info buffer' dx2
  proof (cases major)
    case IRP_MJ_READ
    obtain st data f where r: "nt_read (files os) (file_handle dx1) off (length buffer) = (st, data, f)"
      by (cases "nt_read (files os) (file_handle dx1) off (length buffer)")
    then have "length data \<le> length buffer" using assms(2) unfolding modest_ops_def by (metis fst_conv snd_conv)
    then show ?thesis using that r IRP_MJ_READ assms(3)
      by (auto simp: lower_transfer_def in_bounds_def dx1_def)
  next
    case IRP_MJ_WRITE
    obtain st n f where w: "nt_write (files os) (file_handle dx1) buffer off = (st, n, f)"
      by (cases "nt_write (files os) (file_handle dx1) buffer off")
    then have "n \<le> length buffer" using assms(2) unfolding modest_ops_def by (metis fst_conv snd_conv)
    then show ?thesis using that w IRP_MJ_WRITE assms(3)
      by (auto simp: lower_transfer_def in_bounds_def dx1_def)
  qed
  show ?thesis
  proof (cases "direct_io dx")
    case True
    obtain status info buffer dx2 where l:
      "lower_transfer os major (take (IoLength irp) buf) off dx1 = (status, info, buffer, dx2)"
      by (cases "lower_transfer os major (take (IoLength irp) buf) off dx1")
    with True assms(1) Some have "irp' = finish (irp\<lparr>system_buffer := Some (copy_to buffer buf)\<rparr>) status info" "dx' = dx2"
      by (auto simp: ReadWriteLowerDevice_def Let_def off_def dx1_def)
    then show ?thesis using t [OF l] kept_behind_copy(1) [OF Some _ buf, of buffer] buf by simp
  next
    case False
    show ?thesis
    proof (cases "pool os (IoLength irp)")
      case True
      let ?buffer = "if major = IRP_MJ_WRITE then take (IoLength irp) buf else replicate (IoLength irp) 0"
      obtain status info buffer dx2 where l:
        "lower_transfer os major ?buffer off dx1 = (status, info, buffer, dx2)"
        by (cases "lower_transfer os major ?buffer off dx1")
      with True False assms(1) Some have c: "lower_completion major status info buffer irp dx2 = (irp', dx')"
        by (simp add: ReadWriteLowerDevice_def Let_def off_def dx1_def)
      have b: "length buffer = IoLength irp" "info \<le> IoLength irp" "in_bounds dx2"
        using t [OF l] buf by (auto split: if_splits)
      have k: "kept_behind irp (irp\<lparr>system_buffer := Some (copy_to (take info buffer) buf)\<rparr>)"
        by (rule kept_behind_copy(1) [OF Some _ buf]) (simp add: b)
      have same: "in_bounds (RemoveVirtualDisk dx2)" using b(3) by (simp add: in_bounds_def RemoveVirtualDisk_def)
      have kf: "kept_behind irp ((finish irp status info)\<lparr>system_buffer := Some (copy_to (take info buffer) buf)\<rparr>)"
        using k by (simp add: finish_def kept_behind_def)
      have cache: "in_bounds (dx2\<lparr>last_io_data := Some buffer, last_io_offset := o', last_io_length := info\<rparr>)" for o'
        using b by (simp add: in_bounds_def)
      show ?thesis using c b(3) same kf cache Some
        by (auto simp: lower_completion_def Let_def split: if_splits)
    next
      case False
      then show ?thesis using assms(1,3) \<open>\<not> direct_io dx\<close> Some
        by (auto simp: ReadWriteLowerDevice_def)
    qed
  qed
qed

lemma read_cached_bounds:
  assumes "buffer_fits irp"
  shows "kept_behind irp (read_cached irp dx)"
proof (cases "system_buffer irp")
  case None
  then show ?thesis by (simp add: read_cached_def)
next
  case (Some buf)
  with assms have "IoLength irp \<le> length buf" by (simp add: buffer_fits_def)
  from kept_behind_copy [OF Some _ this] show ?thesis by (auto simp: read_cached_def Let_def Some)
qed

lemma after_request_bounds:
  "in_bounds (snd (after_request irp dx)) = in_bounds dx"
  "kept_behind irp0 (fst (after_request irp dx)) = kept_behind irp0 irp"
  by (simp_all add: after_request_def RemoveVirtualDisk_def in_bounds_def)


text \<open>A flat image, without a proxy, on a device that has served nothing yet.\<close>

definition flat_file :: "(int \<Rightarrow> byte) nt_file_ops" where
  "flat_file = \<lparr>nt_read = (\<lambda>f off n. (STATUS_SUCCESS, mem_bytes f off n, f)),
     nt_write = (\<lambda>f bs off. (STATUS_SUCCESS, length bs, mem_write f off bs)),
     nt_zero_data = (\<lambda>f a e. (STATUS_INVALID_DEVICE_REQUEST, f)),
     nt_trim = (\<lambda>f rs. (STATUS_INVALID_DEVICE_REQUEST, f)),
     nt_size = (\<lambda>f. (STATUS_SUCCESS, 4096)), nt_set_size = (\<lambda>f n. (STATUS_SUCCESS, f))\<rparr>"

definition flat_ops :: "(int \<Rightarrow> byte, unit) dev_ops" where
  "flat_ops = \<lparr>files = flat_file,
     proxies = \<lparr>px_stream = \<lparr>io_read = (\<lambda>s n. (No_irp, [], s)), io_write = (\<lambda>s bs. (No_irp, 0, s)),
         io_cancelled = (\<lambda>s. False), io_alloc = (\<lambda>n. True)\<rparr>,
       px_turn = (\<lambda>s v. (None, s)), px_claim = (\<lambda>s n. (None, s)), px_switch = (\<lambda>s n. s)\<rparr>,
     pool = (\<lambda>n. True), byte_behind = 1, new_memory = (\<lambda>n. None)\<rparr>"

definition flat_device :: "(int \<Rightarrow> byte, unit) device_extension" where
  "flat_device = \<lparr>file_handle = (\<lambda>i. of_int i),
     proxy = \<lparr>connection_type = PROXY_CONNECTION_DEVICE, device = False, request_event_handle = False,
       request_event = False, response_event_handle = False, response_event = False,
       shared_memory = [], shared_memory_size = 0, peer = ()\<rparr>,
     image_buffer = (\<lambda>i. 0), disk_size = 4096, image_offset = 0, vm_disk = False,
     awefsalloc_disk = False, use_proxy = False, proxy_unmap = False, proxy_zero = False,
     parallel_io = False, direct_io = False, byte_swap = False, shared_image = False, read_only = False,
     image_modified = False, use_set_zero_data = False, no_file_level_trim = False,
     terminate_thread = False, media_change_count = 1,
     last_io_data = None, last_io_offset = 0, last_io_length = 0\<rparr>"


end
