(* ===== verification/Sys_Awe.thy ===== *)
theory Sys_Awe
  imports Awe_Theorems Sys_Device_Props
begin

text \<open>
  The composition of the two drivers: a virtual disk whose image is a file of the physical-memory
  driver. Its requests reach \<open>ReadWrite\<close>, \<open>AllocControl\<close>, \<open>QueryInformation\<close> and \<open>SetInformation\<close>
  of \<open>Awe_File\<close>; the file's laws (\<open>Awe_Theorems\<close>) discharge the contract \<open>backing_file\<close>.
\<close>

text \<open>The control codes the virtual disk driver sends to its image: \<open>FSCTL_SET_ZERO_DATA\<close> and
  \<open>FSCTL_FILE_LEVEL_TRIM\<close>.\<close>

definition awe_control :: "(object_context \<Rightarrow> byte list) \<Rightarrow> kernel \<times> object_context \<Rightarrow> int \<Rightarrow> byte list \<Rightarrow> ntstatus" where
  "awe_control layout s code input =
     returned (AllocControl layout (Some (snd s)) \<lparr>ct_major = IRP_MJ_FILE_SYSTEM_CONTROL,
       ct_user_fs_request = True, FsControlCode = code, InputBuffer = input, OutputBufferLength = 0\<rparr>)"

definition awe_file :: "(object_context \<Rightarrow> byte list) \<Rightarrow> (kernel \<times> object_context) nt_file_ops" where
  "awe_file layout = \<lparr>
     nt_read = (\<lambda>s off n.
       case ReadWrite (fst s) (Some (snd s)) (awe_irp Awe_File.IRP_MJ_READ off (replicate n 0)) 0 of
         (r, k, Some ctx) \<Rightarrow> (io_Status r, take (nat (io_Information r)) (io_buffer r), (k, ctx))
       | (r, k, None) \<Rightarrow> (io_Status r, [], s)),
     nt_write = (\<lambda>s bs off.
       case ReadWrite (fst s) (Some (snd s)) (awe_irp Awe_File.IRP_MJ_WRITE off bs) 0 of
         (r, k, Some ctx) \<Rightarrow> (io_Status r, nat (io_Information r), (k, ctx))
       | (r, k, None) \<Rightarrow> (io_Status r, 0, s)),
     nt_zero_data = (\<lambda>s off beyond. (awe_control layout s 0x980C8 (to_le 8 off @ to_le 8 beyond), s)),
     nt_trim = (\<lambda>s ranges. (awe_control layout s 0x98208 (to_le 4 0 @ to_le 4 (int (length ranges)) @
       concat (map (\<lambda>(a, n). to_le 8 a @ to_le 8 n) ranges)), s)),
     nt_size = (\<lambda>s. case QueryInformation (snd s) FileStandardInformation 24 0 of
       r \<Rightarrow> (io_Status r, le_of (take 8 (drop 8 (io_buffer r))))),
     nt_set_size = (\<lambda>s n. case SetInformation (fst s) (snd s) FileEndOfFileInformation (to_le 8 n) 0 of
       (r, k, ctx) \<Rightarrow> (io_Status r, (k, ctx)))\<rparr>"

lemma awe_control_refuses: "awe_control layout s code input \<noteq> STATUS_SUCCESS"
  by (simp add: awe_control_def AllocControl_def complete_def Let_def NT_SUCCESS_def)

interpretation awe: backing_file "awe_file layout" awe_get awe_len awe_inv for layout
proof
  fix s :: "kernel \<times> object_context" and off :: int and n :: nat and bs :: "byte list"
  assume inv: "awe_inv s"
  {
    assume "fits (awe_len s) off n"
    then have f: "fits (awe_len s) off (length (replicate n (0 :: byte)))" by simp
    from awe_read_in [OF inv f] obtain r k' ctx' where
      "ReadWrite (fst s) (Some (snd s)) (awe_irp Awe_File.IRP_MJ_READ off (replicate n 0)) 0 = (r, k', Some ctx')"
      "io_Status r = STATUS_SUCCESS" "io_Information r = int n" "io_buffer r = mem_bytes (awe_get s) off n"
      "awe_inv (k', ctx')" "awe_get (k', ctx') = awe_get s" "awe_len (k', ctx') = awe_len s"
      by (metis length_replicate)
    then show "\<exists>f'. nt_read (awe_file layout) s off n = (STATUS_SUCCESS, mem_bytes (awe_get s) off n, f') \<and>
        awe_inv f' \<and> awe_get f' = awe_get s \<and> awe_len f' = awe_len s"
      by (simp add: awe_file_def)
  }
  {
    assume "fits (awe_len s) off (length bs)"
    from awe_write_in [OF inv this] obtain r k' ctx' where
      "ReadWrite (fst s) (Some (snd s)) (awe_irp Awe_File.IRP_MJ_WRITE off bs) 0 = (r, k', Some ctx')"
      "io_Status r = STATUS_SUCCESS" "io_Information r = int (length bs)" "awe_inv (k', ctx')"
      "awe_get (k', ctx') = mem_write (awe_get s) off bs" "awe_len (k', ctx') = awe_len s" by metis
    then show "\<exists>f'. nt_write (awe_file layout) s bs off = (STATUS_SUCCESS, length bs, f') \<and>
        awe_inv f' \<and> awe_get f' = mem_write (awe_get s) off bs \<and> awe_len f' = awe_len s"
      by (simp add: awe_file_def)
  }
  {
    assume "fits (awe_len s) off n"
    show "\<exists>status f'. nt_zero_data (awe_file layout) s off (off + int n) = (status, f') \<and> awe_inv f' \<and>
        awe_len f' = awe_len s \<and>
        awe_get f' = (if NT_SUCCESS status then mem_write (awe_get s) off (replicate n 0) else awe_get s)"
      using inv awe_control_refuses by (simp add: awe_file_def NT_SUCCESS_def)
  }
qed

text \<open>
  C19. The two drivers together are a disk: on a device in service that is backed by a file of the
  physical-memory driver (or by memory of its own), without byte swapping and with memory for its
  transfers, any sequence of writes inside the device followed by a read returns the bytes a flat
  byte array would hold; every request succeeds and keeps the device in service, with a cache that
  agrees with the file.\<close>

theorem device_on_awe_is_a_disk:
  assumes "files os = awe_file layout" "\<And>n. n < 2 ^ 31 \<Longrightarrow> pool os n"
    and "plain_ok awe_get awe_len awe_inv dx"
    and "\<And>off bs. (off, bs) \<in> set ws \<Longrightarrow> fits (disk_size dx) off (length bs)"
    and "fits (disk_size dx) off (length io)"
  shows "\<exists>dx1 dx2. wr_all (device_write os) dx ws = Some dx1 \<and>
     device_read os dx1 io off =
       Some (int (length io), mem_bytes (flat_all (disk_bytes awe_get dx) ws) off (length io), dx2) \<and>
     plain_ok awe_get awe_len awe_inv dx2"
proof -
  note store = awe.device_is_a_store [OF assms(1,2)]
  from disk_store.wr_all_flat [OF store assms(3,4)] obtain dx1 where
    w: "wr_all (device_write os) dx ws = Some dx1" "plain_ok awe_get awe_len awe_inv dx1"
      "disk_size dx1 = disk_size dx" "disk_bytes awe_get dx1 = flat_all (disk_bytes awe_get dx) ws" by blast
  from assms(5) w(3) have "fits (disk_size dx1) off (length io)" by simp
  from disk_reader.rd_ok [OF disk_store.axioms(1) [OF store] w(2) this] w show ?thesis by auto
qed

text \<open>A device of two megabytes behind eight bytes of the sample file, and no proxy.\<close>

definition no_stream :: "unit stream_ops" where
  "no_stream = \<lparr>io_read = (\<lambda>s n. (No_irp, [], s)), io_write = (\<lambda>s bs. (No_irp, 0, s)),
     io_cancelled = (\<lambda>s. False), io_alloc = (\<lambda>n. True)\<rparr>"

definition awe_dev_ops :: "(kernel \<times> object_context, unit) dev_ops" where
  "awe_dev_ops = \<lparr>files = awe_file (\<lambda>ctx. []),
     proxies = \<lparr>px_stream = no_stream, px_turn = (\<lambda>s v. (None, s)), px_claim = (\<lambda>s n. (None, s)),
       px_switch = (\<lambda>s n. s)\<rparr>,
     pool = (\<lambda>n. True), byte_behind = 1, new_memory = (\<lambda>n. None)\<rparr>"

definition awe_device :: "bool \<Rightarrow> bool \<Rightarrow> bool \<Rightarrow> (kernel \<times> object_context, unit) device_extension" where
  "awe_device par sparse swap = \<lparr>file_handle = sample_file,
     proxy = \<lparr>connection_type = PROXY_CONNECTION_DEVICE, device = False, request_event_handle = False,
       request_event = False, response_event_handle = False, response_event = False,
       shared_memory = [], shared_memory_size = 0, peer = ()\<rparr>,
     image_buffer = (\<lambda>i. 0), disk_size = 2097152, image_offset = 8, vm_disk = False,
     awefsalloc_disk = True, use_proxy = False, proxy_unmap = False, proxy_zero = False,
     parallel_io = par, direct_io = True, byte_swap = swap, shared_image = False, read_only = False,
     image_modified = False, use_set_zero_data = sparse, no_file_level_trim = False,
     terminate_thread = False, media_change_count = 1,
     last_io_data = None, last_io_offset = 0, last_io_length = 0\<rparr>"

lemma awe_device_ok:
  "plain_ok awe_get awe_len awe_inv (awe_device True False False)"
  "device_ok awe_get awe_len awe_inv (awe_device False False swap)"
  "device_base awe_get awe_len awe_inv (awe_device True True False)"
  "disk_size (awe_device par sparse swap) = 2097152"
  "disk_bytes awe_get (awe_device par sparse swap) i = awe_get sample_file (8 + i)"
  by (simp_all add: awe_device_def plain_ok_def device_ok_def device_base_def cache_coherent_def
      disk_bytes_def awe_inv_def awe_len_def sample_file_ok)

lemma awe_dev_ops_ok: "files awe_dev_ops = awe_file (\<lambda>ctx. [])" "pool awe_dev_ops n"
  by (simp_all add: awe_dev_ops_def)

theorem device_on_awe_is_a_disk_witness:
  "\<exists>dx1 dx2. wr_all (device_write awe_dev_ops) (awe_device True False False) [(2097142, [1, 2]), (2097143, [5])] = Some dx1 \<and>
     device_read awe_dev_ops dx1 [0, 0, 0, 0] 2097142 = Some (4, [1, 5, 8, 0], dx2)"
proof -
  let ?ws = "[(2097142, [1, 2]), (2097143, [5])] :: (int \<times> byte list) list"
  let ?dx = "awe_device True False False"
  have f: "fits (disk_size ?dx) off (length bs)" if "(off, bs) \<in> set ?ws" for off bs
    using that by (auto simp: fits_def awe_device_ok)
  have g: "fits (disk_size ?dx) 2097142 (length [0, 0, 0, 0 :: byte])" by (simp add: fits_def awe_device_ok)
  have "mem_bytes (flat_all (disk_bytes awe_get ?dx) ?ws) 2097142 (length [0, 0, 0, 0 :: byte]) = [1, 5, 8, 0]"
    by (simp add: mem_bytes_Suc mem_write_def awe_device_ok awe_get_def sample_file_ok sample_file_bytes)
  with device_on_awe_is_a_disk [where ws = ?ws, OF awe_dev_ops_ok awe_device_ok(1) f g] show ?thesis by auto
qed

text \<open>
  Byte swapping is lost on writes: the handler swaps as many bytes of its copy as the request has
  already transferred, which is none. So on a device with byte swapping the image receives the
  bytes as they are, and reading them back returns every pair swapped.\<close>

lemma swapped_writes_come_back_swapped:
  assumes "files os = awe_file layout" "\<And>n. n < 2 ^ 31 \<Longrightarrow> pool os n"
    and "device_ok awe_get awe_len awe_inv dx" "byte_swap dx" "\<not> vm_disk dx" "\<not> parallel_io dx"
    and "fits (disk_size dx) off (length bs)" "length io = length bs"
  shows "\<exists>dx1 dx2. device_write os dx bs off = Some (int (length bs), dx1) \<and>
     disk_bytes awe_get dx1 = mem_write (disk_bytes awe_get dx) off bs \<and>
     device_read os dx1 io off = Some (int (length bs), ByteSwapBuffer bs, dx2)"
  by (rule awe.swapped_write_read [OF assms(3-6,1,2,7,8)])

lemma swapped_writes_come_back_swapped_witness:
  "\<exists>dx1 dx2. device_write awe_dev_ops (awe_device False False True) [1, 2, 3, 4] 512 = Some (4, dx1) \<and>
     device_read awe_dev_ops dx1 [0, 0, 0, 0] 512 = Some (4, [2, 1, 4, 3], dx2)"
  using swapped_writes_come_back_swapped [OF awe_dev_ops_ok awe_device_ok(2) [of True], of 512 "[1, 2, 3, 4]" "[0, 0, 0, 0]"]
  by (auto simp: awe_device_ok fits_def) (auto simp: awe_device_def)

text \<open>
  A disk on the physical-memory driver that is marked sparse returns stale zeros. Its requests go
  directly to the file's device, which takes direct I/O; only a block of zeros is queued for the
  thread, and the thread keeps it in the cache. A later direct write does not touch the cache, so
  a read of the same range is answered with the zeros while the file holds the new bytes.\<close>

lemma direct_write_leaves_stale_cache:
  assumes "files os = awe_file layout" "\<And>n. n < 2 ^ 31 \<Longrightarrow> pool os n"
    and "device_base awe_get awe_len awe_inv dx" "parallel_io dx" "direct_io dx" "use_set_zero_data dx"
    and "\<not> shared_image dx" "\<not> byte_swap dx"
    and "fits (disk_size dx) off (length bs)" "8 < length bs" "length bs mod 4 = 0"
    and "bs \<noteq> replicate (length bs) 0" "length io = length bs"
  shows "\<exists>dx1 dx2 dx3. device_write os dx (replicate (length bs) 0) off = Some (int (length bs), dx1) \<and>
     device_write os dx1 bs off = Some (int (length bs), dx2) \<and>
     disk_bytes awe_get dx2 = mem_write (disk_bytes awe_get dx) off bs \<and>
     device_read os dx2 io off = Some (int (length bs), replicate (length bs) 0, dx3)"
  by (rule awe.stale_zeros [OF assms(3-8,1,2,9-13)])

lemma direct_write_leaves_stale_cache_witness:
  "\<exists>dx1 dx2 dx3. device_write awe_dev_ops (awe_device True True False) (replicate 12 0) 512 = Some (12, dx1) \<and>
     device_write awe_dev_ops dx1 (replicate 12 7) 512 = Some (12, dx2) \<and>
     device_read awe_dev_ops dx2 (replicate 12 1) 512 = Some (12, replicate 12 0, dx3)"
  using direct_write_leaves_stale_cache [OF awe_dev_ops_ok awe_device_ok(3), of 512 "replicate 12 7" "replicate 12 1"]
  by (auto simp: awe_device_ok fits_def) (auto simp: awe_device_def)

end
