(* ===== verification/Sys_Registry.thy ===== *)
theory Sys_Registry
  imports Drv_Registry
begin

text \<open>
  The driver's start (\<open>sys/fscryptdisk.cpp\<close>): the values under the \<open>Parameters\<close> key, the devices
  that are created at boot, creation on request, and the links for drive letters. The worker thread
  that builds a device object from the creation data is a call with an outcome.
\<close>

section \<open>Reading values\<close>

text \<open>\<open>ZwQueryValueKey\<close> into a buffer with room for \<open>cap\<close> bytes of data: the structure's own size and
  the extra bytes the code adds, less the twelve bytes before the data.\<close>

definition query_value :: "reg_key \<Rightarrow> string \<Rightarrow> nat \<Rightarrow> ntstatus \<times> reg_type \<times> byte list" where
  "query_value key name extra =
     (case key name of
        None \<Rightarrow> (STATUS_OBJECT_NAME_NOT_FOUND, REG_OTHER, [])
      | Some (ty, d) \<Rightarrow> if length d \<le> 16 + extra - 12 then (STATUS_SUCCESS, ty, d)
                       else (STATUS_BUFFER_OVERFLOW, ty, []))"

definition MAXIMUM_FILENAME_LENGTH :: nat where "MAXIMUM_FILENAME_LENGTH = 256"

fun wide :: "byte list \<Rightarrow> wchar list" where
  "wide (a # b # rest) = word_of_int (le_of [a, b]) # wide rest"
| "wide _ = []"

section \<open>Devices of the registry\<close>

record boot_env =
  boot_pool :: "nat \<Rightarrow> bool"
  thread_status :: ntstatus

text \<open>What \<open>FscryptDiskAddVirtualDiskAfterInitialization\<close> reads for one device. The file name's bytes
  are those of the value without the terminator; a length that is not there is 0 bytes less 2.\<close>

definition read_settings :: "reg_key \<Rightarrow> int \<Rightarrow> create_data" where
  "read_settings key n =
     (case query_value key (file_name_value n) (MAXIMUM_FILENAME_LENGTH * 2) of (st1, ty1, name) \<Rightarrow>
      case query_value key (size_value n) 8 of (st2, ty2, sz) \<Rightarrow>
      case query_value key (flags_value n) 4 of (st3, ty3, flags) \<Rightarrow>
      case query_value key (letter_value n) 2 of (st4, ty4, letter) \<Rightarrow>
      case query_value key (offset_value n) 8 of (st5, ty5, off) \<Rightarrow>
      let name = (if \<not> NT_SUCCESS st1 \<or> ty1 \<noteq> REG_SZ then [0, 0] else name);
          sz = (if \<not> NT_SUCCESS st2 \<or> (ty2 \<noteq> REG_BINARY \<and> ty2 \<noteq> REG_QWORD \<or> length sz \<noteq> 8)
                  then replicate 8 0 else sz);
          flags = (if \<not> NT_SUCCESS st3 \<or> ty3 \<noteq> REG_DWORD then replicate 4 0 else flags);
          letter = (if \<not> NT_SUCCESS st4 then [0, 0] else letter);
          off = (if \<not> NT_SUCCESS st5 \<or> (ty5 \<noteq> REG_BINARY \<and> ty5 \<noteq> REG_QWORD) \<or> length off \<noteq> 8
                 then replicate 8 0 else off);
          name_length = u16 (u16 (int (length name)) - 2)
      in \<lparr>DeviceNumber = n, Cylinders = s64 (le_of sz), ImageOffset = s64 (le_of off),
          Flags = le_of (take 4 flags), DriveLetter = word_of_int (le_of (take 2 letter)),
          FileNameLength = name_length, FileName = wide (take (nat name_length) name)\<rparr>)"

text \<open>Five blocks for the values, one for names, the creation data and the thread's data; then the
  thread starts. The second component is what the thread gets.\<close>

definition AddVirtualDiskAfterInitialization ::
    "boot_env \<Rightarrow> reg_key \<Rightarrow> int \<Rightarrow> ntstatus \<times> create_data option" where
  "AddVirtualDiskAfterInitialization env key n =
     (if \<exists>i \<in> set [0..<8]. \<not> boot_pool env i then (STATUS_INSUFFICIENT_RESOURCES, None)
      else if \<not> NT_SUCCESS (thread_status env) then (thread_status env, None)
      else (STATUS_SUCCESS, Some (read_settings key n)))"

text \<open>The copy of the name into a block that holds the creation data and \<open>DataLength\<close> more bytes stays
  inside the value that was read.\<close>

definition name_copy_in_bounds :: "reg_key \<Rightarrow> int \<Rightarrow> bool" where
  "name_copy_in_bounds key n \<longleftrightarrow>
     (case query_value key (file_name_value n) (MAXIMUM_FILENAME_LENGTH * 2) of (st, ty, name) \<Rightarrow>
        \<not> NT_SUCCESS st \<or> ty \<noteq> REG_SZ \<or> u16 (u16 (int (length name)) - 2) \<le> int (length name))"

section \<open>Driver entry\<close>

definition FSCRYPTDISK_DEFAULT_LOAD_DEVICES :: int where "FSCRYPTDISK_DEFAULT_LOAD_DEVICES = 0"
definition FSCRYPTDISK_DEFAULT_MAX_DEVICES :: int where "FSCRYPTDISK_DEFAULT_MAX_DEVICES = 64000"

text \<open>The letters A to Z named in the value, in either case; the loop ends at the first NUL.\<close>

definition upper :: "wchar \<Rightarrow> wchar" where "upper c = and c (not 0x20)"

definition is_letter :: "wchar \<Rightarrow> bool" where "is_letter c \<longleftrightarrow> 65 \<le> uint c \<and> uint c \<le> 90"

definition disallowed_letters :: "byte list \<Rightarrow> wchar list" where
  "disallowed_letters d = filter is_letter (map upper (takeWhile (\<lambda>c. c \<noteq> 0) (wide d)))"

record driver_settings =
  DisallowedDriveLetters :: "wchar list"
  n_devices :: int
  MaxDevices :: int

definition default_settings :: driver_settings where
  "default_settings = \<lparr>DisallowedDriveLetters = [], n_devices = FSCRYPTDISK_DEFAULT_LOAD_DEVICES,
     MaxDevices = FSCRYPTDISK_DEFAULT_MAX_DEVICES\<rparr>"

definition read_parameters :: "reg_key \<Rightarrow> driver_settings option" where
  "read_parameters key =
     (case query_value key CFG_DISALLOWED 4 of (st1, ty1, letters) \<Rightarrow>
      case query_value key CFG_LOAD_DEVICES 4 of (st2, ty2, load) \<Rightarrow>
      case query_value key CFG_MAX_DEVICES 4 of (st3, ty3, most) \<Rightarrow>
      if NT_SUCCESS st1 \<and> ty1 \<noteq> REG_SZ \<or> NT_SUCCESS st2 \<and> ty2 \<noteq> REG_DWORD \<or>
         NT_SUCCESS st3 \<and> ty3 \<noteq> REG_DWORD
      then None
      else Some \<lparr>
        DisallowedDriveLetters = (if NT_SUCCESS st1 then disallowed_letters letters else []),
        n_devices = (if NT_SUCCESS st2 then le_of (take 4 load) else FSCRYPTDISK_DEFAULT_LOAD_DEVICES),
        MaxDevices = (if NT_SUCCESS st3 then min (le_of (take 4 most)) FSCRYPTDISK_DEFAULT_MAX_DEVICES
                      else FSCRYPTDISK_DEFAULT_MAX_DEVICES)\<rparr>)"

text \<open>The outcomes of the other calls of \<open>DriverEntry\<close>.\<close>

record entry_env =
  path_pool :: bool
  info_pool :: bool
  open_status :: ntstatus
  ctl_status :: ntstatus
  boot :: "int \<Rightarrow> boot_env"
  event_pool :: bool
  descriptor_status :: ntstatus
  dacl_status :: ntstatus
  event_status :: ntstatus
  local_event_status :: ntstatus
  path_not_found :: bool
  reference_status :: ntstatus

definition refresh_event :: "entry_env \<Rightarrow> bool" where
  "refresh_event env \<longleftrightarrow>
     event_pool env \<and> NT_SUCCESS (descriptor_status env) \<and> NT_SUCCESS (dacl_status env) \<and>
     NT_SUCCESS (if path_not_found env then local_event_status env else event_status env) \<and>
     NT_SUCCESS (reference_status env)"

text \<open>The result: the status, the settings in force, the outcome of each device loaded, and whether
  there is a refresh event.\<close>

definition DriverEntry_sys ::
    "entry_env \<Rightarrow> reg_key \<Rightarrow>
     ntstatus \<times> (driver_settings \<times> (ntstatus \<times> create_data option) list \<times> bool) option" where
  "DriverEntry_sys env key =
     (if \<not> path_pool env then (STATUS_INSUFFICIENT_RESOURCES, None)
      else if NT_SUCCESS (open_status env) \<and> \<not> info_pool env then (STATUS_INSUFFICIENT_RESOURCES, None)
      else case (if NT_SUCCESS (open_status env) then read_parameters key else Some default_settings) of
        None \<Rightarrow> (STATUS_INVALID_PARAMETER, None)
      | Some ds \<Rightarrow>
          if \<not> NT_SUCCESS (ctl_status env) then (ctl_status env, None)
          else (STATUS_SUCCESS,
                Some (ds,
                      map (\<lambda>n. AddVirtualDiskAfterInitialization (boot env n) key n) [0..n_devices ds - 1],
                      refresh_event env)))"

section \<open>Creation on request, drive letters\<close>

text \<open>\<open>created\<close> is what the device thread reports: its status and the device's number.\<close>

definition AddVirtualDisk ::
    "driver_settings \<Rightarrow> ntstatus \<Rightarrow> (create_data \<Rightarrow> ntstatus \<times> create_data) \<Rightarrow> create_data \<Rightarrow>
     ntstatus \<times> create_data \<times> (wchar \<times> int) option" where
  "AddVirtualDisk ds thread created cd =
     (if DriveLetter cd \<noteq> 0 \<and> is_letter (upper (DriveLetter cd)) \<and>
         upper (DriveLetter cd) \<in> set (DisallowedDriveLetters ds)
      then (STATUS_ACCESS_DENIED, cd, None)
      else if \<not> NT_SUCCESS thread then (thread, cd, None)
      else case created cd of (status, cd) \<Rightarrow>
      if \<not> NT_SUCCESS status then (status, cd, None)
      else (STATUS_SUCCESS, cd, if DriveLetter cd \<noteq> 0 then Some (DriveLetter cd, DeviceNumber cd) else None))"

end
