(* ===== verification/Sys_Registry_Props.thy ===== *)
theory Sys_Registry_Props
  imports Sys_Registry
begin

text \<open>
  What the control library saves is what the driver reads at its next start: the names of the values
  are distinct, the encodings of the values are inverted by the reader, and a device that is removed
  leaves the others alone.
\<close>

section \<open>Names\<close>

definition undec :: "string \<Rightarrow> nat" where
  "undec s = foldl (\<lambda>a c. 10 * a + (of_char c - 48)) 0 s"

lemma undec_dec: "undec (dec n) = n"
proof (induction n rule: dec.induct)
  case (1 n)
  have digit: "of_char (char_of (48 + d) :: char) = 48 + d" if "d < 10" for d :: nat
    using that by (simp add: of_char_of)
  show ?case
  proof (cases "n < 10")
    case True
    then show ?thesis by (simp add: dec.simps [of n] undec_def digit)
  next
    case False
    then have "undec (dec n) = 10 * undec (dec (n div 10)) + n mod 10"
      by (simp add: dec.simps [of n] undec_def digit)
    then show ?thesis using 1 False by simp
  qed
qed

lemma dec_inj [simp]: "dec m = dec n \<longleftrightarrow> m = n"
  by (metis undec_dec)

lemmas value_names = file_name_value_def size_value_def flags_value_def letter_value_def
  offset_value_def CFG_LOAD_DEVICES_def CFG_MAX_DEVICES_def CFG_DISALLOWED_def

lemma setting_names_distinct: "distinct (setting_names n)"
  by (simp add: setting_names_def value_names)

lemma setting_names_disjoint:
  assumes "0 \<le> m" "0 \<le> n" "m \<noteq> n" "x \<in> set (setting_names m)"
  shows "x \<notin> set (setting_names n)"
  using assms by (auto simp: setting_names_def value_names)

lemma parameters_are_no_settings:
  "CFG_LOAD_DEVICES \<notin> set (setting_names n)" "CFG_MAX_DEVICES \<notin> set (setting_names n)"
  "CFG_DISALLOWED \<notin> set (setting_names n)"
  by (simp_all add: setting_names_def value_names)

section \<open>Wide strings\<close>

lemma wbytes_Cons: "wbytes (w # ws) = to_le 2 (uint w) @ wbytes ws"
  by (simp add: wbytes_def)

lemma length_wbytes [simp]: "length (wbytes ws) = 2 * length ws"
  by (induction ws) (simp_all add: wbytes_Cons, simp add: wbytes_def)

lemma two_elements: "length xs = 2 \<Longrightarrow> \<exists>a b. xs = [a, b]"
  by (auto simp: numeral_2_eq_2 length_Suc_conv)

lemma wide_wchar: "wide (to_le 2 (uint w) @ rest) = w # wide rest" for w :: wchar
proof -
  obtain a b where ab: "to_le 2 (uint w) = [a, b]"
    using two_elements [OF length_to_le] by blast
  have "le_of (to_le 2 (uint w)) = uint w mod 65536" by (simp only: le_of_to_le) simp
  then have "le_of [a, b] = uint w" using uint_lt2p [of w] by (simp only: ab) simp
  then show ?thesis by (simp only: ab append.simps wide.simps word_of_int_uint)
qed

lemma wide_wbytes: "wide (wbytes ws @ rest) = ws @ wide rest"
  by (induction ws) (simp_all add: wbytes_Cons wide_wchar, simp add: wbytes_def)

lemma take_wbytes: "take (2 * n) (wbytes ws) = wbytes (take n ws)"
proof (induction ws arbitrary: n)
  case Nil
  then show ?case by (simp add: wbytes_def)
next
  case (Cons w ws)
  then show ?case by (cases n) (simp_all add: wbytes_Cons, simp add: wbytes_def)
qed

section \<open>Saving\<close>

lemma save_values_ok:
  "save_values env f vs key = (Inr (), key') \<Longrightarrow> key' = fold (\<lambda>(name, v) k. k(name := v)) vs key"
  by (induction env f vs key rule: save_values.induct) (auto split: if_splits option.splits)

lemma delete_values_ok:
  "delete_values env ns key = (Inr (), key') \<Longrightarrow> key' = (\<lambda>x. if x \<in> set ns then None else key x)"
  by (induction env ns key rule: delete_values.induct) (auto split: if_splits)

lemma settings_names: "map fst (settings cd) = setting_names (DeviceNumber cd)"
  by (simp add: settings_def setting_names_def)

lemma fold_upd_other:
  "x \<notin> fst ` set vs \<Longrightarrow> fold (\<lambda>(name, v) k. k(name := v)) vs key x = key x"
  by (induction vs arbitrary: key) auto

lemma fold_upd_in:
  "distinct (map fst vs) \<Longrightarrow> (x, v) \<in> set vs \<Longrightarrow> fold (\<lambda>(name, v) k. k(name := v)) vs key x = v"
  by (induction vs arbitrary: key) (auto simp: fold_upd_other)

text \<open>A key in which the settings of a device are stored.\<close>

definition holds :: "reg_key \<Rightarrow> create_data \<Rightarrow> bool" where
  "holds key cd \<longleftrightarrow> (\<forall>(x, v) \<in> set (settings cd). key x = v)"

lemma save_holds:
  assumes "save_values env f (settings cd) key = (Inr (), key')"
  shows "holds key' cd"
proof -
  have d: "distinct (map fst (settings cd))" by (simp only: settings_names setting_names_distinct)
  have "key' x = v" if "(x, v) \<in> set (settings cd)" for x v
    unfolding save_values_ok [OF assms] by (rule fold_upd_in [OF d that])
  then show ?thesis unfolding holds_def by blast
qed

lemma save_keeps:
  assumes "save_values env f (settings cd) key = (Inr (), key')" "x \<notin> set (setting_names (DeviceNumber cd))"
  shows "key' x = key x"
proof -
  have "x \<notin> fst ` set (settings cd)"
    using assms(2) by (simp only: set_map [symmetric] settings_names not_False_eq_True)
  then show ?thesis unfolding save_values_ok [OF assms(1)] by (rule fold_upd_other)
qed

section \<open>Reading back\<close>

definition savable :: "create_data \<Rightarrow> bool" where
  "savable cd \<longleftrightarrow>
     0 \<le> DeviceNumber cd \<and> DeviceNumber cd < 2 ^ 32 \<and>
     0 \<le> Cylinders cd \<and> Cylinders cd < 2 ^ 63 \<and> 0 \<le> ImageOffset cd \<and> ImageOffset cd < 2 ^ 63 \<and>
     0 \<le> Flags cd \<and> Flags cd < 2 ^ 32 \<and>
     FileNameLength cd = 2 * int (length (FileName cd)) \<and> length (FileName cd) \<le> 257 \<and>
     0 \<notin> set (FileName cd)"

lemma query_value_simps:
  "key name = None \<Longrightarrow> query_value key name n = (STATUS_OBJECT_NAME_NOT_FOUND, REG_OTHER, [])"
  "key name = Some (ty, d) \<Longrightarrow> length d \<le> 16 + n - 12 \<Longrightarrow> query_value key name n = (STATUS_SUCCESS, ty, d)"
  by (simp_all add: query_value_def)

lemma stored_name_savable: "savable cd \<Longrightarrow> stored_name cd = FileName cd"
  by (auto simp: stored_name_def savable_def intro!: takeWhile_eq_all_conv [THEN iffD2])

lemma holds_values:
  assumes "holds key cd"
  shows "key (file_name_value (DeviceNumber cd)) =
           (if 0 < FileNameLength cd then Some (REG_SZ, wbytes (stored_name cd @ [0])) else None)"
    "key (size_value (DeviceNumber cd)) =
       (if 0 < Cylinders cd then Some (REG_QWORD, to_le 8 (u64 (Cylinders cd))) else None)"
    "key (flags_value (DeviceNumber cd)) =
       (if Flags cd \<noteq> 0 then Some (REG_DWORD, to_le 4 (Flags cd)) else None)"
    "key (letter_value (DeviceNumber cd)) =
       (if DriveLetter cd \<noteq> 0 then Some (REG_SZ, wbytes [DriveLetter cd, 0]) else None)"
    "key (offset_value (DeviceNumber cd)) =
       (if 0 < ImageOffset cd then Some (REG_QWORD, to_le 8 (u64 (ImageOffset cd))) else None)"
  using assms by (simp_all add: holds_def settings_def)

lemma name_read_back:
  assumes "holds key cd" "savable cd"
    "query_value key (file_name_value (DeviceNumber cd)) (MAXIMUM_FILENAME_LENGTH * 2) = (st, ty, d)"
  defines "d' \<equiv> if \<not> NT_SUCCESS st \<or> ty \<noteq> REG_SZ then [0, 0] else d"
  defines "n \<equiv> u16 (u16 (int (length d')) - 2)"
  shows "n = FileNameLength cd \<and> wide (take (nat n) d') = FileName cd"
proof (cases "FileName cd = []")
  case True
  with assms(1,2,3) have "d' = [0, 0]"
    by (auto simp: query_value_def holds_values savable_def d'_def)
  with True assms(2) show ?thesis
    by (simp add: n_def savable_def u16_def)
next
  case False
  let ?d = "wbytes (FileName cd @ [0])"
  have len: "length (FileName cd) \<le> 257" and fl: "FileNameLength cd = 2 * int (length (FileName cd))"
    using assms(2) by (simp_all add: savable_def)
  have q: "query_value key (file_name_value (DeviceNumber cd)) (MAXIMUM_FILENAME_LENGTH * 2) = (STATUS_SUCCESS, REG_SZ, ?d)"
    using False fl len assms(1,2)
    by (simp add: query_value_def holds_values stored_name_savable MAXIMUM_FILENAME_LENGTH_def)
  have u: "u16 (u16 (int (length ?d)) - 2) = FileNameLength cd"
    using len fl by (simp add: u16_def)
  have "take (nat (FileNameLength cd)) ?d = wbytes (FileName cd)"
    using take_wbytes [of "length (FileName cd)" "FileName cd @ [0]"] fl by (simp add: nat_mult_distrib)
  then have "wide (take (nat (FileNameLength cd)) ?d) = FileName cd"
    using wide_wbytes [of "FileName cd" "[]"] by simp
  moreover have "d' = ?d" using q assms(3) by (auto simp: d'_def)
  ultimately show ?thesis using u unfolding n_def by (simp only: simp_thms)
qed

lemma numbers_read_back:
  assumes "holds key cd" "savable cd"
  shows "query_value key (size_value (DeviceNumber cd)) 8 = (st2, ty2, sz) \<Longrightarrow>
      s64 (le_of (if \<not> NT_SUCCESS st2 \<or> (ty2 \<noteq> REG_BINARY \<and> ty2 \<noteq> REG_QWORD \<or> length sz \<noteq> 8)
                  then replicate 8 0 else sz)) = Cylinders cd" (is "_ \<Longrightarrow> ?size")
    "query_value key (flags_value (DeviceNumber cd)) 4 = (st3, ty3, flags) \<Longrightarrow>
      le_of (take 4 (if \<not> NT_SUCCESS st3 \<or> ty3 \<noteq> REG_DWORD then replicate 4 0 else flags)) = Flags cd" (is "_ \<Longrightarrow> ?flags")
    "query_value key (offset_value (DeviceNumber cd)) 8 = (st5, ty5, off) \<Longrightarrow>
      s64 (le_of (if \<not> NT_SUCCESS st5 \<or> (ty5 \<noteq> REG_BINARY \<and> ty5 \<noteq> REG_QWORD) \<or> length off \<noteq> 8
                  then replicate 8 0 else off)) = ImageOffset cd" (is "_ \<Longrightarrow> ?off")
proof -
  have 64: "le_of (to_le 8 (u64 x)) = x" "s64 x = x" if "0 \<le> x" "x < 2 ^ 63" for x
    using that by (simp_all add: le_of_to_le u64_def s64_def)
  have 32: "le_of (to_le 4 x) = x" if "0 \<le> x" "x < 2 ^ 32" for x
    using that by (simp add: le_of_to_le)
  have zero: "s64 0 = 0" by (simp add: s64_def)
  note sv = assms(2) [unfolded savable_def]
  show "query_value key (size_value (DeviceNumber cd)) 8 = (st2, ty2, sz) \<Longrightarrow> ?size"
    using sv 64 [of "Cylinders cd"] zero
    by (cases "0 < Cylinders cd") (auto simp: query_value_def holds_values [OF assms(1)])
  show "query_value key (offset_value (DeviceNumber cd)) 8 = (st5, ty5, off) \<Longrightarrow> ?off"
    using sv 64 [of "ImageOffset cd"] zero
    by (cases "0 < ImageOffset cd") (auto simp: query_value_def holds_values [OF assms(1)])
  show "query_value key (flags_value (DeviceNumber cd)) 4 = (st3, ty3, flags) \<Longrightarrow> ?flags"
    using sv 32 [of "Flags cd"]
    by (cases "Flags cd = 0") (auto simp: query_value_def holds_values [OF assms(1)])
qed

lemma letter_read_back:
  assumes "holds key cd" "query_value key (letter_value (DeviceNumber cd)) 2 = (st, ty, l)"
  shows "word_of_int (le_of (take 2 (if \<not> NT_SUCCESS st then [0, 0] else l))) = DriveLetter cd"
proof (cases "DriveLetter cd = 0")
  case True
  then show ?thesis using assms by (auto simp: query_value_def holds_values)
next
  case False
  then have "l = to_le 2 (uint (DriveLetter cd)) @ wbytes [0]" "NT_SUCCESS st"
    using assms by (auto simp: query_value_def holds_values wbytes_Cons)
  moreover have "le_of (to_le 2 (uint (DriveLetter cd))) = uint (DriveLetter cd)"
    using uint_lt2p [of "DriveLetter cd"] unfolding le_of_to_le by simp
  ultimately show ?thesis by simp
qed

lemma read_settings_holds:
  assumes "holds key cd" "savable cd"
  shows "read_settings key (DeviceNumber cd) = cd"
proof -
  obtain st1 ty1 name where q1: "query_value key (file_name_value (DeviceNumber cd)) (MAXIMUM_FILENAME_LENGTH * 2) = (st1, ty1, name)"
    by (metis prod_cases3)
  obtain st2 ty2 sz where q2: "query_value key (size_value (DeviceNumber cd)) 8 = (st2, ty2, sz)"
    by (metis prod_cases3)
  obtain st3 ty3 fl where q3: "query_value key (flags_value (DeviceNumber cd)) 4 = (st3, ty3, fl)"
    by (metis prod_cases3)
  obtain st4 ty4 l where q4: "query_value key (letter_value (DeviceNumber cd)) 2 = (st4, ty4, l)"
    by (metis prod_cases3)
  obtain st5 ty5 off where q5: "query_value key (offset_value (DeviceNumber cd)) 8 = (st5, ty5, off)"
    by (metis prod_cases3)
  show ?thesis
    using name_read_back [OF assms q1] numbers_read_back(1) [OF assms q2] numbers_read_back(2) [OF assms q3]
      numbers_read_back(3) [OF assms q5] letter_read_back [OF assms(1) q4]
    unfolding read_settings_def q1 q2 q3 q4 q5 prod.case Let_def
    by (intro create_data.equality; unfold create_data.simps; elim conjE; (assumption | rule refl | simp))
qed

section \<open>From the control library to the driver\<close>

lemma next_load_covers:
  assumes "next_load q n = (number, load)" "number < 2 ^ 32 - 1" "0 \<le> number"
    "\<And>l. q = Inr l \<Longrightarrow> 0 \<le> l \<and> l < 2 ^ 32"
  shows "number < load" "load < 2 ^ 32"
  using assms by (auto simp: next_load_def u32_def split: sum.splits if_splits)

lemma query_dword_range: "query_dword key name = Inr l \<Longrightarrow> 0 \<le> l \<and> l < 2 ^ 32"
proof -
  assume q: "query_dword key name = Inr l"
  then obtain d where d: "length d \<le> 4" "l = le_of d"
    by (auto simp: query_dword_def split: option.splits if_splits)
  have "(256::int) ^ length d \<le> 256 ^ 4" using d(1) by (rule power_increasing) simp
  then show ?thesis using le_of_range [of d] d(2) by simp
qed

lemma SaveRegistrySettings_ok:
  assumes "SaveRegistrySettings env cd key = (Inr (), cd', key')"
  obtains number load where
    "next_load (query_dword key CFG_LOAD_DEVICES) (DeviceNumber cd) = (number, load)"
    "cd' = cd\<lparr>DeviceNumber := number\<rparr>" "holds key' cd'"
    "key' CFG_LOAD_DEVICES = Some (REG_DWORD, to_le 4 load)"
    "\<And>x. x \<noteq> CFG_LOAD_DEVICES \<Longrightarrow> x \<notin> set (setting_names number) \<Longrightarrow> key' x = key x"
proof -
  obtain number load where nl:
      "next_load (query_dword key CFG_LOAD_DEVICES) (DeviceNumber cd) = (number, load)"
    by fastforce
  let ?cd = "cd\<lparr>DeviceNumber := number\<rparr>"
  have sv: "save_values env (format_file_name env) (settings ?cd)
             (key(CFG_LOAD_DEVICES \<mapsto> (REG_DWORD, to_le 4 load))) = (Inr (), key')" and cd: "cd' = ?cd"
    using assms by (auto simp: SaveRegistrySettings_def nl Let_def split: if_splits prod.splits)
  show ?thesis
    using that [OF nl cd] save_holds [OF sv] save_keeps [OF sv] cd parameters_are_no_settings
    by simp
qed

lemma devices_loaded:
  assumes "DriverEntry_sys env key = (STATUS_SUCCESS, Some (ds, devices, ev))" "NT_SUCCESS (open_status env)"
    "key CFG_LOAD_DEVICES = Some (REG_DWORD, to_le 4 load)" "0 \<le> n" "n < load" "load < 2 ^ 32"
  shows "nat n < length devices \<and>
         devices ! nat n = AddVirtualDiskAfterInitialization (boot env n) key n"
proof -
  have le: "le_of (to_le 4 load) = load" using assms by (simp add: le_of_to_le)
  have "n_devices ds = load" if "read_parameters key = Some ds"
    using that by (auto simp: read_parameters_def query_value_def assms(3) le split: if_splits option.splits)
  moreover have "read_parameters key = Some ds"
      "devices = map (\<lambda>n. AddVirtualDiskAfterInitialization (boot env n) key n) [0..n_devices ds - 1]"
    using assms(1,2) by (auto simp: DriverEntry_sys_def split: if_splits option.splits)
  ultimately show ?thesis using assms(4,5) by simp
qed

lemma loads_holds:
  assumes "holds key cd" "savable cd" "\<forall>i < 8. boot_pool env i" "NT_SUCCESS (thread_status env)"
  shows "AddVirtualDiskAfterInitialization env key (DeviceNumber cd) = (STATUS_SUCCESS, Some cd)"
  using assms by (simp add: AddVirtualDiskAfterInitialization_def read_settings_holds)

text \<open>C21. What is saved is what is loaded. When the control library has saved a device's settings
  (with a number it chose itself or one that was given) and the driver starts on the key that holds
  them, the driver loads the device of that number, and hands to the device thread exactly the creation
  data that was saved: image file, size, offset, flags and drive letter. The conditions on the data
  are the ones the formats need: sizes and offsets that are not negative, a name of at most 257
  characters without a NUL.\<close>

theorem saved_device_is_loaded:
  assumes "SaveRegistrySettings env cd key = (Inr (), cd', key')"
    "savable cd'" "DeviceNumber cd' < 2 ^ 32 - 1"
    "DriverEntry_sys start key' = (STATUS_SUCCESS, Some (ds, devices, ev))" "NT_SUCCESS (open_status start)"
    "\<forall>i < 8. boot_pool (boot start (DeviceNumber cd')) i"
    "NT_SUCCESS (thread_status (boot start (DeviceNumber cd')))"
  shows "nat (DeviceNumber cd') < length devices \<and>
         devices ! nat (DeviceNumber cd') = (STATUS_SUCCESS, Some cd')"
proof -
  from SaveRegistrySettings_ok [OF assms(1)] obtain number load where
    nl: "next_load (query_dword key CFG_LOAD_DEVICES) (DeviceNumber cd) = (number, load)" and
    cd: "cd' = cd\<lparr>DeviceNumber := number\<rparr>" "holds key' cd'" and
    key: "key' CFG_LOAD_DEVICES = Some (REG_DWORD, to_le 4 load)" by metis
  have number: "0 \<le> number" "number < 2 ^ 32 - 1" "DeviceNumber cd' = number"
    using assms(2,3) cd(1) by (simp_all add: savable_def)
  have "number < load" "load < 2 ^ 32"
    using next_load_covers [OF nl number(2,1) query_dword_range] by simp_all
  then show ?thesis
    using devices_loaded [OF assms(4,5) key number(1)] loads_holds [OF cd(2) assms(2,6,7)] number(3)
    by simp
qed

definition good_registry :: reg_env where
  "good_registry = \<lparr>open_key = 0, format_name = \<lambda>_. True, format_file_name = True, set_value = \<lambda>_. 0\<rparr>"

definition good_start :: entry_env where
  "good_start = \<lparr>path_pool = True, info_pool = True, open_status = STATUS_SUCCESS, ctl_status = STATUS_SUCCESS,
     boot = \<lambda>_. \<lparr>boot_pool = \<lambda>_. True, thread_status = STATUS_SUCCESS\<rparr>, event_pool = True,
     descriptor_status = STATUS_SUCCESS, dacl_status = STATUS_SUCCESS, event_status = STATUS_SUCCESS,
     local_event_status = STATUS_SUCCESS, path_not_found = False, reference_status = STATUS_SUCCESS\<rparr>"

definition an_image :: create_data where
  "an_image = \<lparr>DeviceNumber = FSCRYPTDISK_AUTO_DEVICE_NUMBER, Cylinders = 1048576, ImageOffset = 32256, Flags = 256,
     DriveLetter = 70, FileNameLength = 6, FileName = [99, 58, 120]\<rparr>"

lemma save_values_all_good:
  "save_values good_registry True vs key = (Inr (), fold (\<lambda>(name, v) k. k(name := v)) vs key)"
  by (induction vs arbitrary: key) (auto simp: good_registry_def split: option.splits)

lemma saved_image:
  "\<exists>key'. SaveRegistrySettings good_registry an_image (\<lambda>_. None) = (Inr (), an_image\<lparr>DeviceNumber := 0\<rparr>, key')"
  by (simp add: SaveRegistrySettings_def query_dword_def next_load_def an_image_def Let_def
      save_values_all_good good_registry_def [THEN arg_cong [where f = open_key]]
      good_registry_def [THEN arg_cong [where f = set_value]]
      good_registry_def [THEN arg_cong [where f = format_file_name]])

lemma started_on_saved:
  assumes "SaveRegistrySettings env cd (\<lambda>_. None) = (Inr (), cd', key')"
  shows "\<exists>ds devices ev. DriverEntry_sys good_start key' = (STATUS_SUCCESS, Some (ds, devices, ev))"
proof -
  from SaveRegistrySettings_ok [OF assms] obtain number load where
    key: "key' CFG_LOAD_DEVICES = Some (REG_DWORD, to_le 4 load)" and
    other: "\<And>x. x \<noteq> CFG_LOAD_DEVICES \<Longrightarrow> x \<notin> set (setting_names number) \<Longrightarrow> key' x = None" by metis
  have "CFG_MAX_DEVICES \<noteq> CFG_LOAD_DEVICES" "CFG_DISALLOWED \<noteq> CFG_LOAD_DEVICES"
    by (simp_all add: value_names)
  then have "key' CFG_MAX_DEVICES = None" "key' CFG_DISALLOWED = None"
    using other parameters_are_no_settings by simp_all
  then show ?thesis
    by (simp add: DriverEntry_sys_def good_start_def read_parameters_def query_value_def key)
qed

theorem saved_device_is_loaded_witness:
  "\<exists>key' ds devices ev.
     SaveRegistrySettings good_registry an_image (\<lambda>_. None) = (Inr (), an_image\<lparr>DeviceNumber := 0\<rparr>, key') \<and>
     DriverEntry_sys good_start key' = (STATUS_SUCCESS, Some (ds, devices, ev)) \<and>
     devices ! 0 = (STATUS_SUCCESS, Some (an_image\<lparr>DeviceNumber := 0\<rparr>))"
proof -
  obtain key' where saved: "SaveRegistrySettings good_registry an_image (\<lambda>_. None) = (Inr (), an_image\<lparr>DeviceNumber := 0\<rparr>, key')"
    using saved_image by blast
  obtain ds devices ev where started: "DriverEntry_sys good_start key' = (STATUS_SUCCESS, Some (ds, devices, ev))"
    using started_on_saved [OF saved] by blast
  have "savable (an_image\<lparr>DeviceNumber := 0\<rparr>)" by (simp add: savable_def an_image_def)
  from saved_device_is_loaded [OF saved this _ started]
  have "devices ! 0 = (STATUS_SUCCESS, Some (an_image\<lparr>DeviceNumber := 0\<rparr>))"
    by (simp add: good_start_def)
  then show ?thesis using saved started by blast
qed

section \<open>Removing\<close>

lemma read_settings_cong:
  "(\<And>x. x \<in> set (setting_names n) \<Longrightarrow> key' x = key x) \<Longrightarrow> read_settings key' n = read_settings key n"
  by (simp add: read_settings_def query_value_def setting_names_def)

lemma RemoveRegistrySettings_ok:
  assumes "RemoveRegistrySettings env n key = (Inr (), key')"
  obtains load where "query_dword key CFG_LOAD_DEVICES = Inr load"
    "key' = (\<lambda>x. if x \<in> set (setting_names n) then None
                 else if x = CFG_LOAD_DEVICES \<and> load = u32 (n + 1) then Some (REG_DWORD, to_le 4 (u32 (load - 1)))
                 else key x)"
proof -
  obtain load where load: "query_dword key CFG_LOAD_DEVICES = Inr load"
    using assms by (auto simp: RemoveRegistrySettings_def split: if_splits sum.splits)
  show ?thesis
  proof (rule that [OF load])
    let ?k = "if load = u32 (n + 1) then key(CFG_LOAD_DEVICES \<mapsto> (REG_DWORD, to_le 4 (u32 (load - 1)))) else key"
    have "delete_values env (setting_names n) ?k = (Inr (), key')"
      using assms by (auto simp: RemoveRegistrySettings_def load split: if_splits)
    from delete_values_ok [OF this] show "key' = (\<lambda>x. if x \<in> set (setting_names n) then None
                 else if x = CFG_LOAD_DEVICES \<and> load = u32 (n + 1) then Some (REG_DWORD, to_le 4 (u32 (load - 1)))
                 else key x)" by auto
  qed
qed



section \<open>Letters that stay allowed\<close>

text \<open>A list of more than three disallowed letters is not in force: the buffer the driver reads
  its parameters into has room for eight bytes of data, three letters and the terminator, so a longer
  \<open>DisallowedDriveLetters\<close> value fails with a buffer overflow that is taken for a missing value. The
  driver starts, and creates devices on each of the letters as if none had been named.\<close>

lemma long_letter_list_is_not_in_force:
  assumes "DriverEntry_sys env key = (STATUS_SUCCESS, Some (ds, devices, ev))"
    "key CFG_DISALLOWED = Some (REG_SZ, wbytes (letters @ [0]))" "3 < length letters"
  shows "DisallowedDriveLetters ds = [] \<and>
         AddVirtualDisk ds thread created cd = AddVirtualDisk default_settings thread created cd"
proof -
  have "DisallowedDriveLetters ds = []" if "read_parameters key = Some ds"
    using that assms(3) by (auto simp: read_parameters_def query_value_def assms(2) split: if_splits option.splits)
  moreover have "DisallowedDriveLetters default_settings = []" by (simp add: default_settings_def)
  ultimately have "DisallowedDriveLetters ds = []"
    using assms(1) by (auto simp: DriverEntry_sys_def split: if_splits option.splits)
  then show ?thesis by (simp add: AddVirtualDisk_def default_settings_def)
qed

lemma long_letter_list_is_not_in_force_witness:
  "\<exists>ds devices ev.
     DriverEntry_sys good_start [CFG_DISALLOWED \<mapsto> (REG_SZ, wbytes ([65, 66, 67, 68] @ [0]))] =
       (STATUS_SUCCESS, Some (ds, devices, ev)) \<and>
     DisallowedDriveLetters ds = []"
proof -
  let ?key = "[CFG_DISALLOWED \<mapsto> (REG_SZ, wbytes ([65, 66, 67, 68] @ [0]))]"
  have "CFG_DISALLOWED \<noteq> CFG_LOAD_DEVICES" "CFG_DISALLOWED \<noteq> CFG_MAX_DEVICES" by (simp_all add: value_names)
  then have "\<exists>ds devices ev. DriverEntry_sys good_start ?key = (STATUS_SUCCESS, Some (ds, devices, ev))"
    by (simp add: DriverEntry_sys_def good_start_def read_parameters_def query_value_def)
  then obtain ds devices ev where s: "DriverEntry_sys good_start ?key = (STATUS_SUCCESS, Some (ds, devices, ev))"
    by blast
  from long_letter_list_is_not_in_force [OF s, of "[65, 66, 67, 68]"] have "DisallowedDriveLetters ds = []"
    by simp
  with s show ?thesis by blast
qed

text \<open>A name of length 0 is copied with length 65534: \<open>DataLength\<close> less the terminator's two bytes.\<close>

lemma empty_name_copies_64k:
  "key (file_name_value n) = Some (REG_SZ, []) \<Longrightarrow> \<not> name_copy_in_bounds key n"
  by (simp add: name_copy_in_bounds_def query_value_def u16_def)

text \<open>A name of more than 257 characters is saved, and lost at the next start.\<close>

lemma long_name_is_lost:
  assumes "holds key cd" "257 < length (stored_name cd)" "0 < FileNameLength cd"
  shows "FileName (read_settings key (DeviceNumber cd)) = []"
  using assms
  by (simp add: read_settings_def query_value_def holds_values MAXIMUM_FILENAME_LENGTH_def u16_def
      split: prod.splits)

end
