(* ===== verification/Sys_Control.thy ===== *)
theory Sys_Control
  imports Sys_Device Sys_Registry
begin

text \<open>
  The control requests of the kernel driver (\<open>sys/iodisp.cpp\<close>): one definition per request code of
  \<open>FscryptDiskDispatchDeviceControl\<close>, opening and closing, flushing, file information and plug and
  play. A request carries the structure of its system buffer as arguments of its code, next to the
  two buffer lengths that the code tests before it reads or writes the structure.

  \<open>None\<close> as a result is an access outside the system buffer or a division by zero.
\<close>

section \<open>Flags\<close>

definition OPTION_RO :: int where "OPTION_RO = 0x1"
definition OPTION_REMOVABLE :: int where "OPTION_REMOVABLE = 0x2"
definition OPTION_SPARSE_FILE :: int where "OPTION_SPARSE_FILE = 0x4"
definition OPTION_BYTE_SWAP :: int where "OPTION_BYTE_SWAP = 0x8"
definition DEVICE_TYPE_HD :: int where "DEVICE_TYPE_HD = 0x10"
definition DEVICE_TYPE_FD :: int where "DEVICE_TYPE_FD = 0x20"
definition DEVICE_TYPE_CD :: int where "DEVICE_TYPE_CD = 0x30"
definition DEVICE_TYPE_RAW :: int where "DEVICE_TYPE_RAW = 0x40"
definition TYPE_FILE :: int where "TYPE_FILE = 0x100"
definition TYPE_VM :: int where "TYPE_VM = 0x200"
definition TYPE_PROXY :: int where "TYPE_PROXY = 0x300"
definition FILE_TYPE_AWEFSALLOC :: int where "FILE_TYPE_AWEFSALLOC = 0x1000"
definition FILE_TYPE_PARALLEL_IO :: int where "FILE_TYPE_PARALLEL_IO = 0x2000"
definition FILE_TYPE_BUFFERED_IO :: int where "FILE_TYPE_BUFFERED_IO = 0x3000"
definition IMAGE_MODIFIED :: int where "IMAGE_MODIFIED = 0x10000"
definition OPTION_SHARED_IMAGE :: int where "OPTION_SHARED_IMAGE = 0x40000"

lemmas flag_values = OPTION_RO_def OPTION_REMOVABLE_def OPTION_SPARSE_FILE_def OPTION_BYTE_SWAP_def
  DEVICE_TYPE_HD_def DEVICE_TYPE_FD_def DEVICE_TYPE_CD_def DEVICE_TYPE_RAW_def
  TYPE_FILE_def TYPE_VM_def TYPE_PROXY_def FILE_TYPE_AWEFSALLOC_def FILE_TYPE_PARALLEL_IO_def
  FILE_TYPE_BUFFERED_IO_def IMAGE_MODIFIED_def OPTION_SHARED_IMAGE_def

definition READONLY :: "int \<Rightarrow> bool" where "READONLY x \<longleftrightarrow> x AND 0x1 \<noteq> 0"
definition REMOVABLE :: "int \<Rightarrow> bool" where "REMOVABLE x \<longleftrightarrow> x AND 0x2 \<noteq> 0"
definition SPARSE_FILE :: "int \<Rightarrow> bool" where "SPARSE_FILE x \<longleftrightarrow> x AND 0x4 \<noteq> 0"
definition BYTE_SWAP :: "int \<Rightarrow> bool" where "BYTE_SWAP x \<longleftrightarrow> x AND 0x8 \<noteq> 0"
definition DEVICE_TYPE :: "int \<Rightarrow> int" where "DEVICE_TYPE x = x AND 0xF0"
definition DISK_TYPE :: "int \<Rightarrow> int" where "DISK_TYPE x = x AND 0xF00"
definition FILE_TYPE :: "int \<Rightarrow> int" where "FILE_TYPE x = x AND 0xF000"
definition SHARED_IMAGE :: "int \<Rightarrow> bool" where "SHARED_IMAGE x \<longleftrightarrow> x AND 0x40000 \<noteq> 0"

abbreviation STATUS_NONEXISTENT_SECTOR :: ntstatus where "STATUS_NONEXISTENT_SECTOR \<equiv> STATUS_OTHER 0xC0000015"
abbreviation STATUS_UNSUCCESSFUL :: ntstatus where "STATUS_UNSUCCESSFUL \<equiv> STATUS_OTHER 0xC0000001"
abbreviation STATUS_NO_SUCH_FILE :: ntstatus where "STATUS_NO_SUCH_FILE \<equiv> STATUS_OTHER 0xC000000F"

section \<open>Devices\<close>

text \<open>The creation data with the whole geometry: the record of \<open>Drv_Registry\<close> has the total size
  (the \<open>Cylinders\<close> member), the other members follow here.\<close>

datatype media_type =
    Unknown | FixedMedia | RemovableMedia | F3_120M_512 | F3_2Pt88_512 | F3_1Pt44_512 | F3_720_512
  | F5_1Pt2_512 | F5_640_512 | F5_360_512 | F5_320_512 | F5_180_512 | F5_160_512

record creation_data = create_data +
  MediaType :: media_type
  TracksPerCylinder :: int
  SectorsPerTrack :: int
  BytesPerSector :: int

datatype device_type = FILE_DEVICE_DISK | FILE_DEVICE_CD_ROM | FILE_DEVICE_UNKNOWN

text \<open>A device object with its extension. The members of the extension that reads and writes do not
  touch are kept beside it; the total size is \<open>disk_size\<close> of the extension. \<open>file_open\<close> and
  \<open>file_object\<close> say that \<open>file_handle\<close> and \<open>file_object\<close> are not NULL; the three bits of \<open>Characteristics\<close> are truth values.\<close>

record ('f, 's) device_object =
  extension :: "('f, 's) device_extension"
  device_number :: int
  DeviceType :: device_type
  FILE_REMOVABLE_MEDIA :: bool
  FILE_READ_ONLY_DEVICE :: bool
  FILE_FLOPPY_DISKETTE :: bool
  media :: media_type
  tracks :: int
  sectors :: int
  sector_bytes :: int
  special_file_count :: int
  file_name :: "wchar list"
  file_open :: bool
  file_object :: bool
  drive_letter :: wchar

text \<open>The driver: its chain of devices under their addresses, the control device, the file objects
  left for other drivers, the pulses of the refresh event and the calls that gave up drive letters.\<close>

record ('f, 's, 'o) driver =
  device_list :: "(nat \<times> ('f, 's) device_object) list"
  CtlDevice :: nat
  ReferencedObjects :: "'o list"
  refreshes :: nat
  removed_letters :: "wchar list"

definition control_number :: int where "control_number = 0xFFFFFFFF"

definition lookup_device :: "('f, 's, 'o) driver \<Rightarrow> nat \<Rightarrow> ('f, 's) device_object option" where
  "lookup_device drv d = map_of (device_list drv) d"

definition put_device :: "nat \<Rightarrow> ('f, 's) device_object \<Rightarrow> ('f, 's, 'o) driver \<Rightarrow> ('f, 's, 'o) driver" where
  "put_device d x drv = drv\<lparr>device_list := map (\<lambda>(k, y). if k = d then (k, x) else (k, y)) (device_list drv)\<rparr>"

definition refresh :: "('f, 's, 'o) driver \<Rightarrow> ('f, 's, 'o) driver" where
  "refresh drv = drv\<lparr>refreshes := Suc (refreshes drv)\<rparr>"

section \<open>Requests and answers\<close>

record dsm_attributes =
  dsm_trim :: bool
  DataSetRangesOffset :: int
  DataSetRangesLength :: int
  ranges_there :: "(int \<times> int) list"

datatype ioctl =
    SET_DEVICE_FLAGS int int
  | REFERENCE_HANDLE int
  | GET_REFERENCED_HANDLE int
  | CREATE_DEVICE creation_data
  | REMOVE_DEVICE int
  | EJECT_MEDIA
  | QUERY_DRIVER
  | QUERY_DEVICE
  | CHECK_VERIFY
  | QUERY_VERSION
  | PASS_THROUGH bool int
  | FORMAT_TRACKS int int int int
  | FORMAT_TRACKS_EX int int int int int int
  | GROW_PARTITION int int
  | UPDATE_PROPERTIES
  | GET_DRIVE_GEOMETRY
  | GET_LENGTH_INFO
  | GET_PARTITION_INFO bool
  | IS_WRITABLE
  | MEDIA_REMOVAL
  | MANAGE_DATA_SET_ATTRIBUTES dsm_attributes
  | GET_LAST_SESSION
  | READ_TOC
  | SET_PARTITION_INFO
  | SET_PARTITION_INFO_EX bool
  | DISK_VERIFY int int
  | GET_HOTPLUG_INFO
  | OTHER_CODE int

datatype answer =
    No_answer
  | Flags_left int int
  | Object int
  | Created creation_data
  | Device_numbers "int list"
  | Device_bits int
  | Device_data creation_data
  | Count int
  | Geometry int media_type int int int
  | Disk_length int
  | Partition int int
  | Toc int int int
  | Hotplug bool

text \<open>A request besides its code; file objects and handles are numbers.\<close>

record request =
  internal :: bool
  InputBufferLength :: int
  OutputBufferLength :: int
  irql :: int

definition PASSIVE_LEVEL :: int where "PASSIVE_LEVEL = 0"
definition DISPATCH_LEVEL :: int where "DISPATCH_LEVEL = 2"

record 'f control_ops =
  tcb_privilege :: bool
  object_of_handle :: "int \<Rightarrow> ntstatus \<times> int"
  fs_set_sparse :: "'f \<Rightarrow> ntstatus \<times> 'f"

text \<open>A handler's result: status, \<open>Information\<close>, what it left in the system buffer.\<close>

type_synonym reply = "ntstatus \<times> nat \<times> answer"

abbreviation fail :: "ntstatus \<Rightarrow> reply" where "fail status \<equiv> (status, 0, No_answer)"

section \<open>Requests to the driver\<close>

definition SIZEOF_CREATE_DATA :: int where "SIZEOF_CREATE_DATA = 56"

text \<open>A handle of the caller becomes a file object that another driver may ask for.\<close>

definition ReferenceHandle ::
    "('f, 's) dev_ops \<Rightarrow> 'f control_ops \<Rightarrow> request \<Rightarrow> int \<Rightarrow> ('f, 's, int) driver \<Rightarrow> reply \<times> ('f, 's, int) driver" where
  "ReferenceHandle os env rq handle drv =
     (if PASSIVE_LEVEL < irql rq then (fail STATUS_ACCESS_DENIED, drv)
      else if \<not> internal rq \<and> \<not> tcb_privilege env then (fail STATUS_ACCESS_DENIED, drv)
      else if InputBufferLength rq < 8 \<or> OutputBufferLength rq < 8 then (fail STATUS_INVALID_PARAMETER, drv)
      else if \<not> pool os 24 then (fail STATUS_INSUFFICIENT_RESOURCES, drv)
      else case object_of_handle env handle of (status, object) \<Rightarrow>
      if \<not> NT_SUCCESS status then (fail status, drv)
      else ((status, 8, Object object), drv\<lparr>ReferencedObjects := ReferencedObjects drv @ [object]\<rparr>))"

definition GetReferencedHandle :: "request \<Rightarrow> int \<Rightarrow> ('f, 's, int) driver \<Rightarrow> reply \<times> ('f, 's, int) driver" where
  "GetReferencedHandle rq object drv =
     (if \<not> internal rq then (fail STATUS_ACCESS_DENIED, drv)
      else if InputBufferLength rq < 8 then (fail STATUS_INVALID_PARAMETER, drv)
      else if object \<in> set (ReferencedObjects drv)
      then (fail STATUS_SUCCESS, drv\<lparr>ReferencedObjects := remove1 object (ReferencedObjects drv)\<rparr>)
      else (fail STATUS_OBJECT_NAME_NOT_FOUND, drv))"

text \<open>\<open>add\<close> is \<open>FscryptDiskAddVirtualDisk\<close>.\<close>

definition CreateDeviceRequest ::
    "(creation_data \<Rightarrow> ('f, 's, int) driver \<Rightarrow> ntstatus \<times> creation_data \<times> ('f, 's, int) driver) \<Rightarrow>
     request \<Rightarrow> creation_data \<Rightarrow> ('f, 's, int) driver \<Rightarrow> reply \<times> ('f, 's, int) driver" where
  "CreateDeviceRequest add rq cd drv =
     (if PASSIVE_LEVEL < irql rq then (fail STATUS_ACCESS_DENIED, drv)
      else if InputBufferLength rq < SIZEOF_CREATE_DATA - 2 then (fail STATUS_INVALID_PARAMETER, drv)
      else if InputBufferLength rq < SIZEOF_CREATE_DATA + FileNameLength cd - 2
      then (fail STATUS_INVALID_PARAMETER, drv)
      else case add cd drv of (status, cd, drv) \<Rightarrow>
        ((status,
          if NT_SUCCESS status \<and> InputBufferLength rq \<le> OutputBufferLength rq
          then nat (OutputBufferLength rq) else 0,
          Created cd), drv))"

text \<open>\<open>FscryptDiskRemoveVirtualDisk\<close>: the drive letter is given up, the worker thread told to end.\<close>

definition RemoveDevice :: "int \<Rightarrow> nat \<Rightarrow> ('f, 's, 'o) driver \<Rightarrow> ('f, 's, 'o) driver" where
  "RemoveDevice level d drv =
     (case lookup_device drv d of
        None \<Rightarrow> drv
      | Some x \<Rightarrow>
          (put_device d (x\<lparr>extension := RemoveVirtualDisk (extension x)\<rparr>) drv)
            \<lparr>removed_letters := removed_letters drv @
               (if drive_letter x \<noteq> 0 \<and> level = PASSIVE_LEVEL then [drive_letter x] else [])\<rparr>)"

fun find_number :: "int \<Rightarrow> (nat \<times> ('f, 's) device_object) list \<Rightarrow> (nat \<times> ('f, 's) device_object) option" where
  "find_number n [] = None"
| "find_number n ((d, x) # rest) = (if device_number x = n then Some (d, x) else find_number n rest)"

definition RemoveDeviceRequest :: "request \<Rightarrow> int \<Rightarrow> ('f, 's, 'o) driver \<Rightarrow> reply \<times> ('f, 's, 'o) driver" where
  "RemoveDeviceRequest rq n drv =
     (if InputBufferLength rq < 4 then (fail STATUS_INVALID_PARAMETER, drv)
      else case find_number n (device_list drv) of
        None \<Rightarrow> (fail STATUS_OBJECT_NAME_NOT_FOUND, drv)
      | Some (d, x) \<Rightarrow>
          if 0 < special_file_count x then (fail STATUS_ACCESS_DENIED, drv)
          else (fail STATUS_SUCCESS, RemoveDevice (irql rq) d drv))"

definition EjectMedia :: "request \<Rightarrow> nat \<Rightarrow> ('f, 's) device_object \<Rightarrow> ('f, 's, 'o) driver \<Rightarrow> reply \<times> ('f, 's, 'o) driver" where
  "EjectMedia rq d x drv =
     (if 0 < special_file_count x then (fail STATUS_ACCESS_DENIED, drv)
      else (fail STATUS_SUCCESS, RemoveDevice (irql rq) d drv))"

text \<open>The numbers of all devices but the control device, in the order of the chain.\<close>

definition disk_numbers :: "('f, 's, 'o) driver \<Rightarrow> int list" where
  "disk_numbers drv = filter (\<lambda>n. n \<noteq> control_number) (map (device_number \<circ> snd) (device_list drv))"

definition device_bitmap :: "int list \<Rightarrow> int" where
  "device_bitmap ns = fold (\<lambda>n bits. if n < 64 then bits OR push_bit (nat n) 1 else bits) ns 0"

definition highest :: "int list \<Rightarrow> int" where
  "highest ns = fold (\<lambda>n h. if h < n then n else h) ns 0"

definition QueryDriver :: "request \<Rightarrow> ('f, 's, 'o) driver \<Rightarrow> reply" where
  "QueryDriver rq drv =
     (let len = OutputBufferLength rq; ns = disk_numbers drv; found = length ns in
      if 8 < len
      then
        let max_items = nat (len div 4) in
        (STATUS_SUCCESS, if max_items \<le> found then 4 else 4 * (found + 1),
         Device_numbers (int found # take (max_items - 1) ns))
      else if len = 8
      then (if 63 < highest ns then STATUS_INVALID_PARAMETER else STATUS_SUCCESS, 8,
            Device_bits (device_bitmap ns))
      else if 4 \<le> len
      then (if 31 < highest ns then STATUS_INVALID_PARAMETER else STATUS_SUCCESS, 4,
            Device_bits (u32 (device_bitmap ns)))
      else fail STATUS_INVALID_PARAMETER)"

definition FSCRYPTDISK_DRIVER_VERSION :: int where "FSCRYPTDISK_DRIVER_VERSION = 0x0103"

definition QueryVersion :: "request \<Rightarrow> reply" where
  "QueryVersion rq =
     (if OutputBufferLength rq < 4 then fail STATUS_INVALID_PARAMETER
      else (STATUS_SUCCESS, 4, Count FSCRYPTDISK_DRIVER_VERSION))"

section \<open>Requests to a disk\<close>

text \<open>Changing flags; each step gives the flags that are still to change.\<close>

definition change_read_only :: "int \<Rightarrow> int \<Rightarrow> ('f, 's) device_object \<Rightarrow> int \<times> ('f, 's) device_object" where
  "change_read_only to_change values x =
     (if READONLY to_change \<and> DeviceType x = FILE_DEVICE_DISK
      then (if READONLY values \<and> special_file_count x \<le> 0
            then (to_change AND NOT OPTION_RO,
                  x\<lparr>FILE_READ_ONLY_DEVICE := True, extension := (extension x)\<lparr>read_only := True\<rparr>\<rparr>)
            else if vm_disk (extension x)
            then (to_change AND NOT OPTION_RO,
                  x\<lparr>FILE_READ_ONLY_DEVICE := False, extension := (extension x)\<lparr>read_only := False\<rparr>\<rparr>)
            else (to_change, x))
      else (to_change, x))"

definition change_removable :: "int \<Rightarrow> int \<Rightarrow> ('f, 's) device_object \<Rightarrow> int \<times> ('f, 's) device_object" where
  "change_removable to_change values x =
     (if REMOVABLE to_change \<and> DeviceType x = FILE_DEVICE_DISK
      then (to_change AND NOT OPTION_REMOVABLE, x\<lparr>FILE_REMOVABLE_MEDIA := REMOVABLE values\<rparr>)
      else (to_change, x))"

definition change_modified :: "int \<Rightarrow> int \<Rightarrow> ('f, 's) device_object \<Rightarrow> int \<times> ('f, 's) device_object" where
  "change_modified to_change values x =
     (if to_change AND IMAGE_MODIFIED \<noteq> 0
      then (to_change AND NOT IMAGE_MODIFIED,
            x\<lparr>extension := (extension x)\<lparr>image_modified := (values AND IMAGE_MODIFIED \<noteq> 0)\<rparr>\<rparr>)
      else (to_change, x))"

definition change_sparse ::
    "'f control_ops \<Rightarrow> int \<Rightarrow> int \<Rightarrow> ('f, 's) device_object \<Rightarrow> ntstatus \<times> int \<times> ('f, 's) device_object" where
  "change_sparse env to_change values x =
     (let dx = extension x in
      if SPARSE_FILE to_change \<and> SPARSE_FILE values \<and> \<not> use_proxy dx \<and> \<not> vm_disk dx
      then (case fs_set_sparse env (file_handle dx) of (status, f) \<Rightarrow>
              let dx = dx\<lparr>file_handle := f\<rparr> in
              if NT_SUCCESS status
              then (status, to_change AND NOT OPTION_SPARSE_FILE, x\<lparr>extension := dx\<lparr>use_set_zero_data := True\<rparr>\<rparr>)
              else (status, to_change, x\<lparr>extension := dx\<rparr>))
      else (STATUS_SUCCESS, to_change, x))"

definition SetDeviceFlags ::
    "'f control_ops \<Rightarrow> request \<Rightarrow> int \<Rightarrow> int \<Rightarrow> nat \<Rightarrow> ('f, 's) device_object \<Rightarrow> ('f, 's, 'o) driver \<Rightarrow>
     reply \<times> ('f, 's, 'o) driver" where
  "SetDeviceFlags env rq to_change values d x drv =
     (if InputBufferLength rq < 8 then (fail STATUS_INVALID_PARAMETER, drv)
      else if DISPATCH_LEVEL \<le> irql rq then (fail STATUS_ACCESS_DENIED, drv)
      else
      case change_read_only to_change values x of (left, x) \<Rightarrow>
      case change_removable left values x of (left, x) \<Rightarrow>
      case change_modified left values x of (left, x) \<Rightarrow>
      case (if irql rq = PASSIVE_LEVEL then change_sparse env left values x else (STATUS_SUCCESS, left, x)) of
        (status, left, x) \<Rightarrow>
      let status = (if left = 0 then STATUS_SUCCESS
                    else if NT_SUCCESS status then STATUS_INVALID_DEVICE_REQUEST else status);
          drv = put_device d x drv
      in ((status, if 8 \<le> OutputBufferLength rq then 8 else 0, Flags_left left values),
          if irql rq = PASSIVE_LEVEL then refresh drv else drv))"

text \<open>What a device reports about its creation.\<close>

definition device_flags :: "('f, 's) device_object \<Rightarrow> int" where
  "device_flags x =
     (let dx = extension x in
      (if read_only dx then OPTION_RO else 0) OR
      (if FILE_REMOVABLE_MEDIA x then OPTION_REMOVABLE else 0) OR
      (case DeviceType x of
         FILE_DEVICE_UNKNOWN \<Rightarrow> DEVICE_TYPE_RAW
       | FILE_DEVICE_CD_ROM \<Rightarrow> DEVICE_TYPE_CD OR OPTION_RO
       | FILE_DEVICE_DISK \<Rightarrow> if FILE_FLOPPY_DISKETTE x then DEVICE_TYPE_FD else DEVICE_TYPE_HD) OR
      (if vm_disk dx then TYPE_VM else if use_proxy dx then TYPE_PROXY else TYPE_FILE) OR
      (if awefsalloc_disk dx then FILE_TYPE_AWEFSALLOC
       else if parallel_io dx then FILE_TYPE_PARALLEL_IO else 0) OR
      (if image_modified dx then IMAGE_MODIFIED else 0) OR
      (if use_set_zero_data dx then OPTION_SPARSE_FILE else 0) OR
      (if shared_image dx then OPTION_SHARED_IMAGE else 0))"

definition device_report :: "('f, 's) device_object \<Rightarrow> creation_data" where
  "device_report x =
     \<lparr>DeviceNumber = device_number x, Cylinders = disk_size (extension x),
      ImageOffset = image_offset (extension x), Flags = device_flags x,
      DriveLetter = drive_letter x, FileNameLength = int (2 * length (file_name x)),
      FileName = file_name x, MediaType = media x, TracksPerCylinder = tracks x,
      SectorsPerTrack = sectors x, BytesPerSector = sector_bytes x\<rparr>"

definition QueryDevice :: "request \<Rightarrow> ('f, 's) device_object \<Rightarrow> reply" where
  "QueryDevice rq x =
     (let name_length = int (2 * length (file_name x)) in
      if OutputBufferLength rq < SIZEOF_CREATE_DATA + name_length + 2 then fail STATUS_BUFFER_TOO_SMALL
      else (STATUS_SUCCESS, nat (SIZEOF_CREATE_DATA + name_length - 2), Device_data (device_report x)))"

definition CheckVerify :: "request \<Rightarrow> ('f, 's) device_object \<Rightarrow> reply" where
  "CheckVerify rq x =
     (if vm_disk (extension x)
      then (if 4 \<le> OutputBufferLength rq
            then (STATUS_SUCCESS, 4, Count (media_change_count (extension x)))
            else fail STATUS_SUCCESS)
      else fail STATUS_PENDING)"

definition PassThrough :: "request \<Rightarrow> ('f, 's) device_object \<Rightarrow> reply" where
  "PassThrough rq x =
     (if \<not> file_open x then fail STATUS_INVALID_DEVICE_REQUEST
      else if InputBufferLength rq < 4 then fail STATUS_INVALID_PARAMETER
      else fail STATUS_PENDING)"

text \<open>The size member divided by the other three, one after another; \<open>None\<close> is a division by zero.\<close>

definition whole_cylinders :: "('f, 's) device_object \<Rightarrow> int option" where
  "whole_cylinders x =
     (if tracks x = 0 \<or> sectors x = 0 \<or> sector_bytes x = 0 then None
      else Some (disk_size (extension x) div tracks x div sectors x div sector_bytes x))"

definition track_offset :: "('f, 's) device_object \<Rightarrow> int \<Rightarrow> int \<Rightarrow> int" where
  "track_offset x cylinder head =
     s64 (cylinder * tracks x * sector_bytes x * sectors x + head * sector_bytes x * sectors x)"

definition FormatCheck ::
    "('f, 's) dev_ops \<Rightarrow> request \<Rightarrow> int \<Rightarrow> int \<Rightarrow> int \<Rightarrow> int \<Rightarrow> (int \<times> int) option \<Rightarrow>
     ('f, 's) device_object \<Rightarrow> reply option" where
  "FormatCheck os rq start_cyl end_cyl start_head end_head ex x =
     (if read_only (extension x) then Some (fail STATUS_MEDIA_WRITE_PROTECTED)
      else if InputBufferLength rq < 20 then Some (fail STATUS_INVALID_PARAMETER)
      else if \<not> pool os 24 then Some (fail STATUS_INSUFFICIENT_RESOURCES)
      else case whole_cylinders x of
        None \<Rightarrow> None
      | Some cylinders \<Rightarrow>
      if u32 (tracks x - 1) < start_head \<or> u32 (tracks x - 1) < end_head \<or>
         cylinders < start_cyl \<or> cylinders < end_cyl \<or> end_cyl < start_cyl
      then Some (fail STATUS_INVALID_PARAMETER)
      else if disk_size (extension x) \<le> track_offset x start_cyl start_head \<or>
              disk_size (extension x) \<le> track_offset x end_cyl end_head
      then Some (fail STATUS_INVALID_PARAMETER)
      else case ex of
        None \<Rightarrow> Some (fail STATUS_PENDING)
      | Some (gap, n) \<Rightarrow>
          if InputBufferLength rq < 28 then Some (fail STATUS_INVALID_PARAMETER)
          else if InputBufferLength rq < 28 + n * 2 - 2 \<or> sectors x < gap \<or> n \<noteq> sectors x
          then Some (fail STATUS_INVALID_PARAMETER)
          else Some (fail STATUS_PENDING))"

definition GrowCheck :: "request \<Rightarrow> int \<Rightarrow> int \<Rightarrow> ('f, 's) device_object \<Rightarrow> reply" where
  "GrowCheck rq partition_number bytes x =
     (if InputBufferLength rq \<noteq> 16 then fail STATUS_BUFFER_TOO_SMALL
      else if read_only (extension x) then fail STATUS_MEDIA_WRITE_PROTECTED
      else if partition_number \<noteq> 1 \<or> s64 (disk_size (extension x) + bytes) < disk_size (extension x)
      then fail STATUS_INVALID_PARAMETER
      else fail STATUS_PENDING)"

definition DriveGeometry :: "request \<Rightarrow> ('f, 's) device_object \<Rightarrow> reply option" where
  "DriveGeometry rq x =
     (if OutputBufferLength rq < 24 then Some (fail STATUS_BUFFER_TOO_SMALL)
      else case whole_cylinders x of
        None \<Rightarrow> None
      | Some cylinders \<Rightarrow>
          Some (STATUS_SUCCESS, 24, Geometry cylinders (media x) (tracks x) (sectors x) (sector_bytes x)))"

definition LengthInfo :: "request \<Rightarrow> ('f, 's) device_object \<Rightarrow> reply" where
  "LengthInfo rq x =
     (if OutputBufferLength rq < 8 then fail STATUS_BUFFER_TOO_SMALL
      else (STATUS_SUCCESS, 8, Disk_length (disk_size (extension x))))"

definition PartitionInfo :: "bool \<Rightarrow> request \<Rightarrow> ('f, 's) device_object \<Rightarrow> reply" where
  "PartitionInfo ex rq x =
     (let size = (if ex then 144 else 32) in
      if OutputBufferLength rq < size then fail STATUS_BUFFER_TOO_SMALL
      else (STATUS_SUCCESS, nat size, Partition (sector_bytes x * sectors x) (disk_size (extension x))))"

definition ReadToc :: "request \<Rightarrow> ('f, 's) device_object \<Rightarrow> reply" where
  "ReadToc rq x =
     (if DeviceType x \<noteq> FILE_DEVICE_CD_ROM then fail STATUS_INVALID_DEVICE_REQUEST
      else if OutputBufferLength rq < 804 then fail STATUS_BUFFER_TOO_SMALL
      else (STATUS_SUCCESS, 804, Toc 1 1 4))"

definition SetPartitionInfo :: "int \<Rightarrow> bool \<Rightarrow> request \<Rightarrow> ('f, 's) device_object \<Rightarrow> reply" where
  "SetPartitionInfo need accepted rq x =
     (if read_only (extension x) then fail STATUS_MEDIA_WRITE_PROTECTED
      else if InputBufferLength rq < need then fail STATUS_INVALID_PARAMETER
      else if \<not> accepted then fail STATUS_UNSUCCESSFUL
      else fail STATUS_SUCCESS)"

definition DiskVerify :: "request \<Rightarrow> int \<Rightarrow> int \<Rightarrow> ('f, 's) device_object \<Rightarrow> reply" where
  "DiskVerify rq start len x =
     (if InputBufferLength rq < 16 then fail STATUS_INVALID_PARAMETER
      else if read_only (extension x) then fail STATUS_MEDIA_WRITE_PROTECTED
      else if disk_size (extension x) < s64 (start + len) then fail STATUS_NONEXISTENT_SECTOR
      else fail STATUS_SUCCESS)"

definition HotplugInfo :: "request \<Rightarrow> ('f, 's) device_object \<Rightarrow> reply" where
  "HotplugInfo rq x =
     (if OutputBufferLength rq < 8 then fail STATUS_INVALID_PARAMETER
      else (STATUS_SUCCESS, 8, Hotplug (FILE_REMOVABLE_MEDIA x)))"

section \<open>Discarding ranges of an image file\<close>

text \<open>Zeros for each range until one fails, then a trim request for all of them. \<open>ranges_there\<close> are
  the ranges that the system buffer holds behind the offset; the number of items comes from the
  length the caller gives.\<close>

definition dsm_items :: "dsm_attributes \<Rightarrow> nat" where
  "dsm_items a = nat (DataSetRangesLength a div 16)"

fun zero_ranges :: "('f, 's) dev_ops \<Rightarrow> int \<Rightarrow> (int \<times> int) list \<Rightarrow> 'f \<Rightarrow> ntstatus \<times> 'f" where
  "zero_ranges os off [] f = (STATUS_SUCCESS, f)"
| "zero_ranges os off ((start, len) # rest) f =
     (let first = s64 (start + off) in
      case nt_zero_data (files os) f first (s64 (first + len)) of (status, f) \<Rightarrow>
      if \<not> NT_SUCCESS status then (status, f) else zero_ranges os off rest f)"

definition trim_file ::
    "('f, 's) dev_ops \<Rightarrow> (int \<times> int) list \<Rightarrow> ('f, 's) device_extension \<Rightarrow> ntstatus \<times> ('f, 's) device_extension" where
  "trim_file os ranges dx =
     (case zero_ranges os (image_offset dx) ranges (file_handle dx) of (status, f) \<Rightarrow>
      let dx = dx\<lparr>file_handle := f\<rparr> in
      if no_file_level_trim dx then (status, dx)
      else if \<not> pool os (8 + 16 * length ranges) then (STATUS_INSUFFICIENT_RESOURCES, dx)
      else case nt_trim (files os) (file_handle dx)
                  (map (\<lambda>(start, len). (u64 (start + image_offset dx), len)) ranges) of (status, f) \<Rightarrow>
        (STATUS_SUCCESS, dx\<lparr>file_handle := f, no_file_level_trim := \<not> NT_SUCCESS status\<rparr>))"

definition ManageDataSet ::
    "('f, 's) dev_ops \<Rightarrow> request \<Rightarrow> dsm_attributes \<Rightarrow> ('f, 's) device_object \<Rightarrow>
     (reply \<times> ('f, 's) device_object) option" where
  "ManageDataSet os rq a x =
     (let dx = extension x; items = dsm_items a in
      if InputBufferLength rq < 28 \<or>
         InputBufferLength rq < u32 (DataSetRangesOffset a + DataSetRangesLength a)
      then Some (fail STATUS_INVALID_PARAMETER, x)
      else if \<not> dsm_trim a then Some (fail STATUS_INVALID_DEVICE_REQUEST, x)
      else if items = 0 then Some (fail STATUS_SUCCESS, x)
      else if use_proxy dx \<and> \<not> proxy_unmap dx \<or> vm_disk dx \<or> awefsalloc_disk dx
      then Some (fail STATUS_SUCCESS, x)
      else if use_proxy dx then Some (fail STATUS_PENDING, x)
      else if length (ranges_there a) < items then None
      else case trim_file os (take items (ranges_there a)) dx of (status, dx) \<Rightarrow>
        Some (fail status, x\<lparr>extension := dx\<rparr>))"

section \<open>The dispatch routine\<close>

text \<open>A request is completed, queued for the worker thread, or passed to the image's own device: as
  a file system control or not, with its code and the length of its input.\<close>

datatype dispatch =
    Finished ntstatus nat answer
  | Pended ioctl
  | Passed bool int int

definition for_control_device :: "ioctl \<Rightarrow> bool" where
  "for_control_device code =
     (case code of QUERY_VERSION \<Rightarrow> True | CREATE_DEVICE cd \<Rightarrow> True | REMOVE_DEVICE n \<Rightarrow> True
      | QUERY_DRIVER \<Rightarrow> True | REFERENCE_HANDLE h \<Rightarrow> True | GET_REFERENCED_HANDLE obj \<Rightarrow> True
      | _ \<Rightarrow> False)"

definition for_disk :: "ioctl \<Rightarrow> bool" where
  "for_disk code =
     (case code of CREATE_DEVICE cd \<Rightarrow> False | REMOVE_DEVICE n \<Rightarrow> False
      | REFERENCE_HANDLE h \<Rightarrow> False | GET_REFERENCED_HANDLE obj \<Rightarrow> False | _ \<Rightarrow> True)"

text \<open>The end of the routine: a pending request is queued, any other is completed.\<close>

definition conclude :: "ioctl \<Rightarrow> reply \<Rightarrow> dispatch" where
  "conclude code rp =
     (case rp of (status, info, out) \<Rightarrow>
      if status = STATUS_PENDING then Pended code else Finished status info out)"

definition keep ::
    "ioctl \<Rightarrow> ('f, 's, int) driver \<Rightarrow> reply \<Rightarrow> dispatch \<times> ('f, 's, int) driver" where
  "keep code drv rp = (conclude code rp, drv)"

definition moved ::
    "ioctl \<Rightarrow> reply \<times> ('f, 's, int) driver \<Rightarrow> dispatch \<times> ('f, 's, int) driver" where
  "moved code r = (case r of (rp, drv) \<Rightarrow> (conclude code rp, drv))"

definition serve_control ::
    "('f, 's) dev_ops \<Rightarrow> 'f control_ops \<Rightarrow>
     (creation_data \<Rightarrow> ('f, 's, int) driver \<Rightarrow> ntstatus \<times> creation_data \<times> ('f, 's, int) driver) \<Rightarrow>
     request \<Rightarrow> ioctl \<Rightarrow> nat \<Rightarrow> ('f, 's) device_object \<Rightarrow> ('f, 's, int) driver \<Rightarrow>
     (dispatch \<times> ('f, 's, int) driver) option" where
  "serve_control os env add rq code d x drv =
     (case code of
        SET_DEVICE_FLAGS to_change values \<Rightarrow> Some (moved code (SetDeviceFlags env rq to_change values d x drv))
      | REFERENCE_HANDLE h \<Rightarrow> Some (moved code (ReferenceHandle os env rq h drv))
      | GET_REFERENCED_HANDLE obj \<Rightarrow> Some (moved code (GetReferencedHandle rq obj drv))
      | CREATE_DEVICE cd \<Rightarrow> Some (moved code (CreateDeviceRequest add rq cd drv))
      | REMOVE_DEVICE n \<Rightarrow> Some (moved code (RemoveDeviceRequest rq n drv))
      | EJECT_MEDIA \<Rightarrow> Some (moved code (EjectMedia rq d x drv))
      | QUERY_DRIVER \<Rightarrow> Some (keep code drv (QueryDriver rq drv))
      | QUERY_DEVICE \<Rightarrow> Some (keep code drv (QueryDevice rq x))
      | CHECK_VERIFY \<Rightarrow> Some (keep code drv (CheckVerify rq x))
      | QUERY_VERSION \<Rightarrow> Some (keep code drv (QueryVersion rq))
      | PASS_THROUGH fsctl inner \<Rightarrow>
          (case PassThrough rq x of rp \<Rightarrow>
             if fst rp = STATUS_PENDING \<and> parallel_io (extension x)
             then Some (Passed fsctl inner (InputBufferLength rq - 4), drv)
             else Some (keep code drv rp))
      | FORMAT_TRACKS c1 c2 h1 h2 \<Rightarrow> map_option (keep code drv) (FormatCheck os rq c1 c2 h1 h2 None x)
      | FORMAT_TRACKS_EX c1 c2 h1 h2 gap n \<Rightarrow>
          map_option (keep code drv) (FormatCheck os rq c1 c2 h1 h2 (Some (gap, n)) x)
      | GROW_PARTITION n bytes \<Rightarrow> Some (keep code drv (GrowCheck rq n bytes x))
      | UPDATE_PROPERTIES \<Rightarrow> Some (keep code drv (fail STATUS_SUCCESS))
      | GET_DRIVE_GEOMETRY \<Rightarrow> map_option (keep code drv) (DriveGeometry rq x)
      | GET_LENGTH_INFO \<Rightarrow> Some (keep code drv (LengthInfo rq x))
      | GET_PARTITION_INFO ex \<Rightarrow> Some (keep code drv (PartitionInfo ex rq x))
      | IS_WRITABLE \<Rightarrow>
          Some (keep code drv (fail (if \<not> read_only (extension x) then STATUS_SUCCESS
                                     else STATUS_MEDIA_WRITE_PROTECTED)))
      | MEDIA_REMOVAL \<Rightarrow> Some (keep code drv (fail STATUS_SUCCESS))
      | MANAGE_DATA_SET_ATTRIBUTES a \<Rightarrow>
          map_option (\<lambda>(rp, x). (conclude code rp, put_device d x drv)) (ManageDataSet os rq a x)
      | GET_LAST_SESSION \<Rightarrow> Some (keep code drv (fail STATUS_SUCCESS))
      | READ_TOC \<Rightarrow> Some (keep code drv (ReadToc rq x))
      | SET_PARTITION_INFO \<Rightarrow> Some (keep code drv (SetPartitionInfo 1 True rq x))
      | SET_PARTITION_INFO_EX mbr \<Rightarrow> Some (keep code drv (SetPartitionInfo 120 mbr rq x))
      | DISK_VERIFY start len \<Rightarrow> Some (keep code drv (DiskVerify rq start len x))
      | GET_HOTPLUG_INFO \<Rightarrow> Some (keep code drv (HotplugInfo rq x))
      | OTHER_CODE n \<Rightarrow> Some (keep code drv (fail STATUS_INVALID_DEVICE_REQUEST)))"

definition DispatchDeviceControl ::
    "('f, 's) dev_ops \<Rightarrow> 'f control_ops \<Rightarrow>
     (creation_data \<Rightarrow> ('f, 's, int) driver \<Rightarrow> ntstatus \<times> creation_data \<times> ('f, 's, int) driver) \<Rightarrow>
     request \<Rightarrow> ioctl \<Rightarrow> nat \<Rightarrow> ('f, 's, int) driver \<Rightarrow> (dispatch \<times> ('f, 's, int) driver) option" where
  "DispatchDeviceControl os env add rq code d drv =
     (case lookup_device drv d of
        None \<Rightarrow> None
      | Some x \<Rightarrow>
          if terminate_thread (extension x) then Some (Finished STATUS_DEVICE_REMOVED 0 No_answer, drv)
          else if \<not> (if d = CtlDevice drv then for_control_device code else for_disk code)
          then Some (Finished STATUS_INVALID_DEVICE_REQUEST 0 No_answer, drv)
          else serve_control os env add rq code d x drv)"

section \<open>Opening, flushing, file information, plug and play\<close>

text \<open>\<open>Left\<close>: the routine returns a status without completing the request.\<close>

datatype simple_dispatch =
    Complete ntstatus nat
  | Left ntstatus
  | To_thread
  | To_lower_device

definition DispatchCreateClose :: "bool \<Rightarrow> bool \<Rightarrow> ('f, 's) device_object \<Rightarrow> simple_dispatch" where
  "DispatchCreateClose named create x =
     (if named then Complete STATUS_OBJECT_NAME_NOT_FOUND 0
      else if create \<and> terminate_thread (extension x) then Complete STATUS_DEVICE_REMOVED 0
      else Complete STATUS_SUCCESS 1)"

definition DispatchFlushBuffers :: "bool \<Rightarrow> ('f, 's) device_object \<Rightarrow> simple_dispatch" where
  "DispatchFlushBuffers is_ctl x =
     (let dx = extension x in
      if is_ctl then Left STATUS_INVALID_DEVICE_REQUEST
      else if terminate_thread dx then Complete STATUS_DEVICE_REMOVED 0
      else if read_only dx then Complete STATUS_MEDIA_WRITE_PROTECTED 0
      else if use_proxy dx \<or> vm_disk dx then Complete STATUS_SUCCESS 0
      else if parallel_io dx then To_lower_device
      else To_thread)"

datatype info_class =
    FileStandardInformation | FilePositionInformation | FileBasicInformation
  | FileDispositionInformation | FileValidDataLengthInformation | OtherInformation

text \<open>The third component: the size, or the file position, that the answer holds.\<close>

definition DispatchQueryInformation ::
    "bool \<Rightarrow> info_class \<Rightarrow> nat \<Rightarrow> int option \<Rightarrow> ('f, 's) device_object \<Rightarrow> simple_dispatch \<times> int option" where
  "DispatchQueryInformation is_ctl info_class len position x =
     (if is_ctl then (Left STATUS_INVALID_DEVICE_REQUEST, None)
      else if terminate_thread (extension x) then (Complete STATUS_DEVICE_REMOVED 0, None)
      else case info_class of
        FileStandardInformation \<Rightarrow>
          if len < 24 then (Complete STATUS_BUFFER_TOO_SMALL 0, None)
          else (Complete STATUS_SUCCESS 24, Some (disk_size (extension x)))
      | FilePositionInformation \<Rightarrow>
          if len < 8 then (Complete STATUS_BUFFER_TOO_SMALL 0, None)
          else (Complete STATUS_SUCCESS 8, Some (case position of None \<Rightarrow> 0 | Some p \<Rightarrow> p))
      | _ \<Rightarrow> (Complete STATUS_INVALID_DEVICE_REQUEST 0, None))"

definition DispatchSetInformation ::
    "bool \<Rightarrow> info_class \<Rightarrow> nat \<Rightarrow> int \<Rightarrow> int option \<Rightarrow> ('f, 's) device_object \<Rightarrow> simple_dispatch \<times> int option" where
  "DispatchSetInformation is_ctl info_class len new_position position x =
     (if is_ctl then (Left STATUS_INVALID_DEVICE_REQUEST, position)
      else if terminate_thread (extension x) then (Complete STATUS_DEVICE_REMOVED 0, position)
      else case info_class of
        FilePositionInformation \<Rightarrow>
          if len < 8 then (Complete STATUS_INVALID_PARAMETER 0, position)
          else (Complete STATUS_SUCCESS 0, map_option (\<lambda>_. new_position) position)
      | FileBasicInformation \<Rightarrow> (Complete STATUS_SUCCESS 0, position)
      | FileDispositionInformation \<Rightarrow> (Complete STATUS_SUCCESS 0, position)
      | FileValidDataLengthInformation \<Rightarrow> (Complete STATUS_SUCCESS 0, position)
      | _ \<Rightarrow> (Complete STATUS_INVALID_DEVICE_REQUEST 0, position))"

datatype usage = DeviceUsageTypePaging | DeviceUsageTypeDumpFile | OtherUsage

text \<open>\<open>None\<close>: a minor function other than the usage notification.\<close>

definition DispatchPnP ::
    "bool \<Rightarrow> (usage \<times> bool) option \<Rightarrow> ('f, 's) device_object \<Rightarrow> simple_dispatch \<times> ('f, 's) device_object" where
  "DispatchPnP is_ctl notification x =
     (if is_ctl then (Complete STATUS_INVALID_DEVICE_REQUEST 0, x)
      else if terminate_thread (extension x) then (Complete STATUS_DEVICE_REMOVED 0, x)
      else case notification of
        None \<Rightarrow> (Complete STATUS_INVALID_DEVICE_REQUEST 0, x)
      | Some (OtherUsage, in_path) \<Rightarrow> (Complete STATUS_NOT_SUPPORTED 0, x)
      | Some (_, in_path) \<Rightarrow>
          (Complete STATUS_SUCCESS 0,
           x\<lparr>special_file_count := special_file_count x + (if in_path then 1 else -1)\<rparr>))"

end
