(* ===== verification/Sys_Worker.thy ===== *)
theory Sys_Worker
  imports Sys_Control
begin

text \<open>
  The worker thread of a device (\<open>sys/devthrd.cpp\<close>) beyond reads and writes: loading the image of a
  memory disk, flushing, the control requests the dispatch routine leaves to it (verification,
  pass-through, discarding through a proxy, growing, formatting with \<open>sys/floppy.cpp\<close>), and its
  choice of a handler. The 64-bit build is modelled. \<open>None\<close> is a handler that does not return, or an
  access outside the system buffer.
\<close>

section \<open>Calls to the image's device\<close>

text \<open>The status of taking a reference to the image's file object, and the requests sent to its
  device; \<open>None\<close>: the request could not be built.\<close>

record 'f image_ops =
  reference_image :: ntstatus
  image_flush :: "'f \<Rightarrow> (ntstatus \<times> nat) option \<times> 'f"
  image_control :: "bool \<Rightarrow> int \<Rightarrow> int \<Rightarrow> int \<Rightarrow> 'f \<Rightarrow> (ntstatus \<times> nat) option \<times> 'f"

type_synonym ('f, 's) handled = "ntstatus \<times> nat \<times> answer \<times> ('f, 's) device_object"

definition refused :: "ntstatus \<Rightarrow> ('f, 's) device_object \<Rightarrow> ('f, 's) handled" where
  "refused status x = (status, 0, No_answer, x)"

text \<open>The file object is taken once and kept.\<close>

definition with_file_object ::
    "'f image_ops \<Rightarrow> ('f \<Rightarrow> (ntstatus \<times> nat) option \<times> 'f) \<Rightarrow> ('f, 's) device_object \<Rightarrow> ('f, 's) handled" where
  "with_file_object im call x =
     (if \<not> file_object x \<and> \<not> NT_SUCCESS (reference_image im) then refused (reference_image im) x
      else
      let x = x\<lparr>file_object := True\<rparr> in
      case call (file_handle (extension x)) of (r, f) \<Rightarrow>
      let x = x\<lparr>extension := (extension x)\<lparr>file_handle := f\<rparr>\<rparr> in
      case r of
        None \<Rightarrow> refused STATUS_INSUFFICIENT_RESOURCES x
      | Some (status, info) \<Rightarrow> (status, info, No_answer, x))"

definition DeviceThreadFlushBuffers :: "'f image_ops \<Rightarrow> ('f, 's) device_object \<Rightarrow> ('f, 's) handled" where
  "DeviceThreadFlushBuffers im x = with_file_object im (image_flush im) x"

text \<open>The major function is compared with a request code, which no major function equals, so the
  image's device always gets a device control.\<close>

definition IRP_MJ_DEVICE_CONTROL :: int where "IRP_MJ_DEVICE_CONTROL = 0xE"
definition FSCTL_PASS_THROUGH_CODE :: int where "FSCTL_PASS_THROUGH_CODE = 0x8372E020"

definition thread_pass_through ::
    "'f image_ops \<Rightarrow> request \<Rightarrow> int \<Rightarrow> ('f, 's) device_object \<Rightarrow> ('f, 's) handled" where
  "thread_pass_through im rq inner x =
     with_file_object im
       (image_control im (IRP_MJ_DEVICE_CONTROL = FSCTL_PASS_THROUGH_CODE) inner
          (u32 (InputBufferLength rq - 4)) (OutputBufferLength rq)) x"

section \<open>Verification\<close>

definition thread_verify ::
    "('f, 's) dev_ops \<Rightarrow> request \<Rightarrow> ('f, 's) device_object \<Rightarrow> ('f, 's) handled option" where
  "thread_verify os rq x =
     (let dx = extension x in
      if \<not> pool os 1 then Some (refused STATUS_INSUFFICIENT_RESOURCES x)
      else Option.bind
        (if use_proxy dx
         then map_option (\<lambda>(status, _, _, px). (status, dx\<lparr>proxy := px\<rparr>))
                (ReadProxy (proxies os) (proxy dx) 0 (image_offset dx))
         else case nt_read (files os) (file_handle dx) (image_offset dx) 0 of (status, _, f) \<Rightarrow>
                Some (status, dx\<lparr>file_handle := f\<rparr>))
        (\<lambda>(status, dx).
          let x = x\<lparr>extension := dx\<rparr> in
          if \<not> NT_SUCCESS status then Some (refused STATUS_DEVICE_DOES_NOT_EXIST x)
          else if OutputBufferLength rq < 4 then Some (STATUS_SUCCESS, 0, No_answer, x)
          else Some (STATUS_SUCCESS, 4, Count (media_change_count dx), x)))"

section \<open>Discarding through a proxy\<close>

definition thread_unmap ::
    "('f, 's) dev_ops \<Rightarrow> dsm_attributes \<Rightarrow> ('f, 's) device_object \<Rightarrow> ('f, 's) handled option" where
  "thread_unmap os a x =
     (let dx = extension x; items = dsm_items a in
      if \<not> pool os (16 * items) then Some (refused STATUS_INSUFFICIENT_RESOURCES x)
      else if length (ranges_there a) < items then None
      else
      let ranges = take items (ranges_there a);
          ranges = (if 0 < image_offset dx
                    then map (\<lambda>(start, len). (s64 (start + image_offset dx), len)) ranges else ranges)
      in map_option (\<lambda>(status, px). (status, 0, No_answer, x\<lparr>extension := dx\<lparr>proxy := px\<rparr>\<rparr>))
           (UnmapOrZeroProxy (proxies os) (proxy dx) REQ_UNMAP ranges))"

section \<open>Growing\<close>

definition grown :: "int \<Rightarrow> ('f, 's) device_extension \<Rightarrow> ntstatus \<times> ('f, 's) device_extension \<times> bool" where
  "grown new_size dx = (STATUS_SUCCESS, dx\<lparr>disk_size := new_size\<rparr>, True)"

text \<open>The last component says that the refresh event is pulsed.\<close>

definition grow_memory ::
    "('f, 's) dev_ops \<Rightarrow> int \<Rightarrow> ('f, 's) device_extension \<Rightarrow> ntstatus \<times> ('f, 's) device_extension \<times> bool" where
  "grow_memory os new_size dx =
     (case new_memory os new_size of
        None \<Rightarrow> (STATUS_NO_MEMORY, dx, False)
      | Some fresh \<Rightarrow>
          grown new_size (dx\<lparr>image_buffer :=
            mem_write fresh 0 (mem_bytes (image_buffer dx) 0 (nat (min (disk_size dx) new_size)))\<rparr>))"

definition grow_file ::
    "('f, 's) dev_ops \<Rightarrow> int \<Rightarrow> ('f, 's) device_extension \<Rightarrow> ntstatus \<times> ('f, 's) device_extension \<times> bool" where
  "grow_file os new_size dx =
     (if image_offset dx \<noteq> 0 then (STATUS_INVALID_DEVICE_REQUEST, dx, False)
      else case nt_size (files os) (file_handle dx) of (status, current) \<Rightarrow>
      if \<not> NT_SUCCESS status then (status, dx, False)
      else if new_size \<le> current then grown new_size dx
      else case nt_set_size (files os) (file_handle dx) new_size of (status, f) \<Rightarrow>
      let dx = dx\<lparr>file_handle := f\<rparr> in
      if NT_SUCCESS status then grown new_size dx else (status, dx, False))"

definition grow_device ::
    "('f, 's) dev_ops \<Rightarrow> int \<Rightarrow> ('f, 's) device_extension \<Rightarrow> ntstatus \<times> ('f, 's) device_extension \<times> bool" where
  "grow_device os bytes dx =
     (let new_size = s64 (disk_size dx + bytes) in
      if new_size \<le> 0 then (STATUS_END_OF_MEDIA, dx, False)
      else if vm_disk dx then grow_memory os new_size dx
      else if use_proxy dx then grown new_size dx
      else grow_file os new_size dx)"

section \<open>Formatting\<close>

definition MEDIA_FORMAT_FILL_DATA :: byte where "MEDIA_FORMAT_FILL_DATA = 0xF6"

definition mem_fill :: "(int \<Rightarrow> byte) \<Rightarrow> int \<Rightarrow> int \<Rightarrow> byte \<Rightarrow> int \<Rightarrow> byte" where
  "mem_fill m off len b = (\<lambda>i. if off \<le> i \<and> i < off + len then b else m i)"

definition track_length :: "('f, 's) device_object \<Rightarrow> int" where
  "track_length x = u32 (sector_bytes x * sectors x)"

definition format_offset :: "('f, 's) device_object \<Rightarrow> int \<Rightarrow> int \<Rightarrow> int" where
  "format_offset x cylinder head =
     s64 (cylinder * tracks x * track_length x + head * track_length x)"

text \<open>The loop over the tracks: it writes before it compares.\<close>

partial_function (option) format_tracks ::
    "('f, 's) dev_ops \<Rightarrow> byte list \<Rightarrow> int \<Rightarrow> int \<Rightarrow> ('f, 's) device_extension \<Rightarrow>
     (ntstatus \<times> ('f, 's) device_extension) option" where
  "format_tracks os block start final dx =
     Option.bind
       (if use_proxy dx
        then Option.bind (WriteProxy (proxies os) (proxy dx) block start) (\<lambda>(status, _, px).
               Some (status, dx\<lparr>proxy := px\<rparr>))
        else case nt_write (files os) (file_handle dx) block start of (status, _, f) \<Rightarrow>
               Some (status, dx\<lparr>file_handle := f\<rparr>))
       (\<lambda>(status, dx).
         if \<not> NT_SUCCESS status then Some (status, dx)
         else if s64 (start + int (length block)) \<le> final
         then format_tracks os block (s64 (start + int (length block))) final dx
         else Some (status, dx))"

text \<open>On a memory disk only the low 32 bits of the offsets count, and the number of bytes to fill is
  an unsigned 64-bit value.\<close>

definition FloppyFormat ::
    "('f, 's) dev_ops \<Rightarrow> int \<Rightarrow> int \<Rightarrow> int \<Rightarrow> int \<Rightarrow> ('f, 's) device_object \<Rightarrow>
     (ntstatus \<times> ('f, 's) device_extension) option" where
  "FloppyFormat os start_cyl end_cyl start_head end_head x =
     (let dx = extension x; len = track_length x;
          start = format_offset x start_cyl start_head;
          final = format_offset x end_cyl end_head
      in
      if vm_disk dx
      then Some (STATUS_SUCCESS,
                 dx\<lparr>image_buffer := mem_fill (image_buffer dx) (u32 start) (u64 (u32 final - u32 start + len))
                                     MEDIA_FORMAT_FILL_DATA\<rparr>)
      else if \<not> pool os (nat len) then Some (STATUS_INSUFFICIENT_RESOURCES, dx)
      else format_tracks os (replicate (nat len) MEDIA_FORMAT_FILL_DATA)
             (s64 (start + image_offset dx)) (s64 (final + image_offset dx)) dx)"

definition thread_format ::
    "('f, 's) dev_ops \<Rightarrow> int \<Rightarrow> int \<Rightarrow> int \<Rightarrow> int \<Rightarrow> ('f, 's) device_object \<Rightarrow> ('f, 's) handled option" where
  "thread_format os c1 c2 h1 h2 x =
     map_option (\<lambda>(status, dx).
         (if NT_SUCCESS status then status else STATUS_DEVICE_DOES_NOT_EXIST, 0, No_answer, x\<lparr>extension := dx\<rparr>))
       (FloppyFormat os c1 c2 h1 h2 x)"

section \<open>The handler of control requests\<close>

definition DeviceThreadDeviceControl ::
    "('f, 's) dev_ops \<Rightarrow> 'f image_ops \<Rightarrow> request \<Rightarrow> ioctl \<Rightarrow> ('f, 's) device_object \<Rightarrow>
     (('f, 's) handled \<times> bool) option" where
  "DeviceThreadDeviceControl os im rq code x =
     (case code of
        CHECK_VERIFY \<Rightarrow> map_option (\<lambda>h. (h, False)) (thread_verify os rq x)
      | PASS_THROUGH fsctl inner \<Rightarrow> Some (thread_pass_through im rq inner x, False)
      | FORMAT_TRACKS c1 c2 h1 h2 \<Rightarrow> map_option (\<lambda>h. (h, False)) (thread_format os c1 c2 h1 h2 x)
      | FORMAT_TRACKS_EX c1 c2 h1 h2 gap n \<Rightarrow> map_option (\<lambda>h. (h, False)) (thread_format os c1 c2 h1 h2 x)
      | MANAGE_DATA_SET_ATTRIBUTES a \<Rightarrow> map_option (\<lambda>h. (h, False)) (thread_unmap os a x)
      | GROW_PARTITION n bytes \<Rightarrow>
          (case grow_device os bytes (extension x) of (status, dx, pulse) \<Rightarrow>
             Some ((status, 0, No_answer, x\<lparr>extension := dx\<rparr>), pulse))
      | _ \<Rightarrow> Some (refused STATUS_DRIVER_INTERNAL_ERROR x, False))"

text \<open>What the thread does with a request that is not a read or a write; a request that came as an
  internal device control has no handler. A status that says the connection is gone removes the
  device.\<close>

datatype queued = Flush_request | Control_request request ioctl

definition thread_handle ::
    "('f, 's) dev_ops \<Rightarrow> 'f image_ops \<Rightarrow> queued \<Rightarrow> ('f, 's) device_object \<Rightarrow>
     (('f, 's) handled \<times> bool) option" where
  "thread_handle os im q x =
     (case q of
        Flush_request \<Rightarrow> Some (DeviceThreadFlushBuffers im x, False)
      | Control_request rq code \<Rightarrow>
          if internal rq then Some (refused STATUS_DRIVER_INTERNAL_ERROR x, False)
          else DeviceThreadDeviceControl os im rq code x)"

definition thread_control ::
    "('f, 's) dev_ops \<Rightarrow> 'f image_ops \<Rightarrow> queued \<Rightarrow> nat \<Rightarrow> ('f, 's, 'o) driver \<Rightarrow>
     ((ntstatus \<times> nat \<times> answer) \<times> ('f, 's, 'o) driver) option" where
  "thread_control os im q d drv =
     (case lookup_device drv d of
        None \<Rightarrow> None
      | Some x \<Rightarrow>
          map_option (\<lambda>((status, info, out, x), pulse).
              let drv = put_device d x drv;
                  drv = (if pulse then refresh drv else drv)
              in if connection_died status
                 then ((STATUS_DEVICE_DOES_NOT_EXIST, 0, out), RemoveDevice PASSIVE_LEVEL d drv)
                 else ((status, info, out), drv))
            (thread_handle os im q x))"

section \<open>Loading the image of a memory disk\<close>

text \<open>Before the service loop. A failure removes the device; the image file is closed in any case.\<close>

definition load_image ::
    "('f, 's) dev_ops \<Rightarrow> nat \<Rightarrow> ('f, 's, 'o) driver \<Rightarrow> ('f, 's, 'o) driver" where
  "load_image os d drv =
     (case lookup_device drv d of
        None \<Rightarrow> drv
      | Some x \<Rightarrow>
          let dx = extension x in
          if vm_disk dx \<and> file_open x
          then
            (case SafeReadFile \<lparr>pool_alloc = pool os, zw_read = nt_read (files os)\<rparr>
                    (nat (disk_size dx)) (image_offset dx) (file_handle dx) of (status, _, data, f) \<Rightarrow>
              let n = nat (disk_size dx);
                  m = mem_write (image_buffer dx) 0 data;
                  m = (if NT_SUCCESS status \<and> byte_swap dx
                       then mem_write m 0 (ByteSwapBuffer (mem_bytes m 0 (n + n mod 2))) else m);
                  dx = dx\<lparr>file_handle := f, image_buffer := m\<rparr>;
                  drv = put_device d (x\<lparr>extension := dx, file_open := False\<rparr>) drv
              in if \<not> NT_SUCCESS status then RemoveDevice PASSIVE_LEVEL d drv else drv)
          else drv)"

end
