(* ===== verification/Sys_Create.thy ===== *)
theory Sys_Create
  imports Sys_Control
begin

text \<open>
  Creating a device (\<open>FscryptDiskCreateDevice\<close> in \<open>sys/createdev.cpp\<close>), in the stages of the code: the
  checks of the request, opening or creating the image, connecting a proxy, sizes and geometry, the
  floppy formats, the device object. Each stage reports either a failure, with what is still held
  after its own cleanup, or its results with what it holds; \<open>None\<close> is a proxy that never answers.
  The calls to the system are arguments. The client's impersonation and the alignment requirement,
  which only the system uses, are left out; the 64-bit build is modelled.
\<close>

section \<open>What a creation holds\<close>

text \<open>The handle of the image, the proxy connection, the memory, the reference to the file object.
  A file that is closed again is kept in the list, as it was left.\<close>

record ('f, 's) held =
  image_file :: "'f option"
  px :: "'s proxy"
  image_memory :: "(int \<Rightarrow> byte) option"
  image_object :: bool
  closed_files :: "'f list"

type_synonym ('f, 's, 'a) stage = "((ntstatus \<times> ('f, 's) held) + ('a \<times> ('f, 's) held)) option"

definition failing :: "ntstatus \<Rightarrow> ('f, 's) held \<Rightarrow> ('f, 's, 'a) stage" where
  "failing status h = Some (Inl (status, h))"

definition go_on :: "'a \<Rightarrow> ('f, 's) held \<Rightarrow> ('f, 's, 'a) stage" where
  "go_on a h = Some (Inr (a, h))"

definition and_then :: "('f, 's, 'a) stage \<Rightarrow> ('a \<Rightarrow> ('f, 's) held \<Rightarrow> ('f, 's, 'b) stage) \<Rightarrow> ('f, 's, 'b) stage" where
  "and_then m k =
     (case m of None \<Rightarrow> None | Some (Inl e) \<Rightarrow> Some (Inl e) | Some (Inr (a, h)) \<Rightarrow> k a h)"

definition close_file :: "('f, 's) held \<Rightarrow> ('f, 's) held" where
  "close_file h =
     (case image_file h of None \<Rightarrow> h
      | Some f \<Rightarrow> h\<lparr>image_file := None, closed_files := closed_files h @ [f]\<rparr>)"

definition close_proxy :: "('f, 's) held \<Rightarrow> ('f, 's) held" where
  "close_proxy h = h\<lparr>px := snd (CloseProxy (px h))\<rparr>"

definition free_memory :: "('f, 's) held \<Rightarrow> ('f, 's) held" where
  "free_memory h = h\<lparr>image_memory := None\<rparr>"

definition leave_object :: "('f, 's) held \<Rightarrow> ('f, 's) held" where
  "leave_object h = h\<lparr>image_object := False\<rparr>"

text \<open>The cleanup at the end of the routine.\<close>

definition release_all :: "('f, 's) held \<Rightarrow> ('f, 's) held" where
  "release_all h = free_memory (leave_object (close_file (close_proxy h)))"

section \<open>The system's calls\<close>

record open_request =
  path :: "wchar list"
  write_access :: bool
  share_write :: bool
  no_buffering :: bool
  backup_intent :: bool
  sequential_only :: bool
  open_if :: bool

record ('f, 's) create_ops =
  name_block :: bool
  real_name_block :: bool
  vbr_block :: bool
  vbr_garbage :: "byte list"
  device_name_block :: bool
  symlink_name_block :: bool
  open_section :: "wchar list \<Rightarrow> ntstatus \<times> 'f"
  zw_create_file :: "open_request \<Rightarrow> ntstatus \<times> 'f"
  set_sparse :: "'f \<Rightarrow> ntstatus \<times> 'f"
  map_view :: "'f \<Rightarrow> ntstatus \<times> byte list \<times> 's"
  reference_proxy :: "'f \<Rightarrow> ntstatus \<times> 's"
  events :: event_env
  standard_size :: "'f \<Rightarrow> ntstatus \<times> int"
  length_info :: "'f \<Rightarrow> ntstatus \<times> int"
  partition_length :: "'f \<Rightarrow> ntstatus \<times> int"
  file_alignment :: "'f \<Rightarrow> ntstatus"
  reference_file :: "'f \<Rightarrow> bool \<Rightarrow> ntstatus"
  image_direct_io :: bool
  io_create_device :: "int \<Rightarrow> ntstatus"
  create_symlink :: "int \<Rightarrow> ntstatus"
  null_handle :: 'f
  idle_peer :: 's

section \<open>Checks of the request\<close>

definition PROXY_TYPE_COMM :: int where "PROXY_TYPE_COMM = 0x1000"
definition PROXY_TYPE_TCP :: int where "PROXY_TYPE_TCP = 0x2000"
definition PROXY_TYPE_SHM :: int where "PROXY_TYPE_SHM = 0x3000"
definition PROXY_TYPE_DIRECT :: int where "PROXY_TYPE_DIRECT = 0"

definition is_file :: "creation_data \<Rightarrow> bool" where "is_file cd \<longleftrightarrow> DISK_TYPE (Flags cd) = TYPE_FILE"
definition is_vm :: "creation_data \<Rightarrow> bool" where "is_vm cd \<longleftrightarrow> DISK_TYPE (Flags cd) = TYPE_VM"
definition is_proxy :: "creation_data \<Rightarrow> bool" where "is_proxy cd \<longleftrightarrow> DISK_TYPE (Flags cd) = TYPE_PROXY"

definition is_awe :: "creation_data \<Rightarrow> bool" where
  "is_awe cd \<longleftrightarrow> is_file cd \<and> FILE_TYPE (Flags cd) = FILE_TYPE_AWEFSALLOC"

definition is_shm :: "creation_data \<Rightarrow> bool" where
  "is_shm cd \<longleftrightarrow> is_proxy cd \<and> FILE_TYPE (Flags cd) = PROXY_TYPE_SHM"

definition add_flag :: "int \<Rightarrow> creation_data \<Rightarrow> creation_data" where
  "add_flag bits cd = cd\<lparr>Flags := Flags cd OR bits\<rparr>"

definition select_type :: "creation_data \<Rightarrow> creation_data" where
  "select_type cd =
     (if DISK_TYPE (Flags cd) = 0
      then add_flag (if FileNameLength cd = 0 then TYPE_VM else TYPE_FILE) cd else cd)"

definition blank_name_ok :: "creation_data \<Rightarrow> bool" where
  "blank_name_ok cd \<longleftrightarrow>
     FileNameLength cd \<noteq> 0 \<or> (is_vm cd \<and> 65536 < Cylinders cd) \<or> (is_awe cd \<and> 65536 < Cylinders cd)"

text \<open>One above the highest number in use.\<close>

definition FindFreeDeviceNumber :: "(nat \<times> ('f, 's) device_object) list \<Rightarrow> int" where
  "FindFreeDeviceNumber devices =
     fold (\<lambda>(d, x) n. if device_number x = control_number then n
                      else if n \<le> device_number x then u32 (device_number x + 1) else n) devices 0"

definition choose_number :: "(nat \<times> ('f, 's) device_object) list \<Rightarrow> creation_data \<Rightarrow> creation_data" where
  "choose_number devices cd =
     (if DeviceNumber cd = FSCRYPTDISK_AUTO_DEVICE_NUMBER
      then cd\<lparr>DeviceNumber := FindFreeDeviceNumber devices\<rparr> else cd)"

definition swap_ok :: "creation_data \<Rightarrow> bool" where
  "swap_ok cd \<longleftrightarrow> \<not> (BYTE_SWAP (Flags cd) \<and> is_file cd \<and> FILE_TYPE (Flags cd) \<noteq> FILE_TYPE_BUFFERED_IO)"

definition check_request ::
    "driver_settings \<Rightarrow> (nat \<times> ('f, 's) device_object) list \<Rightarrow> creation_data \<Rightarrow> creation_data option" where
  "check_request ds devices cd =
     (let cd = select_type cd in
      if \<not> blank_name_ok cd then None
      else
      let cd = choose_number devices cd in
      if MaxDevices ds \<le> DeviceNumber cd then None
      else if \<not> swap_ok cd then None else Some cd)"

section \<open>The image's name\<close>

definition wide_string :: "string \<Rightarrow> wchar list" where
  "wide_string s = map (\<lambda>c. word_of_nat (of_char c)) s"

definition AWEFSALLOC_DEVICE_NAME :: "wchar list" where
  "AWEFSALLOC_DEVICE_NAME = wide_string ([CHR 0x5C] @ ''Device'' @ [CHR 0x5C] @ ''AWE_FS_Alloc'')"

definition SVC_PIPE_NATIVE_NAME :: "wchar list" where
  "SVC_PIPE_NATIVE_NAME = wide_string ([CHR 0x5C] @ ''Device'' @ [CHR 0x5C] @ ''NamedPipe'' @ [CHR 0x5C] @ ''FscryptDskSvc'')"

definition given_name :: "creation_data \<Rightarrow> wchar list" where
  "given_name cd = take (nat (FileNameLength cd div 2)) (FileName cd)"

definition wlower :: "wchar \<Rightarrow> wchar" where
  "wlower w = (if 65 \<le> uint w \<and> uint w \<le> 90 then w + 32 else w)"

definition ends_with :: "creation_data \<Rightarrow> string \<Rightarrow> bool" where
  "ends_with cd ext \<longleftrightarrow>
     (let name = given_name cd in map wlower (drop (length name - 4) name) = wide_string ext)"

definition type_by_extension :: "creation_data \<Rightarrow> creation_data" where
  "type_by_extension cd =
     (let cd = (if DEVICE_TYPE (Flags cd) = 0 \<and> 8 \<le> FileNameLength cd \<and>
                   (ends_with cd ''.iso'' \<or> ends_with cd ''.nrg'' \<or> ends_with cd ''.bin'')
                then add_flag (DEVICE_TYPE_CD OR OPTION_RO) cd else cd)
      in if DEVICE_TYPE (Flags cd) = DEVICE_TYPE_CD then add_flag OPTION_RO cd else cd)"

text \<open>The name with the device of \<open>awefsalloc\<close> in front must fit into a 16-bit length, the terminator
  of the prefix included.\<close>

definition awe_name_fits :: "creation_data \<Rightarrow> bool" where
  "awe_name_fits cd \<longleftrightarrow> FileNameLength cd + 40 \<le> u16 (FileNameLength cd + 42)"

definition real_name :: "creation_data \<Rightarrow> wchar list" where
  "real_name cd =
     (if is_awe cd then AWEFSALLOC_DEVICE_NAME @ given_name cd
      else if is_proxy cd \<and> (FILE_TYPE (Flags cd) = PROXY_TYPE_TCP \<or> FILE_TYPE (Flags cd) = PROXY_TYPE_COMM)
      then SVC_PIPE_NATIVE_NAME
      else given_name cd)"

definition open_parameters :: "creation_data \<Rightarrow> open_request" where
  "open_parameters cd =
     \<lparr>path = real_name cd,
      write_access = (is_proxy cd \<or> \<not> is_vm cd \<and> \<not> READONLY (Flags cd)),
      share_write = (READONLY (Flags cd) \<or> is_vm cd \<or> SHARED_IMAGE (Flags cd)),
      no_buffering = (FILE_TYPE (Flags cd) \<noteq> FILE_TYPE_BUFFERED_IO),
      backup_intent = SPARSE_FILE (Flags cd),
      sequential_only = is_proxy cd,
      open_if = False\<rparr>"

section \<open>Opening the image\<close>

definition opens_file :: "creation_data \<Rightarrow> bool" where
  "opens_file cd \<longleftrightarrow> 0 < FileNameLength cd \<or> is_awe cd"

definition name_stage :: "('f, 's) create_ops \<Rightarrow> creation_data \<Rightarrow> ('f, 's) held \<Rightarrow> ('f, 's, creation_data) stage" where
  "name_stage ops cd h =
     (if 0 < FileNameLength cd \<and> \<not> name_block ops then failing STATUS_INSUFFICIENT_RESOURCES h
      else
      let cd = type_by_extension cd in
      if is_awe cd \<and> \<not> real_name_block ops then failing STATUS_INSUFFICIENT_RESOURCES h
      else if is_awe cd \<and> \<not> awe_name_fits cd then failing STATUS_DRIVER_INTERNAL_ERROR h
      else go_on cd h)"

text \<open>A missing file is created for a writable disk of a given size.\<close>

definition open_stage :: "('f, 's) create_ops \<Rightarrow> creation_data \<Rightarrow> ('f, 's) held \<Rightarrow> ('f, 's, creation_data) stage" where
  "open_stage ops cd h =
     (let h = (if is_shm cd then h\<lparr>px := (px h)\<lparr>connection_type := PROXY_CONNECTION_SHM\<rparr>\<rparr> else h);
          rq = open_parameters cd
      in
      case (if is_shm cd then open_section ops (real_name cd) else zw_create_file ops rq) of (status, f) \<Rightarrow>
      if (status = STATUS_OBJECT_NAME_NOT_FOUND \<or> status = STATUS_NO_SUCH_FILE) \<and>
         Cylinders cd \<noteq> 0 \<and> \<not> READONLY (Flags cd) \<and> is_file cd
      then (case zw_create_file ops (rq\<lparr>write_access := True, open_if := True\<rparr>) of (status, f) \<Rightarrow>
              if NT_SUCCESS status then go_on cd (h\<lparr>image_file := Some f\<rparr>) else failing status h)
      else if NT_SUCCESS status then go_on cd (h\<lparr>image_file := Some f\<rparr>) else failing status h)"

text \<open>The attribute of a sparse image, and the size of a writable one.\<close>

definition sparse_stage :: "('f, 's) create_ops \<Rightarrow> creation_data \<Rightarrow> 'f \<Rightarrow> creation_data \<times> 'f" where
  "sparse_stage ops cd f =
     (if is_file cd \<and> \<not> READONLY (Flags cd) \<and> SPARSE_FILE (Flags cd)
      then (case set_sparse ops f of (status, f) \<Rightarrow>
              (if NT_SUCCESS status then cd else cd\<lparr>Flags := Flags cd AND NOT OPTION_SPARSE_FILE\<rparr>, f))
      else (cd, f))"

definition resize_stage ::
    "('f, 's) dev_ops \<Rightarrow> ('f, 's) create_ops \<Rightarrow> creation_data \<Rightarrow> 'f \<Rightarrow> ('f, 's) held \<Rightarrow> ('f, 's, creation_data) stage" where
  "resize_stage os ops cd f h =
     (case sparse_stage ops cd f of (cd, f) \<Rightarrow>
      if is_file cd \<and> \<not> READONLY (Flags cd) \<and> Cylinders cd \<noteq> 0 \<and> ImageOffset cd = 0
      then (case nt_set_size (files os) f (Cylinders cd) of (status, f) \<Rightarrow>
              if NT_SUCCESS status then go_on cd (h\<lparr>image_file := Some f\<rparr>)
              else failing status (close_file (h\<lparr>image_file := Some f\<rparr>)))
      else go_on cd (h\<lparr>image_file := Some f\<rparr>))"

section \<open>Connecting a proxy\<close>

definition attach_stage :: "('f, 's) create_ops \<Rightarrow> creation_data \<Rightarrow> 'f \<Rightarrow> ('f, 's) held \<Rightarrow> ('f, 's, unit) stage" where
  "attach_stage ops cd f h =
     (if is_shm cd
      then (case map_view ops f of (status, view, s) \<Rightarrow>
              if NT_SUCCESS status
              then go_on () (h\<lparr>px := (px h)\<lparr>shared_memory := view, shared_memory_size := length view, peer := s\<rparr>\<rparr>)
              else failing status (close_file h))
      else (case reference_proxy ops f of (status, s) \<Rightarrow>
              if NT_SUCCESS status then go_on () (h\<lparr>px := (px h)\<lparr>device := True, peer := s\<rparr>\<rparr>)
              else failing status (close_file h)))"

definition connect_stage ::
    "('f, 's) dev_ops \<Rightarrow> ('f, 's) create_ops \<Rightarrow> creation_data \<Rightarrow> 'f \<Rightarrow> ('f, 's) held \<Rightarrow> ('f, 's, unit) stage" where
  "connect_stage os ops cd f h =
     (if is_proxy cd
      then and_then (attach_stage ops cd f h) (\<lambda>_ h.
        if FILE_TYPE (Flags cd) = PROXY_TYPE_DIRECT then go_on () h
        else Option.bind (ConnectProxy (proxies os) (events ops) (px h) (is_shm cd) (Flags cd)
                            (wbytes (given_name cd)))
          (\<lambda>(status, p).
            let h = h\<lparr>px := p\<rparr> in
            if NT_SUCCESS status then go_on () h else failing status (close_file (close_proxy h))))
      else go_on () h)"

section \<open>Formatted geometry\<close>

definition media_sizes :: "int list" where
  "media_sizes = map (\<lambda>k. k * 1024)
     [234752, 123264, 2880, 1722, 1680, 1440, 820, 720, 1200, 640, 360, 320, 180, 160]"

definition media_table :: "(int \<times> media_type \<times> int \<times> int \<times> int) list" where
  "media_table =
     [(963, F3_120M_512, 8, 32, 512), (262, F3_120M_512, 32, 56, 512),
      (80, F3_2Pt88_512, 2, 36, 512), (82, F3_1Pt44_512, 2, 21, 512), (80, F3_1Pt44_512, 2, 21, 512),
      (80, F3_1Pt44_512, 2, 18, 512), (82, F3_720_512, 2, 10, 512), (80, F3_720_512, 2, 9, 512),
      (80, F5_1Pt2_512, 2, 15, 512), (40, F5_640_512, 2, 18, 512), (40, F5_360_512, 2, 9, 512),
      (40, F5_320_512, 2, 8, 512), (40, F5_180_512, 1, 9, 512), (40, F5_160_512, 1, 8, 512)]"

definition floppy_format :: "int \<Rightarrow> (int \<times> media_type \<times> int \<times> int \<times> int) option" where
  "floppy_format sz = map_of (zip media_sizes media_table) sz"

text \<open>The loop that drops the low zero bits; what is left must be 1.\<close>

fun odd_part :: "nat \<Rightarrow> nat" where
  "odd_part n = (if n = 0 \<or> odd n then n else odd_part (n div 2))"

declare odd_part.simps [simp del]

definition bpb_word :: "nat \<Rightarrow> byte list \<Rightarrow> int" where
  "bpb_word pos vbr = le_of (take 2 (drop (11 + pos) vbr))"

definition bpb_valid :: "byte list \<Rightarrow> bool" where
  "bpb_valid vbr \<longleftrightarrow>
     bpb_word 0 vbr \<noteq> 0 \<and> bpb_word 13 vbr < 64 \<and> bpb_word 15 vbr < 256 \<and>
     odd_part (nat (bpb_word 0 vbr)) = 1"

definition ReadFormattedGeometry :: "byte list \<Rightarrow> creation_data \<Rightarrow> creation_data" where
  "ReadFormattedGeometry vbr cd =
     (if \<not> bpb_valid vbr then cd
      else
      let cd = (if SectorsPerTrack cd = 0 then cd\<lparr>SectorsPerTrack := bpb_word 13 vbr\<rparr> else cd);
          cd = (if TracksPerCylinder cd = 0 then cd\<lparr>TracksPerCylinder := bpb_word 15 vbr\<rparr> else cd);
          cd = (if BytesPerSector cd = 0 then cd\<lparr>BytesPerSector := bpb_word 0 vbr\<rparr> else cd)
      in
      if (DEVICE_TYPE (Flags cd) = DEVICE_TYPE_FD \<or> DEVICE_TYPE (Flags cd) = 0) \<and> MediaType cd = Unknown
      then (case floppy_format (Cylinders cd) of
              None \<Rightarrow> cd
            | Some (_, m, _) \<Rightarrow> (add_flag DEVICE_TYPE_FD cd)\<lparr>MediaType := m\<rparr>)
      else cd)"

definition geometry_missing :: "creation_data \<Rightarrow> bool" where
  "geometry_missing cd \<longleftrightarrow> TracksPerCylinder cd = 0 \<or> SectorsPerTrack cd = 0 \<or> BytesPerSector cd = 0"

section \<open>Sizes\<close>

definition GetDiskSize :: "('f, 's) create_ops \<Rightarrow> 'f \<Rightarrow> ntstatus \<times> int" where
  "GetDiskSize ops f =
     (if NT_SUCCESS (fst (standard_size ops f)) then standard_size ops f
      else if NT_SUCCESS (fst (length_info ops f)) then length_info ops f
      else partition_length ops f)"

definition size_if_missing :: "int \<Rightarrow> creation_data \<Rightarrow> creation_data" where
  "size_if_missing sz cd = (if Cylinders cd = 0 then cd\<lparr>Cylinders := sz\<rparr> else cd)"

text \<open>Image files: the size, the memory of a memory disk, the boot sector's geometry.\<close>

definition size_stage ::
    "('f, 's) dev_ops \<Rightarrow> ('f, 's) create_ops \<Rightarrow> creation_data \<Rightarrow> 'f \<Rightarrow> ('f, 's) held \<Rightarrow> ('f, 's, creation_data) stage" where
  "size_stage os ops cd f h =
     (case GetDiskSize ops f of (status, image_size) \<Rightarrow>
      if \<not> NT_SUCCESS status then failing status (close_file h)
      else
      let rest = s64 (image_size - ImageOffset cd) in
      if is_vm cd
      then (let cd = size_if_missing rest cd in
            case new_memory os (u64 (Cylinders cd)) of
              None \<Rightarrow> failing STATUS_NO_MEMORY (close_file h)
            | Some m \<Rightarrow> go_on cd (h\<lparr>image_memory := Some m\<rparr>))
      else if \<not> NT_SUCCESS (file_alignment ops f) then failing (file_alignment ops f) (close_file h)
      else go_on (size_if_missing rest cd) h)"

definition geometry_stage ::
    "('f, 's) dev_ops \<Rightarrow> ('f, 's) create_ops \<Rightarrow> creation_data \<Rightarrow> 'f \<Rightarrow> ('f, 's) held \<Rightarrow> ('f, 's, creation_data) stage" where
  "geometry_stage os ops cd f h =
     (if \<not> geometry_missing cd then go_on cd h
      else if \<not> vbr_block ops then failing STATUS_INSUFFICIENT_RESOURCES (free_memory (close_file h))
      else case nt_read (files os) f (ImageOffset cd) 512 of (status, data, f) \<Rightarrow>
        go_on (if NT_SUCCESS status then ReadFormattedGeometry (overlay (vbr_garbage ops) data) cd else cd)
              (h\<lparr>image_file := Some f\<rparr>))"

definition file_stage ::
    "('f, 's) dev_ops \<Rightarrow> ('f, 's) create_ops \<Rightarrow> creation_data \<Rightarrow> 'f \<Rightarrow> ('f, 's) held \<Rightarrow>
     ('f, 's, creation_data \<times> bool \<times> bool) stage" where
  "file_stage os ops cd f h =
     and_then (size_stage os ops cd f h) (\<lambda>cd h.
     and_then (geometry_stage os ops cd f h) (\<lambda>cd h. go_on (cd, False, False) h))"

text \<open>Proxies: size, alignment and abilities come from the server; the truth values are its support
  for unmapping and for zeroing.\<close>

definition proxy_geometry_stage ::
    "('f, 's) dev_ops \<Rightarrow> ('f, 's) create_ops \<Rightarrow> creation_data \<Rightarrow> ('f, 's) held \<Rightarrow> ('f, 's, creation_data) stage" where
  "proxy_geometry_stage os ops cd h =
     (if \<not> geometry_missing cd then go_on cd h
      else if \<not> vbr_block ops then failing STATUS_INSUFFICIENT_RESOURCES (close_file (close_proxy h))
      else Option.bind (ReadProxy (proxies os) (px h) 512 (ImageOffset cd)) (\<lambda>(status, _, data, p).
        go_on (if NT_SUCCESS status then ReadFormattedGeometry (overlay (vbr_garbage ops) data) cd else cd)
              (h\<lparr>px := p\<rparr>)))"

definition proxy_stage ::
    "('f, 's) dev_ops \<Rightarrow> ('f, 's) create_ops \<Rightarrow> creation_data \<Rightarrow> ('f, 's) held \<Rightarrow>
     ('f, 's, creation_data \<times> bool \<times> bool) stage" where
  "proxy_stage os ops cd h =
     Option.bind (QueryInformationProxy (proxies os) (px h) 24) (\<lambda>(status, info, p).
       let h = h\<lparr>px := p\<rparr>;
           info_size = s64 (le_of (take 8 info));
           req_alignment = le_of (take 8 (drop 8 info));
           flags = le_of (take 8 (drop 16 info))
       in
       if \<not> NT_SUCCESS status then failing status (close_file (close_proxy h))
       else and_then (proxy_geometry_stage os ops (size_if_missing info_size cd) h) (\<lambda>cd h.
         if FILE_512_BYTE_ALIGNMENT < u64 (req_alignment - 1) \<or> Cylinders cd = 0
         then failing STATUS_INVALID_PARAMETER (close_file (close_proxy h))
         else go_on (if flags AND 1 \<noteq> 0 then add_flag OPTION_RO cd else cd,
                     flags AND 2 \<noteq> 0, flags AND 4 \<noteq> 0) h))"

definition minimum_stage ::
    "creation_data \<times> bool \<times> bool \<Rightarrow> ('f, 's) held \<Rightarrow> ('f, 's, creation_data \<times> bool \<times> bool) stage" where
  "minimum_stage r h =
     (if Cylinders (fst r) \<le> 65536
      then failing STATUS_INVALID_PARAMETER (free_memory (close_file (close_proxy h)))
      else go_on r h)"

text \<open>The branch for disks with an image, and the one for blank memory disks.\<close>

definition image_stage ::
    "('f, 's) dev_ops \<Rightarrow> ('f, 's) create_ops \<Rightarrow> creation_data \<Rightarrow> ('f, 's) held \<Rightarrow>
     ('f, 's, creation_data \<times> bool \<times> bool) stage" where
  "image_stage os ops cd h =
     and_then (name_stage ops cd h) (\<lambda>cd h.
     and_then (open_stage ops cd h) (\<lambda>cd h.
     and_then (resize_stage os ops cd (the (image_file h)) h) (\<lambda>cd h.
     and_then (connect_stage os ops cd (the (image_file h)) h) (\<lambda>_ h.
     and_then (if is_proxy cd then proxy_stage os ops cd h
               else file_stage os ops cd (the (image_file h)) h) minimum_stage))))"

definition blank_stage ::
    "('f, 's) dev_ops \<Rightarrow> creation_data \<Rightarrow> ('f, 's) held \<Rightarrow> ('f, 's, creation_data \<times> bool \<times> bool) stage" where
  "blank_stage os cd h =
     (case new_memory os (u64 (Cylinders cd)) of
        None \<Rightarrow> failing STATUS_NO_MEMORY h
      | Some m \<Rightarrow> go_on (cd, False, False) (h\<lparr>image_memory := Some m\<rparr>))"

section \<open>Device type and geometry\<close>

definition select_device_type :: "creation_data \<Rightarrow> creation_data" where
  "select_device_type cd =
     (if DEVICE_TYPE (Flags cd) = 0
      then add_flag (if Cylinders cd \<in> set media_sizes then DEVICE_TYPE_FD else DEVICE_TYPE_HD) cd
      else cd)"

definition is_cd :: "creation_data \<Rightarrow> bool" where "is_cd cd \<longleftrightarrow> DEVICE_TYPE (Flags cd) = DEVICE_TYPE_CD"
definition is_fd :: "creation_data \<Rightarrow> bool" where "is_fd cd \<longleftrightarrow> DEVICE_TYPE (Flags cd) = DEVICE_TYPE_FD"

definition fill_cd_geometry :: "creation_data \<Rightarrow> creation_data" where
  "fill_cd_geometry cd =
     (let cd = (if BytesPerSector cd = 0 then cd\<lparr>BytesPerSector := 2048\<rparr> else cd);
          calccyl = Cylinders cd div BytesPerSector cd;
          cd = (if SectorsPerTrack cd = 0
                then cd\<lparr>SectorsPerTrack := (if calccyl div 32 * 32 = calccyl then 32 else 1)\<rparr> else cd);
          calccyl = calccyl div SectorsPerTrack cd;
          cd = (if TracksPerCylinder cd = 0
                then cd\<lparr>TracksPerCylinder := (if calccyl div 64 * 64 = calccyl then 64 else 1)\<rparr> else cd)
      in if MediaType cd = Unknown then cd\<lparr>MediaType := RemovableMedia\<rparr> else cd)"

text \<open>A floppy without any geometry gets the one of its size; the table's number of cylinders is
  dropped, since the member keeps the total size.\<close>

definition fill_floppy_geometry :: "creation_data \<Rightarrow> creation_data" where
  "fill_floppy_geometry cd =
     (if is_fd cd \<and> BytesPerSector cd = 0 \<and> SectorsPerTrack cd = 0 \<and>
         TracksPerCylinder cd = 0 \<and> MediaType cd = Unknown
      then (case floppy_format (Cylinders cd) of
              None \<Rightarrow> cd
            | Some (_, m, t, s, b) \<Rightarrow>
                cd\<lparr>MediaType := m, TracksPerCylinder := t, SectorsPerTrack := s, BytesPerSector := b\<rparr>)
      else cd)"

function head_count :: "int \<Rightarrow> int \<Rightarrow> int" where
  "head_count calccyl heads =
     (if 128 < calccyl \<and> heads < 128 then head_count (calccyl div 2) (heads * 2) else heads)"
  by pat_completeness auto
termination by (relation "measure (\<lambda>(c, h). nat c)") auto

declare head_count.simps [simp del]

definition fill_disk_geometry :: "creation_data \<Rightarrow> creation_data" where
  "fill_disk_geometry cd =
     (let cd = fill_floppy_geometry cd;
          cd = (if BytesPerSector cd = 0 then cd\<lparr>BytesPerSector := 512\<rparr> else cd);
          calccyl = Cylinders cd div BytesPerSector cd;
          cd = (if SectorsPerTrack cd = 0 then cd\<lparr>SectorsPerTrack := 63\<rparr> else cd);
          calccyl = calccyl div SectorsPerTrack cd;
          cd = (if TracksPerCylinder cd = 0
                then cd\<lparr>TracksPerCylinder := (if 130560 \<le> calccyl then 255 else head_count calccyl 1)\<rparr>
                else cd)
      in if MediaType cd = Unknown then cd\<lparr>MediaType := FixedMedia\<rparr> else cd)"

definition fill_geometry :: "creation_data \<Rightarrow> creation_data" where
  "fill_geometry cd = (if is_cd cd then fill_cd_geometry cd else fill_disk_geometry cd)"

definition upper_letter :: "creation_data \<Rightarrow> creation_data" where
  "upper_letter cd = cd\<lparr>DriveLetter := upper (DriveLetter cd)\<rparr>"

definition completed_data :: "creation_data \<Rightarrow> creation_data" where
  "completed_data cd = upper_letter (fill_geometry (select_device_type cd))"

section \<open>The device object\<close>

definition read_only_characteristic :: "creation_data \<Rightarrow> bool" where
  "read_only_characteristic cd \<longleftrightarrow> is_cd cd \<or> READONLY (Flags cd)"

text \<open>The file object for parallel requests. The access mask asks for writing when the device is
  read-only.\<close>

definition object_stage ::
    "('f, 's) create_ops \<Rightarrow> creation_data \<Rightarrow> ('f, 's) held \<Rightarrow> ('f, 's, bool) stage" where
  "object_stage ops cd h =
     (let wanted = (image_file h \<noteq> None \<and> is_file cd \<and>
                    (FILE_TYPE (Flags cd) = FILE_TYPE_AWEFSALLOC \<or> FILE_TYPE (Flags cd) = FILE_TYPE_PARALLEL_IO));
          status = (if wanted then reference_file ops (the (image_file h)) (read_only_characteristic cd)
                    else STATUS_SUCCESS);
          h = (if wanted \<and> NT_SUCCESS status then h\<lparr>image_object := True\<rparr> else h);
          status = (if NT_SUCCESS status \<and> \<not> device_name_block ops
                    then STATUS_INSUFFICIENT_RESOURCES else status)
      in if NT_SUCCESS status then go_on wanted h else failing status (release_all h))"

definition device_status :: "('f, 's) create_ops \<Rightarrow> int \<Rightarrow> ntstatus" where
  "device_status ops n =
     (if \<not> NT_SUCCESS (io_create_device ops n) then io_create_device ops n
      else if \<not> symlink_name_block ops then STATUS_INSUFFICIENT_RESOURCES
      else create_symlink ops n)"

definition new_device ::
    "('f, 's) create_ops \<Rightarrow> creation_data \<Rightarrow> bool \<Rightarrow> bool \<Rightarrow> bool \<Rightarrow> ('f, 's) held \<Rightarrow> ('f, 's) device_object" where
  "new_device ops cd unmap zero parallel h =
     \<lparr>extension = \<lparr>
        file_handle = (case image_file h of Some f \<Rightarrow> f | None \<Rightarrow> null_handle ops),
        proxy = px h,
        image_buffer = (case image_memory h of Some m \<Rightarrow> m | None \<Rightarrow> (\<lambda>_. 0)),
        disk_size = Cylinders cd, image_offset = ImageOffset cd,
        vm_disk = is_vm cd, awefsalloc_disk = is_awe cd, use_proxy = is_proxy cd,
        proxy_unmap = unmap, proxy_zero = zero,
        parallel_io = parallel, direct_io = parallel \<and> image_direct_io ops,
        byte_swap = BYTE_SWAP (Flags cd), shared_image = SHARED_IMAGE (Flags cd),
        read_only = read_only_characteristic cd, image_modified = False,
        use_set_zero_data = SPARSE_FILE (Flags cd), no_file_level_trim = False,
        terminate_thread = False, media_change_count = 1,
        last_io_data = None, last_io_offset = 0, last_io_length = 0\<rparr>,
      device_number = DeviceNumber cd,
      DeviceType = (if is_cd cd then FILE_DEVICE_CD_ROM
                    else if DEVICE_TYPE (Flags cd) = DEVICE_TYPE_RAW then FILE_DEVICE_UNKNOWN
                    else FILE_DEVICE_DISK),
      FILE_REMOVABLE_MEDIA = is_cd cd \<or> is_fd cd \<or> REMOVABLE (Flags cd),
      FILE_READ_ONLY_DEVICE = read_only_characteristic cd,
      FILE_FLOPPY_DISKETTE = is_fd cd,
      media = MediaType cd, tracks = TracksPerCylinder cd, sectors = SectorsPerTrack cd,
      sector_bytes = BytesPerSector cd, special_file_count = 0,
      file_name = given_name cd, file_open = (image_file h \<noteq> None), file_object = image_object h,
      drive_letter = DriveLetter cd\<rparr>"

definition device_stage ::
    "('f, 's) create_ops \<Rightarrow> creation_data \<Rightarrow> bool \<Rightarrow> bool \<Rightarrow> ('f, 's) held \<Rightarrow>
     ('f, 's, creation_data \<times> ('f, 's) device_object) stage" where
  "device_stage ops cd unmap zero h =
     and_then (object_stage ops cd h) (\<lambda>parallel h.
       let status = device_status ops (DeviceNumber cd) in
       if NT_SUCCESS status then go_on (cd, new_device ops cd unmap zero parallel h) h
       else failing status (release_all h))"

definition nothing_held :: "('f, 's) create_ops \<Rightarrow> ('f, 's) held" where
  "nothing_held ops =
     \<lparr>image_file = None,
      px = \<lparr>connection_type = PROXY_CONNECTION_DEVICE, device = False, request_event_handle = False,
            request_event = False, response_event_handle = False, response_event = False,
            shared_memory = [], shared_memory_size = 0, peer = idle_peer ops\<rparr>,
      image_memory = None, image_object = False, closed_files = []\<rparr>"

definition create_device ::
    "('f, 's) dev_ops \<Rightarrow> ('f, 's) create_ops \<Rightarrow> driver_settings \<Rightarrow> (nat \<times> ('f, 's) device_object) list \<Rightarrow>
     creation_data \<Rightarrow> ('f, 's, creation_data \<times> ('f, 's) device_object) stage" where
  "create_device os ops ds devices cd =
     (case check_request ds devices cd of
        None \<Rightarrow> failing STATUS_INVALID_PARAMETER (nothing_held ops)
      | Some cd \<Rightarrow>
          and_then (if opens_file cd then image_stage os ops cd (nothing_held ops)
                    else blank_stage os cd (nothing_held ops)) (\<lambda>(cd, unmap, zero) h.
            device_stage ops (completed_data cd) unmap zero h))"

text \<open>The system puts a new device at the head of the driver's chain.\<close>

definition CreateDevice ::
    "('f, 's) dev_ops \<Rightarrow> ('f, 's) create_ops \<Rightarrow> driver_settings \<Rightarrow> nat \<Rightarrow> creation_data \<Rightarrow>
     ('f, 's, 'o) driver \<Rightarrow> (ntstatus \<times> creation_data \<times> ('f, 's, 'o) driver) option" where
  "CreateDevice os ops ds address cd drv =
     map_option (\<lambda>r. case r of
         Inl (status, h) \<Rightarrow> (status, cd, drv)
       | Inr ((cd, x), h) \<Rightarrow> (STATUS_SUCCESS, cd, drv\<lparr>device_list := (address, x) # device_list drv\<rparr>))
     (create_device os ops ds (device_list drv) cd)"

end
