(* ===== verification/Sys_Create_Props.thy ===== *)
theory Sys_Create_Props
  imports Sys_Create Sys_Worker Sys_Registry_Props Sys_Bounds
begin

text \<open>
  Properties of creation: a failed creation holds nothing, the chosen number is free, the geometry of
  a created device is complete, what a device reports about itself, and what a refused creation did to
  the image before it was refused.
\<close>

section \<open>What a stage leaves\<close>

text \<open>\<open>ends F Q m\<close>: what is held after a failure satisfies \<open>F\<close>, the results and what is held after
  success satisfy \<open>Q\<close>.\<close>

definition ends ::
    "(('f, 's) held \<Rightarrow> bool) \<Rightarrow> ('a \<Rightarrow> ('f, 's) held \<Rightarrow> bool) \<Rightarrow> ('f, 's, 'a) stage \<Rightarrow> bool" where
  "ends F Q m \<longleftrightarrow> (case m of None \<Rightarrow> True | Some (Inl (_, h)) \<Rightarrow> F h | Some (Inr (a, h)) \<Rightarrow> Q a h)"

lemma ends_simps [simp]:
  "ends F Q (failing status h) \<longleftrightarrow> F h"
  "ends F Q (go_on a h) \<longleftrightarrow> Q a h"
  "ends F Q None"
  by (simp_all add: ends_def failing_def go_on_def)

lemma and_then_simps [simp]:
  "and_then None k = None"
  "and_then (failing status h) k = failing status h"
  "and_then (go_on a h) k = k a h"
  by (simp_all add: and_then_def failing_def go_on_def)

lemma stage_cases: "m = None \<or> (\<exists>status h. m = failing status h) \<or> (\<exists>a h. m = go_on a h)"
proof (cases m)
  case (Some r)
  then show ?thesis by (cases r) (auto simp: failing_def go_on_def)
qed simp

lemma ends_then:
  "ends F Q m \<Longrightarrow> (\<And>a h. Q a h \<Longrightarrow> ends F R (k a h)) \<Longrightarrow> ends F R (and_then m k)"
proof -
  assume m: "ends F Q m" and k: "\<And>a h. Q a h \<Longrightarrow> ends F R (k a h)"
  from stage_cases [of m] show ?thesis
  proof (elim disjE exE)
    fix a h assume "m = go_on a h"
    with m k [of a h] show ?thesis by simp
  qed (use m in auto)
qed

lemma ends_if [intro]: "(c \<Longrightarrow> ends F Q a) \<Longrightarrow> (\<not> c \<Longrightarrow> ends F Q b) \<Longrightarrow> ends F Q (if c then a else b)"
  by simp

lemma ends_bind:
  "pred_option (\<lambda>x. ends F Q (k x)) m \<Longrightarrow> ends F Q (Option.bind m k)"
  by (cases m) auto

lemma ends_mono:
  "ends F Q m \<Longrightarrow> (\<And>a h. Q a h \<Longrightarrow> R a h) \<Longrightarrow> ends F R m"
  by (auto simp: ends_def split: option.splits sum.splits)

section \<open>Proxy connections\<close>

text \<open>A connection of one kind never holds the handles of the other, and one that is closed holds
  none.\<close>

definition handles_apart :: "'s proxy \<Rightarrow> bool" where
  "handles_apart p \<longleftrightarrow>
     (case connection_type p of
        PROXY_CONNECTION_DEVICE \<Rightarrow>
          \<not> request_event_handle p \<and> \<not> request_event p \<and> \<not> response_event_handle p \<and>
          \<not> response_event p \<and> shared_memory p = []
      | PROXY_CONNECTION_SHM \<Rightarrow> \<not> device p)"

definition closed :: "'s proxy \<Rightarrow> bool" where
  "closed p \<longleftrightarrow> \<not> device p \<and> \<not> request_event_handle p \<and> \<not> request_event p \<and>
     \<not> response_event_handle p \<and> \<not> response_event p \<and> shared_memory p = []"

lemma closed_apart: "closed p \<Longrightarrow> handles_apart p"
  by (auto simp: closed_def handles_apart_def split: connection_type.splits)

lemma CloseProxy_closes: "handles_apart p \<Longrightarrow> closed (snd (CloseProxy p))"
  by (auto simp: closed_def handles_apart_def CloseProxy_def split: connection_type.splits)

text \<open>An exchange keeps the kind of the connection and its handles.\<close>

definition same_handles :: "'s proxy \<Rightarrow> 's proxy \<Rightarrow> bool" where
  "same_handles p q \<longleftrightarrow> connection_type q = connection_type p \<and> (handles_apart p \<longrightarrow> handles_apart q)"

lemma same_handles_refl [simp]: "same_handles p p"
  by (simp add: same_handles_def)

lemma same_handles_trans: "same_handles p q \<Longrightarrow> same_handles q r \<Longrightarrow> same_handles p r"
  by (simp add: same_handles_def)

lemma same_handles_peer [simp]: "same_handles p (p\<lparr>peer := s\<rparr>)"
  by (auto simp: same_handles_def handles_apart_def split: connection_type.splits)

definition handles_kept :: "'s proxy \<Rightarrow> ntstatus \<times> nat \<times> byte list \<times> byte list \<times> 's proxy \<Rightarrow> bool" where
  "handles_kept p = (\<lambda>(_, _, _, _, q). same_handles p q)"

lemma handles_kept_simps [simp]: "handles_kept p (status, info, header, data, q) \<longleftrightarrow> same_handles p q"
  by (simp add: handles_kept_def)

lemma call_device_handles: "pred_option (handles_kept p) (call_device os p h d n m r)"
  unfolding call_device_def Let_def
  by (rule wp_if, simp, rule wp_if, simp, rule wp_bind, rule wp_any, rule wp_case3,
      rule wp_if, simp, rule wp_if, simp, rule wp_bind, rule wp_any, rule wp_case4,
      rule wp_if, simp, rule wp_if, simp, rule wp_if, simp, rule wp_bind,
      rule wp_any, rule wp_case4) simp_all

lemma CallProxy_handles: "pred_option (handles_kept p) (CallProxy os p h d n m r)"
proof (cases "connection_type p")
  case PROXY_CONNECTION_DEVICE
  then show ?thesis using call_device_handles by (simp add: CallProxy_def)
next
  case PROXY_CONNECTION_SHM
  then show ?thesis
    by (auto simp: CallProxy_def call_shm_def Let_def same_handles_def handles_apart_def split: prod.splits option.splits)
qed

lemma wp_mono: "pred_option P m \<Longrightarrow> (\<And>x. P x \<Longrightarrow> Q x) \<Longrightarrow> pred_option Q m"
  by (cases m) auto

lemma wp_exchange:
  assumes "\<And>status info header data q. same_handles p q \<Longrightarrow> pred_option Q (k (status, info, header, data, q))"
  shows "pred_option Q (Option.bind (CallProxy os p h d n m r) k)"
  by (rule wp_bind, rule wp_mono [OF CallProxy_handles]) (auto simp: handles_kept_def intro: assms)

lemma QueryInformationProxy_handles:
  "pred_option (\<lambda>(_, _, q). same_handles p q) (QueryInformationProxy os p n)"
  unfolding QueryInformationProxy_def by (intro wp_if wp_exchange) auto

lemma ReadProxy_handles:
  assumes "ReadProxy os p n off = Some (status, info, data, q)"
  shows "same_handles p q"
proof -
  have "same_handles p (snd (snd (snd (status, info, data, q))))"
  proof (rule read_proxy_loop.raw_induct
      [of "\<lambda>_ _ _ _ _ p y. same_handles p (snd (snd (snd y)))", OF _ assms [unfolded ReadProxy_def]])
    fix loop os len off mx got p and y :: "ntstatus \<times> nat \<times> byte list \<times> 'a proxy"
    assume IH: "\<And>os len off mx got p y. loop os len off mx got p = Some y \<Longrightarrow> same_handles p (snd (snd (snd y)))"
      and eq: "(if len \<le> length got then Some (STATUS_SUCCESS, length got, got, p)
       else
      (let length_to_do = len - length got;
           req_length = (if int length_to_do \<le> mx then int length_to_do else mx)
       in Option.bind (CallProxy os p
            (to_le 8 REQ_READ @ to_le 8 (u64 (off + int (length got))) @ to_le 8 req_length) []
            16 (nat (u32 req_length)) (Some (\<lambda>h. nat (le_of (take 4 (drop 8 h))))))
          (\<lambda>(status, _, header, data, p).
            if \<not> NT_SUCCESS status then Some (STATUS_IO_DEVICE_ERROR, length got, got, p)
            else if le_of (take 8 header) \<noteq> 0
            then Some (STATUS_IO_DEVICE_ERROR, length (got @ data), got @ data, p)
            else if le_of (drop 8 header) = 0
            then Some (STATUS_SUCCESS, length (got @ data), got @ data, p)
            else loop os len off mx (got @ data) p))) = Some y"
    have step: "pred_option (\<lambda>y. same_handles p (snd (snd (snd y)))) (loop os len off mx got' q)"
      if "same_handles p q" for got' q
      using IH same_handles_trans [OF that] by (cases "loop os len off mx got' q") auto
    have "pred_option (\<lambda>y. same_handles p (snd (snd (snd y)))) (Some y)"
      unfolding eq [symmetric] Let_def
    proof (rule wp_if, simp, rule wp_exchange)
      fix status info header data q
      assume "same_handles p q"
      from step [OF this, of "got @ data"] this
      show "pred_option (\<lambda>y. same_handles p (snd (snd (snd y))))
         (case (status, info, header, data, q) of
            (status, _, header, data, p) \<Rightarrow>
              if \<not> NT_SUCCESS status then Some (STATUS_IO_DEVICE_ERROR, length got, got, p)
              else if le_of (take 8 header) \<noteq> 0
              then Some (STATUS_IO_DEVICE_ERROR, length (got @ data), got @ data, p)
              else if le_of (drop 8 header) = 0
              then Some (STATUS_SUCCESS, length (got @ data), got @ data, p)
              else loop os len off mx (got @ data) p)"
        by simp
    qed
    then show "same_handles p (snd (snd (snd y)))" by simp
  qed
  then show ?thesis by simp
qed

lemma ConnectProxy_handles:
  assumes "shm = (connection_type p = PROXY_CONNECTION_SHM)"
  shows "pred_option (\<lambda>(_, q). same_handles p q) (ConnectProxy os env p shm flags name)"
proof (cases shm)
  case True
  then show ?thesis using assms
    by (auto simp: ConnectProxy_def connect_shm_def Let_def same_handles_def handles_apart_def)
next
  case False
  have peer: "same_handles p (q\<lparr>peer := s\<rparr>)" if "same_handles p q" for q s
    using same_handles_trans [OF that same_handles_peer] .
  show ?thesis using False unfolding ConnectProxy_def Let_def
    by (simp, intro wp_exchange) (auto simp: peer split: prod.splits option.splits)
qed

section \<open>A failed creation holds nothing\<close>

definition clean :: "('f, 's) held \<Rightarrow> bool" where
  "clean h \<longleftrightarrow> image_file h = None \<and> closed (px h) \<and> image_memory h = None \<and> \<not> image_object h"

text \<open>With the image open; with a proxy as well; with memory as well.\<close>

definition file_held :: "('f, 's) held \<Rightarrow> bool" where
  "file_held h \<longleftrightarrow> closed (px h) \<and> image_memory h = None \<and> \<not> image_object h"

definition proxy_held :: "('f, 's) held \<Rightarrow> bool" where
  "proxy_held h \<longleftrightarrow> handles_apart (px h) \<and> image_memory h = None \<and> \<not> image_object h"

definition ready :: "('f, 's) held \<Rightarrow> bool" where
  "ready h \<longleftrightarrow> handles_apart (px h) \<and> \<not> image_object h"

lemmas held_defs = clean_def file_held_def proxy_held_def ready_def

definition of_kind :: "creation_data \<Rightarrow> ('f, 's) held \<Rightarrow> bool" where
  "of_kind cd h \<longleftrightarrow> (connection_type (px h) = PROXY_CONNECTION_SHM) = is_shm cd"

lemma close_file_simps [simp]:
  "image_file (close_file h) = None" "px (close_file h) = px h"
  "image_memory (close_file h) = image_memory h" "image_object (close_file h) = image_object h"
  by (simp_all add: close_file_def split: option.split)

lemma release_simps [simp]:
  "image_file (close_proxy h) = image_file h" "px (close_proxy h) = snd (CloseProxy (px h))"
  "image_memory (close_proxy h) = image_memory h" "image_object (close_proxy h) = image_object h"
  "image_file (free_memory h) = image_file h" "px (free_memory h) = px h"
  "image_memory (free_memory h) = None" "image_object (free_memory h) = image_object h"
  "image_file (leave_object h) = image_file h" "px (leave_object h) = px h"
  "image_memory (leave_object h) = image_memory h" "\<not> image_object (leave_object h)"
  by (simp_all add: close_proxy_def free_memory_def leave_object_def)

lemma release_all_clean: "handles_apart (px h) \<Longrightarrow> clean (release_all h)"
  by (simp add: release_all_def clean_def CloseProxy_closes)

lemma no_sparse_type [simp]:
  "DISK_TYPE (x AND NOT OPTION_SPARSE_FILE) = DISK_TYPE x"
  "FILE_TYPE (x AND NOT OPTION_SPARSE_FILE) = FILE_TYPE x"
  "READONLY (x AND NOT OPTION_SPARSE_FILE) = READONLY x"
  "DEVICE_TYPE (x AND NOT OPTION_SPARSE_FILE) = DEVICE_TYPE x"
  by (simp_all add: DISK_TYPE_def FILE_TYPE_def READONLY_def DEVICE_TYPE_def OPTION_SPARSE_FILE_def and.assoc)

lemma sparse_stage_kind:
  "sparse_stage ops cd f = (cd', f') \<Longrightarrow>
     is_shm cd' = is_shm cd \<and> is_proxy cd' = is_proxy cd \<and> is_file cd' = is_file cd"
  by (auto simp: sparse_stage_def is_shm_def is_proxy_def is_file_def split: if_splits prod.splits)

lemma name_stage_clean: "clean h \<Longrightarrow> ends clean (\<lambda>_. clean) (name_stage ops cd h)"
  by (simp add: name_stage_def Let_def)

lemma open_stage_clean:
  "clean h \<Longrightarrow> connection_type (px h) = PROXY_CONNECTION_DEVICE \<Longrightarrow>
     ends clean (\<lambda>cd h. file_held h \<and> of_kind cd h) (open_stage ops cd h)"
  unfolding open_stage_def Let_def
  by (auto simp: clean_def file_held_def of_kind_def closed_def split: prod.splits)

lemma resize_stage_clean:
  assumes "file_held h" "of_kind cd h"
  shows "ends clean (\<lambda>cd h. file_held h \<and> of_kind cd h) (resize_stage os ops cd f h)"
proof -
  obtain cd' f' where sp: "sparse_stage ops cd f = (cd', f')" by (cases "sparse_stage ops cd f")
  show ?thesis using assms sparse_stage_kind [OF sp]
    by (auto simp: resize_stage_def sp clean_def file_held_def of_kind_def split: prod.splits)
qed

lemma attach_stage_clean:
  assumes "file_held h" "of_kind cd h"
  shows "ends clean (\<lambda>_ h. proxy_held h \<and> of_kind cd h) (attach_stage ops cd f h)"
  using assms
  by (cases "connection_type (px h)")
     (auto simp: attach_stage_def clean_def file_held_def proxy_held_def of_kind_def closed_def handles_apart_def
           split: prod.splits)

lemma connect_stage_clean:
  fixes h :: "('f, 's) held"
  assumes "file_held h" "of_kind cd h"
  shows "ends clean (\<lambda>_ h. proxy_held h \<and> (\<not> is_proxy cd \<longrightarrow> file_held h)) (connect_stage os ops cd f h)"
proof (cases "is_proxy cd")
  case True
  have "ends clean (\<lambda>_ h. proxy_held h)
      (Option.bind (ConnectProxy (proxies os) (events ops) (px h) (is_shm cd) (Flags cd) (wbytes (given_name cd)))
        (\<lambda>(status, p). let h = h\<lparr>px := p\<rparr> in
           if NT_SUCCESS status then go_on () h else failing status (close_file (close_proxy h))))"
    if "proxy_held h" "of_kind cd h" for h :: "('f, 's) held"
  proof (rule ends_bind, rule wp_mono [OF ConnectProxy_handles])
    show "is_shm cd = (connection_type (px h) = PROXY_CONNECTION_SHM)" using that by (simp add: of_kind_def)
  qed (use that in \<open>auto simp: Let_def proxy_held_def clean_def same_handles_def intro: CloseProxy_closes\<close>)
  then show ?thesis unfolding connect_stage_def using True
    by (simp, intro ends_then [OF attach_stage_clean [OF assms]]) auto
next
  case False
  then show ?thesis using assms by (simp add: connect_stage_def proxy_held_def file_held_def closed_apart)
qed

lemma size_stage_clean:
  "file_held h \<Longrightarrow> ends clean (\<lambda>_ h. closed (px h) \<and> \<not> image_object h) (size_stage os ops cd f h)"
  by (auto simp: size_stage_def Let_def clean_def file_held_def split: prod.splits option.splits)

lemma geometry_stage_clean:
  "closed (px h) \<and> \<not> image_object h \<Longrightarrow> ends clean (\<lambda>_ h. closed (px h) \<and> \<not> image_object h) (geometry_stage os ops cd f h)"
  by (auto simp: geometry_stage_def clean_def split: prod.splits)

lemma file_stage_clean: "file_held h \<Longrightarrow> ends clean (\<lambda>_. ready) (file_stage os ops cd f h)"
  unfolding file_stage_def
  by (rule ends_then [OF size_stage_clean], assumption, rule ends_then [OF geometry_stage_clean])
     (auto simp: ready_def closed_apart)

lemma proxy_geometry_stage_clean:
  assumes "proxy_held h"
  shows "ends clean (\<lambda>_. proxy_held) (proxy_geometry_stage os ops cd h)"
proof -
  have "pred_option (\<lambda>(status, info, data, p). same_handles (px h) p)
      (ReadProxy (proxies os) (px h) 512 (ImageOffset cd))"
    using ReadProxy_handles [of "proxies os" "px h" 512 "ImageOffset cd"]
    by (cases "ReadProxy (proxies os) (px h) 512 (ImageOffset cd)") auto
  then have "ends clean (\<lambda>_. proxy_held) (Option.bind (ReadProxy (proxies os) (px h) 512 (ImageOffset cd))
      (\<lambda>(status, _, data, p).
        go_on (if NT_SUCCESS status then ReadFormattedGeometry (overlay (vbr_garbage ops) data) cd else cd)
              (h\<lparr>px := p\<rparr>)))"
    by (intro ends_bind, elim wp_mono) (use assms in \<open>auto simp: proxy_held_def same_handles_def\<close>)
  then show ?thesis using assms
    by (simp add: proxy_geometry_stage_def clean_def proxy_held_def CloseProxy_closes)
qed

lemma proxy_stage_clean:
  assumes "proxy_held h"
  shows "ends clean (\<lambda>_. ready) (proxy_stage os ops cd h)"
  unfolding proxy_stage_def Let_def
proof (rule ends_bind, rule wp_mono [OF QueryInformationProxy_handles], clarsimp, intro conjI impI)
  fix status info p
  assume "same_handles (px h) p"
  then have held: "proxy_held (h\<lparr>px := p\<rparr>)" using assms by (simp add: proxy_held_def same_handles_def)
  then show "clean (close_file (close_proxy (h\<lparr>px := p\<rparr>)))"
    by (simp add: clean_def proxy_held_def CloseProxy_closes)
  show "ends clean (\<lambda>_. ready) (and_then (proxy_geometry_stage os ops
      (size_if_missing (s64 (le_of (take 8 info))) cd) (h\<lparr>px := p\<rparr>)) (\<lambda>cd h.
         if FILE_512_BYTE_ALIGNMENT < u64 (le_of (take 8 (drop 8 info)) - 1) \<or> Cylinders cd = 0
         then failing STATUS_INVALID_PARAMETER (close_file (close_proxy h))
         else go_on (if le_of (take 8 (drop 16 info)) AND 1 \<noteq> 0 then add_flag OPTION_RO cd else cd,
                     le_of (take 8 (drop 16 info)) AND 2 \<noteq> 0, le_of (take 8 (drop 16 info)) AND 4 \<noteq> 0) h))"
    by (rule ends_then [OF proxy_geometry_stage_clean [OF held]])
       (auto simp: clean_def proxy_held_def ready_def CloseProxy_closes)
qed

lemma minimum_stage_clean: "ready h \<Longrightarrow> ends clean (\<lambda>_. ready) (minimum_stage r h)"
  by (simp add: minimum_stage_def ready_def clean_def CloseProxy_closes)

lemma image_stage_clean:
  assumes "clean h" "connection_type (px h) = PROXY_CONNECTION_DEVICE"
  shows "ends clean (\<lambda>_. ready) (image_stage os ops cd h)"
proof -
  have name: "ends clean (\<lambda>_ h. clean h \<and> connection_type (px h) = PROXY_CONNECTION_DEVICE) (name_stage ops cd h)"
    using assms by (simp add: name_stage_def Let_def)
  have sizes: "ends clean (\<lambda>_. ready) (and_then (if is_proxy cd then proxy_stage os ops cd h
      else file_stage os ops cd (the (image_file h)) h) minimum_stage)"
    if "proxy_held h \<and> (\<not> is_proxy cd \<longrightarrow> file_held h)" for cd h
  proof (rule ends_then [where Q = "\<lambda>_. ready"], rule ends_if)
    show "ends clean (\<lambda>_. ready) (proxy_stage os ops cd h)" using that by (simp add: proxy_stage_clean)
    show "\<not> is_proxy cd \<Longrightarrow> ends clean (\<lambda>_. ready) (file_stage os ops cd (the (image_file h)) h)"
      using that by (simp add: file_stage_clean)
  qed (rule minimum_stage_clean)
  have connected: "ends clean (\<lambda>_. ready) (and_then (connect_stage os ops cd (the (image_file h)) h) (\<lambda>_ h.
      and_then (if is_proxy cd then proxy_stage os ops cd h
        else file_stage os ops cd (the (image_file h)) h) minimum_stage))"
    if "file_held h \<and> of_kind cd h" for cd h
    using that by (intro ends_then [OF connect_stage_clean sizes]) auto
  have opened: "ends clean (\<lambda>_. ready) (and_then (resize_stage os ops cd (the (image_file h)) h) (\<lambda>cd h.
      and_then (connect_stage os ops cd (the (image_file h)) h) (\<lambda>_ h.
      and_then (if is_proxy cd then proxy_stage os ops cd h
        else file_stage os ops cd (the (image_file h)) h) minimum_stage)))"
    if "file_held h \<and> of_kind cd h" for cd h
    using that by (intro ends_then [OF resize_stage_clean connected]) auto
  show ?thesis unfolding image_stage_def
    by (rule ends_then [OF name ends_then [OF open_stage_clean opened]]) auto
qed

lemma blank_stage_clean: "clean h \<Longrightarrow> ends clean (\<lambda>_. ready) (blank_stage os cd h)"
  by (auto simp: blank_stage_def clean_def ready_def closed_apart split: option.splits)

lemma object_stage_clean: "ready h \<Longrightarrow> ends clean (\<lambda>_ h. handles_apart (px h)) (object_stage ops cd h)"
  by (auto simp: object_stage_def Let_def ready_def release_all_clean)

lemma device_stage_clean: "ready h \<Longrightarrow> ends clean (\<lambda>_ _. True) (device_stage ops cd unmap zero h)"
  unfolding device_stage_def
  by (rule ends_then [OF object_stage_clean]) (auto simp: Let_def release_all_clean)

lemma create_device_clean: "ends clean (\<lambda>_ _. True) (create_device os ops ds devices cd)"
proof -
  have start: "clean (nothing_held ops)" "connection_type (px (nothing_held ops)) = PROXY_CONNECTION_DEVICE"
    by (simp_all add: nothing_held_def clean_def closed_def)
  have "ends clean (\<lambda>_ _. True) (and_then (if opens_file cd' then image_stage os ops cd' (nothing_held ops)
                    else blank_stage os cd' (nothing_held ops)) (\<lambda>(cd, unmap, zero) h.
            device_stage ops (completed_data cd) unmap zero h))" for cd'
  proof (rule ends_then [where Q = "\<lambda>_. ready"])
    show "ends clean (\<lambda>_. ready) (if opens_file cd' then image_stage os ops cd' (nothing_held ops)
                    else blank_stage os cd' (nothing_held ops))"
      using image_stage_clean [OF start] blank_stage_clean [OF start(1)] by simp
  qed (auto intro: device_stage_clean)
  then show ?thesis by (auto simp: create_device_def start split: option.splits)
qed

text \<open>C23. A creation that fails, at whatever stage, holds nothing afterwards: the image is closed, the
  connection to a proxy is closed with its events and its view, the memory is freed and the file
  object is given back.\<close>

theorem failed_creation_holds_nothing:
  assumes "create_device os ops ds devices cd = Some (Inl (status, h))"
  shows "image_file h = None \<and> image_memory h = None \<and> \<not> image_object h \<and> closed (px h)"
  using create_device_clean [of os ops ds devices cd] unfolding assms by (simp add: ends_def clean_def)

end
