(* ===== verification/Sys_Created.thy ===== *)
theory Sys_Created
  imports Sys_Create_Props
begin

text \<open>
  What creation makes of its request: the device's number is free, its size and geometry are
  complete, it reports what it was created with; and the exceptions: a refused creation that has cut
  the image file, and the two floppy formats whose entries are exchanged.
\<close>

section \<open>Flags\<close>

lemma mask_or: "b AND m = 0 \<Longrightarrow> (x OR b) AND m = x AND m" for x b m :: int
  by (simp add: bit.conj_disj_distrib2)

lemma DISK_TYPE_or: "b AND 0xF00 = 0 \<Longrightarrow> DISK_TYPE (x OR b) = DISK_TYPE x"
  by (simp add: DISK_TYPE_def mask_or)

lemma FILE_TYPE_or: "b AND 0xF000 = 0 \<Longrightarrow> FILE_TYPE (x OR b) = FILE_TYPE x"
  by (simp add: FILE_TYPE_def mask_or)

text \<open>What a stage keeps of the creation data: everything but flags outside the disk's type, a size
  that was missing, and geometry.\<close>

definition sane :: "creation_data \<Rightarrow> bool" where
  "sane cd \<longleftrightarrow> 0 \<le> TracksPerCylinder cd \<and> 0 \<le> SectorsPerTrack cd \<and> 0 \<le> BytesPerSector cd"

definition inherits :: "creation_data \<Rightarrow> creation_data \<Rightarrow> bool" where
  "inherits cd cd' \<longleftrightarrow>
     DeviceNumber cd' = DeviceNumber cd \<and> ImageOffset cd' = ImageOffset cd \<and>
     FileNameLength cd' = FileNameLength cd \<and> FileName cd' = FileName cd \<and>
     DriveLetter cd' = DriveLetter cd \<and>
     (Cylinders cd \<noteq> 0 \<longrightarrow> Cylinders cd' = Cylinders cd) \<and> (sane cd \<longrightarrow> sane cd') \<and>
     DISK_TYPE (Flags cd') = DISK_TYPE (Flags cd) \<and> FILE_TYPE (Flags cd') = FILE_TYPE (Flags cd)"

lemma inherits_refl [simp]: "inherits cd cd"
  by (simp add: inherits_def)

lemma inherits_trans: "inherits a b \<Longrightarrow> inherits b c \<Longrightarrow> inherits a c"
  unfolding inherits_def by auto

lemma inherits_flag: "b AND 0xF00 = 0 \<Longrightarrow> b AND 0xF000 = 0 \<Longrightarrow> inherits cd (add_flag b cd)"
  by (simp add: inherits_def add_flag_def sane_def DISK_TYPE_or FILE_TYPE_or)

lemma inherits_extension [simp]: "inherits cd (type_by_extension cd)"
proof -
  have "inherits cd (add_flag (DEVICE_TYPE_CD OR OPTION_RO) cd)" "inherits cd' (add_flag OPTION_RO cd')" for cd'
    by (simp_all add: inherits_flag flag_values)
  then show ?thesis by (auto simp: type_by_extension_def Let_def intro: inherits_trans)
qed

lemma inherits_size [simp]: "inherits cd (size_if_missing n cd)"
  by (simp add: size_if_missing_def inherits_def sane_def)

lemma bpb_word_nonneg: "0 \<le> bpb_word pos vbr"
  using le_of_range by (simp add: bpb_word_def)

lemma inherits_formatted [simp]: "inherits cd (ReadFormattedGeometry vbr cd)"
proof -
  have "inherits cd' ((add_flag DEVICE_TYPE_FD cd')\<lparr>MediaType := m\<rparr>)" for cd' m
    using inherits_flag [of DEVICE_TYPE_FD cd'] by (simp add: inherits_def sane_def flag_values)
  moreover have "inherits cd (cd\<lparr>SectorsPerTrack := if SectorsPerTrack cd = 0 then bpb_word 13 vbr else SectorsPerTrack cd,
      TracksPerCylinder := if TracksPerCylinder cd = 0 then bpb_word 15 vbr else TracksPerCylinder cd,
      BytesPerSector := if BytesPerSector cd = 0 then bpb_word 0 vbr else BytesPerSector cd\<rparr>)" (is "inherits cd ?new")
    by (simp add: inherits_def sane_def bpb_word_nonneg)
  moreover have "(let cd = if SectorsPerTrack cd = 0 then cd\<lparr>SectorsPerTrack := bpb_word 13 vbr\<rparr> else cd;
          cd = if TracksPerCylinder cd = 0 then cd\<lparr>TracksPerCylinder := bpb_word 15 vbr\<rparr> else cd
      in if BytesPerSector cd = 0 then cd\<lparr>BytesPerSector := bpb_word 0 vbr\<rparr> else cd) = ?new"
    by (simp add: Let_def)
  ultimately show ?thesis
    unfolding ReadFormattedGeometry_def Let_def by (auto split: option.splits prod.splits intro: inherits_trans)
qed

section \<open>The stages\<close>

abbreviation passing :: "creation_data \<Rightarrow> ('f, 's, creation_data) stage \<Rightarrow> bool" where
  "passing cd m \<equiv> ends (\<lambda>_. True) (\<lambda>cd' _. inherits cd cd') m"

abbreviation sized :: "creation_data \<Rightarrow> ('f, 's, creation_data \<times> bool \<times> bool) stage \<Rightarrow> bool" where
  "sized cd m \<equiv> ends (\<lambda>_. True) (\<lambda>r _. inherits cd (fst r)) m"

lemma name_stage_passing: "passing cd (name_stage ops cd h)"
  by (simp add: name_stage_def Let_def)

lemma open_stage_passing: "passing cd (open_stage ops cd h)"
  by (simp add: open_stage_def Let_def split: prod.splits)

lemma resize_stage_passing: "passing cd (resize_stage os ops cd f h)"
proof -
  obtain cd' f' where sp: "sparse_stage ops cd f = (cd', f')" by (cases "sparse_stage ops cd f")
  have "inherits cd cd'" using sp
    by (auto simp: sparse_stage_def inherits_def sane_def split: if_splits prod.splits)
  then show ?thesis by (simp add: resize_stage_def sp split: prod.splits)
qed

lemma size_stage_passing: "passing cd (size_stage os ops cd f h)"
  by (simp add: size_stage_def Let_def split: prod.splits option.splits)

lemma geometry_stage_passing: "passing cd (geometry_stage os ops cd f h)"
  by (simp add: geometry_stage_def split: prod.splits)

lemma file_stage_sized: "sized cd (file_stage os ops cd f h)"
  unfolding file_stage_def
  by (rule ends_then [OF size_stage_passing], rule ends_then [OF geometry_stage_passing])
     (auto intro: inherits_trans)

lemma proxy_geometry_stage_passing: "passing cd (proxy_geometry_stage os ops cd h)"
  by (auto simp: proxy_geometry_stage_def intro!: ends_bind wp_any split: prod.splits)

lemma proxy_stage_sized: "sized cd (proxy_stage os ops cd h)"
proof -
  have ro: "inherits cd' (add_flag OPTION_RO cd')" for cd' by (simp add: inherits_flag flag_values)
  have geo: "passing cd (proxy_geometry_stage os ops (size_if_missing n cd) h)" for n h
    by (rule ends_mono [OF proxy_geometry_stage_passing]) (rule inherits_trans [OF inherits_size])
  show ?thesis unfolding proxy_stage_def Let_def
    by (rule ends_bind, rule wp_any) (auto intro!: ends_then [OF geo] intro: inherits_trans [OF _ ro] split: prod.splits)
qed

lemma minimum_stage_large:
  "sized cd m \<Longrightarrow> ends (\<lambda>_. True) (\<lambda>r _. inherits cd (fst r) \<and> 65536 < Cylinders (fst r)) (and_then m minimum_stage)"
  by (rule ends_then, assumption) (simp add: minimum_stage_def)

lemma image_stage_large:
  fixes os :: "('f, 's) dev_ops"
  shows "ends (\<lambda>_. True) (\<lambda>r _. inherits cd (fst r) \<and> 65536 < Cylinders (fst r)) (image_stage os ops cd h)"
proof -
  have sizes: "ends (\<lambda>_. True) (\<lambda>r _. inherits cd (fst r) \<and> 65536 < Cylinders (fst r))
      (and_then (if is_proxy cd then proxy_stage os ops cd h
        else file_stage os ops cd (the (image_file h)) h) minimum_stage)" for cd h
    by (rule minimum_stage_large) (simp add: proxy_stage_sized file_stage_sized)
  have connected: "ends (\<lambda>_. True) (\<lambda>r _. inherits cd (fst r) \<and> 65536 < Cylinders (fst r))
      (and_then (connect_stage os ops cd (the (image_file h)) h) (\<lambda>_ h.
        and_then (if is_proxy cd then proxy_stage os ops cd h
          else file_stage os ops cd (the (image_file h)) h) minimum_stage))" for cd h
    by (rule ends_then [where Q = "\<lambda>_ _. True"], simp add: ends_def connect_stage_def split: option.split sum.split)
       (rule sizes)
  have later: "ends (\<lambda>_. True) (\<lambda>r _. inherits a (fst r) \<and> 65536 < Cylinders (fst r)) m"
    if "inherits a b" "ends (\<lambda>_. True) (\<lambda>r _. inherits b (fst r) \<and> 65536 < Cylinders (fst r)) m"
    for a b and m :: "('f, 's, creation_data \<times> bool \<times> bool) stage"
    by (rule ends_mono [OF that(2)]) (auto intro: inherits_trans [OF that(1)])
  show ?thesis unfolding image_stage_def
    by (rule ends_then [OF name_stage_passing], erule later,
        rule ends_then [OF open_stage_passing], erule later,
        rule ends_then [OF resize_stage_passing], erule later, rule connected)
qed

section \<open>Geometry\<close>

definition complete :: "creation_data \<Rightarrow> bool" where
  "complete cd \<longleftrightarrow> 0 < TracksPerCylinder cd \<and> 0 < SectorsPerTrack cd \<and> 0 < BytesPerSector cd"

lemma head_count_positive: "0 < h \<Longrightarrow> 0 < head_count c h"
  by (induction c h rule: head_count.induct) (subst head_count.simps, simp)

lemma floppy_entries:
  assumes "floppy_format n = Some (c, m, t, s, b)"
  shows "0 < t \<and> 0 < s \<and> 0 < b"
proof -
  have "(n, c, m, t, s, b) \<in> set (zip media_sizes media_table)"
    using assms by (simp add: floppy_format_def map_of_SomeD)
  then have "(c, m, t, s, b) \<in> set media_table" by (rule set_zip_rightD)
  then show ?thesis by (auto simp: media_table_def)
qed

lemma fill_floppy_sane: "sane cd \<Longrightarrow> sane (fill_floppy_geometry cd)"
  using floppy_entries by (fastforce simp: fill_floppy_geometry_def sane_def split: option.splits prod.splits)

lemma fill_geometry_complete: "sane cd \<Longrightarrow> complete (fill_geometry cd)"
proof (cases "is_cd cd")
  case True
  assume "sane cd"
  then show ?thesis using True
    by (auto simp: fill_geometry_def fill_cd_geometry_def complete_def sane_def Let_def)
next
  case False
  assume "sane cd"
  from fill_floppy_sane [OF this] show ?thesis using False head_count_positive [of 1]
    by (auto simp: fill_geometry_def fill_disk_geometry_def complete_def sane_def Let_def)
qed

text \<open>The geometry that was given, the size and the number stay.\<close>

lemma fill_floppy_keeps:
  "Cylinders (fill_floppy_geometry cd) = Cylinders cd \<and> DeviceNumber (fill_floppy_geometry cd) = DeviceNumber cd \<and>
   ImageOffset (fill_floppy_geometry cd) = ImageOffset cd \<and> FileName (fill_floppy_geometry cd) = FileName cd \<and>
   FileNameLength (fill_floppy_geometry cd) = FileNameLength cd \<and> Flags (fill_floppy_geometry cd) = Flags cd \<and>
   DriveLetter (fill_floppy_geometry cd) = DriveLetter cd"
  by (simp add: fill_floppy_geometry_def split: option.split prod.split)

lemma fill_geometry_keeps:
  "Cylinders (fill_geometry cd) = Cylinders cd \<and> DeviceNumber (fill_geometry cd) = DeviceNumber cd \<and>
   ImageOffset (fill_geometry cd) = ImageOffset cd \<and> FileName (fill_geometry cd) = FileName cd \<and>
   FileNameLength (fill_geometry cd) = FileNameLength cd \<and> Flags (fill_geometry cd) = Flags cd \<and>
   DriveLetter (fill_geometry cd) = DriveLetter cd"
  using fill_floppy_keeps [of cd]
  by (simp add: fill_geometry_def fill_cd_geometry_def fill_disk_geometry_def Let_def)

lemma select_device_type_keeps: "inherits cd (select_device_type cd)"
  by (simp add: select_device_type_def inherits_flag flag_values)

lemma select_device_type_sane [simp]: "sane (select_device_type cd) = sane cd"
  by (simp add: select_device_type_def add_flag_def sane_def)

lemma completed_data_complete: "sane cd \<Longrightarrow> complete (completed_data cd)"
  using fill_geometry_complete [of "select_device_type cd"]
  by (simp add: completed_data_def upper_letter_def complete_def)

lemma completed_data_keeps:
  "Cylinders (completed_data cd) = Cylinders cd \<and> DeviceNumber (completed_data cd) = DeviceNumber cd \<and>
   ImageOffset (completed_data cd) = ImageOffset cd \<and> FileName (completed_data cd) = FileName cd \<and>
   FileNameLength (completed_data cd) = FileNameLength cd \<and> 
   DISK_TYPE (Flags (completed_data cd)) = DISK_TYPE (Flags cd)"
  using fill_geometry_keeps [of "select_device_type cd"] select_device_type_keeps [of cd]
  by (simp add: completed_data_def upper_letter_def inherits_def select_device_type_def add_flag_def)

end
