(* ===== verification/Sys_Created_Props.thy ===== *)
theory Sys_Created_Props
  imports Sys_Created
begin

text \<open>
  The properties of creation as a whole: the number a device gets, the devices the driver's chain
  holds, what a new device reports about itself, and the two things that go wrong.
\<close>

section \<open>Numbers\<close>

definition numbered :: "(nat \<times> ('f, 's) device_object) list \<Rightarrow> bool" where
  "numbered devices \<longleftrightarrow>
     (\<forall>(d, x) \<in> set devices. device_number x = control_number \<or>
        0 \<le> device_number x \<and> device_number x < control_number)"

lemma find_free_above:
  assumes "numbered devices" "0 \<le> n"
  defines "r \<equiv> fold (\<lambda>(d, x) n. if device_number x = control_number then n
                      else if n \<le> device_number x then u32 (device_number x + 1) else n) devices n"
  shows "n \<le> r \<and> (\<forall>(d, x) \<in> set devices. device_number x \<noteq> control_number \<longrightarrow> device_number x < r)"
  unfolding r_def using assms(1,2)
proof (induction devices arbitrary: n)
  case Nil
  then show ?case by simp
next
  case (Cons e devices)
  obtain d x where e: "e = (d, x)" by (cases e)
  define m where "m = (if device_number x = control_number then n
                      else if n \<le> device_number x then u32 (device_number x + 1) else n)"
  have bounds: "device_number x = control_number \<or> 0 \<le> device_number x \<and> device_number x < control_number"
    "numbered devices"
    using Cons.prems(1) e by (auto simp: numbered_def)
  then have m: "n \<le> m" "device_number x \<noteq> control_number \<longrightarrow> device_number x < m"
    by (auto simp: m_def u32_def control_number_def)
  with Cons.IH [OF bounds(2), of m] Cons.prems(2) show ?case by (auto simp: e m_def)
qed

lemma select_type_keeps:
  "DeviceNumber (select_type cd) = DeviceNumber cd" "Cylinders (select_type cd) = Cylinders cd"
  "FileNameLength (select_type cd) = FileNameLength cd" "FileName (select_type cd) = FileName cd"
  "ImageOffset (select_type cd) = ImageOffset cd" "sane (select_type cd) = sane cd"
  by (simp_all add: select_type_def add_flag_def sane_def)

lemma choose_number_keeps:
  "Cylinders (choose_number ds cd) = Cylinders cd" "FileNameLength (choose_number ds cd) = FileNameLength cd"
  "FileName (choose_number ds cd) = FileName cd" "ImageOffset (choose_number ds cd) = ImageOffset cd"
  "sane (choose_number ds cd) = sane cd" "Flags (choose_number ds cd) = Flags cd"
  by (simp_all add: choose_number_def sane_def)

lemma check_request_result:
  "check_request ds devices cd = Some cd' \<Longrightarrow>
     cd' = choose_number devices (select_type cd) \<and> blank_name_ok (select_type cd) \<and> DeviceNumber cd' < MaxDevices ds"
  by (auto simp: check_request_def Let_def split: if_splits)

text \<open>C26. A device created without a number gets one that no other device has, below the configured
  limit.\<close>

theorem chosen_number_is_free:
  assumes "check_request ds devices cd = Some cd'" "DeviceNumber cd = FSCRYPTDISK_AUTO_DEVICE_NUMBER"
    and "numbered devices"
  shows "0 \<le> DeviceNumber cd' \<and> DeviceNumber cd' < MaxDevices ds \<and>
     (\<forall>(d, x) \<in> set devices. device_number x \<noteq> control_number \<longrightarrow> device_number x < DeviceNumber cd')"
proof -
  from check_request_result [OF assms(1)] assms(2)
  have "DeviceNumber cd' = FindFreeDeviceNumber devices \<and> DeviceNumber cd' < MaxDevices ds"
    by (auto simp: choose_number_def select_type_keeps)
  with find_free_above [OF assms(3), of 0] show ?thesis by (simp add: FindFreeDeviceNumber_def)
qed

section \<open>A small system\<close>

text \<open>Files are their sizes, every call succeeds, there is memory; the only file is a million bytes
  long.\<close>

definition file_sizes :: "(int, unit) dev_ops" where
  "file_sizes = \<lparr>files =
       \<lparr>nt_read = (\<lambda>f off n. (STATUS_SUCCESS, replicate n 0, f)),
        nt_write = (\<lambda>f bs off. (STATUS_SUCCESS, length bs, f)),
        nt_zero_data = (\<lambda>f a e. (STATUS_SUCCESS, f)), nt_trim = (\<lambda>f rs. (STATUS_SUCCESS, f)),
        nt_size = (\<lambda>f. (STATUS_SUCCESS, f)), nt_set_size = (\<lambda>f n. (STATUS_SUCCESS, n))\<rparr>,
     proxies = \<lparr>px_stream = \<lparr>io_read = (\<lambda>s n. (No_irp, [], s)), io_write = (\<lambda>s bs. (No_irp, 0, s)),
         io_cancelled = (\<lambda>s. False), io_alloc = (\<lambda>n. True)\<rparr>,
       px_turn = (\<lambda>s v. (None, s)), px_claim = (\<lambda>s n. (None, s)), px_switch = (\<lambda>s n. s)\<rparr>,
     pool = (\<lambda>n. True), byte_behind = 1, new_memory = (\<lambda>n. Some (\<lambda>i. 0))\<rparr>"

definition willing :: "(int, unit) create_ops" where
  "willing = \<lparr>name_block = True, real_name_block = True, vbr_block = True, vbr_garbage = replicate 512 0,
     device_name_block = True, symlink_name_block = True,
     open_section = (\<lambda>p. (STATUS_SUCCESS, 0)), zw_create_file = (\<lambda>rq. (STATUS_SUCCESS, 1000000)),
     set_sparse = (\<lambda>f. (STATUS_SUCCESS, f)), map_view = (\<lambda>f. (STATUS_SUCCESS, [], ())),
     reference_proxy = (\<lambda>f. (STATUS_SUCCESS, ())),
     events = \<lparr>name_alloc = True, open_request = STATUS_SUCCESS, ref_request = STATUS_SUCCESS,
       open_response = STATUS_SUCCESS, ref_response = STATUS_SUCCESS\<rparr>,
     standard_size = (\<lambda>f. (STATUS_SUCCESS, f)), length_info = (\<lambda>f. (STATUS_SUCCESS, f)),
     partition_length = (\<lambda>f. (STATUS_SUCCESS, f)), file_alignment = (\<lambda>f. STATUS_SUCCESS),
     reference_file = (\<lambda>f w. STATUS_SUCCESS), image_direct_io = False,
     io_create_device = (\<lambda>n. if n = control_number then STATUS_OBJECT_NAME_COLLISION else STATUS_SUCCESS),
     create_symlink = (\<lambda>n. STATUS_SUCCESS), null_handle = 0, idle_peer = ()\<rparr>"

definition small_request :: creation_data where
  "small_request = \<lparr>DeviceNumber = 4294967295, Cylinders = 100, ImageOffset = 0, Flags = 0x100, DriveLetter = 0,
     FileNameLength = 10, FileName = wide_string ''a.img'', MediaType = Unknown,
     TracksPerCylinder = 1, SectorsPerTrack = 1, BytesPerSector = 512\<rparr>"

definition memory_request :: creation_data where
  "memory_request = \<lparr>DeviceNumber = 4294967295, Cylinders = 100000, ImageOffset = 0, Flags = 0x208, DriveLetter = 0,
     FileNameLength = 0, FileName = [], MediaType = Unknown,
     TracksPerCylinder = 0, SectorsPerTrack = 0, BytesPerSector = 0\<rparr>"

definition control_device :: "(int, unit) device_object" where
  "control_device = new_device willing (memory_request\<lparr>DeviceNumber := control_number\<rparr>) False False False (nothing_held willing)"

definition third_device :: "(int, unit) device_object" where
  "third_device = new_device willing (memory_request\<lparr>DeviceNumber := 3\<rparr>) False False False (nothing_held willing)"

lemma number_after_three:
  "map_option DeviceNumber (check_request default_settings [(2, third_device), (1, control_device)] memory_request) = Some 4"
  by code_simp

theorem chosen_number_is_free_witness:
  "\<exists>cd'. check_request default_settings [(2, third_device), (1, control_device)] memory_request = Some cd' \<and>
     device_number third_device < DeviceNumber cd' \<and> DeviceNumber cd' < MaxDevices default_settings"
proof -
  obtain cd' where cd': "check_request default_settings [(2, third_device), (1, control_device)] memory_request = Some cd'"
    using number_after_three by auto
  have numbers: "device_number third_device = 3" "device_number control_device = control_number"
    by (simp_all add: third_device_def control_device_def new_device_def)
  then have "numbered [(2, third_device), (1, control_device)]"
    by (simp add: numbered_def control_number_def)
  from chosen_number_is_free [OF cd' _ this] cd' numbers show ?thesis
    by (simp add: memory_request_def FSCRYPTDISK_AUTO_DEVICE_NUMBER_def control_number_def)
qed

lemma creation_refused:
  assumes "map_option (\<lambda>r. case r of Inl (st, h) \<Rightarrow> Some (st, closed_files h) | Inr _ \<Rightarrow> None) m = Some (Some (st, fs))"
  shows "\<exists>h. m = Some (Inl (st, h)) \<and> closed_files h = fs"
proof -
  from assms obtain r where r: "m = Some r" by auto
  with assms show ?thesis by (cases r) auto
qed

lemma creation_succeeded:
  assumes "map_option (\<lambda>r. case r of Inl _ \<Rightarrow> None | Inr ((cd, x), h) \<Rightarrow> Some (g cd)) m = Some (Some v)"
  shows "\<exists>cd x h. m = Some (Inr ((cd, x), h)) \<and> g cd = v"
proof -
  from assms obtain r where r: "m = Some r" by auto
  with assms show ?thesis by (cases r) auto
qed

lemma small_request_refused:
  "\<exists>h. create_device file_sizes willing default_settings [(1, control_device)] small_request =
     Some (Inl (STATUS_INVALID_PARAMETER, h)) \<and> closed_files h = [100]"
  by (rule creation_refused) code_simp

lemma memory_request_served:
  "\<exists>cd x h. create_device file_sizes willing default_settings [(1, control_device)] memory_request =
     Some (Inr ((cd, x), h)) \<and> (DeviceNumber cd, Flags cd, TracksPerCylinder cd) = (0, 0x218, 1)"
  by (rule creation_succeeded) code_simp

section \<open>The chain of devices\<close>

definition device_sound :: "driver_settings \<Rightarrow> ('f, 's) device_object \<Rightarrow> bool" where
  "device_sound ds x \<longleftrightarrow> device_number x = control_number \<or>
     0 \<le> device_number x \<and> device_number x < MaxDevices ds \<and> 0 < disk_size (extension x) \<and>
     0 < tracks x \<and> 0 < sectors x \<and> 0 < sector_bytes x"

definition driver_sound :: "driver_settings \<Rightarrow> ('f, 's, 'o) driver \<Rightarrow> bool" where
  "driver_sound ds drv \<longleftrightarrow>
     (\<forall>(d, x) \<in> set (device_list drv). device_sound ds x) \<and>
     distinct (map fst (device_list drv)) \<and> distinct (map (device_number \<circ> snd) (device_list drv))"

lemma create_device_result:
  fixes os :: "('f, 's) dev_ops"
  assumes "create_device os ops ds devices cd = Some (Inr ((cd', x), h))" "0 \<le> FileNameLength cd"
  obtains cd1 cd2 unmap zero parallel h' where
    "check_request ds devices cd = Some cd1" "inherits cd1 cd2" "65536 < Cylinders cd2"
    "cd' = completed_data cd2" "x = new_device ops cd' unmap zero parallel h'"
    "NT_SUCCESS (device_status ops (DeviceNumber cd'))"
proof -
  from assms obtain cd1 where check: "check_request ds devices cd = Some cd1"
    by (auto simp: create_device_def failing_def split: option.splits)
  let ?Q = "\<lambda>(cd', x) (h :: ('f, 's) held). \<exists>cd2 unmap zero parallel h'. inherits cd1 cd2 \<and> 65536 < Cylinders cd2 \<and>
     cd' = completed_data cd2 \<and> x = new_device ops cd' unmap zero parallel h' \<and>
     NT_SUCCESS (device_status ops (DeviceNumber cd'))"
  have image: "ends (\<lambda>_. True) (\<lambda>r _. inherits cd1 (fst r) \<and> 65536 < Cylinders (fst r))
      (if opens_file cd1 then image_stage os ops cd1 (nothing_held ops) else blank_stage os cd1 (nothing_held ops))"
  proof (cases "opens_file cd1")
    case True
    then show ?thesis by (simp add: image_stage_large)
  next
    case False
    from check_request_result [OF check] False assms(2) have "65536 < Cylinders cd1"
      by (auto simp: blank_name_ok_def opens_file_def select_type_keeps choose_number_keeps is_awe_def is_file_def)
    with False show ?thesis by (simp add: blank_stage_def split: option.split)
  qed
  have last: "ends (\<lambda>_. True) ?Q (device_stage ops (completed_data cd2) unmap zero h)"
    if "inherits cd1 cd2 \<and> 65536 < Cylinders cd2" for cd2 unmap zero and h :: "('f, 's) held"
    unfolding device_stage_def
  proof (rule ends_then [where Q = "\<lambda>_ _. True"], simp add: ends_def split: option.split sum.split)
    fix a and h' :: "('f, 's) held"
    show "ends (\<lambda>_. True) ?Q (let status = device_status ops (DeviceNumber (completed_data cd2)) in
       if NT_SUCCESS status then go_on (completed_data cd2, new_device ops (completed_data cd2) unmap zero a h') h'
       else failing status (release_all h'))"
      using that by (cases "NT_SUCCESS (device_status ops (DeviceNumber (completed_data cd2)))")
        (simp add: Let_def, blast, simp add: Let_def)
  qed
  have "ends (\<lambda>_. True) ?Q (create_device os ops ds devices cd)"
    unfolding create_device_def check option.case
    by (rule ends_then [OF image]) (use last in \<open>auto split: prod.splits\<close>)
  then show ?thesis using assms(1) that check by (auto simp: ends_def)
qed

lemma CreateDevice_result:
  assumes "CreateDevice os ops ds address cd drv = Some (status, cd', drv')" "0 \<le> FileNameLength cd"
  shows "drv' = drv \<or> (status = STATUS_SUCCESS \<and>
     (\<exists>cd1 cd2 unmap zero parallel h x. check_request ds (device_list drv) cd = Some cd1 \<and>
        inherits cd1 cd2 \<and> 65536 < Cylinders cd2 \<and> cd' = completed_data cd2 \<and>
        x = new_device ops cd' unmap zero parallel h \<and> NT_SUCCESS (device_status ops (DeviceNumber cd')) \<and>
        drv' = drv\<lparr>device_list := (address, x) # device_list drv\<rparr>))"
proof -
  from assms(1) obtain r where r: "create_device os ops ds (device_list drv) cd = Some r"
    and res: "(case r of Inl (status, h) \<Rightarrow> (status, cd, drv)
       | Inr ((cd, x), h) \<Rightarrow> (STATUS_SUCCESS, cd, drv\<lparr>device_list := (address, x) # device_list drv\<rparr>)) = (status, cd', drv')"
    by (auto simp: CreateDevice_def)
  show ?thesis
  proof (cases r)
    case (Inl e)
    then show ?thesis using res by (cases e) auto
  next
    case (Inr p)
    obtain c x h where p: "p = ((c, x), h)" by (metis prod.exhaust)
    have made: "create_device os ops ds (device_list drv) cd = Some (Inr ((c, x), h))" using r Inr p by simp
    have eqs: "status = STATUS_SUCCESS" "cd' = c" "drv' = drv\<lparr>device_list := (address, x) # device_list drv\<rparr>"
      using res Inr p by auto
    show ?thesis
    proof (rule create_device_result [OF made assms(2)])
      fix cd1 cd2 unmap zero parallel and h' :: "('a, 'b) held"
      assume "check_request ds (device_list drv) cd = Some cd1" "inherits cd1 cd2" "65536 < Cylinders cd2"
        "c = completed_data cd2" "x = new_device ops c unmap zero parallel h'"
        "NT_SUCCESS (device_status ops (DeviceNumber c))"
      then show ?thesis unfolding eqs by blast
    qed
  qed
qed

text \<open>The system refuses a device name that is in use; the members of the geometry are unsigned.\<close>

definition names_unique :: "('f, 's) create_ops \<Rightarrow> ('f, 's, 'o) driver \<Rightarrow> bool" where
  "names_unique ops drv \<longleftrightarrow>
     (\<forall>(d, x) \<in> set (device_list drv). \<not> NT_SUCCESS (io_create_device ops (device_number x)))"

definition unsigned_data :: "creation_data \<Rightarrow> bool" where
  "unsigned_data cd \<longleftrightarrow> sane cd \<and> 0 \<le> DeviceNumber cd \<and> 0 \<le> FileNameLength cd"

lemma check_request_unsigned:
  assumes "check_request ds devices cd = Some cd1" "unsigned_data cd"
  shows "sane cd1 \<and> 0 \<le> DeviceNumber cd1 \<and> DeviceNumber cd1 < MaxDevices ds"
proof -
  have "0 \<le> FindFreeDeviceNumber devices"
    unfolding FindFreeDeviceNumber_def
    by (induction devices rule: rev_induct) (auto simp: u32_def split: prod.splits)
  then have "0 \<le> DeviceNumber (choose_number devices (select_type cd))" using assms(2)
    by (simp add: choose_number_def select_type_keeps unsigned_data_def)
  then show ?thesis using check_request_result [OF assms(1)] assms(2)
    by (auto simp: unsigned_data_def choose_number_keeps select_type_keeps)
qed

lemma CreateDevice_sound:
  assumes "CreateDevice os ops ds address cd drv = Some (status, cd', drv')"
    and "driver_sound ds drv" "names_unique ops drv" "unsigned_data cd"
    and "address \<notin> fst ` set (device_list drv)"
  shows "driver_sound ds drv'"
proof -
  from assms(4) have len: "0 \<le> FileNameLength cd" by (simp add: unsigned_data_def)
  from CreateDevice_result [OF assms(1) len] show ?thesis
  proof (elim disjE conjE exE)
    fix cd1 cd2 unmap zero parallel h x
    assume check: "check_request ds (device_list drv) cd = Some cd1" and i: "inherits cd1 cd2"
      and large: "65536 < Cylinders cd2" and cd': "cd' = completed_data cd2"
      and x: "x = new_device ops cd' unmap zero parallel h"
      and ok: "NT_SUCCESS (device_status ops (DeviceNumber cd'))"
      and drv': "drv' = drv\<lparr>device_list := (address, x) # device_list drv\<rparr>"
    from check_request_unsigned [OF check assms(4)] i
    have "sane cd2" "0 \<le> DeviceNumber cd2" "DeviceNumber cd2 < MaxDevices ds" by (auto simp: inherits_def)
    with completed_data_complete [of cd2] completed_data_keeps [of cd2] large
    have "device_sound ds x" by (simp add: device_sound_def x new_device_def cd' complete_def)
    moreover have "device_number x \<notin> device_number ` snd ` set (device_list drv)"
      using ok assms(3) by (auto simp: x new_device_def names_unique_def device_status_def split: if_splits)
    ultimately show ?thesis using assms(2,5) by (auto simp: driver_sound_def drv' image_comp)
  qed (use assms(2) in auto)
qed

lemma created_number:
  assumes "create_device os ops ds devices cd = Some (Inr ((cd', x), h))" "0 \<le> FileNameLength cd"
  shows "device_number x = DeviceNumber cd'"
  using assms by (rule create_device_result) (simp add: new_device_def)

section \<open>What a new device reports\<close>

lemma pick: "(if c then a else b) AND m = (if c then a AND m else b AND m)" for a b m :: int
  by simp

lemma reported_flags:
  "DISK_TYPE (device_flags x) = (if vm_disk (extension x) then TYPE_VM
     else if use_proxy (extension x) then TYPE_PROXY else TYPE_FILE)"
  "\<not> BYTE_SWAP (device_flags x)"
  by (simp_all add: device_flags_def Let_def DISK_TYPE_def BYTE_SWAP_def bit.conj_disj_distrib2 pick flag_values
      split: device_type.split)

text \<open>C25. A device created reports number, size, image offset, name, drive letter, geometry and kind of
  backing it was created with; whether it swaps bytes it does not report.\<close>

theorem created_device_reports_its_data:
  assumes "create_device os ops ds devices cd = Some (Inr ((cd', x), h))" "0 \<le> FileNameLength cd"
    and "DISK_TYPE (Flags cd') \<in> {TYPE_FILE, TYPE_VM, TYPE_PROXY}"
  shows "let r = device_report x in
     DeviceNumber r = DeviceNumber cd' \<and> Cylinders r = Cylinders cd' \<and> 65536 < Cylinders r \<and>
     ImageOffset r = ImageOffset cd \<and> FileName r = given_name cd \<and> DriveLetter r = DriveLetter cd' \<and>
     MediaType r = MediaType cd' \<and> TracksPerCylinder r = TracksPerCylinder cd' \<and>
     SectorsPerTrack r = SectorsPerTrack cd' \<and> BytesPerSector r = BytesPerSector cd' \<and>
     DISK_TYPE (Flags r) = DISK_TYPE (Flags cd') \<and> \<not> BYTE_SWAP (Flags r)"
  using assms(1,2)
proof (rule create_device_result)
  fix cd1 cd2 unmap zero parallel h'
  assume check: "check_request ds devices cd = Some cd1" and i: "inherits cd1 cd2"
    and large: "65536 < Cylinders cd2" and cd': "cd' = completed_data cd2"
    and x: "x = new_device ops cd' unmap zero parallel h'"
  have names: "given_name cd' = given_name cd \<and> ImageOffset cd' = ImageOffset cd \<and> Cylinders cd' = Cylinders cd2"
    using completed_data_keeps [of cd2] i check_request_result [OF check]
    by (auto simp: given_name_def inherits_def cd' choose_number_keeps select_type_keeps)
  have kind: "DISK_TYPE (device_flags x) = DISK_TYPE (Flags cd')"
    using assms(3) by (auto simp: reported_flags x new_device_def is_vm_def is_proxy_def TYPE_VM_def TYPE_PROXY_def TYPE_FILE_def)
  have x': "device_number x = DeviceNumber cd' \<and> disk_size (extension x) = Cylinders cd' \<and>
      image_offset (extension x) = ImageOffset cd' \<and> file_name x = given_name cd' \<and> drive_letter x = DriveLetter cd' \<and>
      media x = MediaType cd' \<and> tracks x = TracksPerCylinder cd' \<and> sectors x = SectorsPerTrack cd' \<and>
      sector_bytes x = BytesPerSector cd'"
    by (simp add: x new_device_def)
  show ?thesis using x' names kind large reported_flags(2) [of x] by (simp add: device_report_def Let_def)
qed

theorem created_device_reports_its_data_witness:
  "\<exists>cd' x h. create_device file_sizes willing default_settings [(1, control_device)] memory_request = Some (Inr ((cd', x), h)) \<and>
     BYTE_SWAP (Flags cd') \<and> \<not> BYTE_SWAP (Flags (device_report x)) \<and> 65536 < Cylinders (device_report x)"
proof -
  obtain cd' x h where made: "create_device file_sizes willing default_settings [(1, control_device)] memory_request = Some (Inr ((cd', x), h))"
    and flags: "Flags cd' = 0x218"
    using memory_request_served by auto
  have "DISK_TYPE (Flags cd') \<in> {TYPE_FILE, TYPE_VM, TYPE_PROXY}" "BYTE_SWAP (Flags cd')" "0 \<le> FileNameLength memory_request"
    by (simp_all add: flags DISK_TYPE_def TYPE_VM_def BYTE_SWAP_def memory_request_def)
  with created_device_reports_its_data [OF made] made show ?thesis by (auto simp: Let_def)
qed

section \<open>A refused creation that cuts the image\<close>

text \<open>C32. A writable file disk with a size of at most 64 kilobytes: the image file is set to that size
  before the size is refused, so that an existing image is left cut.\<close>

theorem refused_creation_cuts_image:
  assumes "check_request ds devices cd = Some cd1" and "cd2 = type_by_extension cd1"
    and "is_file cd2" "\<not> READONLY (Flags cd2)" "\<not> SPARSE_FILE (Flags cd2)" "FILE_TYPE (Flags cd2) \<noteq> FILE_TYPE_AWEFSALLOC"
    and "0 < FileNameLength cd" "0 < Cylinders cd" "Cylinders cd \<le> 65536" "ImageOffset cd = 0" "\<not> geometry_missing cd2"
    and "name_block ops" "zw_create_file ops (open_parameters cd2) = (STATUS_SUCCESS, f)"
    and "nt_set_size (files os) f (Cylinders cd) = (STATUS_SUCCESS, f')"
    and "NT_SUCCESS (fst (GetDiskSize ops f'))" "NT_SUCCESS (file_alignment ops f')"
  shows "\<exists>h. create_device os ops ds devices cd = Some (Inl (STATUS_INVALID_PARAMETER, h)) \<and> closed_files h = [f']"
proof -
  have cd1: "FileNameLength cd1 = FileNameLength cd \<and> Cylinders cd1 = Cylinders cd \<and> ImageOffset cd1 = ImageOffset cd"
    using check_request_result [OF assms(1)] by (auto simp: choose_number_keeps select_type_keeps)
  have cd2: "Cylinders cd2 = Cylinders cd \<and> ImageOffset cd2 = 0"
    using inherits_extension [of cd1] cd1 assms(2,8,10) by (simp add: inherits_def)
  have kinds: "\<not> is_awe cd2 \<and> \<not> is_shm cd2 \<and> \<not> is_proxy cd2 \<and> \<not> is_vm cd2"
    using assms(3,6) by (simp add: is_awe_def is_shm_def is_proxy_def is_vm_def is_file_def TYPE_FILE_def TYPE_PROXY_def TYPE_VM_def)
  have awe1: "opens_file cd1" using cd1 assms(7) by (simp add: opens_file_def)
  define h where "h = nothing_held ops"
  have name: "name_stage ops cd1 h = go_on cd2 h"
    using assms(2,12) kinds by (simp add: name_stage_def Let_def)
  have open': "open_stage ops cd2 h = go_on cd2 (h\<lparr>image_file := Some f\<rparr>)"
    using kinds assms(13) by (simp add: open_stage_def Let_def)
  have resize: "resize_stage os ops cd2 f (h\<lparr>image_file := Some f\<rparr>) = go_on cd2 (h\<lparr>image_file := Some f'\<rparr>)"
    using assms(3,4,5,8,14) cd2 by (simp add: resize_stage_def sparse_stage_def)
  have size: "size_stage os ops cd2 f' (h\<lparr>image_file := Some f'\<rparr>) = go_on cd2 (h\<lparr>image_file := Some f'\<rparr>)"
    using kinds assms(8,15,16) cd2
    by (cases "GetDiskSize ops f'") (simp add: size_stage_def size_if_missing_def Let_def)
  have rest: "and_then (file_stage os ops cd2 f' (h\<lparr>image_file := Some f'\<rparr>)) minimum_stage =
      failing STATUS_INVALID_PARAMETER (free_memory (close_file (close_proxy (h\<lparr>image_file := Some f'\<rparr>))))"
    using assms(9,11) cd2 by (simp add: file_stage_def size geometry_stage_def minimum_stage_def)
  have "image_stage os ops cd1 h =
      failing STATUS_INVALID_PARAMETER (free_memory (close_file (close_proxy (h\<lparr>image_file := Some f'\<rparr>))))"
    using kinds by (simp add: image_stage_def name open' resize connect_stage_def rest)
  then have "create_device os ops ds devices cd =
      failing STATUS_INVALID_PARAMETER (free_memory (close_file (close_proxy (h\<lparr>image_file := Some f'\<rparr>))))"
    using awe1 by (simp add: create_device_def assms(1) flip: h_def)
  then show ?thesis by (simp add: failing_def free_memory_def close_file_def close_proxy_def h_def nothing_held_def)
qed

theorem refused_creation_cuts_image_witness:
  "zw_create_file willing (open_parameters small_request) = (STATUS_SUCCESS, 1000000) \<and>
   (\<exists>h. create_device file_sizes willing default_settings [(1, control_device)] small_request =
      Some (Inl (STATUS_INVALID_PARAMETER, h)) \<and> closed_files h = [100])"
proof -
  have number: "map_option DeviceNumber (check_request default_settings [(1, control_device)] small_request) = Some 0" by code_simp
  then obtain cd1 where cd1: "check_request default_settings [(1, control_device)] small_request = Some cd1" by auto
  from check_request_result [OF cd1] have eq: "cd1 = small_request\<lparr>DeviceNumber := DeviceNumber cd1\<rparr>"
    by (auto simp: choose_number_def select_type_def small_request_def DISK_TYPE_def)
  have ext: "type_by_extension cd1 = cd1"
    by (subst eq, subst (2) eq)
       (simp add: type_by_extension_def small_request_def DEVICE_TYPE_def DEVICE_TYPE_CD_def Let_def ends_with_def
          given_name_def wide_string_def wlower_def)
  have flags: "Flags cd1 = 0x100" "FileNameLength cd1 = 10" "TracksPerCylinder cd1 = 1" "SectorsPerTrack cd1 = 1" "BytesPerSector cd1 = 512"
    by (subst eq, simp add: small_request_def)+
  have "\<exists>h. create_device file_sizes willing default_settings [(1, control_device)] small_request =
      Some (Inl (STATUS_INVALID_PARAMETER, h)) \<and> closed_files h = [100]"
    by (rule refused_creation_cuts_image [OF cd1 ext [symmetric], where f = 1000000])
       (simp_all add: is_file_def flags DISK_TYPE_def TYPE_FILE_def READONLY_def SPARSE_FILE_def FILE_TYPE_def
         FILE_TYPE_AWEFSALLOC_def small_request_def geometry_missing_def willing_def file_sizes_def GetDiskSize_def)
  then show ?thesis by (simp add: willing_def)
qed

theorem failed_creation_holds_nothing_witness:
  "\<exists>status h. create_device file_sizes willing default_settings [(1, control_device)] small_request = Some (Inl (status, h)) \<and>
     status = STATUS_INVALID_PARAMETER \<and> image_file h = None \<and> closed (px h)"
proof -
  obtain h where h: "create_device file_sizes willing default_settings [(1, control_device)] small_request =
      Some (Inl (STATUS_INVALID_PARAMETER, h))"
    using small_request_refused by blast
  from failed_creation_holds_nothing [OF h] h show ?thesis by blast
qed

section \<open>The floppy formats\<close>

text \<open>The entries of the table of floppy formats describe media of exactly their size, but for three:
  the first two are exchanged, a 240 MB medium gets the geometry of a 120 MB one and the reverse, and
  the 640 KB medium gets the geometry of a 720 KB one.\<close>

lemma three_floppy_formats_are_wrong:
  "map (\<lambda>(sz, c, m, t, s, b). sz div 1024) (filter (\<lambda>(sz, c, m, t, s, b). c * t * s * b \<noteq> sz)
     (zip media_sizes media_table)) = [234752, 123264, 640] \<and>
   floppy_format (234752 * 1024) = Some (963, F3_120M_512, 8, 32, 512) \<and>
   963 * 8 * 32 * 512 = (123264 * 1024 :: int) \<and>
   floppy_format (123264 * 1024) = Some (262, F3_120M_512, 32, 56, 512) \<and>
   262 * 32 * 56 * 512 = (234752 * 1024 :: int) \<and>
   floppy_format (640 * 1024) = Some (40, F5_640_512, 2, 18, 512) \<and> 40 * 2 * 18 * 512 = (720 * 1024 :: int)"
  by code_simp

end
