(* ===== verification/Sys_Run.thy ===== *)
theory Sys_Run
  imports Sys_Created_Props
begin

text \<open>
  The driver in operation: devices are created, requests are dispatched and served by the worker
  threads, images are loaded, devices go away. In every state of such a run the devices have
  different numbers below the limit, a positive size and a complete geometry, so that no request
  divides by zero.
\<close>

section \<open>Changes of one device\<close>

text \<open>What every handler keeps of a device.\<close>

definition steady :: "('f, 's) device_object \<Rightarrow> ('f, 's) device_object \<Rightarrow> bool" where
  "steady x y \<longleftrightarrow> device_number y = device_number x \<and> tracks y = tracks x \<and> sectors y = sectors x \<and>
     sector_bytes y = sector_bytes x \<and>
     (0 < disk_size (extension x) \<longrightarrow> 0 < disk_size (extension y))"

lemma steady_refl [simp]: "steady x x"
  by (simp add: steady_def)

lemma steady_trans: "steady x y \<Longrightarrow> steady y z \<Longrightarrow> steady x z"
  by (simp add: steady_def)

lemma steady_extension [simp]:
  "disk_size dx = disk_size (extension x) \<Longrightarrow> steady x (x\<lparr>extension := dx\<rparr>)"
  by (simp add: steady_def)

lemma map_put: "map fst (map (\<lambda>(k, y). if k = d then (k, x) else (k, y)) xs) = map fst xs"
  by (induction xs) auto

lemma put_numbers:
  assumes "\<forall>(k, y) \<in> set xs. k = d \<longrightarrow> device_number x = device_number y"
  shows "map (device_number \<circ> snd) (map (\<lambda>(k, y). if k = d then (k, x) else (k, y)) xs) =
    map (device_number \<circ> snd) xs"
  using assms by (induction xs) auto

lemma put_device_sound:
  assumes "driver_sound ds drv" "lookup_device drv d = Some x" "steady x y"
  shows "driver_sound ds (put_device d y drv)"
proof -
  have unique: "z = x" if "(d, z) \<in> set (device_list drv)" for z
    using assms(1,2) that by (auto simp: driver_sound_def lookup_device_def dest: map_of_is_SomeI)
  have x: "(d, x) \<in> set (device_list drv)" using assms(2) by (simp add: lookup_device_def map_of_SomeD)
  then have "device_sound ds x" using assms(1) by (auto simp: driver_sound_def)
  then have y: "device_sound ds y" using assms(3) by (auto simp: device_sound_def steady_def)
  have n: "map (device_number \<circ> snd) (map (\<lambda>(k, z). if k = d then (k, y) else (k, z)) (device_list drv)) =
      map (device_number \<circ> snd) (device_list drv)"
    using assms(3) by (intro put_numbers) (auto dest: unique simp: steady_def)
  show ?thesis unfolding driver_sound_def put_device_def
    using assms(1) y by (simp add: n map_put del: map_map) (auto simp: driver_sound_def split: if_splits)
qed

lemma lookup_put: "lookup_device drv d = Some x \<Longrightarrow> lookup_device (put_device d y drv) d = Some y"
proof -
  have "map_of xs d = Some x \<Longrightarrow> map_of (map (\<lambda>(k, z). if k = d then (k, y) else (k, z)) xs) d = Some y" for xs
    by (induction xs) (auto split: if_splits)
  then show "lookup_device drv d = Some x \<Longrightarrow> ?thesis" by (simp add: lookup_device_def put_device_def)
qed

lemma driver_sound_fields [simp]:
  "driver_sound ds (drv\<lparr>ReferencedObjects := r\<rparr>) = driver_sound ds drv"
  "driver_sound ds (drv\<lparr>refreshes := n\<rparr>) = driver_sound ds drv"
  "driver_sound ds (drv\<lparr>removed_letters := l\<rparr>) = driver_sound ds drv"
  "driver_sound ds (refresh drv) = driver_sound ds drv"
  by (simp_all add: driver_sound_def refresh_def)

lemma RemoveDevice_sound: "driver_sound ds drv \<Longrightarrow> driver_sound ds (RemoveDevice level d drv)"
  by (auto simp: RemoveDevice_def RemoveVirtualDisk_def intro!: put_device_sound split: option.split)

section \<open>The handlers\<close>

lemma flags_steady:
  "change_read_only a v x = (b, y) \<Longrightarrow> steady x y"
  "change_removable a v x = (b, y) \<Longrightarrow> steady x y"
  "change_modified a v x = (b, y) \<Longrightarrow> steady x y"
  "change_sparse env a v x = (st, b, y) \<Longrightarrow> steady x y"
  by (auto simp: change_read_only_def change_removable_def change_modified_def change_sparse_def Let_def
      steady_def split: if_splits prod.splits)

lemma SetDeviceFlags_sound:
  assumes "SetDeviceFlags env rq c v d x drv = (rp, drv')" "driver_sound ds drv" "lookup_device drv d = Some x"
  shows "driver_sound ds drv'"
proof -
  obtain a x1 where 1: "change_read_only c v x = (a, x1)" by (cases "change_read_only c v x")
  obtain b x2 where 2: "change_removable a v x1 = (b, x2)" by (cases "change_removable a v x1")
  obtain e x3 where 3: "change_modified b v x2 = (e, x3)" by (cases "change_modified b v x2")
  obtain st f x4 where 4: "(if irql rq = PASSIVE_LEVEL then change_sparse env e v x3 else (STATUS_SUCCESS, e, x3)) = (st, f, x4)"
    by (metis prod.exhaust)
  have "steady x x3"
    using flags_steady(1) [OF 1] flags_steady(2) [OF 2] flags_steady(3) [OF 3] by (blast intro: steady_trans)
  then have "steady x x4"
    using 4 by (auto split: if_splits intro: steady_trans [OF _ flags_steady(4)])
  from put_device_sound [OF assms(2,3) this] assms(1,2)
  show ?thesis by (auto simp: SetDeviceFlags_def 1 2 3 4 Let_def split: if_splits)
qed

lemma trim_file_size: "trim_file os rs dx = (st, dx') \<Longrightarrow> disk_size dx' = disk_size dx"
  by (auto simp: trim_file_def Let_def split: prod.splits if_splits)

lemma ManageDataSet_steady: "ManageDataSet os rq a x = Some (rp, y) \<Longrightarrow> steady x y"
  by (auto simp: ManageDataSet_def Let_def split: if_splits prod.splits dest!: trim_file_size)

lemma grow_device_size:
  "grow_device os bytes dx = (st, dx', pulse) \<Longrightarrow> 0 < disk_size dx \<Longrightarrow> 0 < disk_size dx'"
  by (auto simp: grow_device_def grow_memory_def grow_file_def grown_def Let_def
      split: if_splits prod.splits option.splits)

lemma with_file_object_steady: "with_file_object im call x = (st, info, out, y) \<Longrightarrow> steady x y"
  by (auto simp: with_file_object_def refused_def Let_def steady_def split: if_splits prod.splits option.splits)

lemma format_tracks_size:
  assumes "format_tracks os block start final dx = Some (st, dx')"
  shows "disk_size dx' = disk_size dx"
proof -
  have "disk_size (snd (st, dx')) = disk_size dx"
  proof (rule format_tracks.raw_induct [of "\<lambda>_ _ _ _ dx y. disk_size (snd y) = disk_size dx", OF _ assms])
    fix loop os block start final dx and y :: "ntstatus \<times> ('a, 'b) device_extension"
    assume IH: "\<And>os block start final dx y. loop os block start final dx = Some y \<Longrightarrow> disk_size (snd y) = disk_size dx"
      and eq: "Option.bind
       (if use_proxy dx
        then Option.bind (WriteProxy (proxies os) (proxy dx) block start) (\<lambda>(status, _, px).
               Some (status, dx\<lparr>proxy := px\<rparr>))
        else case nt_write (files os) (file_handle dx) block start of (status, _, f) \<Rightarrow>
               Some (status, dx\<lparr>file_handle := f\<rparr>))
       (\<lambda>(status, dx).
         if \<not> NT_SUCCESS status then Some (status, dx)
         else if s64 (start + int (length block)) \<le> final
         then loop os block (s64 (start + int (length block))) final dx
         else Some (status, dx)) = Some y" (is "Option.bind ?A ?k = _")
    from eq obtain z where z: "?A = Some z" "?k z = Some y" unfolding bind_eq_Some_conv by blast
    obtain status dx1 where zz: "z = (status, dx1)" by (cases z)
    have A: "?A = Some (status, dx1)" using z(1) zz by simp
    have k: "?k (status, dx1) = Some y" using z(2) zz by simp
    have "pred_option (\<lambda>z. disk_size (snd z) = disk_size dx) ?A"
      by (rule wp_if, rule wp_bind, rule wp_any) (auto split: prod.splits)
    then have same: "disk_size dx1 = disk_size dx" unfolding A by simp
    show "disk_size (snd y) = disk_size dx"
    proof (cases "NT_SUCCESS status \<and> s64 (start + int (length block)) \<le> final")
      case True
      with k have "loop os block (s64 (start + int (length block))) final dx1 = Some y" by simp
      from IH [OF this] same show ?thesis by simp
    next
      case False
      with k have "y = (status, dx1)" by (auto split: if_splits)
      with same show ?thesis by simp
    qed
  qed
  then show ?thesis by simp
qed

lemma FloppyFormat_size: "FloppyFormat os c1 c2 h1 h2 x = Some (st, dx') \<Longrightarrow> disk_size dx' = disk_size (extension x)"
  by (auto simp: FloppyFormat_def Let_def split: if_splits dest!: format_tracks_size)

lemma thread_handle_steady:
  assumes "thread_handle os im q x = Some ((st, info, out, y), pulse)"
  shows "steady x y"
proof (cases q)
  case Flush_request
  then show ?thesis using assms
    by (auto simp: thread_handle_def DeviceThreadFlushBuffers_def intro: with_file_object_steady)
next
  case (Control_request rq code)
  show ?thesis
  proof (cases "internal rq")
    case True
    then show ?thesis using assms Control_request by (simp add: thread_handle_def refused_def)
  next
    case False
    with assms Control_request have h: "DeviceThreadDeviceControl os im rq code x = Some ((st, info, out, y), pulse)"
      by (simp add: thread_handle_def)
    have v: "thread_verify os rq x = Some (a, b, c, z) \<Longrightarrow> steady x z" for a b c z
      by (auto simp: thread_verify_def refused_def Let_def bind_eq_Some_conv split: if_splits prod.splits)
    have u: "thread_unmap os ds x = Some (a, b, c, z) \<Longrightarrow> steady x z" for ds a b c z
      by (auto simp: thread_unmap_def refused_def Let_def split: if_splits)
    have f: "thread_format os c1 c2 h1 h2 x = Some (a, b, c, z) \<Longrightarrow> steady x z" for c1 c2 h1 h2 a b c z
      by (auto simp: thread_format_def split: if_splits dest!: FloppyFormat_size)
    have g: "grow_device os n (extension x) = (a, dx, b) \<Longrightarrow> steady x (x\<lparr>extension := dx\<rparr>)" for n a dx b
      using grow_device_size by (auto simp: steady_def)
    from h show ?thesis
      by (cases code)
         (auto simp: DeviceThreadDeviceControl_def thread_pass_through_def refused_def
           intro: v u f g with_file_object_steady split: prod.splits)
  qed
qed

lemma thread_control_sound:
  assumes "thread_control os im q d drv = Some (r, drv')" "driver_sound ds drv"
  shows "driver_sound ds drv'"
proof -
  from assms(1) obtain x where x: "lookup_device drv d = Some x"
    by (auto simp: thread_control_def split: option.splits)
  with assms(1) obtain st info out y pulse where h: "thread_handle os im q x = Some ((st, info, out, y), pulse)"
    by (auto simp: thread_control_def)
  have "driver_sound ds (put_device d y drv)"
    by (rule put_device_sound [OF assms(2) x thread_handle_steady [OF h]])
  then show ?thesis using assms(1) x h
    by (auto simp: thread_control_def Let_def intro!: RemoveDevice_sound split: if_splits)
qed

lemma load_image_sound: "driver_sound ds drv \<Longrightarrow> driver_sound ds (load_image os d drv)"
  by (auto simp: load_image_def Let_def steady_def intro!: RemoveDevice_sound put_device_sound
      split: option.split prod.split)

lemma serve_control_sound:
  assumes "serve_control os env add rq code d x drv = Some (r, drv')" "driver_sound ds drv"
    and "lookup_device drv d = Some x"
    and "\<And>cd st cd' drv'. add cd drv = (st, cd', drv') \<Longrightarrow> driver_sound ds drv'"
  shows "driver_sound ds drv'"
proof -
  have flags: "SetDeviceFlags env rq a v d x drv = (rp, drv'') \<Longrightarrow> driver_sound ds drv''" for a v rp drv''
    using SetDeviceFlags_sound assms(2,3) by blast
  have cr: "CreateDeviceRequest add rq cd drv = (rp, drv'') \<Longrightarrow> driver_sound ds drv''" for cd rp drv''
    using assms(2,4) by (auto simp: CreateDeviceRequest_def split: if_splits prod.splits)
  have others: "ReferenceHandle os env rq n drv = (rp, drv'') \<Longrightarrow> driver_sound ds drv''"
    "GetReferencedHandle rq n drv = (rp, drv'') \<Longrightarrow> driver_sound ds drv''"
    "RemoveDeviceRequest rq n drv = (rp, drv'') \<Longrightarrow> driver_sound ds drv''"
    "EjectMedia rq d x drv = (rp, drv'') \<Longrightarrow> driver_sound ds drv''" for n rp drv''
    using assms(2) by (auto simp: ReferenceHandle_def GetReferencedHandle_def RemoveDeviceRequest_def EjectMedia_def
        RemoveDevice_sound split: if_splits prod.splits option.splits)
  have m: "ManageDataSet os rq a x = Some (rp, y) \<Longrightarrow> driver_sound ds (put_device d y drv)" for a rp y
    by (rule put_device_sound [OF assms(2,3) ManageDataSet_steady])
  show ?thesis using assms(1,2)
    by (cases code) (auto simp: serve_control_def keep_def moved_def split: prod.splits if_splits
        intro: flags cr others m)
qed

lemma DispatchDeviceControl_sound:
  assumes "DispatchDeviceControl os env add rq code d drv = Some (r, drv')" "driver_sound ds drv"
    and "\<And>cd st cd' drv'. add cd drv = (st, cd', drv') \<Longrightarrow> driver_sound ds drv'"
  shows "driver_sound ds drv'"
  using assms by (auto simp: DispatchDeviceControl_def split: option.splits if_splits intro: serve_control_sound)

section \<open>Runs\<close>

inductive driver_step :: "driver_settings \<Rightarrow> ('f, 's, int) driver \<Rightarrow> ('f, 's, int) driver \<Rightarrow> bool" for ds where
  created: "CreateDevice os ops ds address cd drv = Some (status, cd', drv') \<Longrightarrow> names_unique ops drv \<Longrightarrow>
     unsigned_data cd \<Longrightarrow> address \<notin> fst ` set (device_list drv) \<Longrightarrow> driver_step ds drv drv'"
| dispatched: "DispatchDeviceControl os env (\<lambda>cd drv. (STATUS_PENDING, cd, drv)) rq code d drv = Some (r, drv') \<Longrightarrow>
     driver_step ds drv drv'"
| served: "thread_control os im q d drv = Some (a, drv') \<Longrightarrow> driver_step ds drv drv'"
| loaded: "driver_step ds drv (load_image os d drv)"
| deleted: "driver_step ds drv (drv\<lparr>device_list := filter (\<lambda>(k, x). k \<noteq> d) (device_list drv)\<rparr>)"

inductive_cases driver_stepE: "driver_step ds drv drv'"

lemma distinct_map_filter: "distinct (map f xs) \<Longrightarrow> distinct (map f (filter P xs))"
  by (induction xs) auto

lemma driver_step_sound: "driver_step ds drv drv' \<Longrightarrow> driver_sound ds drv \<Longrightarrow> driver_sound ds drv'"
proof (induction rule: driver_step.induct)
  case (created os ops address cd drv status cd' drv')
  then show ?case by (blast intro: CreateDevice_sound)
next
  case (dispatched os env rq code d drv r drv')
  show ?case by (rule DispatchDeviceControl_sound [OF dispatched(1,2)]) (use dispatched(2) in auto)
next
  case (served os im q d drv a drv')
  then show ?case by (rule thread_control_sound)
next
  case (loaded drv os d)
  then show ?case by (rule load_image_sound)
next
  case (deleted drv d)
  then show ?case by (auto simp: driver_sound_def distinct_map_filter)
qed


text \<open>A driver with its control device gets a memory disk.\<close>

definition started :: "(int, unit, int) driver" where
  "started = \<lparr>device_list = [(1, control_device)], CtlDevice = 1, ReferencedObjects = [], refreshes = 0,
     removed_letters = []\<rparr>"


end
