(* ===== verification/Sys_Control_Props.thy ===== *)
theory Sys_Control_Props
  imports Sys_Run
begin

text \<open>
  Properties of the control requests: which devices the driver lists, growing and formatting disks,
  the bounds of discard requests, and requests that do something else than they say.
\<close>

section \<open>The list of devices\<close>

lemma bit_device_bitmap:
  assumes "\<forall>n \<in> set ns. 0 \<le> n" "k < 64"
  shows "bit (fold (\<lambda>n bits. if n < 64 then bits OR push_bit (nat n) 1 else bits) ns b) k \<longleftrightarrow>
    bit (b :: int) k \<or> int k \<in> set ns"
  using assms(1)
proof (induction ns arbitrary: b)
  case (Cons n ns)
  have "bit (push_bit (nat n) (1 :: int)) k \<longleftrightarrow> n = int k" using Cons.prems by (auto simp: bit_simps)
  with Cons assms(2) show ?case by (auto simp: bit_or_iff)
qed simp

lemma highest_bound: "\<forall>n \<in> set ns. n < m \<Longrightarrow> h < m \<Longrightarrow> fold (\<lambda>n h. if h < n then n else h) ns h < (m :: int)"
  by (induction ns arbitrary: h) auto

text \<open>C28. With device numbers below 64, a buffer of eight bytes gets the set of the devices' numbers as
  bits, and a buffer for all numbers gets their count and all of them; the control device is in
  neither.\<close>

theorem driver_lists_devices:
  assumes "\<forall>n \<in> set (disk_numbers drv). 0 \<le> n \<and> n < 64" "OutputBufferLength rq8 = 8"
    and "8 < OutputBufferLength rq" "4 * int (length (disk_numbers drv)) + 4 < OutputBufferLength rq"
  shows "(\<exists>bits. QueryDriver rq8 drv = (STATUS_SUCCESS, 8, Device_bits bits) \<and>
      (\<forall>k < 64. bit bits k \<longleftrightarrow> int k \<in> set (disk_numbers drv))) \<and>
    QueryDriver rq drv = (STATUS_SUCCESS, 4 * (length (disk_numbers drv) + 1),
      Device_numbers (int (length (disk_numbers drv)) # disk_numbers drv)) \<and>
    control_number \<notin> set (disk_numbers drv)"
proof -
  let ?ns = "disk_numbers drv"
  have "highest ?ns < 64" unfolding highest_def using assms(1) by (intro highest_bound) auto
  then have bits: "QueryDriver rq8 drv = (STATUS_SUCCESS, 8, Device_bits (device_bitmap ?ns))"
    by (simp add: QueryDriver_def Let_def assms(2))
  have set_bits: "\<forall>k < 64. bit (device_bitmap ?ns) k \<longleftrightarrow> int k \<in> set ?ns"
    unfolding device_bitmap_def using assms(1) by (simp add: bit_device_bitmap)
  have room: "length ?ns < nat (OutputBufferLength rq div 4)"
    using assms(4) by linarith
  then have "QueryDriver rq drv = (STATUS_SUCCESS, 4 * (length ?ns + 1), Device_numbers (int (length ?ns) # ?ns))"
    using assms(3) by (simp add: QueryDriver_def Let_def)
  with bits set_bits show ?thesis by (auto simp: disk_numbers_def)
qed

section \<open>Growing\<close>

lemma accepted_growth:
  assumes "GrowCheck rq n bytes x = (STATUS_PENDING, i, a)"
    and "0 < disk_size (extension x)" "disk_size (extension x) < 2 ^ 63" "- (2 ^ 63) \<le> bytes" "bytes < 2 ^ 63"
  shows "0 \<le> bytes \<and> s64 (disk_size (extension x) + bytes) = disk_size (extension x) + bytes"
proof -
  let ?s = "disk_size (extension x)"
  from assms(1) have le: "?s \<le> s64 (?s + bytes)" by (auto simp: GrowCheck_def split: if_splits)
  have "?s + bytes < 2 ^ 63"
  proof (rule ccontr)
    assume "\<not> ?s + bytes < 2 ^ 63"
    then have "s64 (?s + bytes) = ?s + bytes - 18446744073709551616" using assms(3-5) by (intro s64_high) auto
    with le assms(3,5) show False by simp
  qed
  with le assms(2,4) show ?thesis by (simp add: s64_id)
qed

text \<open>C27. A request to grow a disk that the dispatch routine accepts never shrinks it: after success the
  size is larger by exactly the number of bytes asked for, after failure it is the same, and a memory
  disk keeps all its data either way.\<close>

theorem growing_keeps_the_data:
  assumes "GrowCheck rq n bytes x = (STATUS_PENDING, i, a)"
    and "0 < disk_size (extension x)" "disk_size (extension x) < 2 ^ 63" "- (2 ^ 63) \<le> bytes" "bytes < 2 ^ 63"
    and "grow_device os bytes (extension x) = (status, dx, pulse)"
  shows "0 \<le> bytes \<and>
    disk_size dx = disk_size (extension x) + (if NT_SUCCESS status then bytes else 0) \<and>
    (vm_disk (extension x) \<longrightarrow> mem_bytes (image_buffer dx) 0 (nat (disk_size (extension x))) =
       mem_bytes (image_buffer (extension x)) 0 (nat (disk_size (extension x))))"
proof -
  from accepted_growth [OF assms(1-5)]
  have new: "0 \<le> bytes" "s64 (disk_size (extension x) + bytes) = disk_size (extension x) + bytes" by auto
  have copy: "mem_bytes (mem_write m 0 (mem_bytes f 0 k)) 0 k = mem_bytes f 0 k" for m f :: "int \<Rightarrow> byte" and k
    using mem_bytes_write_same [of m 0 "mem_bytes f 0 k"] by simp
  show ?thesis using new assms(2,6)
    by (auto simp: grow_device_def Let_def grow_memory_def grow_file_def grown_def copy
        split: if_splits prod.splits option.splits)
qed

section \<open>Formatting\<close>

lemma tracks_linear:
  assumes "track_length x = sector_bytes x * sectors x"
  shows "format_offset x c h = s64 ((c * tracks x + h) * track_length x)"
    "track_offset x c h = s64 ((c * tracks x + h) * track_length x)"
  by (simp_all add: format_offset_def track_offset_def assms algebra_simps)

text \<open>A disk below 4 GB with a geometry of less than \<open>2 ^ 62\<close> bytes per cylinder.\<close>

definition plain_geometry :: "('f, 's) device_object \<Rightarrow> bool" where
  "plain_geometry x \<longleftrightarrow> 0 < disk_size (extension x) \<and> disk_size (extension x) < 2 ^ 32 \<and>
     0 < tracks x \<and> tracks x < 2 ^ 32 \<and> 0 < sectors x \<and> 0 < sector_bytes x \<and>
     sector_bytes x * sectors x < 2 ^ 32 \<and> tracks x * (sector_bytes x * sectors x) < 2 ^ 62"

lemma accepted_format:
  assumes "FormatCheck os rq c1 c2 h1 h2 ex x = Some (STATUS_PENDING, i, a)" "plain_geometry x"
    and "0 \<le> c1" "0 \<le> c2" "0 \<le> h1" "0 \<le> h2"
  defines "track \<equiv> \<lambda>c h. (c * tracks x + h) * track_length x"
  shows "format_offset x c1 h1 = track c1 h1" "format_offset x c2 h2 = track c2 h2"
    "0 \<le> track c1 h1" "track c1 h1 < disk_size (extension x)"
    "0 \<le> track c2 h2" "track c2 h2 < disk_size (extension x)" "c1 \<le> c2"
proof -
  let ?D = "disk_size (extension x)" and ?L = "track_length x"
  have L: "?L = sector_bytes x * sectors x" "0 < ?L"
    using assms(2) by (simp_all add: track_length_def plain_geometry_def u32_id)
  have T: "0 < tracks x" "tracks x < 2 ^ 32" "0 < ?D" "?D < 2 ^ 32" "tracks x * ?L < 2 ^ 62"
    "sectors x \<noteq> 0" "sector_bytes x \<noteq> 0"
    using assms(2) L(1) by (auto simp: plain_geometry_def)
  obtain cyl where cyl: "whole_cylinders x = Some cyl" "c1 \<le> cyl" "c2 \<le> cyl" "c1 \<le> c2"
      "h1 < tracks x" "h2 < tracks x" "track_offset x c1 h1 < ?D" "track_offset x c2 h2 < ?D"
    using assms(1) T(1,2) by (auto simp: FormatCheck_def u32_id split: if_splits option.splits)
  have "cyl * tracks x * ?L \<le> ?D"
  proof -
    have "cyl = ?D div tracks x div sectors x div sector_bytes x"
      using cyl(1) by (simp add: whole_cylinders_def split: if_splits)
    also have "\<dots> = ?D div (tracks x * sectors x * sector_bytes x)"
      using assms(2) by (simp add: zdiv_zmult2_eq plain_geometry_def)
    finally have "cyl = ?D div (tracks x * ?L)" by (simp add: L(1) mult_ac)
    moreover have "?D div (tracks x * ?L) * (tracks x * ?L) \<le> ?D"
      using T(1) L(2) pos_mod_sign [of "tracks x * ?L" ?D] minus_mod_eq_div_mult [of ?D "tracks x * ?L", symmetric]
      by simp
    ultimately show ?thesis by (simp add: mult.assoc)
  qed
  have range: "0 \<le> track c h \<and> track c h < 2 ^ 63" if "c \<le> cyl" "h < tracks x" "0 \<le> c" "0 \<le> h" for c h
  proof -
    have "c * tracks x * ?L \<le> cyl * tracks x * ?L" using that(1) T(1) L(2) by (intro mult_right_mono) auto
    moreover have "h * ?L \<le> tracks x * ?L" using that(2) L(2) by (intro mult_right_mono) auto
    moreover have "0 \<le> c * tracks x * ?L" "0 \<le> h * ?L" using that T(1) L(2) by auto
    ultimately show ?thesis using \<open>cyl * tracks x * ?L \<le> ?D\<close> T(4,5) by (simp add: track_def distrib_right)
  qed
  have r: "0 \<le> track c1 h1 \<and> track c1 h1 < 2 ^ 63" "0 \<le> track c2 h2 \<and> track c2 h2 < 2 ^ 63"
    using range cyl assms(3-6) by auto
  show eqs: "format_offset x c1 h1 = track c1 h1" "format_offset x c2 h2 = track c2 h2"
    using r unfolding track_def by (simp_all add: tracks_linear(1) [OF L(1)] s64_id)
  show "0 \<le> track c1 h1" "0 \<le> track c2 h2" using r by auto
  show "track c1 h1 < ?D" "track c2 h2 < ?D" "c1 \<le> c2"
    using cyl(4,7,8) r unfolding track_def by (simp_all add: tracks_linear(2) [OF L(1)] s64_id)
qed


text \<open>C30. The check does not compare heads within a cylinder, nor does it look at the end of the last
  track: an accepted request whose first head lies two or more above its last head, or whose last
  track reaches over the end of the disk, overwrites the byte behind a memory disk.\<close>

theorem format_writes_behind_the_disk:
  assumes "FormatCheck os rq c1 c2 h1 h2 ex x = Some (STATUS_PENDING, i, a)" "plain_geometry x"
    and "0 \<le> c1" "0 \<le> c2" "0 \<le> h1" "0 \<le> h2" "vm_disk (extension x)"
    and "c1 = c2 \<and> h2 + 1 < h1 \<or>
      c1 * tracks x + h1 \<le> c2 * tracks x + h2 \<and>
      disk_size (extension x) < (c2 * tracks x + h2 + 1) * track_length x"
  shows "\<exists>dx. FloppyFormat os c1 c2 h1 h2 x = Some (STATUS_SUCCESS, dx) \<and>
    image_buffer dx (disk_size (extension x)) = 0xF6"
proof -
  let ?L = "track_length x" and ?first = "c1 * tracks x + h1" and ?last = "c2 * tracks x + h2"
  let ?D = "disk_size (extension x)"
  note f = accepted_format [OF assms(1-6)]
  have D: "?D < 2 ^ 32" using assms(2) by (simp add: plain_geometry_def)
  have L: "0 < ?L" "?L < 2 ^ 32" using assms(2) by (simp_all add: track_length_def plain_geometry_def u32_id)
  have low: "u32 (?first * ?L) = ?first * ?L" "u32 (?last * ?L) = ?last * ?L"
    using f(3-6) D by (simp_all add: u32_id)
  define len where "len = u64 (?last * ?L - ?first * ?L + ?L)"
  have "?D < ?first * ?L + len"
    using assms(8)
  proof
    assume h: "c1 = c2 \<and> h2 + 1 < h1"
    have "(?last + 1) * ?L < ?first * ?L" using h L(1) by (intro mult_strict_right_mono) auto
    then have neg: "?last * ?L - ?first * ?L + ?L < 0" by (simp add: distrib_right)
    have "- (2 ^ 32) < ?last * ?L - ?first * ?L + ?L" using f(4,5) D L by linarith
    have "len = (?last * ?L - ?first * ?L + ?L + 18446744073709551616) mod 18446744073709551616"
      by (simp only: len_def u64_def mod_add_self2)
    also have "\<dots> = ?last * ?L - ?first * ?L + ?L + 18446744073709551616"
      using neg \<open>- (2 ^ 32) < _\<close> by (intro mod_pos_pos_trivial) auto
    finally show ?thesis using D f(5) L by simp
  next
    assume h: "?first \<le> ?last \<and> ?D < (?last + 1) * ?L"
    have "?first * ?L \<le> ?last * ?L" using h L(1) by (intro mult_right_mono) auto
    then have "len = ?last * ?L - ?first * ?L + ?L"
      unfolding len_def using f(3,6) D L by (intro u64_id) auto
    then show ?thesis using h by (simp add: distrib_right)
  qed
  then have "mem_fill (image_buffer (extension x)) (?first * ?L) len 0xF6 ?D = 0xF6"
    using f(4) by (simp add: mem_fill_def)
  then show ?thesis
    using assms(7) by (simp add: FloppyFormat_def Let_def f(1,2) low MEDIA_FORMAT_FILL_DATA_def len_def)
qed

section \<open>Discarding\<close>

text \<open>The system buffer holds the ranges that lie behind the offset.\<close>

definition ranges_in_buffer :: "request \<Rightarrow> dsm_attributes \<Rightarrow> bool" where
  "ranges_in_buffer rq a \<longleftrightarrow> 0 \<le> DataSetRangesOffset a \<and> 0 \<le> DataSetRangesLength a \<and>
     length (ranges_there a) = nat ((InputBufferLength rq - DataSetRangesOffset a) div 16)"

text \<open>C31. A discard request is served inside the system buffer when offset and length of its ranges do
  not wrap; when they wrap, it can pass the check and reads behind the buffer.\<close>

theorem discard_reads_the_buffer:
  assumes "ranges_in_buffer rq a" "DataSetRangesOffset a < 2 ^ 32" "DataSetRangesLength a < 2 ^ 32"
    and "28 \<le> InputBufferLength rq" "dsm_trim a"
    and "\<not> use_proxy (extension x)" "\<not> vm_disk (extension x)" "\<not> awefsalloc_disk (extension x)"
  shows "ManageDataSet os rq a x = None \<longleftrightarrow>
    2 ^ 32 \<le> DataSetRangesOffset a + DataSetRangesLength a \<and>
    DataSetRangesOffset a + DataSetRangesLength a - 2 ^ 32 \<le> InputBufferLength rq \<and>
    16 \<le> DataSetRangesLength a \<and>
    InputBufferLength rq - DataSetRangesOffset a < 16 * (DataSetRangesLength a div 16)"
proof -
  let ?o = "DataSetRangesOffset a" and ?l = "DataSetRangesLength a" and ?n = "InputBufferLength rq"
  have pos: "0 \<le> ?o" "0 \<le> ?l" using assms(1) by (auto simp: ranges_in_buffer_def)
  have short: "length (ranges_there a) < dsm_items a \<longleftrightarrow> 16 \<le> ?l \<and> ?n - ?o < 16 * (?l div 16)"
  proof -
    have "length (ranges_there a) < dsm_items a \<longleftrightarrow> nat ((?n - ?o) div 16) < nat (?l div 16)"
      using assms(1) by (simp add: ranges_in_buffer_def dsm_items_def)
    also have "\<dots> \<longleftrightarrow> 0 < ?l div 16 \<and> (?n - ?o) div 16 < ?l div 16" by linarith
    also have "\<dots> \<longleftrightarrow> 16 \<le> ?l \<and> ?n - ?o < 16 * (?l div 16)" using pos by linarith
    finally show ?thesis .
  qed
  have wrap: "u32 (?o + ?l) = (if ?o + ?l < 2 ^ 32 then ?o + ?l else ?o + ?l - 2 ^ 32)"
  proof (cases "?o + ?l < 2 ^ 32")
    case False
    have "u32 (?o + ?l) = u32 (?o + ?l - 4294967296)" by (simp add: u32_def mod_diff_eq [symmetric])
    also have "\<dots> = ?o + ?l - 4294967296" using False assms(2,3) pos by (intro u32_id) auto
    finally show ?thesis using False by simp
  qed (use pos in \<open>simp add: u32_id\<close>)
  have items: "dsm_items a = 0 \<longleftrightarrow> ?l < 16" using pos by (auto simp: dsm_items_def)
  have none: "ManageDataSet os rq a x = None \<longleftrightarrow>
      u32 (?o + ?l) \<le> ?n \<and> dsm_items a \<noteq> 0 \<and> length (ranges_there a) < dsm_items a"
    using assms(4-8) by (auto simp: ManageDataSet_def Let_def split: prod.split)
  show ?thesis
  proof (cases "?o + ?l < 2 ^ 32")
    case True
    have "?o + ?l \<le> ?n \<Longrightarrow> \<not> ?n - ?o < 16 * (?l div 16)" by linarith
    with True show ?thesis by (auto simp: none short items wrap)
  next
    case False
    then show ?thesis by (auto simp: none short items wrap)
  qed
qed

section \<open>Requests that do something else\<close>

text \<open>Asking a memory disk that holds a paging file to become read-only reports success, and makes a
  read-only disk writable.\<close>

lemma setting_read_only_clears_it:
  assumes "lookup_device drv d = Some x" "d \<noteq> CtlDevice drv" "\<not> terminate_thread (extension x)"
    and "DeviceType x = FILE_DEVICE_DISK" "vm_disk (extension x)" "0 < special_file_count x"
    and "irql rq = PASSIVE_LEVEL" "8 \<le> InputBufferLength rq"
  shows "\<exists>n drv' y. DispatchDeviceControl os env add rq (SET_DEVICE_FLAGS OPTION_RO OPTION_RO) d drv =
      Some (Finished STATUS_SUCCESS n (Flags_left 0 OPTION_RO), drv') \<and>
    lookup_device drv' d = Some y \<and> \<not> read_only (extension y) \<and> \<not> FILE_READ_ONLY_DEVICE y"
proof -
  let ?y = "x\<lparr>FILE_READ_ONLY_DEVICE := False, extension := (extension x)\<lparr>read_only := False\<rparr>\<rparr>"
  have "SetDeviceFlags env rq OPTION_RO OPTION_RO d x drv =
      ((STATUS_SUCCESS, if 8 \<le> OutputBufferLength rq then 8 else 0, Flags_left 0 OPTION_RO), refresh (put_device d ?y drv))"
    using assms(4-8)
    by (simp add: SetDeviceFlags_def change_read_only_def change_removable_def change_modified_def change_sparse_def
        READONLY_def REMOVABLE_def SPARSE_FILE_def OPTION_RO_def IMAGE_MODIFIED_def Let_def PASSIVE_LEVEL_def DISPATCH_LEVEL_def)
  then show ?thesis using assms(1-3) lookup_put [OF assms(1), of ?y]
    by (auto simp: DispatchDeviceControl_def for_disk_def serve_control_def moved_def conclude_def refresh_def lookup_device_def)
qed


text \<open>A write-protected disk is not protected against discarding: a request that the check lets pass
  asks the image file for zeros.\<close>

lemma read_only_disk_is_discarded:
  assumes "read_only (extension x)" "\<not> use_proxy (extension x)" "\<not> vm_disk (extension x)" "\<not> awefsalloc_disk (extension x)"
    and "no_file_level_trim (extension x)" "image_offset (extension x) = 0"
    and "0 \<le> start" "0 \<le> len" "start + len < 2 ^ 63"
    and "nt_zero_data (files os) (file_handle (extension x)) start (start + len) = (status, f)" "44 \<le> InputBufferLength rq"
  shows "ManageDataSet os rq \<lparr>dsm_trim = True, DataSetRangesOffset = 28, DataSetRangesLength = 16, ranges_there = [(start, len)]\<rparr> x =
    Some ((status, 0, No_answer), x\<lparr>extension := (extension x)\<lparr>file_handle := f\<rparr>\<rparr>)"
  using assms by (cases "NT_SUCCESS status") (simp_all add: NT_SUCCESS_def ManageDataSet_def dsm_items_def trim_file_def u32_id s64_id Let_def)

text \<open>A verification of a disk behind a proxy sends nothing to the server and succeeds.\<close>

lemma verify_never_asks_the_server:
  assumes "use_proxy (extension x)" "pool os 1" "4 \<le> OutputBufferLength rq"
  shows "thread_verify os rq x = Some (STATUS_SUCCESS, 4, Count (media_change_count (extension x)), x)"
proof -
  have "ReadProxy (proxies os) (proxy (extension x)) 0 off = Some (STATUS_SUCCESS, 0, [], proxy (extension x))" for off
    unfolding ReadProxy_def by (subst read_proxy_loop.simps) simp
  then show ?thesis using assms by (simp add: thread_verify_def Let_def)
qed

text \<open>A control request that another driver sends as an internal device control is accepted by the
  dispatch routine like any other, but when it is left to the worker thread, no handler takes it.\<close>

lemma internal_requests_are_not_served:
  "internal rq \<Longrightarrow> thread_handle os im (Control_request rq code) x = Some (refused STATUS_DRIVER_INTERNAL_ERROR x, False)"
  by (simp add: thread_handle_def)

section \<open>Examples\<close>

text \<open>A memory disk of 20 tracks in 5 cylinders, and one whose last track is half there.\<close>

definition whole_disk :: "(int, unit) device_object" where
  "whole_disk = third_device\<lparr>tracks := 4, sectors := 10, sector_bytes := 512,
     extension := (extension third_device)\<lparr>disk_size := 102400\<rparr>\<rparr>"

definition partial_disk :: "(int, unit) device_object" where
  "partial_disk = third_device\<lparr>tracks := 4, sectors := 10, sector_bytes := 512\<rparr>"

definition plain_request :: "int \<Rightarrow> int \<Rightarrow> request" where
  "plain_request i out = \<lparr>internal = False, InputBufferLength = i, OutputBufferLength = out, irql = 0\<rparr>"

definition running :: "(int, unit, int) driver" where
  "running = started\<lparr>device_list := [(2, whole_disk), (1, control_device)]\<rparr>"

lemmas disk_parts = whole_disk_def partial_disk_def third_device_def new_device_def memory_request_def
  is_vm_def is_proxy_def is_awe_def is_file_def is_cd_def is_fd_def DISK_TYPE_def DEVICE_TYPE_def flag_values

lemma disk_facts:
  "disk_size (extension whole_disk) = 102400" "disk_size (extension partial_disk) = 100000"
  "track_length whole_disk = 5120" "track_length partial_disk = 5120"
  "plain_geometry whole_disk" "plain_geometry partial_disk"
  "tracks whole_disk = 4" "tracks partial_disk = 4"
  "vm_disk (extension whole_disk)" "vm_disk (extension partial_disk)"
  "device_number whole_disk = 3" "device_number control_device = control_number"
  "\<not> read_only (extension whole_disk)" "DeviceType whole_disk = FILE_DEVICE_DISK"
  "\<not> terminate_thread (extension whole_disk)"
  by (simp_all add: disk_parts plain_geometry_def track_length_def u32_id control_device_def read_only_characteristic_def READONLY_def)

lemma running_numbers: "disk_numbers running = [3]"
  by (simp add: disk_numbers_def running_def disk_facts control_number_def)

theorem driver_lists_devices_witness:
  "\<exists>bits. QueryDriver (plain_request 0 8) running = (STATUS_SUCCESS, 8, Device_bits bits) \<and> bit bits 3 \<and> \<not> bit bits 4 \<and>
     QueryDriver (plain_request 0 64) running = (STATUS_SUCCESS, 8, Device_numbers [1, 3])"
proof -
  from driver_lists_devices [of running "plain_request 0 8" "plain_request 0 64"]
  obtain bits where b: "QueryDriver (plain_request 0 8) running = (STATUS_SUCCESS, 8, Device_bits bits)"
    and k: "\<And>k. k < 64 \<Longrightarrow> bit bits k \<longleftrightarrow> int k \<in> {3}"
    and q: "QueryDriver (plain_request 0 64) running = (STATUS_SUCCESS, 8, Device_numbers [1, 3])"
    by (auto simp: running_numbers plain_request_def)
  from k [of 3] k [of 4] b q show ?thesis by auto
qed

theorem growing_keeps_the_data_witness:
  "\<exists>dx pulse. grow_device file_sizes 4096 (extension whole_disk) = (STATUS_SUCCESS, dx, pulse) \<and>
     disk_size dx = 106496 \<and>
     mem_bytes (image_buffer dx) 0 102400 = mem_bytes (image_buffer (extension whole_disk)) 0 102400"
proof -
  have check: "GrowCheck (plain_request 16 0) 1 4096 whole_disk = (STATUS_PENDING, 0, No_answer)"
    by (simp add: GrowCheck_def plain_request_def disk_facts s64_id)
  obtain st dx pulse where g: "grow_device file_sizes 4096 (extension whole_disk) = (st, dx, pulse)"
    by (metis prod.exhaust)
  have "st = STATUS_SUCCESS"
    using g by (auto simp: grow_device_def grow_memory_def grown_def file_sizes_def disk_facts s64_id Let_def)
  with growing_keeps_the_data [OF check _ _ _ _ g] g show ?thesis by (simp add: disk_facts)
qed


theorem format_writes_behind_the_disk_witness:
  "FormatCheck file_sizes (plain_request 20 0) 4 4 3 3 None partial_disk = Some (STATUS_PENDING, 0, No_answer) \<and>
   (\<exists>dx. FloppyFormat file_sizes 4 4 3 3 partial_disk = Some (STATUS_SUCCESS, dx) \<and> image_buffer dx 100000 = 0xF6)"
proof -
  have "FormatCheck file_sizes (plain_request 20 0) 4 4 3 3 None partial_disk = Some (STATUS_PENDING, 0, No_answer)"
    by code_simp
  with format_writes_behind_the_disk [OF this] show ?thesis by (auto simp: disk_facts)
qed

definition file_disk :: "(int, unit) device_object" where
  "file_disk = whole_disk\<lparr>extension := (extension whole_disk)\<lparr>vm_disk := False\<rparr>\<rparr>"

definition wrapping :: dsm_attributes where
  "wrapping = \<lparr>dsm_trim = True, DataSetRangesOffset = 28, DataSetRangesLength = 4294967280, ranges_there = []\<rparr>"

theorem discard_reads_the_buffer_witness:
  "ManageDataSet file_sizes (plain_request 28 0) wrapping file_disk = None"
  by (subst discard_reads_the_buffer)
     (simp_all add: ranges_in_buffer_def wrapping_def plain_request_def file_disk_def disk_parts)

definition plain_calls :: "int control_ops" where
  "plain_calls = \<lparr>tcb_privilege = False, object_of_handle = (\<lambda>h. (STATUS_SUCCESS, h)),
     fs_set_sparse = (\<lambda>f. (STATUS_SUCCESS, f))\<rparr>"

lemma setting_read_only_clears_it_witness:
  "\<exists>n drv' y. DispatchDeviceControl file_sizes plain_calls
       (\<lambda>cd drv. (STATUS_SUCCESS, cd, drv)) (plain_request 8 8) (SET_DEVICE_FLAGS 1 1) 2
       (put_device 2 (whole_disk\<lparr>special_file_count := 1\<rparr>) running) =
     Some (Finished STATUS_SUCCESS n (Flags_left 0 1), drv') \<and> lookup_device drv' 2 = Some y \<and> \<not> read_only (extension y)"
proof -
  let ?drv = "put_device 2 (whole_disk\<lparr>special_file_count := 1\<rparr>) running"
  have "lookup_device ?drv 2 = Some (whole_disk\<lparr>special_file_count := 1\<rparr>)"
    by (rule lookup_put [of _ _ whole_disk]) (simp add: lookup_device_def running_def)
  from setting_read_only_clears_it [OF this, of "plain_request 8 8" file_sizes plain_calls "\<lambda>cd drv. (STATUS_SUCCESS, cd, drv)"]
  obtain n drv' y where "DispatchDeviceControl file_sizes plain_calls (\<lambda>cd drv. (STATUS_SUCCESS, cd, drv))
      (plain_request 8 8) (SET_DEVICE_FLAGS OPTION_RO OPTION_RO) 2 ?drv = Some (Finished STATUS_SUCCESS n (Flags_left 0 OPTION_RO), drv')"
    "lookup_device drv' 2 = Some y" "\<not> read_only (extension y)"
    by (auto simp: put_device_def running_def started_def disk_facts plain_request_def PASSIVE_LEVEL_def)
  then show ?thesis unfolding OPTION_RO_def by blast
qed


end
