(* ===== verification/Fwd_Queue.thy ===== *)
theory Fwd_Queue
  imports Sys_Proxy "HOL-Library.Multiset"
begin

text \<open>
  The request forwarding driver (\<open>deviodrv/irpfwd.cpp\<close>): requests of clients of a virtual file wait
  in queues until the file's server asks for work; the server's next call carries the answer to an
  earlier request, found by its tag. A handler runs to its end before the next one starts, except that
  the cancellation of a request takes two steps, as the system's does: marking it, and its routine.
\<close>

section \<open>Requests and the machine\<close>

datatype fwd_major =
    IRP_MJ_READ | IRP_MJ_WRITE | IRP_MJ_DEVICE_CONTROL | IRP_MJ_FILE_SYSTEM_CONTROL

datatype fwd_code =
    FSCTL_SET_ZERO_DATA | FSCTL_FILE_LEVEL_TRIM | IOCTL_DEVIODRV_EXCHANGE_IO | IOCTL_DEVIODRV_LOCK_MEMORY
  | IOCTL_DISK_GET_LENGTH_INFO | FS_CODE_OTHER

text \<open>An IRP with its stack location. \<open>MdlMaps\<close> is what \<open>MmGetSystemAddressForMdlSafe\<close> answers.\<close>

record fwd_irp =
  irp :: nat
  FileObject :: nat
  MajorFunction :: fwd_major
  MinorFunctionOk :: bool
  IoControlCode :: fwd_code
  ByteOffset :: int
  Length :: int
  InputBufferLength :: int
  OutputBufferLength :: int
  MdlMaps :: bool

text \<open>The pages behind each request's MDL and each system buffer; the completed requests with status and
  information in order; the cancel flag and whether a cancel routine is set; the blocks taken from
  the pool by address; and whether an access went outside a buffer.\<close>

record machine =
  mdl :: "nat \<Rightarrow> byte list"
  SystemBuffer :: "nat \<Rightarrow> byte list"
  completed :: "(nat \<times> ntstatus \<times> int) list"
  Cancel :: "nat \<Rightarrow> bool"
  CancelRoutine :: "nat \<Rightarrow> bool"
  blocks :: "int set"
  fault :: bool

text \<open>A queue item. \<open>ListEntry\<close> is its address, which serves as the tag; \<open>MappedBuffer\<close> names the
  request whose pages are mapped. The item of a memory request refers to no other item and maps its
  own pages.\<close>

record memory_item =
  MemoryEntry :: int
  MemoryItemIrp :: fwd_irp

record queue_item =
  ListEntry :: int
  Irp :: fwd_irp
  MemoryIrp :: "memory_item option"
  MappedBuffer :: "nat option"
  MappedBufferSize :: int

record object_context =
  Name :: string
  RefCount :: int
  FileSize :: int
  AlignmentRequirement :: int
  ServiceFlags :: int
  Server :: "nat option"
  Client :: "nat option"
  ServerMemoryIrpList :: "memory_item list"
  ServerRequestIrpList :: "queue_item list"
  ClientReceivedIrpList :: "queue_item list"
  ClientSentIrpList :: "queue_item list"

type_synonym fwd = "object_context \<times> machine"

definition new_item :: "int \<Rightarrow> fwd_irp \<Rightarrow> queue_item" where
  "new_item a i = \<lparr>ListEntry = a, Irp = i, MemoryIrp = None, MappedBuffer = None, MappedBufferSize = 0\<rparr>"

section \<open>Buffers\<close>

definition qword :: "nat \<Rightarrow> byte list \<Rightarrow> int" where
  "qword p bs = le_of (take 8 (drop p bs))"

definition put_qword :: "nat \<Rightarrow> int \<Rightarrow> byte list \<Rightarrow> byte list" where
  "put_qword p x bs = put_at p (to_le 8 (u64 x)) bs"

text \<open>Stores to the mapped pages of request \<open>b\<close>; a store that does not fit is a fault.\<close>

definition store_mdl :: "nat \<Rightarrow> nat \<Rightarrow> byte list \<Rightarrow> machine \<Rightarrow> machine" where
  "store_mdl b p bs m =
     (if p + length bs \<le> length (mdl m b) then m\<lparr>mdl := (mdl m)(b := put_at p bs (mdl m b))\<rparr>
      else m\<lparr>fault := True\<rparr>)"

definition store_qword :: "nat \<Rightarrow> nat \<Rightarrow> int \<Rightarrow> machine \<Rightarrow> machine" where
  "store_qword b p x m = store_mdl b p (to_le 8 (u64 x)) m"

definition REQ_NULL :: int where "REQ_NULL = 0"

definition sizeof_DEVICE_DATA_SET_RANGE :: int where "sizeof_DEVICE_DATA_SET_RANGE = 16"

section \<open>Completing and queuing\<close>

definition DevIoDrvCompleteIrp :: "fwd_irp \<Rightarrow> ntstatus \<Rightarrow> int \<Rightarrow> machine \<Rightarrow> machine" where
  "DevIoDrvCompleteIrp i status len m = m\<lparr>completed := completed m @ [(irp i, status, len)]\<rparr>"

definition ExFreePool :: "int \<Rightarrow> machine \<Rightarrow> machine" where
  "ExFreePool a m = m\<lparr>blocks := blocks m - {a}\<rparr>"

definition IoSetCancelRoutine :: "fwd_irp \<Rightarrow> bool \<Rightarrow> machine \<Rightarrow> machine" where
  "IoSetCancelRoutine i on m = m\<lparr>CancelRoutine := (CancelRoutine m)(irp i := on)\<rparr>"

definition DevIoDrvQueueMemoryIrpUnsafe :: "memory_item option \<Rightarrow> fwd \<Rightarrow> fwd" where
  "DevIoDrvQueueMemoryIrpUnsafe mi s =
     (case (mi, s) of
        (None, s) \<Rightarrow> s
      | (Some mi, (c, m)) \<Rightarrow>
          (c\<lparr>ServerMemoryIrpList := ServerMemoryIrpList c @ [mi]\<rparr>,
           IoSetCancelRoutine (MemoryItemIrp mi) True m))"

definition DevIoDrvQueueMemoryIrp :: "memory_item option \<Rightarrow> fwd \<Rightarrow> fwd" where
  "DevIoDrvQueueMemoryIrp mi s = (case mi of None \<Rightarrow> s | Some _ \<Rightarrow> DevIoDrvQueueMemoryIrpUnsafe mi s)"

definition DevIoDrvCompleteIrpQueueItem :: "queue_item \<Rightarrow> ntstatus \<Rightarrow> int \<Rightarrow> fwd \<Rightarrow> fwd" where
  "DevIoDrvCompleteIrpQueueItem item status len s =
     (case (case (MemoryIrp item, s) of
              (None, s) \<Rightarrow> s
            | (Some mi, (c, m)) \<Rightarrow>
                if status = STATUS_BUFFER_TOO_SMALL
                then (c, ExFreePool (MemoryEntry mi) (DevIoDrvCompleteIrp (MemoryItemIrp mi) status len m))
                else DevIoDrvQueueMemoryIrp (Some mi) (c, m)) of
        (c, m) \<Rightarrow> (c, ExFreePool (ListEntry item) (DevIoDrvCompleteIrp (Irp item) status len m)))"

section \<open>Finding items\<close>

definition DevIoDrvGetSentClientRequest :: "int \<Rightarrow> object_context \<Rightarrow> queue_item option \<times> object_context" where
  "DevIoDrvGetSentClientRequest Tag c =
     (case List.extract (\<lambda>item. ListEntry item = Tag) (ClientSentIrpList c) of
        None \<Rightarrow> (None, c)
      | Some (before, item, after) \<Rightarrow> (Some item, c\<lparr>ClientSentIrpList := before @ after\<rparr>))"

text \<open>A memory request fits when it was given the same input bytes and is not being cancelled.\<close>

definition same_memory :: "machine \<Rightarrow> fwd_irp \<Rightarrow> memory_item \<Rightarrow> bool" where
  "same_memory m i mi \<longleftrightarrow>
     InputBufferLength i = InputBufferLength (MemoryItemIrp mi) \<and>
     take (nat (InputBufferLength i)) (SystemBuffer m (irp i)) =
       take (nat (InputBufferLength i)) (SystemBuffer m (irp (MemoryItemIrp mi))) \<and>
     \<not> Cancel m (irp (MemoryItemIrp mi))"

text \<open>The result: status, the reserved item, the buffer and its size.\<close>

definition DevIoDrvReserveMemoryIrp ::
    "fwd_irp \<Rightarrow> fwd \<Rightarrow> (ntstatus \<times> memory_item option \<times> nat option \<times> int) \<times> fwd" where
  "DevIoDrvReserveMemoryIrp i s =
     (case s of (c, m) \<Rightarrow>
      if 0 < OutputBufferLength i
      then (if MdlMaps i then (STATUS_SUCCESS, None, Some (irp i), OutputBufferLength i)
            else (STATUS_INSUFFICIENT_RESOURCES, None, None, 0), s)
      else if InputBufferLength i = 0 then ((STATUS_INVALID_PARAMETER, None, None, 0), s)
      else case List.extract (same_memory m i) (ServerMemoryIrpList c) of
        None \<Rightarrow> ((STATUS_INVALID_PARAMETER, None, None, 0), s)
      | Some (before, mi, after) \<Rightarrow>
          ((STATUS_SUCCESS, Some mi, Some (irp (MemoryItemIrp mi)), OutputBufferLength (MemoryItemIrp mi)),
           (c\<lparr>ServerMemoryIrpList := before @ after\<rparr>, IoSetCancelRoutine (MemoryItemIrp mi) False m)))"

section \<open>Sending a request to the server\<close>

text \<open>The ranges of a trim request: 16 bytes each from offset 8 of its input.\<close>

definition trim_ranges :: "byte list \<Rightarrow> (int \<times> int) list" where
  "trim_ranges bs = map (\<lambda>k. (qword (8 + 16 * k) bs, qword (16 + 16 * k) bs)) [0..<nat (le_of (take 4 (drop 4 bs)))]"

definition range_list :: "(int \<times> int) list \<Rightarrow> byte list" where
  "range_list rs = concat (map (\<lambda>(off, len). to_le 8 (u64 off) @ to_le 8 (u64 len)) rs)"

text \<open>The four kinds of request the server gets: the room it needs, the code in the headers, what is
  stored after the code, the data behind the header with its length, and the bytes reported to the
  server. The sum of the header's size and a \<open>ULONG\<close> length is a \<open>ULONG\<close>.\<close>

definition client_room :: "machine \<Rightarrow> fwd_irp \<Rightarrow> int option" where
  "client_room m i =
     (case MajorFunction i of
        IRP_MJ_READ \<Rightarrow> Some (u32 (int PROXY_HEADER_SIZE + Length i))
      | IRP_MJ_WRITE \<Rightarrow> Some (u32 (int PROXY_HEADER_SIZE + Length i))
      | IRP_MJ_FILE_SYSTEM_CONTROL \<Rightarrow>
          (case IoControlCode i of
             FSCTL_SET_ZERO_DATA \<Rightarrow> Some (int PROXY_HEADER_SIZE + sizeof_DEVICE_DATA_SET_RANGE)
           | FSCTL_FILE_LEVEL_TRIM \<Rightarrow>
               Some (int PROXY_HEADER_SIZE +
                     le_of (take 4 (drop 4 (SystemBuffer m (irp i)))) * sizeof_DEVICE_DATA_SET_RANGE)
           | _ \<Rightarrow> None)
      | IRP_MJ_DEVICE_CONTROL \<Rightarrow> None)"

definition fill_request :: "nat \<Rightarrow> fwd_irp \<Rightarrow> machine \<Rightarrow> machine \<times> int" where
  "fill_request b i m =
     (case MajorFunction i of
        IRP_MJ_READ \<Rightarrow>
          (store_qword b 40 (Length i) (store_qword b 32 (ByteOffset i)
             (store_qword b 24 REQ_READ (store_qword b 0 REQ_READ m))), int PROXY_HEADER_SIZE)
      | IRP_MJ_WRITE \<Rightarrow>
          (store_qword b 40 (Length i) (store_qword b 32 (ByteOffset i)
             (store_qword b 24 REQ_WRITE (store_qword b 0 REQ_WRITE
                (if 0 < Length i
                 then store_mdl b PROXY_HEADER_SIZE (take (nat (Length i)) (mdl m (irp i))) m else m)))),
           int PROXY_HEADER_SIZE + Length i)
      | _ \<Rightarrow>
          (case IoControlCode i of
             FSCTL_SET_ZERO_DATA \<Rightarrow>
               (let off = qword 0 (SystemBuffer m (irp i)); beyond = qword 8 (SystemBuffer m (irp i)) in
                (store_mdl b PROXY_HEADER_SIZE (range_list [(off, beyond - off)])
                   (store_qword b 32 sizeof_DEVICE_DATA_SET_RANGE
                      (store_qword b 24 REQ_ZERO (store_qword b 0 REQ_ZERO m))), int PROXY_HEADER_SIZE))
           | _ \<Rightarrow>
               (let rs = trim_ranges (SystemBuffer m (irp i)) in
                (store_mdl b PROXY_HEADER_SIZE (range_list rs)
                   (store_qword b 32 (int (length rs) * sizeof_DEVICE_DATA_SET_RANGE)
                      (store_qword b 24 REQ_UNMAP (store_qword b 0 REQ_UNMAP m))), int PROXY_HEADER_SIZE))))"

text \<open>The last part of \<open>DevIoDrvSendClientRequestToServer\<close>, with a mapped buffer.\<close>

definition send_mapped ::
    "nat \<Rightarrow> queue_item \<Rightarrow> queue_item \<Rightarrow> fwd \<Rightarrow> (ntstatus \<times> ntstatus) \<times> fwd" where
  "send_mapped b ClientItem ServerItem s =
     (case s of (c, m) \<Rightarrow>
      let m = store_qword b 8 (ListEntry ClientItem) (store_qword b 16 0 m);
          fail = (\<lambda>status. ((status, status),
                    DevIoDrvCompleteIrpQueueItem ServerItem status 0
                      (DevIoDrvCompleteIrpQueueItem ClientItem status 0 (c, m))))
      in case client_room m (Irp ClientItem) of
        None \<Rightarrow> fail STATUS_INTERNAL_ERROR
      | Some room \<Rightarrow>
          if MappedBufferSize ServerItem < room
          then ((STATUS_PENDING, STATUS_BUFFER_TOO_SMALL),
                DevIoDrvCompleteIrpQueueItem ServerItem STATUS_BUFFER_TOO_SMALL 0
                  (c\<lparr>ClientReceivedIrpList := ClientItem # ClientReceivedIrpList c\<rparr>, m))
          else if MajorFunction (Irp ClientItem) = IRP_MJ_WRITE \<and> 0 < Length (Irp ClientItem) \<and>
                  \<not> MdlMaps (Irp ClientItem)
          then fail STATUS_INSUFFICIENT_RESOURCES
          else case fill_request b (Irp ClientItem) m of
            (m, info) \<Rightarrow>
              ((STATUS_PENDING, STATUS_SUCCESS),
               DevIoDrvCompleteIrpQueueItem ServerItem STATUS_SUCCESS info
                 (c\<lparr>ClientSentIrpList := ClientSentIrpList c @ [ClientItem]\<rparr>, m)))"

definition DevIoDrvSendClientRequestToServer ::
    "queue_item \<Rightarrow> queue_item \<Rightarrow> fwd \<Rightarrow> (ntstatus \<times> ntstatus) \<times> fwd" where
  "DevIoDrvSendClientRequestToServer ClientItem ServerItem s =
     (case MappedBuffer ServerItem of
        Some b \<Rightarrow> send_mapped b ClientItem ServerItem s
      | None \<Rightarrow>
          (case DevIoDrvReserveMemoryIrp (Irp ServerItem) s of
             ((status, mi, buffer, len), s) \<Rightarrow>
               let item = ServerItem\<lparr>MemoryIrp := mi, MappedBuffer := buffer, MappedBufferSize := len\<rparr> in
               case buffer of
                 Some b \<Rightarrow> send_mapped b ClientItem item s
               | None \<Rightarrow> ((status, status),
                    DevIoDrvCompleteIrpQueueItem item status 0
                      (DevIoDrvCompleteIrpQueueItem ClientItem status 0 s))))"

end
