(* ===== verification/Fwd_Server.thy ===== *)
theory Fwd_Server
  imports Fwd_Queue
begin

text \<open>
  The handlers of \<open>deviodrv/irpfwd.cpp\<close>: memory that the server lends, the server's exchange calls,
  requests of clients, cancellation, and what happens to everything pending when the server goes.
  \<open>pool\<close> is the allocator: given the blocks in use it answers with an address or with nothing.
\<close>

type_synonym pool = "int set \<Rightarrow> int option"

section \<open>Memory lent by the server\<close>

definition DevIoDrvDispatchServerLockMemory :: "pool \<Rightarrow> fwd_irp \<Rightarrow> fwd \<Rightarrow> ntstatus \<times> fwd" where
  "DevIoDrvDispatchServerLockMemory pool i s =
     (case s of (c, m) \<Rightarrow>
      let fail = (\<lambda>status. (status, (c, DevIoDrvCompleteIrp i status 0 m))) in
      if OutputBufferLength i < int PROXY_HEADER_SIZE then fail STATUS_BUFFER_TOO_SMALL
      else if \<not> MdlMaps i then fail STATUS_INSUFFICIENT_RESOURCES
      else case pool (blocks m) of
        None \<Rightarrow> fail STATUS_INSUFFICIENT_RESOURCES
      | Some a \<Rightarrow>
          (STATUS_PENDING,
           DevIoDrvQueueMemoryIrp (Some \<lparr>MemoryEntry = a, MemoryItemIrp = i\<rparr>) (c, m\<lparr>blocks := insert a (blocks m)\<rparr>)))"

section \<open>Answers\<close>

text \<open>What an exchange call says about the request it answers (none: tag 0). The first component is
  the status with which the call itself fails, \<open>None\<close> when it goes on.\<close>

definition client_result :: "int \<Rightarrow> int \<Rightarrow> queue_item \<Rightarrow> fwd \<Rightarrow> fwd" where
  "client_result errorno len item s =
     DevIoDrvCompleteIrpQueueItem item (if errorno = 0 then STATUS_SUCCESS else STATUS_IO_DEVICE_ERROR) len s"

definition server_info :: "byte list \<Rightarrow> object_context \<Rightarrow> object_context" where
  "server_info buffer c =
     c\<lparr>FileSize := s64 (qword 24 buffer), AlignmentRequirement := u32 (qword 32 buffer - 1),
       ServiceFlags := qword 40 buffer\<rparr>"

definition answer_read :: "byte list \<Rightarrow> queue_item \<Rightarrow> fwd \<Rightarrow> ntstatus option \<times> fwd" where
  "answer_read buffer item s =
     (case s of (c, m) \<Rightarrow>
      let errorno = qword 24 buffer; len = qword 32 buffer in
      if 0 < len \<and> \<not> MdlMaps (Irp item)
      then (Some STATUS_INSUFFICIENT_RESOURCES, DevIoDrvCompleteIrpQueueItem item STATUS_INSUFFICIENT_RESOURCES 0 (c, m))
      else let m = (if 0 < len
                    then store_mdl (irp (Irp item)) 0 (take (nat len) (drop PROXY_HEADER_SIZE buffer)) m else m)
           in (None, client_result errorno len item (c, m)))"

definition answer_trim :: "byte list \<Rightarrow> queue_item \<Rightarrow> fwd \<Rightarrow> fwd" where
  "answer_trim buffer item s =
     (case s of (c, m) \<Rightarrow>
      let i = Irp item; in_buffer = SystemBuffer m (irp i) in
      if qword 24 buffer = 0
      then DevIoDrvCompleteIrpQueueItem item STATUS_SUCCESS 4
             (c, if 4 \<le> OutputBufferLength i
                 then m\<lparr>SystemBuffer := (SystemBuffer m)(irp i := put_at 0 (take 4 (drop 4 in_buffer)) in_buffer)\<rparr>
                 else m)
      else DevIoDrvCompleteIrpQueueItem item STATUS_IO_DEVICE_ERROR 0 (c, m))"

definition server_answer ::
    "byte list \<Rightarrow> int \<Rightarrow> queue_item option \<Rightarrow> fwd \<Rightarrow> ntstatus option \<times> fwd" where
  "server_answer buffer buffer_size client s =
     (case s of (c, m) \<Rightarrow>
      let code = qword 0 buffer; errorno = qword 24 buffer; len = qword 32 buffer in
      case client of
        None \<Rightarrow>
          if code = REQ_INFO then (None, (server_info buffer c, m))
          else if code = REQ_NULL then (None, (c, m))
          else (Some STATUS_INVALID_PARAMETER, (c, m))
      | Some item \<Rightarrow>
          let i = Irp item in
          if MajorFunction i = IRP_MJ_READ \<and> code = REQ_READ \<and> len \<le> Length i \<and>
             u64 (int PROXY_HEADER_SIZE + len) \<le> buffer_size
          then answer_read buffer item (c, m)
          else if MajorFunction i = IRP_MJ_WRITE \<and> code = REQ_WRITE \<and> len \<le> Length i
          then (None, client_result errorno len item (c, m))
          else if MajorFunction i = IRP_MJ_FILE_SYSTEM_CONTROL \<and> code = REQ_ZERO \<and>
                  IoControlCode i = FSCTL_SET_ZERO_DATA
          then (None, client_result errorno 0 item (c, m))
          else if MajorFunction i = IRP_MJ_FILE_SYSTEM_CONTROL \<and> code = REQ_UNMAP \<and>
                  IoControlCode i = FSCTL_FILE_LEVEL_TRIM
          then (None, answer_trim buffer item (c, m))
          else (Some STATUS_INVALID_PARAMETER,
                DevIoDrvCompleteIrpQueueItem item STATUS_IO_DEVICE_ERROR 0 (c, m)))"

section \<open>The server's exchange call\<close>

text \<open>The second half: the call becomes the next free server request, or takes the oldest waiting
  request at once.\<close>

definition server_next ::
    "pool \<Rightarrow> fwd_irp \<Rightarrow> memory_item option \<Rightarrow> nat \<Rightarrow> int \<Rightarrow> fwd \<Rightarrow> ntstatus \<times> fwd" where
  "server_next pool i mi b buffer_size s =
     (case s of (c, m) \<Rightarrow>
      case pool (blocks m) of
        None \<Rightarrow>
          (STATUS_INSUFFICIENT_RESOURCES,
           DevIoDrvQueueMemoryIrp mi (c, DevIoDrvCompleteIrp i STATUS_INSUFFICIENT_RESOURCES 0 m))
      | Some a \<Rightarrow>
          let m = m\<lparr>blocks := insert a (blocks m)\<rparr>; item = new_item a i in
          case ClientReceivedIrpList c of
            [] \<Rightarrow>
              (case DevIoDrvQueueMemoryIrpUnsafe mi (c, m) of
                 (c, m) \<Rightarrow>
                   (STATUS_PENDING,
                    (c\<lparr>ServerRequestIrpList := ServerRequestIrpList c @ [item]\<rparr>, IoSetCancelRoutine i True m)))
          | client # rest \<Rightarrow>
              (case DevIoDrvSendClientRequestToServer client
                      (item\<lparr>MemoryIrp := mi, MappedBuffer := Some b, MappedBufferSize := buffer_size\<rparr>)
                      (c\<lparr>ClientReceivedIrpList := rest\<rparr>, m) of
                 ((_, server_status), s) \<Rightarrow> (server_status, s)))"

definition DevIoDrvDispatchServerIORequest :: "pool \<Rightarrow> fwd_irp \<Rightarrow> fwd \<Rightarrow> ntstatus \<times> fwd" where
  "DevIoDrvDispatchServerIORequest pool i s =
     (if 0 < OutputBufferLength i \<and> OutputBufferLength i < int PROXY_HEADER_SIZE
      then (STATUS_BUFFER_TOO_SMALL, (fst s, DevIoDrvCompleteIrp i STATUS_BUFFER_TOO_SMALL 0 (snd s)))
      else case DevIoDrvReserveMemoryIrp i s of
        ((status, mi, None, _), (c, m)) \<Rightarrow> (status, (c, DevIoDrvCompleteIrp i status 0 m))
      | ((status, mi, Some b, buffer_size), (c, m)) \<Rightarrow>
          let buffer = mdl m b; tag = qword 8 buffer;
              fail = (\<lambda>status (c, m). (status, DevIoDrvQueueMemoryIrp mi (c, DevIoDrvCompleteIrp i status 0 m)))
          in case (if tag = 0 then (None, c) else DevIoDrvGetSentClientRequest tag c) of
            (client, c) \<Rightarrow>
              if tag \<noteq> 0 \<and> client = None then fail STATUS_INVALID_PARAMETER (c, m)
              else case server_answer buffer buffer_size client (c, m) of
                (Some status, s) \<Rightarrow> fail status s
              | (None, s) \<Rightarrow> server_next pool i mi b buffer_size s)"

section \<open>A client's request\<close>

text \<open>Server requests that are being cancelled are taken from the list and left. The second test of
  \<open>Server\<close>, under the lock, sees what the first saw.\<close>

definition DevIoDrvDispatchClientRequest :: "pool \<Rightarrow> fwd_irp \<Rightarrow> fwd \<Rightarrow> ntstatus \<times> fwd" where
  "DevIoDrvDispatchClientRequest pool i s =
     (case s of (c, m) \<Rightarrow>
      let fail = (\<lambda>status. (status, (c, DevIoDrvCompleteIrp i status 0 m))) in
      if Server c = None then fail STATUS_DEVICE_DOES_NOT_EXIST
      else case pool (blocks m) of
        None \<Rightarrow> fail STATUS_INSUFFICIENT_RESOURCES
      | Some a \<Rightarrow>
          let m = m\<lparr>blocks := insert a (blocks m)\<rparr>; client = new_item a i in
          case dropWhile (\<lambda>item. Cancel m (irp (Irp item))) (ServerRequestIrpList c) of
            [] \<Rightarrow>
              (STATUS_PENDING,
               (c\<lparr>ServerRequestIrpList := [], ClientReceivedIrpList := ClientReceivedIrpList c @ [client]\<rparr>, m))
          | server # rest \<Rightarrow>
              (case DevIoDrvSendClientRequestToServer client server
                      (c\<lparr>ServerRequestIrpList := rest\<rparr>, IoSetCancelRoutine (Irp server) False m) of
                 ((client_status, _), s) \<Rightarrow> (client_status, s)))"

section \<open>Cancellation\<close>

text \<open>\<open>IoCancelIrp\<close> marks the request; when there is a cancel routine it takes it away and calls it.\<close>

definition IoCancelIrp :: "fwd_irp \<Rightarrow> machine \<Rightarrow> bool \<times> machine" where
  "IoCancelIrp i m = (CancelRoutine m (irp i), IoSetCancelRoutine i False (m\<lparr>Cancel := (Cancel m)(irp i := True)\<rparr>))"

definition DevIoDrvServerIrpCancelRoutine :: "fwd_irp \<Rightarrow> fwd \<Rightarrow> fwd" where
  "DevIoDrvServerIrpCancelRoutine i s =
     (case s of (c, m) \<Rightarrow>
      case (case IoControlCode i of
              IOCTL_DEVIODRV_EXCHANGE_IO \<Rightarrow>
                (case List.extract (\<lambda>item. irp (Irp item) = irp i) (ServerRequestIrpList c) of
                   None \<Rightarrow> (c, m)
                 | Some (before, item, after) \<Rightarrow>
                     (c\<lparr>ServerRequestIrpList := before @ after\<rparr>, ExFreePool (ListEntry item) m))
            | IOCTL_DEVIODRV_LOCK_MEMORY \<Rightarrow>
                (case List.extract (\<lambda>mi. irp (MemoryItemIrp mi) = irp i) (ServerMemoryIrpList c) of
                   None \<Rightarrow> (c, m)
                 | Some (before, mi, after) \<Rightarrow>
                     (c\<lparr>ServerMemoryIrpList := before @ after\<rparr>, ExFreePool (MemoryEntry mi) m))
            | _ \<Rightarrow> (c, m\<lparr>fault := True\<rparr>)) of
        (c, m) \<Rightarrow> (c, DevIoDrvCompleteIrp i STATUS_CANCELLED 0 m))"

section \<open>The server goes\<close>

text \<open>The message that ends the server's loop is written into the mapped buffer, if the item has one.\<close>

definition close_message :: "nat \<Rightarrow> machine \<Rightarrow> machine" where
  "close_message b m = store_qword b 24 REQ_CLOSE (store_qword b 8 0 (store_qword b 0 REQ_CLOSE m))"

definition cancel_item :: "queue_item \<Rightarrow> fwd \<Rightarrow> fwd" where
  "cancel_item item s =
     (case s of (c, m) \<Rightarrow>
      let m = IoSetCancelRoutine (Irp item) False m;
          buffer = (case MemoryIrp item of
             None \<Rightarrow> MappedBuffer item
           | Some mi \<Rightarrow> if MemoryEntry mi \<in> set (map MemoryEntry (ServerMemoryIrpList c))
                        then Some (irp (MemoryItemIrp mi)) else None);
          item = item\<lparr>MemoryIrp := None, MappedBuffer := buffer\<rparr>
      in case buffer of
        None \<Rightarrow> DevIoDrvCompleteIrpQueueItem item STATUS_DEVICE_DOES_NOT_EXIST 0 (c, m)
      | Some b \<Rightarrow> DevIoDrvCompleteIrpQueueItem item STATUS_SUCCESS (int PROXY_HEADER_SIZE) (c, close_message b m))"

text \<open>The item of a memory request as one of the other queues' items.\<close>

definition memory_queue_item :: "memory_item \<Rightarrow> queue_item" where
  "memory_queue_item mi = (new_item (MemoryEntry mi) (MemoryItemIrp mi))\<lparr>MappedBuffer := Some (irp (MemoryItemIrp mi))\<rparr>"

fun cancel_requests :: "queue_item list \<Rightarrow> fwd \<Rightarrow> fwd" where
  "cancel_requests [] s = s"
| "cancel_requests (item # rest) (c, m) =
     cancel_requests rest (cancel_item item (c\<lparr>ServerRequestIrpList := rest\<rparr>, m))"

fun cancel_memory :: "memory_item list \<Rightarrow> fwd \<Rightarrow> fwd" where
  "cancel_memory [] s = s"
| "cancel_memory (mi # rest) (c, m) =
     cancel_memory rest (cancel_item (memory_queue_item mi) (c\<lparr>ServerMemoryIrpList := rest\<rparr>, m))"

definition cancel_clients :: "queue_item list \<Rightarrow> fwd \<Rightarrow> fwd" where
  "cancel_clients items s =
     fold (\<lambda>item s. DevIoDrvCompleteIrpQueueItem item STATUS_DEVICE_DOES_NOT_EXIST 0 s) items s"

definition DevIoDrvCancelAll :: "fwd \<Rightarrow> fwd" where
  "DevIoDrvCancelAll s =
     (case cancel_requests (ServerRequestIrpList (fst s)) (fst s\<lparr>Server := None\<rparr>, snd s) of
        (c, m) \<Rightarrow>
      case cancel_memory (ServerMemoryIrpList c) (c, m) of
        (c, m) \<Rightarrow>
      cancel_clients (ClientSentIrpList c)
        (cancel_clients (ClientReceivedIrpList c) (c\<lparr>ClientReceivedIrpList := [], ClientSentIrpList := []\<rparr>, m)))"

end
