(* ===== verification/Fwd_Held.thy ===== *)
theory Fwd_Held
  imports Fwd_Server
begin

text \<open>
  Where requests are. A request that was given to the forwarding driver waits in one of the four
  queues, is being cancelled, is in the hands of the running handler (with or without a block of its
  own), or has been completed; \<open>held\<close> says that it is in exactly one of these places, and that the
  addresses of the blocks, which serve as tags, are distinct. There is one lemma per move.
\<close>

section \<open>Places\<close>

definition memory_items :: "object_context \<Rightarrow> (int \<times> fwd_irp) list" where
  "memory_items c = map (\<lambda>mi. (MemoryEntry mi, MemoryItemIrp mi)) (ServerMemoryIrpList c)"

definition request_items :: "object_context \<Rightarrow> (int \<times> fwd_irp) list" where
  "request_items c = map (\<lambda>item. (ListEntry item, Irp item)) (ServerRequestIrpList c)"

definition client_items :: "object_context \<Rightarrow> (int \<times> fwd_irp) list" where
  "client_items c = map (\<lambda>item. (ListEntry item, Irp item)) (ClientReceivedIrpList c @ ClientSentIrpList c)"

definition waiting :: "object_context \<Rightarrow> (int \<times> fwd_irp) list" where
  "waiting c = memory_items c @ request_items c @ client_items c"

lemmas item_lists = memory_items_def request_items_def client_items_def

text \<open>\<open>S\<close>: the requests given to the driver so far. \<open>K\<close>: those whose cancel routine has been called and
  has not run yet. \<open>I\<close>: those in the hands of a handler without a block; \<open>W\<close>: those with a block.\<close>

definition once :: "'a multiset \<Rightarrow> bool" where "once M \<longleftrightarrow> (\<forall>x. count M x \<le> 1)"

lemma once_add [simp]: "once (add_mset x M) \<longleftrightarrow> x \<notin># M \<and> once M"
proof
  assume a: "once (add_mset x M)"
  then have "count (add_mset x M) y \<le> 1" for y by (simp add: once_def)
  from this [of x] have x: "x \<notin># M" by (simp add: not_in_iff)
  have "count M y \<le> 1" for y
    using \<open>\<And>y. count (add_mset x M) y \<le> 1\<close> [of y] by (cases "x = y") auto
  with x show "x \<notin># M \<and> once M" by (simp add: once_def)
next
  assume "x \<notin># M \<and> once M"
  then show "once (add_mset x M)" by (simp add: once_def not_in_iff)
qed

lemma once_mset: "once (mset xs) \<longleftrightarrow> distinct xs"
  by (induction xs) (auto simp: once_def [of "{#}"])

lemma once_subset: "once M \<Longrightarrow> N \<subseteq># M \<Longrightarrow> once N"
  unfolding once_def by (meson le_trans mset_subset_eq_count)

definition accounted ::
    "fwd_irp list \<Rightarrow> fwd_irp list \<Rightarrow> fwd_irp multiset \<Rightarrow> (int \<times> fwd_irp) multiset \<Rightarrow> machine \<Rightarrow> bool" where
  "accounted S K I W m \<longleftrightarrow>
     distinct (map irp S) \<and>
     mset (map fst (completed m)) +
       image_mset irp (I + filter_mset (\<lambda>i. i \<notin> set K) (image_mset snd W) + mset K) = mset (map irp S) \<and>
     set_mset I \<union> snd ` set_mset W \<union> set K \<subseteq> set S \<and> set K \<inter> set_mset I = {} \<and>
     once (image_mset snd W) \<and> once (image_mset fst W) \<and>
     (\<forall>i \<in> set K. Cancel m (irp i)) \<and>
     (\<forall>x. Cancel m x \<longrightarrow> x \<in> irp ` set K \<union> fst ` set (completed m)) \<and>
     fst ` set_mset W \<subseteq> blocks m \<and>
     ((\<forall>x. \<not> Cancel m x) \<longrightarrow> blocks m = fst ` set_mset W)"

definition kinds_ok :: "fwd_irp list \<Rightarrow> object_context \<Rightarrow> bool" where
  "kinds_ok K c \<longleftrightarrow>
     (\<forall>w \<in> set (memory_items c). IoControlCode (snd w) = IOCTL_DEVIODRV_LOCK_MEMORY) \<and>
     (\<forall>w \<in> set (request_items c). IoControlCode (snd w) = IOCTL_DEVIODRV_EXCHANGE_IO) \<and>
     set K \<inter> snd ` set (client_items c) = {} \<and>
     (\<forall>item \<in> set (ServerRequestIrpList c @ ClientReceivedIrpList c @ ClientSentIrpList c).
        MemoryIrp item = None \<and> MappedBuffer item = None)"

definition routines_ok :: "fwd_irp list \<Rightarrow> fwd \<Rightarrow> bool" where
  "routines_ok K s \<longleftrightarrow>
     (\<forall>x. CancelRoutine (snd s) x \<longrightarrow>
        x \<in> irp ` snd ` (set (memory_items (fst s)) \<union> set (request_items (fst s))) - irp ` set K)"

text \<open>\<open>H\<close>: the blocks in the hands of the handler.\<close>

definition held :: "fwd_irp list \<Rightarrow> fwd_irp list \<Rightarrow> fwd_irp multiset \<Rightarrow> (int \<times> fwd_irp) multiset \<Rightarrow> fwd \<Rightarrow> bool" where
  "held S K I H s \<longleftrightarrow>
     accounted S K I (mset (waiting (fst s)) + H) (snd s) \<and> set K \<inter> snd ` set_mset H = {} \<and>
     kinds_ok K (fst s) \<and> routines_ok K s"

section \<open>Moves\<close>

text \<open>Only the queues, the completions, the cancel state and the blocks matter.\<close>

lemma held_cong:
  assumes "ServerMemoryIrpList c' = ServerMemoryIrpList c" "ServerRequestIrpList c' = ServerRequestIrpList c"
    "ClientReceivedIrpList c' = ClientReceivedIrpList c" "ClientSentIrpList c' = ClientSentIrpList c"
    "completed m' = completed m" "Cancel m' = Cancel m" "CancelRoutine m' = CancelRoutine m" "blocks m' = blocks m"
  shows "held S K I H (c', m') \<longleftrightarrow> held S K I H (c, m)"
  using assms by (simp add: held_def accounted_def kinds_ok_def routines_ok_def waiting_def item_lists)

lemma accounted_complete:
  "accounted S K (add_mset i I) W m \<Longrightarrow> accounted S K I W (DevIoDrvCompleteIrp i status len m)"
  by (auto simp: accounted_def DevIoDrvCompleteIrp_def)

lemma accounted_once:
  assumes "accounted S K (add_mset i I) W m"
  shows "i \<notin># image_mset snd W"
proof
  assume w: "i \<in># image_mset snd W"
  have "i \<notin> set K" using assms by (simp add: accounted_def)
  then have "i \<in># filter_mset (\<lambda>i. i \<notin> set K) (image_mset snd W)" using w by simp
  then obtain R where "filter_mset (\<lambda>i. i \<notin> set K) (image_mset snd W) = add_mset i R"
    by (blast dest: multi_member_split)
  moreover have "once (mset (map irp S))" using assms unfolding accounted_def once_mset by simp
  then have "count (mset (map irp S)) (irp i) \<le> 1" by (simp only: once_def)
  moreover have "mset (map irp S) = mset (map fst (completed m)) +
      image_mset irp (add_mset i I + filter_mset (\<lambda>i. i \<notin> set K) (image_mset snd W) + mset K)"
    using assms unfolding accounted_def by metis
  ultimately show False by simp
qed

lemma accounted_alloc:
  assumes "accounted S K (add_mset i I) W m" "a \<notin> blocks m"
  shows "accounted S K I (add_mset (a, i) W) (m\<lparr>blocks := insert a (blocks m)\<rparr>)"
proof -
  have "a \<notin># image_mset fst W" using assms by (auto simp: accounted_def)
  moreover note accounted_once [OF assms(1)]
  ultimately show ?thesis using assms(1) by (auto simp: accounted_def)
qed

lemma accounted_finish:
  assumes "accounted S K I (add_mset (a, i) W) m" "i \<notin> set K"
  shows "accounted S K I W (ExFreePool a (DevIoDrvCompleteIrp i status len m))"
  using assms by (auto simp: accounted_def ExFreePool_def DevIoDrvCompleteIrp_def image_iff)


lemma routines_ok_simps [simp]:
  "routines_ok K (c, DevIoDrvCompleteIrp i status len m) = routines_ok K (c, m)"
  "routines_ok K (c, ExFreePool a m) = routines_ok K (c, m)"
  "routines_ok K (c, m\<lparr>blocks := B\<rparr>) = routines_ok K (c, m)"
  by (simp_all add: routines_ok_def DevIoDrvCompleteIrp_def ExFreePool_def)

lemma accounted_routine [simp]:
  "accounted S K I W (IoSetCancelRoutine i on m) = accounted S K I W m"
  by (simp add: accounted_def IoSetCancelRoutine_def)

lemma held_complete:
  "held S K (add_mset i I) H (c, m) \<Longrightarrow> held S K I H (c, DevIoDrvCompleteIrp i status len m)"
  using accounted_complete by (simp add: held_def)

lemma held_alloc:
  assumes "held S K (add_mset i I) H (c, m)" "a \<notin> blocks m"
  shows "held S K I (add_mset (a, i) H) (c, m\<lparr>blocks := insert a (blocks m)\<rparr>)"
  using assms accounted_alloc [of S K i I "mset (waiting c) + H" m a]
  by (auto simp: held_def accounted_def [of S K "add_mset i I"])

lemma held_finish:
  assumes "held S K I (add_mset (a, i) H) (c, m)"
  shows "held S K I H (c, ExFreePool a (DevIoDrvCompleteIrp i status len m))"
  using assms accounted_finish [of S K I a i "mset (waiting c) + H" m]
  by (auto simp: held_def)

lemma held_in:
  "held S K I (add_mset (a, i) H) (c, m) \<Longrightarrow> i \<in> set S \<and> i \<notin> set K"
  by (auto simp: held_def accounted_def)

lemma irp_in_K:
  assumes "accounted S K I W m" "i \<in> set S" "i \<notin> set K"
  shows "irp i \<notin> irp ` set K"
proof
  assume "irp i \<in> irp ` set K"
  then obtain k where "k \<in> set K" "irp k = irp i" by auto
  moreover have "inj_on irp (set S)" "set K \<subseteq> set S" using assms(1) by (simp_all add: accounted_def distinct_map)
  ultimately show False using assms(2,3) by (auto dest: inj_onD)
qed

lemma held_queue_memory:
  assumes "held S K I (add_mset (MemoryEntry mi, MemoryItemIrp mi) H) (c, m)"
    "IoControlCode (MemoryItemIrp mi) = IOCTL_DEVIODRV_LOCK_MEMORY"
  shows "held S K I H (DevIoDrvQueueMemoryIrpUnsafe (Some mi) (c, m))"
proof -
  let ?c = "c\<lparr>ServerMemoryIrpList := ServerMemoryIrpList c @ [mi]\<rparr>"
  let ?m = "IoSetCancelRoutine (MemoryItemIrp mi) True m"
  note a = assms(1) [unfolded held_def]
  have w: "mset (waiting ?c) + H = mset (waiting c) + add_mset (MemoryEntry mi, MemoryItemIrp mi) H"
    by (simp add: waiting_def item_lists)
  have k: "MemoryItemIrp mi \<in> set S" "MemoryItemIrp mi \<notin> set K" using held_in [OF assms(1)] by simp_all
  have "accounted S K I (mset (waiting ?c) + H) ?m"
    unfolding w using a by simp
  moreover have "irp (MemoryItemIrp mi) \<notin> irp ` set K" using irp_in_K a k by (metis fst_conv snd_conv)
  then have "routines_ok K (?c, ?m)"
    using a by (auto simp: routines_ok_def IoSetCancelRoutine_def item_lists)
  moreover have "kinds_ok K ?c" using a assms(2) by (auto simp: kinds_ok_def item_lists)
  ultimately show ?thesis using a by (simp add: held_def DevIoDrvQueueMemoryIrpUnsafe_def)
qed

lemma held_queue_request:
  assumes "held S K I (add_mset (a, i) H) (c, m)" "IoControlCode i = IOCTL_DEVIODRV_EXCHANGE_IO"
  shows "held S K I H (c\<lparr>ServerRequestIrpList := ServerRequestIrpList c @ [new_item a i]\<rparr>, IoSetCancelRoutine i True m)"
proof -
  let ?c = "c\<lparr>ServerRequestIrpList := ServerRequestIrpList c @ [new_item a i]\<rparr>"
  let ?m = "IoSetCancelRoutine i True m"
  note h = assms(1) [unfolded held_def]
  have w: "mset (waiting ?c) + H = mset (waiting c) + add_mset (a, i) H"
    by (simp add: waiting_def item_lists new_item_def)
  have k: "i \<in> set S" "i \<notin> set K" using held_in [OF assms(1)] by simp_all
  have "accounted S K I (mset (waiting ?c) + H) ?m"
    unfolding w using h by simp
  moreover have "irp i \<notin> irp ` set K" using irp_in_K h k by (metis fst_conv snd_conv)
  then have "routines_ok K (?c, ?m)"
    using h by (auto simp: routines_ok_def IoSetCancelRoutine_def item_lists new_item_def)
  moreover have "kinds_ok K ?c" using h assms(2) by (auto simp: kinds_ok_def item_lists new_item_def)
  ultimately show ?thesis using h by (simp add: held_def)
qed

text \<open>A client's request has no mapped buffer; it is put in either of the two queues.\<close>

lemma held_queue_client:
  assumes "held S K I (add_mset (ListEntry item, Irp item) H) (c, m)" "MemoryIrp item = None" "MappedBuffer item = None"
  shows "held S K I H (c\<lparr>ClientReceivedIrpList := item # ClientReceivedIrpList c\<rparr>, m)"
    "held S K I H (c\<lparr>ClientReceivedIrpList := ClientReceivedIrpList c @ [item]\<rparr>, m)"
    "held S K I H (c\<lparr>ClientSentIrpList := ClientSentIrpList c @ [item]\<rparr>, m)"
  using assms held_in [OF assms(1)]
  by (auto simp: held_def waiting_def item_lists kinds_ok_def routines_ok_def)

lemma held_take_memory:
  assumes "held S K I H (c, m)" "ServerMemoryIrpList c = before @ mi # after" "\<not> Cancel m (irp (MemoryItemIrp mi))"
  shows "held S K I (add_mset (MemoryEntry mi, MemoryItemIrp mi) H)
           (c\<lparr>ServerMemoryIrpList := before @ after\<rparr>, IoSetCancelRoutine (MemoryItemIrp mi) False m)"
    "IoControlCode (MemoryItemIrp mi) = IOCTL_DEVIODRV_LOCK_MEMORY"
proof -
  let ?c = "c\<lparr>ServerMemoryIrpList := before @ after\<rparr>"
  let ?m = "IoSetCancelRoutine (MemoryItemIrp mi) False m"
  note h = assms(1) [unfolded held_def]
  have w: "mset (waiting ?c) + add_mset (MemoryEntry mi, MemoryItemIrp mi) H = mset (waiting c) + H"
    using assms(2) by (simp add: waiting_def item_lists)
  have k: "MemoryItemIrp mi \<notin> set K" using h assms(3) by (auto simp: accounted_def)
  have "accounted S K I (mset (waiting ?c) + add_mset (MemoryEntry mi, MemoryItemIrp mi) H) ?m"
    unfolding w using h by simp
  moreover have "routines_ok K (?c, ?m)"
    using h assms(2) by (auto simp: routines_ok_def IoSetCancelRoutine_def item_lists split: if_splits)
  moreover have "kinds_ok K ?c" using h assms(2) by (auto simp: kinds_ok_def item_lists)
  ultimately show "held S K I (add_mset (MemoryEntry mi, MemoryItemIrp mi) H) (?c, ?m)"
    using h k by (simp add: held_def)
  show "IoControlCode (MemoryItemIrp mi) = IOCTL_DEVIODRV_LOCK_MEMORY"
    using h assms(2) by (simp add: kinds_ok_def item_lists)
qed

lemma held_take_client:
  assumes "held S K I H (c, m)"
  shows "ClientSentIrpList c = before @ item # after \<Longrightarrow>
      held S K I (add_mset (ListEntry item, Irp item) H) (c\<lparr>ClientSentIrpList := before @ after\<rparr>, m) \<and>
      MemoryIrp item = None \<and> MappedBuffer item = None"
    "ClientReceivedIrpList c = item # after \<Longrightarrow>
      held S K I (add_mset (ListEntry item, Irp item) H) (c\<lparr>ClientReceivedIrpList := after\<rparr>, m) \<and>
      MemoryIrp item = None \<and> MappedBuffer item = None"
  using assms
  by (auto simp: held_def waiting_def item_lists kinds_ok_def routines_ok_def)

end
