(* ===== verification/Fwd_Moves.thy ===== *)
theory Fwd_Moves
  imports Fwd_Held
begin

text \<open>
  Every handler of the forwarding driver keeps account of the requests: what it was given it has
  completed or put in a queue when it returns.
\<close>

section \<open>Helpers\<close>

definition memory_hand :: "memory_item option \<Rightarrow> (int \<times> fwd_irp) multiset" where
  "memory_hand mi = (case mi of None \<Rightarrow> {#} | Some mi \<Rightarrow> {#(MemoryEntry mi, MemoryItemIrp mi)#})"

definition in_hand :: "queue_item \<Rightarrow> (int \<times> fwd_irp) multiset" where
  "in_hand item = add_mset (ListEntry item, Irp item) (memory_hand (MemoryIrp item))"

definition lent :: "memory_item option \<Rightarrow> bool" where
  "lent mi \<longleftrightarrow> (\<forall>x. mi = Some x \<longrightarrow> IoControlCode (MemoryItemIrp x) = IOCTL_DEVIODRV_LOCK_MEMORY)"

lemma memory_hand_simps [simp]:
  "memory_hand None = {#}" "memory_hand (Some mi) = {#(MemoryEntry mi, MemoryItemIrp mi)#}" "lent None"
  by (simp_all add: memory_hand_def lent_def)

lemma in_hand_plain: "MemoryIrp item = None \<Longrightarrow> in_hand item = {#(ListEntry item, Irp item)#}"
  by (simp add: in_hand_def)

lemma held_store [simp]:
  "held S K I H (c, store_mdl b p bs m) = held S K I H (c, m)"
  "held S K I H (c, store_qword b p x m) = held S K I H (c, m)"
  "held S K I H (c, m\<lparr>SystemBuffer := f\<rparr>) = held S K I H (c, m)"
  "held S K I H (c, m\<lparr>mdl := g\<rparr>) = held S K I H (c, m)"
  by (rule held_cong; simp add: store_mdl_def store_qword_def)+

lemma held_fields [simp]:
  "held S K I H (c\<lparr>Server := x\<rparr>, m) = held S K I H (c, m)"
  "held S K I H (server_info buffer c, m) = held S K I H (c, m)"
  by (rule held_cong; simp add: server_info_def)+

lemma held_queue_lent:
  assumes "held S K I (memory_hand mi + H) s" "lent mi"
  shows "held S K I H (DevIoDrvQueueMemoryIrpUnsafe mi s)" "held S K I H (DevIoDrvQueueMemoryIrp mi s)"
proof -
  show u: "held S K I H (DevIoDrvQueueMemoryIrpUnsafe mi s)"
    using assms held_queue_memory [of S K I _ H "fst s" "snd s"]
    by (cases mi) (auto simp: lent_def DevIoDrvQueueMemoryIrpUnsafe_def)
  show "held S K I H (DevIoDrvQueueMemoryIrp mi s)"
    using u by (cases mi) (auto simp: DevIoDrvQueueMemoryIrp_def DevIoDrvQueueMemoryIrpUnsafe_def)
qed

lemma held_complete_item:
  assumes "held S K I (in_hand item + H) s" "lent (MemoryIrp item)"
  shows "held S K I H (DevIoDrvCompleteIrpQueueItem item status len s)"
proof -
  obtain c m where s: "s = (c, m)" by fastforce
  show ?thesis
  proof (cases "MemoryIrp item")
    case None
    then show ?thesis
      using assms held_finish [of S K I "ListEntry item" "Irp item" H c m]
      by (simp add: DevIoDrvCompleteIrpQueueItem_def in_hand_def s)
  next
    case (Some mi)
    let ?H = "add_mset (ListEntry item, Irp item) H"
    have h: "held S K I (memory_hand (Some mi) + ?H) s"
      using assms(1) Some by (simp add: in_hand_def add_mset_commute)
    show ?thesis
    proof (cases "status = STATUS_BUFFER_TOO_SMALL")
      case True
      have "held S K I (add_mset (MemoryEntry mi, MemoryItemIrp mi) ?H) (c, m)"
        using h s by (simp add: add_mset_commute)
      from held_finish [OF held_finish [OF this]] True show ?thesis
        by (simp add: DevIoDrvCompleteIrpQueueItem_def s Some)
    next
      case False
      obtain c' m' where q: "DevIoDrvQueueMemoryIrp (Some mi) (c, m) = (c', m')" by fastforce
      have "held S K I ?H (c', m')"
        using held_queue_lent(2) [OF h] assms(2) Some by (simp add: s q)
      from held_finish [OF this] show ?thesis
        using False by (simp add: DevIoDrvCompleteIrpQueueItem_def s Some q)
    qed
  qed
qed

lemma held_reserve:
  assumes "held S K I H s" "DevIoDrvReserveMemoryIrp i s = ((status, mi, b, n), s')"
  shows "held S K I (memory_hand mi + H) s'" "lent mi" "b = None \<Longrightarrow> mi = None"
proof -
  obtain c m where s: "s = (c, m)" by fastforce
  have "held S K I (memory_hand mi + H) s' \<and> lent mi \<and> (b = None \<longrightarrow> mi = None)"
  proof (cases "List.extract (same_memory m i) (ServerMemoryIrpList c)")
    case None
    then show ?thesis
      using assms by (auto simp: DevIoDrvReserveMemoryIrp_def s split: if_splits)
  next
    case (Some t)
    obtain before x after where t: "t = (before, x, after)" by (cases t)
    have x: "ServerMemoryIrpList c = before @ x # after" "same_memory m i x"
      using Some t by (auto simp: extract_Some_iff)
    then have "\<not> Cancel m (irp (MemoryItemIrp x))" by (simp add: same_memory_def)
    from held_take_memory [OF assms(1) [unfolded s] x(1) this] show ?thesis
      using assms Some t by (auto simp: DevIoDrvReserveMemoryIrp_def s lent_def split: if_splits)
  qed
  then show "held S K I (memory_hand mi + H) s'" "lent mi" "b = None \<Longrightarrow> mi = None" by simp_all
qed

section \<open>Sending\<close>

lemma held_fill [simp]:
  "fill_request b i m = (m', info) \<Longrightarrow> held S K I H (c, m') = held S K I H (c, m)"
  by (auto simp: fill_request_def Let_def split: fwd_major.splits fwd_code.splits if_splits)

lemma held_send_mapped:
  assumes "held S K I (in_hand server + add_mset (ListEntry client, Irp client) H) s" "lent (MemoryIrp server)"
    "MemoryIrp client = None" "MappedBuffer client = None"
  shows "held S K I H (snd (send_mapped b client server s))"
proof -
  obtain c m where s: "s = (c, m)" by fastforce
  define m1 where "m1 = store_qword b 8 (ListEntry client) (store_qword b 16 0 m)"
  have h: "held S K I (in_hand server + add_mset (ListEntry client, Irp client) H) (c, m1)"
    using assms(1) by (simp add: s m1_def)
  then have h': "held S K I (add_mset (ListEntry client, Irp client) (in_hand server + H)) (c, m1)"
    by simp
  have fail: "held S K I H (DevIoDrvCompleteIrpQueueItem server st 0 (DevIoDrvCompleteIrpQueueItem client st 0 (c, m1)))" for st
    using h' assms(2,3) by (intro held_complete_item) (auto simp: in_hand_plain)
  note q = held_queue_client [OF h' assms(3,4)]
  show ?thesis
  proof (cases "client_room m1 (Irp client)")
    case None
    then show ?thesis using fail by (simp add: send_mapped_def s Let_def flip: m1_def)
  next
    case (Some room)
    obtain m2 info where f: "fill_request b (Irp client) m1 = (m2, info)" by fastforce
    have sent: "held S K I H (DevIoDrvCompleteIrpQueueItem server STATUS_SUCCESS info
        (c\<lparr>ClientSentIrpList := ClientSentIrpList c @ [client]\<rparr>, m2))"
      using q(3) assms(2) f by (intro held_complete_item) auto
    have waits: "held S K I H (DevIoDrvCompleteIrpQueueItem server STATUS_BUFFER_TOO_SMALL 0
        (c\<lparr>ClientReceivedIrpList := client # ClientReceivedIrpList c\<rparr>, m1))"
      using q(1) assms(2) by (intro held_complete_item)
    show ?thesis
      using fail sent waits by (simp add: send_mapped_def s Let_def Some f flip: m1_def)
  qed
qed

lemma held_send:
  assumes "held S K I (in_hand server + add_mset (ListEntry client, Irp client) H) s" "lent (MemoryIrp server)"
    "MemoryIrp client = None" "MappedBuffer client = None" "MappedBuffer server = None \<Longrightarrow> MemoryIrp server = None"
  shows "held S K I H (snd (DevIoDrvSendClientRequestToServer client server s))"
proof (cases "MappedBuffer server")
  case (Some b)
  then show ?thesis using held_send_mapped [OF assms(1-4)] by (simp add: DevIoDrvSendClientRequestToServer_def)
next
  case None
  obtain status mi b n s' where r: "DevIoDrvReserveMemoryIrp (Irp server) s = ((status, mi, b, n), s')"
    by (metis prod.exhaust)
  define item where "item = server\<lparr>MemoryIrp := mi, MappedBuffer := b, MappedBufferSize := n\<rparr>"
  note v = held_reserve [OF assms(1) r]
  have h: "held S K I (in_hand item + add_mset (ListEntry client, Irp client) H) s'"
    using v(1) assms(5) None by (simp add: item_def in_hand_def)
  have l: "lent (MemoryIrp item)" using v(2) by (simp add: item_def)
  have "held S K I (in_hand client + (in_hand item + H)) s'"
    using h assms(3) by (simp add: in_hand_plain)
  from held_complete_item [OF held_complete_item [OF this] l] assms(3)
  have "held S K I H (DevIoDrvCompleteIrpQueueItem item status 0 (DevIoDrvCompleteIrpQueueItem client status 0 s'))"
    by simp
  then show ?thesis
    using held_send_mapped [OF h l assms(3,4)] None r
    by (cases b) (simp_all add: DevIoDrvSendClientRequestToServer_def Let_def item_def)
qed

section \<open>The server's calls\<close>

definition client_hand :: "queue_item option \<Rightarrow> (int \<times> fwd_irp) multiset" where
  "client_hand client = (case client of None \<Rightarrow> {#} | Some item \<Rightarrow> in_hand item)"

lemma held_answer_read:
  assumes "held S K I (in_hand item + H) s" "MemoryIrp item = None" "answer_read buffer item s = (r, s')"
  shows "held S K I H s'"
proof -
  obtain c m where s: "s = (c, m)" by fastforce
  have h: "held S K I (in_hand item + H) (c, m)" using assms(1) by (simp add: s)
  then have "held S K I (in_hand item + H) (c, store_mdl x p bs m)" for x p bs by simp
  from held_complete_item [OF this] held_complete_item [OF h]
  have "held S K I H (DevIoDrvCompleteIrpQueueItem item st len (c, store_mdl x p bs m))"
    "held S K I H (DevIoDrvCompleteIrpQueueItem item st len (c, m))" for st len x p bs
    using assms(2) by simp_all
  then show ?thesis
    using assms(3) by (auto simp: answer_read_def s client_result_def Let_def split: if_splits)
qed

lemma held_server_answer:
  assumes "held S K I (client_hand client + H) s" "\<And>item. client = Some item \<Longrightarrow> MemoryIrp item = None"
    "server_answer buffer n client s = (r, s')"
  shows "held S K I H s'"
proof -
  obtain c m where s: "s = (c, m)" by fastforce
  show ?thesis
  proof (cases client)
    case None
    then show ?thesis using assms(1,3) by (auto simp: server_answer_def s client_hand_def Let_def split: if_splits)
  next
    case (Some item)
    have h: "held S K I (in_hand item + H) s" and p: "MemoryIrp item = None"
      using assms(1,2) Some by (simp_all add: client_hand_def)
    have c: "held S K I H (DevIoDrvCompleteIrpQueueItem item st len s)" for st len
      using held_complete_item [OF h] p by simp
    have t: "held S K I H (answer_trim buffer item s)"
    proof -
      have "held S K I (in_hand item + H) (c, if d then m\<lparr>SystemBuffer := f\<rparr> else m)" for d f
        using h by (simp add: s)
      then show ?thesis
        using held_complete_item [of S K I item H] p c [unfolded s]
        by (simp add: answer_trim_def s Let_def)
    qed
    show ?thesis
      using assms(3) held_answer_read [OF h p] c t unfolding server_answer_def s Some client_result_def Let_def
      by (simp split: if_splits) (auto simp: s)
  qed
qed

definition pool_ok :: "pool \<Rightarrow> bool" where
  "pool_ok pool \<longleftrightarrow> (\<forall>B a. pool B = Some a \<longrightarrow> a \<notin> B \<and> 0 < a \<and> a < 2 ^ 64)"

lemma held_server_next:
  assumes "held S K (add_mset i I) (memory_hand mi + H) s" "lent mi" "pool_ok pool"
    "IoControlCode i = IOCTL_DEVIODRV_EXCHANGE_IO"
  shows "held S K I H (snd (server_next pool i mi b n s))"
proof -
  obtain c m where s: "s = (c, m)" by fastforce
  show ?thesis
  proof (cases "pool (blocks m)")
    case None
    then show ?thesis
      using held_queue_lent(2) [OF held_complete [OF assms(1) [unfolded s]] assms(2)] by (simp add: server_next_def s)
  next
    case (Some a)
    then have a: "a \<notin> blocks m" using assms(3) by (auto simp: pool_ok_def)
    define m1 where "m1 = m\<lparr>blocks := insert a (blocks m)\<rparr>"
    have h: "held S K I (add_mset (a, i) (memory_hand mi + H)) (c, m1)"
      using held_alloc [OF assms(1) [unfolded s] a] by (simp add: m1_def)
    show ?thesis
    proof (cases "ClientReceivedIrpList c")
      case Nil
      obtain c' m' where q: "DevIoDrvQueueMemoryIrpUnsafe mi (c, m1) = (c', m')" by fastforce
      have "held S K I (memory_hand mi + add_mset (a, i) H) (c, m1)" using h by simp
      from held_queue_lent(1) [OF this assms(2)] have "held S K I (add_mset (a, i) H) (c', m')" by (simp add: q)
      from held_queue_request [OF this assms(4)] show ?thesis
        using Nil Some q by (simp add: server_next_def s m1_def Let_def)
    next
      case (Cons client rest)
      define item where "item = (new_item a i)\<lparr>MemoryIrp := mi, MappedBuffer := Some b, MappedBufferSize := n\<rparr>"
      from held_take_client(2) [OF h Cons]
      have h2: "held S K I (in_hand item + add_mset (ListEntry client, Irp client) H) (c\<lparr>ClientReceivedIrpList := rest\<rparr>, m1)"
        and p: "MemoryIrp client = None" "MappedBuffer client = None"
        by (simp_all add: item_def in_hand_def new_item_def add_mset_commute)
      obtain cs ss s2 where d: "DevIoDrvSendClientRequestToServer client item (c\<lparr>ClientReceivedIrpList := rest\<rparr>, m1) = ((cs, ss), s2)"
        by (metis prod.exhaust)
      have "held S K I H (snd (DevIoDrvSendClientRequestToServer client item (c\<lparr>ClientReceivedIrpList := rest\<rparr>, m1)))"
        using assms(2) by (intro held_send [OF h2 _ p]) (simp_all add: item_def)
      then show ?thesis
        using Cons Some d by (simp add: server_next_def s m1_def item_def Let_def)
    qed
  qed
qed

lemma sent_request_found:
  "DevIoDrvGetSentClientRequest tag c = (client, c') \<Longrightarrow>
   held S K I H (c, m) \<Longrightarrow> held S K I (client_hand client + H) (c', m) \<and> (\<forall>item. client = Some item \<longrightarrow> MemoryIrp item = None)"
  using held_take_client(1) [of S K I H c m]
  by (auto simp: DevIoDrvGetSentClientRequest_def client_hand_def extract_Some_iff in_hand_plain split: option.splits)

lemma held_exchange:
  assumes "held S K (add_mset i I) H s" "pool_ok pool" "IoControlCode i = IOCTL_DEVIODRV_EXCHANGE_IO"
  shows "held S K I H (snd (DevIoDrvDispatchServerIORequest pool i s))"
proof -
  obtain c m where s: "s = (c, m)" by fastforce
  obtain status mi b n c1 m1 where r: "DevIoDrvReserveMemoryIrp i s = ((status, mi, b, n), (c1, m1))"
    by (metis prod.exhaust)
  note v = held_reserve [OF assms(1) r]
  have small: "held S K I H (c, DevIoDrvCompleteIrp i st 0 m)" for st
    using held_complete [OF assms(1) [unfolded s]] .
  show ?thesis
  proof (cases b)
    case None
    then have "held S K (add_mset i I) H (c1, m1)" using v by simp
    then show ?thesis
      using held_complete r None small by (simp add: DevIoDrvDispatchServerIORequest_def s)
  next
    case (Some b')
    define buffer where "buffer = mdl m1 b'"
    obtain client c2 where g: "(if qword 8 buffer = 0 then (None, c1) else DevIoDrvGetSentClientRequest (qword 8 buffer) c1) = (client, c2)"
      by fastforce
    have h: "held S K (add_mset i I) (client_hand client + (memory_hand mi + H)) (c2, m1)"
      and p: "\<forall>item. client = Some item \<longrightarrow> MemoryIrp item = None"
      using g v(1) sent_request_found [of "qword 8 buffer" c1 client c2] by (auto simp: client_hand_def split: if_splits)
    obtain res c3 m3 where a: "server_answer buffer n client (c2, m1) = (res, (c3, m3))" by (metis prod.exhaust)
    have h3: "held S K (add_mset i I) (memory_hand mi + H) (c3, m3)"
      using held_server_answer [OF h _ a] p by blast
    have fail: "held S K I H (DevIoDrvQueueMemoryIrp mi (c', DevIoDrvCompleteIrp i st 0 m'))"
      if "held S K (add_mset i I) (memory_hand mi + H) (c', m')" for c' m' st
      using held_queue_lent(2) [OF held_complete [OF that] v(2)] .
    have none: "held S K (add_mset i I) (memory_hand mi + H) (c2, m1)" if "client = None"
      using h that by (simp add: client_hand_def)
    have "snd (DevIoDrvDispatchServerIORequest pool i s) =
        (if 0 < OutputBufferLength i \<and> OutputBufferLength i < int PROXY_HEADER_SIZE
         then (c, DevIoDrvCompleteIrp i STATUS_BUFFER_TOO_SMALL 0 m)
         else if qword 8 buffer \<noteq> 0 \<and> client = None
         then DevIoDrvQueueMemoryIrp mi (c2, DevIoDrvCompleteIrp i STATUS_INVALID_PARAMETER 0 m1)
         else case res of Some st \<Rightarrow> DevIoDrvQueueMemoryIrp mi (c3, DevIoDrvCompleteIrp i st 0 m3)
              | None \<Rightarrow> snd (server_next pool i mi b' n (c3, m3)))"
      unfolding DevIoDrvDispatchServerIORequest_def Let_def r Some prod.case option.case
        buffer_def [symmetric] g a
      by (simp add: s split: option.splits)
    moreover have "held S K I H (case res of Some st \<Rightarrow> DevIoDrvQueueMemoryIrp mi (c3, DevIoDrvCompleteIrp i st 0 m3)
              | None \<Rightarrow> snd (server_next pool i mi b' n (c3, m3)))"
      using fail [OF h3] held_server_next [OF h3 v(2) assms(2,3)] by (simp split: option.splits)
    ultimately show ?thesis using small fail [OF none] by simp
  qed
qed

lemma held_lock:
  assumes "held S K (add_mset i I) H s" "pool_ok pool" "IoControlCode i = IOCTL_DEVIODRV_LOCK_MEMORY"
  shows "held S K I H (snd (DevIoDrvDispatchServerLockMemory pool i s))"
proof -
  obtain c m where s: "s = (c, m)" by fastforce
  have fail: "held S K I H (c, DevIoDrvCompleteIrp i st 0 m)" for st
    using held_complete [OF assms(1) [unfolded s]] .
  show ?thesis
  proof (cases "pool (blocks m)")
    case None
    then show ?thesis using fail by (simp add: DevIoDrvDispatchServerLockMemory_def s Let_def)
  next
    case (Some a)
    then have "a \<notin> blocks m" using assms(2) by (auto simp: pool_ok_def)
    from held_alloc [OF assms(1) [unfolded s] this]
    have "held S K I (memory_hand (Some \<lparr>MemoryEntry = a, MemoryItemIrp = i\<rparr>) + H) (c, m\<lparr>blocks := insert a (blocks m)\<rparr>)"
      by simp
    from held_queue_lent(2) [OF this] assms(3) fail Some show ?thesis
      by (simp add: DevIoDrvDispatchServerLockMemory_def s Let_def lent_def)
  qed
qed

end
