(* ===== verification/Fwd_Cancel.thy ===== *)
theory Fwd_Cancel
  imports Fwd_Moves
begin

text \<open>
  Account of the requests when server requests are passed over because they are being cancelled, when
  a cancellation begins and ends, and when the server goes.
\<close>

section \<open>Requests being cancelled\<close>

lemma cancelled_waiting:
  assumes "accounted S K I W m" "w \<in># W" "Cancel m (irp (snd w))"
  shows "snd w \<in> set K"
proof (rule ccontr)
  assume n: "snd w \<notin> set K"
  have "snd w \<in> set S" using assms(1,2) by (auto simp: accounted_def)
  then have "irp (snd w) \<notin> irp ` set K" using irp_in_K [OF assms(1)] n by blast
  then have "irp (snd w) \<in> fst ` set (completed m)" using assms(1,3) by (auto simp: accounted_def)
  then have d: "1 \<le> count (mset (map fst (completed m))) (irp (snd w))"
    by (metis One_nat_def Suc_leI count_greater_zero_iff set_map set_mset_mset)
  have "snd w \<in># filter_mset (\<lambda>i. i \<notin> set K) (image_mset snd W)" using n assms(2) by simp
  then obtain R where "filter_mset (\<lambda>i. i \<notin> set K) (image_mset snd W) = add_mset (snd w) R"
    by (blast dest: multi_member_split)
  moreover have "once (mset (map irp S))" using assms unfolding accounted_def once_mset by simp
  then have "count (mset (map irp S)) (irp (snd w)) \<le> 1" by (simp only: once_def)
  moreover have "mset (map irp S) = mset (map fst (completed m)) +
      image_mset irp (I + filter_mset (\<lambda>i. i \<notin> set K) (image_mset snd W) + mset K)"
    using assms unfolding accounted_def by metis
  ultimately show False using d by (auto simp: count_eq_zero_iff)
qed

lemma accounted_drop:
  assumes "accounted S K I (D + W) m" "snd ` set_mset D \<subseteq> set K"
  shows "accounted S K I W m"
proof -
  have f: "filter_mset (\<lambda>i. i \<notin> set K) (image_mset snd D) = {#}"
    using assms(2) by (induction D) auto
  have "D = {#}" if "\<forall>x. \<not> Cancel m x"
  proof (rule ccontr)
    assume "D \<noteq> {#}"
    then obtain w where "w \<in># D" by (auto dest: multiset_nonemptyE)
    then have "snd w \<in> set K" using assms(2) by auto
    then show False using assms(1) that by (auto simp: accounted_def)
  qed
  moreover have "once (image_mset snd W)" "once (image_mset fst W)"
    using assms(1) once_subset [of "image_mset snd (D + W)"] once_subset [of "image_mset fst (D + W)"]
    by (auto simp: accounted_def)
  ultimately show ?thesis using assms(1) by (auto simp: accounted_def f)
qed

lemma routines_ok_off: "routines_ok K (c, m) \<Longrightarrow> routines_ok K (c, IoSetCancelRoutine i False m)"
  by (auto simp: routines_ok_def IoSetCancelRoutine_def)

lemma held_routine_off:
  "held S K I H (c, m) \<Longrightarrow> held S K I H (c, IoSetCancelRoutine i False m)"
  using routines_ok_off by (simp add: held_def)

lemma routines_ok_fewer:
  assumes "routines_ok K (c, m)" "set K' \<subseteq> set K" "\<And>x. CancelRoutine m' x \<Longrightarrow> CancelRoutine m x"
    "\<And>w. w \<in> set (memory_items c) \<union> set (request_items c) \<Longrightarrow> CancelRoutine m' (irp (snd w)) \<Longrightarrow>
       snd w \<in> set K \<or> w \<in> set (memory_items c') \<union> set (request_items c')"
  shows "routines_ok K' (c', m')"
  unfolding routines_ok_def
proof (intro allI impI)
  fix x
  assume x: "CancelRoutine (snd (c', m')) x"
  then have *: "x \<in> irp ` snd ` (set (memory_items c) \<union> set (request_items c))" "x \<notin> irp ` set K"
    using assms(1,3) by (auto simp: routines_ok_def)
  then obtain w where w: "w \<in> set (memory_items c) \<union> set (request_items c)" "x = irp (snd w)" by auto
  moreover have "snd w \<notin> set K" using *(2) w(2) by auto
  ultimately have "w \<in> set (memory_items c') \<union> set (request_items c')"
    using assms(4) [of w] x by auto
  then show "x \<in> irp ` snd ` (set (memory_items (fst (c', m'))) \<union> set (request_items (fst (c', m')))) - irp ` set K'"
    using w(2) *(2) assms(2) by auto
qed

text \<open>Taking server requests from the head of the queue, those before the taken one being cancelled.\<close>

lemma held_take_request:
  assumes "held S K I H (c, m)" "ServerRequestIrpList c = dropped @ item # rest"
    "\<And>x. x \<in> set dropped \<Longrightarrow> Cancel m (irp (Irp x))" "Irp item \<notin> set K"
  shows "held S K I (add_mset (ListEntry item, Irp item) H)
           (c\<lparr>ServerRequestIrpList := rest\<rparr>, IoSetCancelRoutine (Irp item) False m)"
    "MemoryIrp item = None" "MappedBuffer item = None"
proof -
  let ?c = "c\<lparr>ServerRequestIrpList := rest\<rparr>"
  let ?m = "IoSetCancelRoutine (Irp item) False m"
  let ?D = "mset (map (\<lambda>x. (ListEntry x, Irp x)) dropped)"
  note h = assms(1) [unfolded held_def]
  have w: "?D + (mset (waiting ?c) + add_mset (ListEntry item, Irp item) H) = mset (waiting c) + H"
    using assms(2) by (simp add: waiting_def item_lists)
  have acc: "accounted S K I (?D + (mset (waiting ?c) + add_mset (ListEntry item, Irp item) H)) m"
    using h unfolding w by simp
  have dropped: "Irp x \<in> set K" if "x \<in> set dropped" for x
    using cancelled_waiting [OF acc, of "(ListEntry x, Irp x)"] assms(3) that by simp
  then have "snd ` set_mset ?D \<subseteq> set K" by force
  from accounted_drop [OF acc this]
  have "accounted S K I (mset (waiting ?c) + add_mset (ListEntry item, Irp item) H) ?m" by simp
  moreover have "routines_ok K (?c, ?m)"
    using h assms(2) dropped
    by - (rule routines_ok_fewer [of K c m K], (auto simp: item_lists IoSetCancelRoutine_def split: if_splits)[4])
  moreover have "kinds_ok K ?c" using h assms(2) by (auto simp: kinds_ok_def item_lists)
  ultimately show "held S K I (add_mset (ListEntry item, Irp item) H) (?c, ?m)"
    using h assms(4) by (simp add: held_def)
  show "MemoryIrp item = None" "MappedBuffer item = None"
    using h assms(2) by (simp_all add: kinds_ok_def)
qed

lemma held_drop_requests:
  assumes "held S K I H (c, m)" "\<And>x. x \<in> set (ServerRequestIrpList c) \<Longrightarrow> Cancel m (irp (Irp x))"
  shows "held S K I H (c\<lparr>ServerRequestIrpList := []\<rparr>, m)"
proof -
  let ?c = "c\<lparr>ServerRequestIrpList := []\<rparr>"
  let ?D = "mset (request_items c)"
  note h = assms(1) [unfolded held_def]
  have w: "?D + (mset (waiting ?c) + H) = mset (waiting c) + H"
    by (simp add: waiting_def item_lists)
  have acc: "accounted S K I (?D + (mset (waiting ?c) + H)) m"
    using h unfolding w by simp
  have d: "Irp x \<in> set K" if "x \<in> set (ServerRequestIrpList c)" for x
    using cancelled_waiting [OF acc, of "(ListEntry x, Irp x)"] assms(2) that by (simp add: item_lists)
  then have "snd ` set_mset ?D \<subseteq> set K" by (force simp: item_lists)
  from accounted_drop [OF acc this] have "accounted S K I (mset (waiting ?c) + H) m" .
  moreover have "routines_ok K (?c, m)"
    using h d by - (rule routines_ok_fewer [of K c m K], (auto simp: item_lists)[4])
  ultimately show ?thesis using h by (auto simp: held_def kinds_ok_def item_lists)
qed

lemma held_client:
  assumes "held S K (add_mset i I) H s" "pool_ok pool"
  shows "held S K I H (snd (DevIoDrvDispatchClientRequest pool i s))"
proof -
  obtain c m where s: "s = (c, m)" by fastforce
  have fail: "held S K I H (c, DevIoDrvCompleteIrp i st 0 m)" for st
    using held_complete [OF assms(1) [unfolded s]] .
  show ?thesis
  proof (cases "pool (blocks m)")
    case None
    then show ?thesis using fail by (simp add: DevIoDrvDispatchClientRequest_def s Let_def)
  next
    case (Some a)
    then have "a \<notin> blocks m" using assms(2) by (auto simp: pool_ok_def)
    define m1 where "m1 = m\<lparr>blocks := insert a (blocks m)\<rparr>"
    have h: "held S K I (add_mset (a, i) H) (c, m1)"
      using held_alloc [OF assms(1) [unfolded s] \<open>a \<notin> blocks m\<close>] by (simp add: m1_def)
    let ?P = "\<lambda>item. Cancel m (irp (Irp item))"
    show ?thesis
    proof (cases "dropWhile ?P (ServerRequestIrpList c)")
      case Nil
      then have "held S K I (add_mset (a, i) H) (c\<lparr>ServerRequestIrpList := []\<rparr>, m1)"
        by (intro held_drop_requests [OF h]) (auto simp: dropWhile_eq_Nil_conv m1_def)
      then have "held S K I (add_mset (ListEntry (new_item a i), Irp (new_item a i)) H) (c\<lparr>ServerRequestIrpList := []\<rparr>, m1)"
        by (simp add: new_item_def)
      from held_queue_client(2) [OF this]
      have "held S K I H (c\<lparr>ServerRequestIrpList := [],
          ClientReceivedIrpList := ClientReceivedIrpList c @ [new_item a i]\<rparr>, m1)"
        by (simp add: new_item_def)
      then show ?thesis
        using Nil Some fail
        by (simp add: DevIoDrvDispatchClientRequest_def s Let_def m1_def del: dropWhile_eq_Nil_conv)
    next
      case (Cons server rest)
      have l: "ServerRequestIrpList c = takeWhile ?P (ServerRequestIrpList c) @ server # rest"
        by (metis Cons takeWhile_dropWhile_id)
      have "\<not> ?P server" using Cons by (simp add: dropWhile_eq_Cons_conv)
      then have n: "Irp server \<notin> set K" using h by (auto simp: held_def accounted_def m1_def)
      have "Cancel m1 (irp (Irp x))" if "x \<in> set (takeWhile ?P (ServerRequestIrpList c))" for x
        using set_takeWhileD [OF that] by (simp add: m1_def)
      note t = held_take_request [OF h l this n]
      obtain cs ss s2 where d: "DevIoDrvSendClientRequestToServer (new_item a i) server
          (c\<lparr>ServerRequestIrpList := rest\<rparr>, IoSetCancelRoutine (Irp server) False m1) = ((cs, ss), s2)"
        by (metis prod.exhaust)
      have "held S K I (in_hand server + add_mset (ListEntry (new_item a i), Irp (new_item a i)) H)
          (c\<lparr>ServerRequestIrpList := rest\<rparr>, IoSetCancelRoutine (Irp server) False m1)"
        using t by (simp add: in_hand_plain new_item_def add_mset_commute)
      from held_send [OF this] have "held S K I H s2" using t(2,3) d by (simp add: new_item_def)
      then show ?thesis
        using Cons Some fail d by (simp add: DevIoDrvDispatchClientRequest_def s Let_def m1_def)
    qed
  qed
qed

section \<open>A cancellation begins and ends\<close>

lemma once_filter_split:
  "once M \<Longrightarrow> i \<in># M \<Longrightarrow> i \<notin> K \<Longrightarrow>
   filter_mset (\<lambda>x. x \<notin> K) M = add_mset i (filter_mset (\<lambda>x. x \<notin> insert i K) M)"
proof -
  assume a: "once M" "i \<in># M" "i \<notin> K"
  then obtain R where R: "M = add_mset i R" "i \<notin># R" by (auto dest!: multi_member_split)
  then have "filter_mset (\<lambda>x. x \<notin> K) R = filter_mset (\<lambda>x. x \<notin> insert i K) R"
    by (intro filter_mset_cong) auto
  then show ?thesis using R a(3) by simp
qed

lemma once_union: "once (A + B) \<Longrightarrow> x \<in># A \<Longrightarrow> x \<notin># B"
  by (auto dest!: multi_member_split)

lemma held_cancel_begins:
  assumes "held S K {#} {#} (c, m)" "i \<in> set S" "CancelRoutine m (irp i)"
  shows "held S (i # K) {#} {#} (c, snd (IoCancelIrp i m)) \<and> i \<notin> set K"
proof -
  note h = assms(1) [unfolded held_def fst_conv snd_conv]
  let ?W = "mset (waiting c)"
  have r: "irp i \<in> irp ` snd ` (set (memory_items c) \<union> set (request_items c))" "irp i \<notin> irp ` set K"
    using h assms(3) by (auto simp: routines_ok_def)
  then have k: "i \<notin> set K" by auto
  obtain j where j: "irp i = irp j" "j \<in> snd ` (set (memory_items c) \<union> set (request_items c))"
    using r(1) by blast
  obtain w where w: "w \<in> set (memory_items c) \<union> set (request_items c)" "irp (snd w) = irp i"
    using j by auto
  have "inj_on irp (set S)" "snd w \<in> set S"
    using h w(1) by (auto simp: accounted_def distinct_map waiting_def)
  then have wi: "snd w = i" using w(2) assms(2) by (auto dest: inj_onD)
  then have iW: "i \<in># image_mset snd ?W" using w(1) by (force simp: waiting_def)
  have f: "filter_mset (\<lambda>x. x \<notin> set K) (image_mset snd ?W) =
           add_mset i (filter_mset (\<lambda>x. x \<notin> set (i # K)) (image_mset snd ?W))"
    using once_filter_split [OF _ iW k] h by (simp add: accounted_def)
  have "i \<notin> snd ` set (client_items c)"
  proof -
    have "once (image_mset snd (mset (memory_items c @ request_items c)) + image_mset snd (mset (client_items c)))"
      using h by (simp add: accounted_def waiting_def add.assoc)
    moreover have "i \<in># image_mset snd (mset (memory_items c @ request_items c))" using w(1) wi by force
    ultimately have "i \<notin># image_mset snd (mset (client_items c))" by (rule once_union)
    then show ?thesis by simp
  qed
  then have "kinds_ok (i # K) c" using h by (auto simp: kinds_ok_def)
  moreover have "accounted S (i # K) {#} (?W + {#}) (snd (IoCancelIrp i m))"
    using h f iW assms(2) by (auto simp: accounted_def IoCancelIrp_def IoSetCancelRoutine_def)
  moreover have "routines_ok (i # K) (c, snd (IoCancelIrp i m))"
    using h by (auto simp: routines_ok_def IoCancelIrp_def IoSetCancelRoutine_def split: if_splits)
  ultimately show ?thesis using k by (simp add: held_def)
qed

lemma accounted_cancel_ends:
  assumes "accounted S K I (D + W) m" "i \<in> set K" "snd ` set_mset D \<subseteq> {i}" "i \<notin> snd ` set_mset W"
    "completed m' = completed m @ [(irp i, x)]" "Cancel m' = Cancel m" "fst ` set_mset W \<subseteq> blocks m'"
  shows "accounted S (remove1 i K) I W m'"
proof -
  have a: "accounted S K I W m" using accounted_drop [OF assms(1)] assms(2,3) by blast
  have "mset (map fst (completed m)) +
      image_mset irp (I + filter_mset (\<lambda>i. i \<notin> set K) (image_mset snd W)) + mset (map irp K) = mset (map irp S)"
    using a by (simp add: accounted_def add.assoc)
  then have "mset (map irp K) \<subseteq># mset (map irp S)" by (metis mset_subset_eq_add_right)
  moreover have "once (mset (map irp S))" using a unfolding once_mset by (simp add: accounted_def)
  ultimately have "distinct (map irp K)" using once_subset once_mset by blast
  then have k: "set (remove1 i K) = set K - {i}" "mset K = add_mset i (mset (remove1 i K))"
    using assms(2) by (auto simp: distinct_map)
  have f: "filter_mset (\<lambda>x. x \<notin> set (remove1 i K)) (image_mset snd W) = filter_mset (\<lambda>x. x \<notin> set K) (image_mset snd W)"
    using assms(4) k(1) by (intro filter_mset_cong) auto
  have c: "\<exists>x. Cancel m x" using a assms(2) by (auto simp: accounted_def)
  have "mset (map fst (completed m')) + image_mset irp (I + filter_mset (\<lambda>x. x \<notin> set (remove1 i K)) (image_mset snd W) + mset (remove1 i K)) =
        mset (map fst (completed m)) + image_mset irp (I + filter_mset (\<lambda>i. i \<notin> set K) (image_mset snd W) + mset K)"
    unfolding f k(2) assms(5) by simp
  also have "\<dots> = mset (map irp S)" using a by (simp add: accounted_def)
  finally have e: "mset (map fst (completed m')) + image_mset irp (I + filter_mset (\<lambda>x. x \<notin> set (remove1 i K)) (image_mset snd W) + mset (remove1 i K)) =
        mset (map irp S)" .
  have d: "x \<in> irp ` set (remove1 i K) \<union> fst ` set (completed m')" if "Cancel m' x" for x
  proof -
    have "x \<in> irp ` set K \<union> fst ` set (completed m)"
      using a that unfolding accounted_def assms(6) by blast
    then show ?thesis unfolding assms(5) k(1) by auto
  qed
  show ?thesis
    unfolding accounted_def
  proof (intro conjI)
    show "set_mset I \<union> snd ` set_mset W \<union> set (remove1 i K) \<subseteq> set S" "set (remove1 i K) \<inter> set_mset I = {}"
      "\<forall>i \<in> set (remove1 i K). Cancel m' (irp i)"
      using a by (auto simp: accounted_def k(1) assms(6))
    show "distinct (map irp S)" "once (image_mset snd W)" "once (image_mset fst W)"
      using a by (simp_all add: accounted_def)
    show "mset (map fst (completed m')) + image_mset irp (I + filter_mset (\<lambda>x. x \<notin> set (remove1 i K)) (image_mset snd W) + mset (remove1 i K)) =
        mset (map irp S)" by (rule e)
    show "\<forall>x. Cancel m' x \<longrightarrow> x \<in> irp ` set (remove1 i K) \<union> fst ` set (completed m')" using d by blast
    show "fst ` set_mset W \<subseteq> blocks m'" by (rule assms(7))
    show "(\<forall>x. \<not> Cancel m' x) \<longrightarrow> blocks m' = fst ` set_mset W" using c assms(6) by auto
  qed
qed

lemma held_cancel_ends:
  assumes "held S K {#} {#} (c, m)" "i \<in> set K"
  shows "held S (remove1 i K) {#} {#} (DevIoDrvServerIrpCancelRoutine i (c, m))"
proof -
  note h = assms(1) [unfolded held_def fst_conv snd_conv]
  let ?K = "remove1 i K"
  have inS: "i \<in> set S" "inj_on irp (set S)" using h assms(2) by (auto simp: accounted_def distinct_map)
  have same: "j = i" if "j \<in> snd ` set (waiting c)" "irp j = irp i" for j
    using that inS h by (auto simp: accounted_def dest: inj_onD)
  have sub: "set ?K \<subseteq> set K" by (rule set_remove1_subset)
  have nc: "i \<notin> snd ` set (client_items c)" using h assms(2) by (auto simp: kinds_ok_def)
  have ended: "held S ?K {#} {#} (c', DevIoDrvCompleteIrp i st len m')"
    if w: "mset (waiting c) = D + mset (waiting c')" "snd ` set_mset D \<subseteq> {i}" "i \<notin> snd ` set (waiting c')"
      and f: "completed m' = completed m" "Cancel m' = Cancel m" "CancelRoutine m' = CancelRoutine m"
        "fst ` set (waiting c') \<subseteq> blocks m'"
      and k: "kinds_ok K c'"
      and it: "\<And>w. w \<in> set (memory_items c) \<union> set (request_items c) \<Longrightarrow>
                 snd w = i \<or> w \<in> set (memory_items c') \<union> set (request_items c')" for c' m' D st len
  proof -
    have "accounted S ?K {#} (mset (waiting c') + {#}) (DevIoDrvCompleteIrp i st len m')"
      using h assms(2) w f by (intro accounted_cancel_ends [of S K "{#}" D _ m]) (auto simp: DevIoDrvCompleteIrp_def)
    moreover have "kinds_ok ?K c'" using k sub by (auto simp: kinds_ok_def)
    moreover have "routines_ok K (c, m)" using h by simp
    then have "routines_ok ?K (c', m')"
      by (rule routines_ok_fewer) (use sub f(3) it assms(2) in auto)
    ultimately show ?thesis by (simp add: held_def)
  qed
  have once: "once (image_mset fst (mset (waiting c)))" "once (image_mset snd (mset (waiting c)))"
    "fst ` set (waiting c) \<subseteq> blocks m"
    using h by (auto simp: accounted_def)
  have gone: "held S ?K {#} {#} (c, DevIoDrvCompleteIrp i st len m')" if "i \<notin> snd ` set (waiting c)"
      "completed m' = completed m" "Cancel m' = Cancel m" "CancelRoutine m' = CancelRoutine m" "blocks m' = blocks m" for st len m'
    using that h once by (intro ended [of "{#}"]) auto
  consider (exchange) "IoControlCode i = IOCTL_DEVIODRV_EXCHANGE_IO" | (lock) "IoControlCode i = IOCTL_DEVIODRV_LOCK_MEMORY"
    | (other) "IoControlCode i \<noteq> IOCTL_DEVIODRV_EXCHANGE_IO" "IoControlCode i \<noteq> IOCTL_DEVIODRV_LOCK_MEMORY" by blast
  then show ?thesis
  proof cases
    case other
    then have "i \<notin> snd ` set (waiting c)" using h nc by (auto simp: waiting_def kinds_ok_def)
    from gone [OF this] other show ?thesis
      by (auto simp: DevIoDrvServerIrpCancelRoutine_def split: fwd_code.splits)
  next
    case exchange
    then have nm: "i \<notin> snd ` set (memory_items c)" using h by (auto simp: kinds_ok_def)
    show ?thesis
    proof (cases "List.extract (\<lambda>item. irp (Irp item) = irp i) (ServerRequestIrpList c)")
      case None
      then have "i \<notin> snd ` set (waiting c)"
        using nm nc by (auto simp: waiting_def item_lists extract_None_iff)
      from gone [OF this] show ?thesis using exchange None by (simp add: DevIoDrvServerIrpCancelRoutine_def)
    next
      case (Some t)
      obtain before item after where t: "t = (before, item, after)" by (cases t)
      have l: "ServerRequestIrpList c = before @ item # after" "irp (Irp item) = irp i"
        using Some t by (auto simp: extract_Some_iff)
      have it: "Irp item = i" using same l by (auto simp: waiting_def item_lists)
      let ?c = "c\<lparr>ServerRequestIrpList := before @ after\<rparr>"
      have w: "mset (waiting c) = {#(ListEntry item, i)#} + mset (waiting ?c)"
        using l it by (simp add: waiting_def item_lists)
      then have n: "i \<notin> snd ` set (waiting ?c)" "ListEntry item \<notin> fst ` set (waiting ?c)" using once by simp_all
      have "fst ` set (waiting ?c) \<subseteq> fst ` set (waiting c)" unfolding set_mset_mset [symmetric] w by auto
      then have "fst ` set (waiting ?c) \<subseteq> blocks m - {ListEntry item}" using n(2) once(3) by blast
      moreover have "kinds_ok K ?c" using h l by (auto simp: kinds_ok_def item_lists)
      ultimately have "held S ?K {#} {#} (?c, DevIoDrvCompleteIrp i STATUS_CANCELLED 0 (ExFreePool (ListEntry item) m))"
        using n(1) l it by (intro ended [OF w]) (auto simp: ExFreePool_def item_lists)
      then show ?thesis using exchange Some t by (simp add: DevIoDrvServerIrpCancelRoutine_def)
    qed
  next
    case lock
    then have nm: "i \<notin> snd ` set (request_items c)" using h by (auto simp: kinds_ok_def)
    show ?thesis
    proof (cases "List.extract (\<lambda>mi. irp (MemoryItemIrp mi) = irp i) (ServerMemoryIrpList c)")
      case None
      then have "i \<notin> snd ` set (waiting c)"
        using nm nc by (auto simp: waiting_def item_lists extract_None_iff)
      from gone [OF this] show ?thesis using lock None by (simp add: DevIoDrvServerIrpCancelRoutine_def)
    next
      case (Some t)
      obtain before item after where t: "t = (before, item, after)" by (cases t)
      have l: "ServerMemoryIrpList c = before @ item # after" "irp (MemoryItemIrp item) = irp i"
        using Some t by (auto simp: extract_Some_iff)
      have it: "MemoryItemIrp item = i" using same l by (auto simp: waiting_def item_lists)
      let ?c = "c\<lparr>ServerMemoryIrpList := before @ after\<rparr>"
      have w: "mset (waiting c) = {#(MemoryEntry item, i)#} + mset (waiting ?c)"
        using l it by (simp add: waiting_def item_lists)
      then have n: "i \<notin> snd ` set (waiting ?c)" "MemoryEntry item \<notin> fst ` set (waiting ?c)" using once by simp_all
      have "fst ` set (waiting ?c) \<subseteq> fst ` set (waiting c)" unfolding set_mset_mset [symmetric] w by auto
      then have "fst ` set (waiting ?c) \<subseteq> blocks m - {MemoryEntry item}" using n(2) once(3) by blast
      moreover have "kinds_ok K ?c" using h l by (auto simp: kinds_ok_def item_lists)
      ultimately have "held S ?K {#} {#} (?c, DevIoDrvCompleteIrp i STATUS_CANCELLED 0 (ExFreePool (MemoryEntry item) m))"
        using n(1) l it by (intro ended [OF w]) (auto simp: ExFreePool_def item_lists)
      then show ?thesis using lock Some t by (simp add: DevIoDrvServerIrpCancelRoutine_def)
    qed
  qed
qed

section \<open>The server goes\<close>

lemma complete_item_context [simp]:
  "MemoryIrp item = None \<Longrightarrow> fst (DevIoDrvCompleteIrpQueueItem item st len (c, m)) = c"
  by (simp add: DevIoDrvCompleteIrpQueueItem_def)

lemma cancel_item_context [simp]:
  "MemoryIrp item = None \<Longrightarrow> fst (cancel_item item (c, m)) = c"
  by (auto simp: cancel_item_def Let_def split: option.splits)

lemma held_cancel_item:
  assumes "held S K I (in_hand item + H) (c, IoSetCancelRoutine (Irp item) False m)" "MemoryIrp item = None"
  shows "held S K I H (cancel_item item (c, m))"
proof -
  have h: "held S K I (in_hand (item\<lparr>MemoryIrp := None, MappedBuffer := b\<rparr>) + H) (c, IoSetCancelRoutine (Irp item) False m)" for b
    using assms by (simp add: in_hand_def)
  then have "held S K I (in_hand (item\<lparr>MemoryIrp := None, MappedBuffer := b\<rparr>) + H)
      (c, close_message x (IoSetCancelRoutine (Irp item) False m))" for b x
    by (simp add: close_message_def)
  from held_complete_item [OF this] held_complete_item [OF h] show ?thesis
    using assms(2) by (simp add: cancel_item_def Let_def split: option.splits)
qed

lemma held_cancel_requests:
  "held S [] I H (c, m) \<Longrightarrow> ServerRequestIrpList c = items \<Longrightarrow>
   held S [] I H (cancel_requests items (c, m)) \<and>
   fst (cancel_requests items (c, m)) = c\<lparr>ServerRequestIrpList := []\<rparr>"
proof (induction items arbitrary: c m)
  case Nil
  then show ?case by simp
next
  case (Cons item rest)
  let ?c = "c\<lparr>ServerRequestIrpList := rest\<rparr>"
  have t: "held S [] I (in_hand item + H) (?c, IoSetCancelRoutine (Irp item) False m)" "MemoryIrp item = None"
    using held_take_request [OF Cons.prems(1), of "[]" item rest] Cons.prems(2) by (simp_all add: in_hand_plain)
  obtain m' where m': "cancel_item item (?c, m) = (?c, m')"
    using cancel_item_context [OF t(2), of ?c m] by (metis prod.collapse)
  have "held S [] I H (?c, m')" using held_cancel_item [OF t] m' by simp
  from Cons.IH [OF this] show ?case by (simp add: m')
qed

lemma held_cancel_memory:
  "held S [] I H (c, m) \<Longrightarrow> ServerMemoryIrpList c = items \<Longrightarrow>
   held S [] I H (cancel_memory items (c, m)) \<and>
   fst (cancel_memory items (c, m)) = c\<lparr>ServerMemoryIrpList := []\<rparr>"
proof (induction items arbitrary: c m)
  case Nil
  then show ?case by simp
next
  case (Cons mi rest)
  let ?c = "c\<lparr>ServerMemoryIrpList := rest\<rparr>"
  let ?item = "memory_queue_item mi"
  have w: "mset (waiting ?c) + add_mset (MemoryEntry mi, MemoryItemIrp mi) H = mset (waiting c) + H"
    using Cons.prems(2) by (simp add: waiting_def item_lists)
  have "routines_ok [] (?c, IoSetCancelRoutine (MemoryItemIrp mi) False m)"
    by (rule routines_ok_fewer [of "[]" c m])
      (use Cons.prems in \<open>auto simp: held_def item_lists IoSetCancelRoutine_def split: if_splits\<close>)
  moreover have "accounted S [] I (mset (waiting ?c) + add_mset (MemoryEntry mi, MemoryItemIrp mi) H) (IoSetCancelRoutine (MemoryItemIrp mi) False m)"
    unfolding w using Cons.prems(1) by (simp add: held_def)
  ultimately have t: "held S [] I (in_hand ?item + H) (?c, IoSetCancelRoutine (Irp ?item) False m)" "MemoryIrp ?item = None"
    using Cons.prems
    by (auto simp: held_def kinds_ok_def item_lists memory_queue_item_def new_item_def in_hand_def)
  obtain m' where m': "cancel_item ?item (?c, m) = (?c, m')"
    using cancel_item_context [OF t(2), of ?c m] by (metis prod.collapse)
  have "held S [] I H (?c, m')" using held_cancel_item [OF t] m' by simp
  from Cons.IH [OF this] show ?case by (simp add: m')
qed

lemma held_cancel_clients:
  "held S K I (mset (map (\<lambda>item. (ListEntry item, Irp item)) items) + H) (c, m) \<Longrightarrow>
   \<forall>item \<in> set items. MemoryIrp item = None \<Longrightarrow>
   held S K I H (cancel_clients items (c, m)) \<and> fst (cancel_clients items (c, m)) = c"
proof (induction items arbitrary: m)
  case Nil
  then show ?case by (simp add: cancel_clients_def)
next
  case (Cons item rest)
  have p: "MemoryIrp item = None" using Cons.prems(2) by simp
  obtain m' where m': "DevIoDrvCompleteIrpQueueItem item STATUS_DEVICE_DOES_NOT_EXIST 0 (c, m) = (c, m')"
    using complete_item_context [OF p, of STATUS_DEVICE_DOES_NOT_EXIST 0 c m] by (metis prod.collapse)
  have "held S K I (mset (map (\<lambda>item. (ListEntry item, Irp item)) rest) + H) (c, m')"
    using held_complete_item [of S K I item _ "(c, m)" STATUS_DEVICE_DOES_NOT_EXIST 0] Cons.prems p
    by (simp add: in_hand_plain m')
  from Cons.IH [OF this] Cons.prems(2) show ?case by (simp add: cancel_clients_def m')
qed

lemma held_cancel_all:
  assumes "held S [] I H s"
  shows "held S [] I H (DevIoDrvCancelAll s) \<and> waiting (fst (DevIoDrvCancelAll s)) = []"
proof -
  obtain c m where s: "s = (c, m)" by fastforce
  define r1 where "r1 = cancel_requests (ServerRequestIrpList c) (c\<lparr>Server := None\<rparr>, m)"
  obtain c1 m1 where r1: "r1 = (c1, m1)" by fastforce
  have "held S [] I H (c\<lparr>Server := None\<rparr>, m)" using assms by (simp add: s)
  from held_cancel_requests [OF this, of "ServerRequestIrpList c"]
  have "held S [] I H r1 \<and> fst r1 = c\<lparr>Server := None, ServerRequestIrpList := []\<rparr>"
    by (simp add: r1_def [symmetric])
  then have 1: "held S [] I H (c1, m1)" "c1 = c\<lparr>Server := None, ServerRequestIrpList := []\<rparr>"
    unfolding r1 by auto
  define r2 where "r2 = cancel_memory (ServerMemoryIrpList c1) (c1, m1)"
  obtain c2 m2 where r2: "r2 = (c2, m2)" by fastforce
  from held_cancel_memory [OF 1(1) refl]
  have "held S [] I H r2 \<and> fst r2 = c1\<lparr>ServerMemoryIrpList := []\<rparr>"
    by (simp add: r2_def [symmetric])
  then have 2: "held S [] I H (c2, m2)" "c2 = c1\<lparr>ServerMemoryIrpList := []\<rparr>"
    unfolding r2 by auto
  let ?c = "c2\<lparr>ClientReceivedIrpList := [], ClientSentIrpList := []\<rparr>"
  let ?items = "\<lambda>l. mset (map (\<lambda>item. (ListEntry item, Irp item)) l)"
  have w: "mset (waiting ?c) + (?items (ClientReceivedIrpList c2) + (?items (ClientSentIrpList c2) + H)) = mset (waiting c2) + H"
    by (simp add: waiting_def item_lists 1 2)
  have e: "waiting ?c = []" by (simp add: waiting_def item_lists 1 2)
  have "held S [] I (?items (ClientReceivedIrpList c2) + (?items (ClientSentIrpList c2) + H)) (?c, m2)"
    using 2(1) unfolding held_def fst_conv snd_conv w by (auto simp: kinds_ok_def item_lists routines_ok_def)
  moreover have p: "\<forall>item \<in> set (ClientReceivedIrpList c2). MemoryIrp item = None" "\<forall>item \<in> set (ClientSentIrpList c2). MemoryIrp item = None"
    using 2(1) by (auto simp: held_def kinds_ok_def)
  ultimately have 3: "held S [] I (?items (ClientSentIrpList c2) + H) (cancel_clients (ClientReceivedIrpList c2) (?c, m2))"
      "fst (cancel_clients (ClientReceivedIrpList c2) (?c, m2)) = ?c"
    using held_cancel_clients by blast+
  obtain m3 where m3: "cancel_clients (ClientReceivedIrpList c2) (?c, m2) = (?c, m3)" using 3(2) by (metis prod.collapse)
  from held_cancel_clients [OF 3(1) [unfolded m3] p(2)]
  have 4: "held S [] I H (cancel_clients (ClientSentIrpList c2) (?c, m3))"
      "fst (cancel_clients (ClientSentIrpList c2) (?c, m3)) = ?c" by simp_all
  have "DevIoDrvCancelAll s = cancel_clients (ClientSentIrpList c2) (?c, m3)"
    unfolding DevIoDrvCancelAll_def s fst_conv snd_conv r1_def [symmetric] r1 prod.case r2_def [symmetric] r2 m3 ..
  then show ?thesis using 4 e by simp
qed

end
