(* ===== verification/Fwd_Run.thy ===== *)
theory Fwd_Run
  imports Fwd_Cancel
begin

text \<open>
  Runs of the forwarding driver: an event is a call of a handler, a cancellation's start, its routine,
  the end of the server, or the server process writing to memory it lent. Orderly runs keep account of
  every request; two disorderly ones do not.
\<close>

section \<open>Events and runs\<close>

datatype fwd_event =
    LockMemory fwd_irp | Exchange fwd_irp | ClientRequest fwd_irp
  | CancelStarts fwd_irp | CancelRuns fwd_irp | ServerGone | ServerWrites nat "byte list"

text \<open>The state of a run: the requests given to the driver, those in the course of cancellation, and
  the file's context with the machine.\<close>

type_synonym run_state = "fwd_irp list \<times> fwd_irp list \<times> fwd"

inductive fwd_step :: "pool \<Rightarrow> run_state \<Rightarrow> fwd_event \<Rightarrow> run_state \<Rightarrow> bool" for pool where
  lock: "irp i \<notin> irp ` set S \<Longrightarrow> IoControlCode i = IOCTL_DEVIODRV_LOCK_MEMORY \<Longrightarrow>
    fwd_step pool (S, K, s) (LockMemory i) (i # S, K, snd (DevIoDrvDispatchServerLockMemory pool i s))"
| exchange: "irp i \<notin> irp ` set S \<Longrightarrow> IoControlCode i = IOCTL_DEVIODRV_EXCHANGE_IO \<Longrightarrow>
    fwd_step pool (S, K, s) (Exchange i) (i # S, K, snd (DevIoDrvDispatchServerIORequest pool i s))"
| client: "irp i \<notin> irp ` set S \<Longrightarrow>
    fwd_step pool (S, K, s) (ClientRequest i) (i # S, K, snd (DevIoDrvDispatchClientRequest pool i s))"
| cancel: "i \<in> set S \<or> irp i \<notin> irp ` set S \<Longrightarrow> irp i \<notin> fst ` set (completed m) \<Longrightarrow>
    IoCancelIrp i m = (runs, m') \<Longrightarrow>
    fwd_step pool (S, K, (c, m)) (CancelStarts i) (S, if runs then i # K else K, (c, m'))"
| routine: "i \<in> set K \<Longrightarrow>
    fwd_step pool (S, K, s) (CancelRuns i) (S, remove1 i K, DevIoDrvServerIrpCancelRoutine i s)"
| gone: "fwd_step pool (S, K, s) ServerGone (S, K, DevIoDrvCancelAll s)"
| writes: "length bs = length (mdl m b) \<Longrightarrow>
    fwd_step pool (S, K, (c, m)) (ServerWrites b bs) (S, K, (c, m\<lparr>mdl := (mdl m)(b := bs)\<rparr>))"

inductive_cases fwd_stepE: "fwd_step pool st e st'"

inductive fwd_run :: "(run_state \<Rightarrow> fwd_event \<Rightarrow> bool) \<Rightarrow> pool \<Rightarrow> run_state \<Rightarrow> run_state \<Rightarrow> bool" for P pool where
  refl: "fwd_run P pool st st"
| step: "fwd_run P pool st st' \<Longrightarrow> P st' e \<Longrightarrow> fwd_step pool st' e st'' \<Longrightarrow> fwd_run P pool st st''"

text \<open>In an orderly run only requests that wait with a cancel routine are cancelled, and the server does
  not go while a cancel routine is on its way.\<close>

fun orderly :: "run_state \<Rightarrow> fwd_event \<Rightarrow> bool" where
  "orderly (S, K, s) (CancelStarts i) = CancelRoutine (snd s) (irp i)"
| "orderly (S, K, s) ServerGone = (K = [])"
| "orderly (S, K, s) _ = True"

definition new_context :: "string \<Rightarrow> nat \<Rightarrow> object_context" where
  "new_context name server = \<lparr>Name = name, RefCount = 1, FileSize = 0, AlignmentRequirement = 0, ServiceFlags = 0,
     Server = Some server, Client = None, ServerMemoryIrpList = [], ServerRequestIrpList = [],
     ClientReceivedIrpList = [], ClientSentIrpList = []\<rparr>"

definition new_machine :: "(nat \<Rightarrow> byte list) \<Rightarrow> (nat \<Rightarrow> byte list) \<Rightarrow> machine" where
  "new_machine pages buffers = \<lparr>mdl = pages, SystemBuffer = buffers, completed = [], Cancel = (\<lambda>_. False),
     CancelRoutine = (\<lambda>_. False), blocks = {}, fault = False\<rparr>"

section \<open>Keeping account\<close>

lemma held_submit:
  assumes "held S K {#} {#} s" "irp i \<notin> irp ` set S"
  shows "held (i # S) K {#i#} {#} s"
  using assms by (auto simp: held_def accounted_def)

lemma held_start: "held [] [] {#} {#} (new_context name server, new_machine pages buffers)"
  by (simp add: held_def accounted_def kinds_ok_def routines_ok_def waiting_def item_lists new_context_def
      new_machine_def once_def)

lemma held_step:
  assumes "fwd_step pool st e st'" "orderly st e" "pool_ok pool" "held (fst st) (fst (snd st)) {#} {#} (snd (snd st))"
  shows "held (fst st') (fst (snd st')) {#} {#} (snd (snd st'))"
  using assms(1)
proof cases
  case (lock i S K s)
  with assms(3,4) show ?thesis using held_lock [OF held_submit] by simp
next
  case (exchange i S K s)
  with assms(3,4) show ?thesis using held_exchange [OF held_submit] by simp
next
  case (client i S K s)
  with assms(3,4) show ?thesis using held_client [OF held_submit] by simp
next
  case (cancel i S m runs m' K c)
  have r: "CancelRoutine m (irp i)" using cancel(1,2) assms(2) by simp
  have h: "held S K {#} {#} (c, m)" using cancel(1) assms(4) by simp
  have "snd ` set (waiting c) \<subseteq> set S" using h by (simp add: held_def accounted_def)
  moreover have "irp i \<in> irp ` snd ` set (waiting c)"
    using r h by (force simp: held_def routines_ok_def waiting_def)
  ultimately have "irp i \<in> irp ` set S" by blast
  then have "i \<in> set S" using cancel(4) by simp
  from held_cancel_begins [OF h this r] show ?thesis
    using cancel(3,6) r by (simp add: IoCancelIrp_def)
next
  case (routine i K S s)
  with assms(4) show ?thesis using held_cancel_ends [of S K "fst s" "snd s" i] by simp
next
  case (gone S K s)
  with assms(2,4) show ?thesis using held_cancel_all [of S "{#}" "{#}" s] by simp
next
  case (writes bs m b S K c)
  with assms(4) show ?thesis by simp
qed

lemma held_run:
  assumes "fwd_run orderly pool st st'" "pool_ok pool" "held (fst st) (fst (snd st)) {#} {#} (snd (snd st))"
  shows "held (fst st') (fst (snd st')) {#} {#} (snd (snd st'))"
  using assms by (induction rule: fwd_run.induct) (blast intro: held_step)+

section \<open>Every request has one place\<close>

definition pending :: "fwd_irp list \<Rightarrow> object_context \<Rightarrow> nat list" where
  "pending K c = map (irp \<circ> snd) (filter (\<lambda>w. snd w \<notin> set K) (waiting c)) @ map irp K"

lemma held_pending:
  assumes "held S K {#} {#} (c, m)"
  shows "mset (map fst (completed m) @ pending K c) = mset (map irp S) \<and> distinct (map irp S)"
proof -
  have "mset (pending K c) =
      image_mset irp (filter_mset (\<lambda>i. i \<notin> set K) (image_mset snd (mset (waiting c)))) + image_mset irp (mset K)"
    by (simp add: pending_def filter_mset_image_mset image_mset.compositionality comp_def flip: mset_filter)
  then show ?thesis using assms by (simp add: held_def accounted_def)
qed

text \<open>C34. No request is lost and none is completed twice: in every orderly run of the forwarding driver,
  from the creation of a file on, the completed requests together with those that wait or are being
  cancelled are exactly the requests given to the driver, each of them once.\<close>

theorem every_request_has_one_place:
  assumes "pool_ok pool"
    "fwd_run orderly pool ([], [], (new_context name server, new_machine pages buffers)) (S, K, (c, m))"
  shows "mset (map fst (completed m) @ pending K c) = mset (map irp S) \<and> distinct (map irp S)"
proof -
  have "held S K {#} {#} (c, m)"
    using held_run [OF assms(2,1)] held_start by simp
  then show ?thesis by (rule held_pending)
qed

definition two_blocks :: pool where
  "two_blocks B = (if 4096 \<notin> B then Some 4096 else if 8192 \<notin> B then Some 8192 else None)"

lemma two_blocks_ok: "pool_ok two_blocks"
  by (auto simp: pool_ok_def two_blocks_def split: if_splits)

definition server_call :: "nat \<Rightarrow> fwd_irp" where
  "server_call n = \<lparr>irp = n, FileObject = 1, MajorFunction = IRP_MJ_DEVICE_CONTROL, MinorFunctionOk = True,
     IoControlCode = IOCTL_DEVIODRV_EXCHANGE_IO, ByteOffset = 0, Length = 0, InputBufferLength = 0,
     OutputBufferLength = 8192, MdlMaps = True\<rparr>"

definition client_read :: "nat \<Rightarrow> int \<Rightarrow> int \<Rightarrow> fwd_irp" where
  "client_read n off len = \<lparr>irp = n, FileObject = 2, MajorFunction = IRP_MJ_READ, MinorFunctionOk = True,
     IoControlCode = FS_CODE_OTHER, ByteOffset = off, Length = len, InputBufferLength = 0,
     OutputBufferLength = 0, MdlMaps = True\<rparr>"

definition sample_start :: fwd where
  "sample_start = (new_context ''f'' 1, new_machine (\<lambda>_. replicate 8192 0) (\<lambda>_. []))"

lemmas sample_defs = sample_start_def new_context_def new_machine_def server_call_def client_read_def

lemma server_waits:
  assumes "blocks m = {}" "ClientReceivedIrpList c = []" "mdl m n = replicate 8192 0"
  shows "DevIoDrvDispatchServerIORequest two_blocks (server_call n) (c, m) =
    (STATUS_PENDING, (c\<lparr>ServerRequestIrpList := ServerRequestIrpList c @ [new_item 4096 (server_call n)]\<rparr>,
       IoSetCancelRoutine (server_call n) True (m\<lparr>blocks := {4096}\<rparr>)))"
  using assms
  by (simp add: DevIoDrvDispatchServerIORequest_def DevIoDrvReserveMemoryIrp_def server_call_def PROXY_HEADER_SIZE_def
      qword_def Let_def server_answer_def REQ_INFO_def REQ_NULL_def server_next_def two_blocks_def
      DevIoDrvQueueMemoryIrpUnsafe_def)

lemma start_run: "fwd_step pool st e st' \<Longrightarrow> P st e \<Longrightarrow> fwd_run P pool st st'"
  by (rule fwd_run.step [OF fwd_run.refl])

lemma sample_waits:
  "fwd_run orderly two_blocks ([], [], sample_start)
     ([server_call 7], [], snd (DevIoDrvDispatchServerIORequest two_blocks (server_call 7) sample_start))"
  by (rule start_run [OF fwd_step.exchange]) (simp_all add: server_call_def)

theorem every_request_has_one_place_witness:
  "\<exists>c m. fwd_run orderly two_blocks ([], [], sample_start) ([server_call 7], [], (c, m)) \<and>
         mset (map fst (completed m) @ pending [] c) = {#7#}"
proof -
  obtain c m where cm: "snd (DevIoDrvDispatchServerIORequest two_blocks (server_call 7) sample_start) = (c, m)"
    by fastforce
  from sample_waits have run: "fwd_run orderly two_blocks ([], [], sample_start) ([server_call 7], [], (c, m))"
    unfolding cm .
  from every_request_has_one_place [OF two_blocks_ok run [unfolded sample_start_def]] run
  show ?thesis by (auto simp: server_call_def)
qed



section \<open>Two disorderly runs\<close>


text \<open>A server call that is being cancelled when the server goes is completed twice: the end of the
  server completes everything in its queues without looking whether a cancel routine has been called,
  and the routine, which waited for the lock, then completes the same request.\<close>

lemma completed_twice:
  "\<exists>S c m. fwd_run (\<lambda>_ _. True) two_blocks ([], [], sample_start) (S, [], (c, m)) \<and>
     count_list (map fst (completed m)) 7 = 2"
proof -
  let ?P = "\<lambda>_ _. True"
  let ?i = "server_call 7"
  define s1 where "s1 = snd (DevIoDrvDispatchServerIORequest two_blocks ?i sample_start)"
  define s2 where "s2 = (fst s1, snd (IoCancelIrp ?i (snd s1)))"
  define s3 where "s3 = DevIoDrvCancelAll s2"
  define s4 where "s4 = DevIoDrvServerIrpCancelRoutine ?i s3"
  have s1: "s1 = (new_context ''f'' 1\<lparr>ServerRequestIrpList := [new_item 4096 ?i]\<rparr>,
      IoSetCancelRoutine ?i True (snd sample_start\<lparr>blocks := {4096}\<rparr>))"
    using server_waits [of "snd sample_start" "fst sample_start" 7] by (simp add: s1_def sample_start_def new_context_def new_machine_def)
  have "fwd_step two_blocks ([], [], sample_start) (Exchange ?i) ([?i], [], s1)"
    using fwd_step.exchange [of ?i "[]" two_blocks "[]" sample_start] by (simp add: s1_def server_call_def)
  from start_run [OF this]
  have "fwd_run ?P two_blocks ([], [], sample_start) ([?i], [], s1)" by simp
  moreover have "fwd_step two_blocks ([?i], [], s1) (CancelStarts ?i) ([?i], [?i], s2)"
    using fwd_step.cancel [of ?i "[?i]" "snd s1" True "snd s2" two_blocks "[]" "fst s1"]
    by (simp add: s2_def s1 IoCancelIrp_def IoSetCancelRoutine_def sample_start_def new_machine_def)
  ultimately have "fwd_run ?P two_blocks ([], [], sample_start) ([?i], [?i], s2)" by (blast intro: fwd_run.step)
  moreover have "fwd_step two_blocks ([?i], [?i], s2) ServerGone ([?i], [?i], s3)"
    using fwd_step.gone by (simp add: s3_def)
  ultimately have "fwd_run ?P two_blocks ([], [], sample_start) ([?i], [?i], s3)" by (blast intro: fwd_run.step)
  moreover have "fwd_step two_blocks ([?i], [?i], s3) (CancelRuns ?i) ([?i], [], s4)"
    using fwd_step.routine [of ?i "[?i]"] by (simp add: s4_def)
  ultimately have run: "fwd_run ?P two_blocks ([], [], sample_start) ([?i], [], s4)" by (blast intro: fwd_run.step)
  have "map fst (completed (snd s4)) = [7, 7]"
    by (simp add: s4_def s3_def s2_def s1 DevIoDrvCancelAll_def cancel_item_def new_item_def new_context_def
        DevIoDrvCompleteIrpQueueItem_def cancel_clients_def DevIoDrvServerIrpCancelRoutine_def server_call_def
        DevIoDrvCompleteIrp_def ExFreePool_def IoSetCancelRoutine_def IoCancelIrp_def sample_start_def
        new_machine_def List.extract_def)
  then show ?thesis
    using run by (intro exI [of _ "[?i]"] exI [of _ "fst s4"] exI [of _ "snd s4"]) simp
qed

end
