(* ===== verification/Fwd_Disk.thy ===== *)
theory Fwd_Disk
  imports Fwd_Run FD_Store
begin

text \<open>
  A server that follows the protocol, the forwarding driver and a client: together they are a disk. The
  server keeps one exchange call posted, answers each request in its next call, and doubles its buffer
  when a request does not fit.
\<close>

section \<open>Bytes in a buffer\<close>

definition slice :: "nat \<Rightarrow> nat \<Rightarrow> byte list \<Rightarrow> byte list" where
  "slice p n bs = take n (drop p bs)"

lemma length_put_at [simp]: "p + length bs \<le> length v \<Longrightarrow> length (put_at p bs v) = length v"
  by (simp add: put_at_def)

lemma slice_put_same: "p \<le> length v \<Longrightarrow> n = length bs \<Longrightarrow> slice p n (put_at p bs v) = bs"
  by (simp add: slice_def put_at_def)

lemma slice_put_other:
  assumes "p + length bs \<le> q \<or> q + n \<le> p" "p + length bs \<le> length v"
  shows "slice q n (put_at p bs v) = slice q n v"
proof (cases "p + length bs \<le> q")
  case True
  then have "drop q (put_at p bs v) = drop q v"
    using assms(2) by (simp add: put_at_def)
  then show ?thesis by (simp add: slice_def)
next
  case False
  then have q: "q + n \<le> p" using assms(1) by simp
  then have "take (q + n) (put_at p bs v) = take (q + n) v"
    using assms(2) by (simp add: put_at_def min_def)
  then show ?thesis by (metis slice_def drop_take add_diff_cancel_left')
qed

lemma qword_slice: "qword p bs = le_of (slice p 8 bs)"
  by (simp add: qword_def slice_def)

lemma qword_put_same: "p \<le> length v \<Longrightarrow> 0 \<le> x \<Longrightarrow> x < 2 ^ 64 \<Longrightarrow> qword p (put_at p (to_le 8 (u64 x)) v) = x"
  by (simp add: qword_slice slice_put_same le_of_to_le u64_def)

lemma qword_put_other:
  "p + length bs \<le> q \<or> q + 8 \<le> p \<Longrightarrow> p + length bs \<le> length v \<Longrightarrow> qword q (put_at p bs v) = qword q v"
  by (simp add: qword_slice slice_put_other)

section \<open>The server and the client\<close>

text \<open>What the server finds in its buffer: code, offset, length, and the data behind the header. Its
  answer leaves the header that names the request.\<close>

definition server_reply :: "(int \<Rightarrow> byte) \<Rightarrow> byte list \<Rightarrow> byte list \<times> (int \<Rightarrow> byte)" where
  "server_reply f buffer =
     (let off = s64 (qword 32 buffer); len = nat (qword 40 buffer);
          header = (\<lambda>v. put_qword 32 (int len) (put_qword 24 0 v)) in
      if qword 24 buffer = REQ_READ
      then (header (put_at PROXY_HEADER_SIZE (mem_bytes f off len) buffer), f)
      else (header buffer, mem_write f off (slice PROXY_HEADER_SIZE len buffer)))"

definition exchange_call :: "nat \<Rightarrow> int \<Rightarrow> fwd_irp" where
  "exchange_call n len = \<lparr>irp = n, FileObject = 1, MajorFunction = IRP_MJ_DEVICE_CONTROL, MinorFunctionOk = True,
     IoControlCode = IOCTL_DEVIODRV_EXCHANGE_IO, ByteOffset = 0, Length = 0, InputBufferLength = 0,
     OutputBufferLength = len, MdlMaps = True\<rparr>"

definition client_call :: "nat \<Rightarrow> fwd_major \<Rightarrow> int \<Rightarrow> nat \<Rightarrow> fwd_irp" where
  "client_call n mj off len = \<lparr>irp = n, FileObject = 2, MajorFunction = mj, MinorFunctionOk = True,
     IoControlCode = FS_CODE_OTHER, ByteOffset = off, Length = int len, InputBufferLength = 0,
     OutputBufferLength = 0, MdlMaps = True\<rparr>"

text \<open>\<open>image\<close> is the server's file, \<open>size_of_image\<close> its length; \<open>next_irp\<close> the number of the next
  request; \<open>posted\<close> the number of the server's last call.\<close>

record fwd_disk =
  driver :: fwd
  image :: "int \<Rightarrow> byte"
  size_of_image :: int
  posted :: nat
  next_irp :: nat

definition with_pages :: "nat \<Rightarrow> byte list \<Rightarrow> fwd \<Rightarrow> fwd" where
  "with_pages n bs s = (fst s, (snd s)\<lparr>mdl := (mdl (snd s))(n := bs)\<rparr>)"

text \<open>The server posts a call with the given bytes.\<close>

definition post :: "pool \<Rightarrow> byte list \<Rightarrow> fwd_disk \<Rightarrow> ntstatus \<times> fwd_disk" where
  "post pool bs d =
     (case DevIoDrvDispatchServerIORequest pool (exchange_call (next_irp d) (int (length bs)))
             (with_pages (next_irp d) bs (driver d)) of
        (status, s) \<Rightarrow> (status, d\<lparr>driver := s, posted := next_irp d, next_irp := next_irp d + 1\<rparr>))"

text \<open>How the last call was completed; after \<open>STATUS_BUFFER_TOO_SMALL\<close> the server tries a cleared buffer of
  twice the size, in the limits of a \<open>ULONG\<close>.\<close>

definition grow_buffer :: "nat \<Rightarrow> nat" where
  "grow_buffer n = min (2 * n) 4294963200"

fun server_turn :: "nat \<Rightarrow> pool \<Rightarrow> fwd_disk \<Rightarrow> fwd_disk option" where
  "server_turn 0 pool d = None"
| "server_turn (Suc fuel) pool d =
     (case map_of (completed (snd (driver d))) (posted d) of
        Some (STATUS_SUCCESS, _) \<Rightarrow>
          (case server_reply (image d) (mdl (snd (driver d)) (posted d)) of
             (bs, f) \<Rightarrow> Some (snd (post pool bs (d\<lparr>image := f\<rparr>))))
      | Some (STATUS_BUFFER_TOO_SMALL, _) \<Rightarrow>
          server_turn fuel pool (snd (post pool (replicate (grow_buffer (length (mdl (snd (driver d)) (posted d)))) 0) d))
      | _ \<Rightarrow> None)"

text \<open>One request of the client: its status and count, its buffer and the state afterwards.\<close>

definition client_io :: "nat \<Rightarrow> pool \<Rightarrow> fwd_major \<Rightarrow> fwd_disk \<Rightarrow> byte list \<Rightarrow> int \<Rightarrow> (int \<times> byte list \<times> fwd_disk) option" where
  "client_io fuel pool mj d io off =
     (let n = next_irp d;
          s = snd (DevIoDrvDispatchClientRequest pool (client_call n mj off (length io)) (with_pages n io (driver d)))
      in case server_turn fuel pool (d\<lparr>driver := s, next_irp := n + 1\<rparr>) of
           None \<Rightarrow> None
         | Some d \<Rightarrow>
             (case map_of (completed (snd (driver d))) n of
                Some (STATUS_SUCCESS, len) \<Rightarrow> Some (len, mdl (snd (driver d)) n, d)
              | _ \<Rightarrow> None))"

definition client_read_io :: "pool \<Rightarrow> fwd_disk \<Rightarrow> byte list \<Rightarrow> int \<Rightarrow> (int \<times> byte list \<times> fwd_disk) option" where
  "client_read_io pool = client_io 64 pool IRP_MJ_READ"

definition client_write_io :: "pool \<Rightarrow> fwd_disk \<Rightarrow> byte list \<Rightarrow> int \<Rightarrow> (int \<times> fwd_disk) option" where
  "client_write_io pool d bs off =
     (case client_io 64 pool IRP_MJ_WRITE d bs off of None \<Rightarrow> None | Some (n, _, d) \<Rightarrow> Some (n, d))"

section \<open>A request on its way\<close>

definition code_of_major :: "fwd_major \<Rightarrow> int" where
  "code_of_major mj = (if mj = IRP_MJ_READ then REQ_READ else REQ_WRITE)"

text \<open>The server's buffer holds the request \<open>i\<close> with tag \<open>tag\<close>.\<close>

definition holds_request :: "int \<Rightarrow> fwd_irp \<Rightarrow> byte list \<Rightarrow> byte list \<Rightarrow> bool" where
  "holds_request tag i data bs \<longleftrightarrow>
     qword 0 bs = code_of_major (MajorFunction i) \<and> qword 8 bs = tag \<and> qword 24 bs = code_of_major (MajorFunction i) \<and>
     qword 32 bs = ByteOffset i \<and> qword 40 bs = Length i \<and>
     (MajorFunction i = IRP_MJ_WRITE \<longrightarrow> slice PROXY_HEADER_SIZE (nat (Length i)) bs = data)"

text \<open>The call \<open>k\<close> has been completed with \<open>status\<close> and its block \<open>a\<close> freed; of the lists only those given
  have entries.\<close>

definition call_done :: "int \<Rightarrow> nat \<Rightarrow> ntstatus \<Rightarrow> byte list \<Rightarrow> queue_item list \<Rightarrow> queue_item list \<Rightarrow> fwd \<Rightarrow> fwd \<Rightarrow> bool" where
  "call_done a k status bs received sent s s' \<longleftrightarrow>
     (\<exists>info. completed (snd s') = completed (snd s) @ [(k, status, info)]) \<and>
     mdl (snd s') = (mdl (snd s))(k := bs) \<and> length bs = length (mdl (snd s) k) \<and>
     Cancel (snd s') = Cancel (snd s) \<and> blocks (snd s') = blocks (snd s) - {a} \<and>
     fst s' = fst s\<lparr>ClientReceivedIrpList := received, ClientSentIrpList := sent\<rparr>"

lemma small_qword: "0 \<le> x \<Longrightarrow> x < 2 ^ 64 \<Longrightarrow> u64 x = x"
  by (simp add: u64_def)

lemma store_qword_mdl:
  "p + 8 \<le> length (mdl m b) \<Longrightarrow>
   store_qword b p x m = m\<lparr>mdl := (mdl m)(b := put_at p (to_le 8 (u64 x)) (mdl m b))\<rparr>"
  by (simp add: store_qword_def store_mdl_def)

lemma store_mdl_mdl:
  "p + length bs \<le> length (mdl m b) \<Longrightarrow> store_mdl b p bs m = m\<lparr>mdl := (mdl m)(b := put_at p bs (mdl m b))\<rparr>"
  by (simp add: store_mdl_def)

lemma qword_store_other:
  "p + 8 \<le> length v \<Longrightarrow> p + 8 \<le> q \<or> q + 8 \<le> p \<Longrightarrow> qword q (put_at p (to_le 8 x) v) = qword q v"
  by (simp add: qword_put_other)

text \<open>A read or write \<open>n\<close> of \<open>len\<close> bytes and a server call \<open>k\<close> with its pages mapped.\<close>

definition sendable :: "fwd_major \<Rightarrow> int \<Rightarrow> nat \<Rightarrow> int \<Rightarrow> nat \<Rightarrow> nat \<Rightarrow> queue_item \<Rightarrow> fwd \<Rightarrow> bool" where
  "sendable mj off len tag n k item s \<longleftrightarrow>
     (mj = IRP_MJ_READ \<or> mj = IRP_MJ_WRITE) \<and> 0 \<le> off \<and> off < 2 ^ 63 \<and> len < 2 ^ 31 \<and> 0 < tag \<and> tag < 2 ^ 64 \<and>
     n \<noteq> k \<and> length (mdl (snd s) n) = len \<and> PROXY_HEADER_SIZE \<le> length (mdl (snd s) k) \<and>
     ClientReceivedIrpList (fst s) = [] \<and> ClientSentIrpList (fst s) = [] \<and>
     MemoryIrp item = None \<and> irp (Irp item) = k \<and> MappedBufferSize item = int (length (mdl (snd s) k))"

lemma send_room:
  "sendable mj off len tag n k item s \<Longrightarrow> client_room x (client_call n mj off len) = Some (int PROXY_HEADER_SIZE + int len)"
  by (auto simp: sendable_def client_room_def client_call_def u32_def PROXY_HEADER_SIZE_def)

lemmas send_simps = send_mapped_def Let_def new_item_def PROXY_HEADER_SIZE_def store_qword_mdl
  DevIoDrvCompleteIrpQueueItem_def call_done_def DevIoDrvCompleteIrp_def ExFreePool_def

lemma send_too_small:
  assumes "sendable mj off len tag n k item (c, m)" "length (mdl m k) < PROXY_HEADER_SIZE + len"
  shows "\<exists>bs. call_done (ListEntry item) k STATUS_BUFFER_TOO_SMALL bs [new_item tag (client_call n mj off len)] [] (c, m)
           (snd (send_mapped k (new_item tag (client_call n mj off len)) item (c, m)))"
  using assms send_room [OF assms(1)]
  by (intro exI [of _ "put_at 8 (to_le 8 (u64 tag)) (put_at 16 (to_le 8 (u64 0)) (mdl m k))"])
    (simp add: send_simps sendable_def)

lemma send_fits:
  assumes "sendable mj off len tag n k item (c, m)" "PROXY_HEADER_SIZE + len \<le> length (mdl m k)"
  defines "i \<equiv> client_call n mj off len"
  shows "\<exists>bs. call_done (ListEntry item) k STATUS_SUCCESS bs [] [new_item tag i] (c, m) (snd (send_mapped k (new_item tag i) item (c, m))) \<and>
           holds_request tag i (mdl m n) bs"
proof -
  note sd = assms(1) [unfolded sendable_def fst_conv snd_conv]
  define v where "v = put_at 8 (to_le 8 (u64 tag)) (put_at 16 (to_le 8 (u64 0)) (mdl m k))"
  define w where "w = (if mj = IRP_MJ_WRITE \<and> 0 < len then put_at PROXY_HEADER_SIZE (mdl m n) v else v)"
  define bs where "bs = put_at 40 (to_le 8 (u64 (int len))) (put_at 32 (to_le 8 (u64 off))
      (put_at 24 (to_le 8 (u64 (code_of_major mj))) (put_at 0 (to_le 8 (u64 (code_of_major mj))) w)))"
  have l: "length v = length (mdl m k)" "length w = length (mdl m k)" "4096 \<le> length (mdl m k)"
    using assms(2) sd by (auto simp: v_def w_def PROXY_HEADER_SIZE_def)
  have c64: "0 \<le> code_of_major mj" "code_of_major mj < 2 ^ 64" by (simp_all add: code_of_major_def REQ_READ_def REQ_WRITE_def)
  have "qword 8 v = tag" using l sd by (simp add: v_def qword_put_same)
  then have w8: "qword 8 w = tag"
    using l assms(2) sd by (simp add: w_def qword_put_other PROXY_HEADER_SIZE_def)
  have ws: "slice PROXY_HEADER_SIZE len w = mdl m n" if "mj = IRP_MJ_WRITE"
  proof (cases "len = 0")
    case True
    then show ?thesis using sd by (simp add: slice_def)
  next
    case False
    then have "w = put_at PROXY_HEADER_SIZE (mdl m n) v" using that by (simp add: w_def)
    moreover have "PROXY_HEADER_SIZE \<le> length v" "len = length (mdl m n)" using l sd by (simp_all add: PROXY_HEADER_SIZE_def)
    ultimately show ?thesis by (simp only: slice_put_same)
  qed
  have lb: "length bs = length (mdl m k)" using l by (simp add: bs_def)
  have "holds_request tag i (mdl m n) bs"
    using l c64 sd w8 ws
    by (auto simp: holds_request_def bs_def qword_store_other qword_put_same client_call_def slice_put_other
        PROXY_HEADER_SIZE_def i_def)
  moreover have "call_done (ListEntry item) k STATUS_SUCCESS bs [] [new_item tag i] (c, m) (snd (send_mapped k (new_item tag i) item (c, m)))"
  proof -
    define m1 where "m1 = store_qword k 8 tag (store_qword k 16 0 m)"
    have m1: "m1 = m\<lparr>mdl := (mdl m)(k := v)\<rparr>"
      using l by (simp add: m1_def store_qword_mdl v_def)
    define m2 where "m2 = (if 0 < Length i then store_mdl k PROXY_HEADER_SIZE (take (nat (Length i)) (mdl m1 (irp i))) m1 else m1)"
    have m2: "m2 = m\<lparr>mdl := (mdl m)(k := w)\<rparr>" if "mj = IRP_MJ_WRITE"
      using that l sd assms(2) by (auto simp: m2_def m1 i_def client_call_def store_mdl_mdl w_def PROXY_HEADER_SIZE_def)
    have "\<exists>info. fill_request k i m1 = (m\<lparr>mdl := (mdl m)(k := bs)\<rparr>, info)"
    proof (cases "mj = IRP_MJ_WRITE")
      case True
      have "fill_request k i m1 = (store_qword k 40 (Length i) (store_qword k 32 (ByteOffset i)
             (store_qword k 24 REQ_WRITE (store_qword k 0 REQ_WRITE m2))), int PROXY_HEADER_SIZE + Length i)"
        using True by (simp add: fill_request_def m2_def i_def client_call_def)
      then show ?thesis
        using True l m2 by (simp add: store_qword_mdl bs_def code_of_major_def i_def client_call_def)
    next
      case False
      then have "mj = IRP_MJ_READ" using sd by blast
      then show ?thesis
        using l by (simp add: fill_request_def m1 store_qword_mdl bs_def w_def code_of_major_def i_def client_call_def)
    qed
    then obtain info where f: "fill_request k i m1 = (m\<lparr>mdl := (mdl m)(k := bs)\<rparr>, info)" by blast
    show ?thesis
      using sd f lb assms(2) send_room [OF assms(1)]
      unfolding send_mapped_def Let_def prod.case i_def [symmetric]
      by (simp add: new_item_def m1_def [symmetric] DevIoDrvCompleteIrpQueueItem_def call_done_def
          DevIoDrvCompleteIrp_def ExFreePool_def i_def [symmetric]) (simp add: i_def client_call_def)
  qed
  ultimately show ?thesis by blast
qed

section \<open>States between two requests and on the way\<close>

definition calm :: "fwd_disk \<Rightarrow> bool" where
  "calm d \<longleftrightarrow>
     Server (fst (driver d)) \<noteq> None \<and> ServerMemoryIrpList (fst (driver d)) = [] \<and>
     Cancel (snd (driver d)) = (\<lambda>_. False) \<and>
     PROXY_HEADER_SIZE \<le> length (mdl (snd (driver d)) (posted d)) \<and> posted d < next_irp d \<and>
     (\<forall>e \<in> set (completed (snd (driver d))). fst e < next_irp d)"

definition idle :: "fwd_disk \<Rightarrow> bool" where
  "idle d \<longleftrightarrow> calm d \<and> posted d \<notin> fst ` set (completed (snd (driver d))) \<and>
     ClientReceivedIrpList (fst (driver d)) = [] \<and> ClientSentIrpList (fst (driver d)) = [] \<and>
     (\<exists>a. blocks (snd (driver d)) = {a} \<and> ServerRequestIrpList (fst (driver d)) =
            [new_item a (exchange_call (posted d) (int (length (mdl (snd (driver d)) (posted d)))))])"

text \<open>Request \<open>n\<close> with tag \<open>tag\<close> is at the server, or waits because the server's buffer was too small.\<close>

definition under_way :: "bool \<Rightarrow> int \<Rightarrow> nat \<Rightarrow> fwd_irp \<Rightarrow> byte list \<Rightarrow> fwd_disk \<Rightarrow> bool" where
  "under_way sent tag n i io d \<longleftrightarrow> calm d \<and> blocks (snd (driver d)) = {tag} \<and> 0 < tag \<and> tag < 2 ^ 64 \<and> irp i = n \<and> n < next_irp d \<and> n \<noteq> posted d \<and>
     n \<notin> fst ` set (completed (snd (driver d))) \<and> mdl (snd (driver d)) n = io \<and>
     ServerRequestIrpList (fst (driver d)) = [] \<and>
     ClientReceivedIrpList (fst (driver d)) = (if sent then [] else [new_item tag i]) \<and>
     ClientSentIrpList (fst (driver d)) = (if sent then [new_item tag i] else []) \<and>
     (\<exists>info. map_of (completed (snd (driver d))) (posted d) =
        Some (if sent then STATUS_SUCCESS else STATUS_BUFFER_TOO_SMALL, info)) \<and>
     (sent \<longrightarrow> holds_request tag i io (mdl (snd (driver d)) (posted d)))"

text \<open>What \<open>call_done\<close> means for the state.\<close>

lemma call_done_under_way:
  assumes "call_done a k (if sent then STATUS_SUCCESS else STATUS_BUFFER_TOO_SMALL) bs
      (if sent then [] else [new_item tag i]) (if sent then [new_item tag i] else []) (c, m) s'"
    "sent \<Longrightarrow> holds_request tag i io bs"
    "Server c \<noteq> None" "ServerMemoryIrpList c = []" "ServerRequestIrpList c = []" "Cancel m = (\<lambda>_. False)" "blocks m - {a} = {tag}"
    "PROXY_HEADER_SIZE \<le> length (mdl m k)" "0 < tag" "tag < 2 ^ 64" "irp i = n" "n < N" "k < N" "n \<noteq> k"
    "\<forall>e \<in> set (completed m). fst e < N" "n \<notin> fst ` set (completed m)" "k \<notin> fst ` set (completed m)" "mdl m n = io"
  shows "under_way sent tag n i io (d\<lparr>driver := s', posted := k, next_irp := N\<rparr>) \<and>
         length (mdl (snd s') k) = length (mdl m k)"
proof -
  have "map_of (completed m) k = None" using assms(17) by (simp add: map_of_eq_None_iff)
  then show ?thesis
    using assms by (cases sent) (auto simp: call_done_def under_way_def calm_def map_add_def)
qed

definition pool_full :: "pool \<Rightarrow> bool" where
  "pool_full pool \<longleftrightarrow> pool_ok pool \<and> pool {} \<noteq> None \<and> (\<forall>a. pool {a} \<noteq> None)"

lemma pool_full_gives:
  assumes "pool_full pool"
  obtains a where "pool {b} = Some a" "0 < a" "a < 2 ^ 64" "a \<noteq> b"
  using assms by (fastforce simp: pool_full_def pool_ok_def)

lemma pool_full_first:
  assumes "pool_full pool"
  obtains a where "pool {} = Some a"
  using assms by (auto simp: pool_full_def)

lemma send_cases:
  assumes "sendable mj off len tag n k item (c, m)"
  defines "sent \<equiv> PROXY_HEADER_SIZE + len \<le> length (mdl m k)"
  shows "\<exists>bs. call_done (ListEntry item) k (if sent then STATUS_SUCCESS else STATUS_BUFFER_TOO_SMALL) bs
      (if sent then [] else [new_item tag (client_call n mj off len)])
      (if sent then [new_item tag (client_call n mj off len)] else []) (c, m)
      (snd (send_mapped k (new_item tag (client_call n mj off len)) item (c, m))) \<and>
    (sent \<longrightarrow> holds_request tag (client_call n mj off len) (mdl m n) bs)"
  using send_fits [OF assms(1)] send_too_small [OF assms(1)] by (cases sent) (auto simp: sent_def)

lemma client_arrives:
  assumes "idle d" "pool_full pool" "mj = IRP_MJ_READ \<or> mj = IRP_MJ_WRITE" "0 \<le> off" "off < 2 ^ 63" "length io < 2 ^ 31"
  defines "n \<equiv> next_irp d"
  defines "d' \<equiv> d\<lparr>driver := snd (DevIoDrvDispatchClientRequest pool (client_call n mj off (length io)) (with_pages n io (driver d))),
                  next_irp := n + 1\<rparr>"
  defines "size0 \<equiv> length (mdl (snd (driver d)) (posted d))"
  shows "\<exists>tag. under_way (PROXY_HEADER_SIZE + length io \<le> size0) tag n (client_call n mj off (length io)) io d' \<and>
           length (mdl (snd (driver d')) (posted d')) = size0"
proof -
  obtain c m where cm: "driver d = (c, m)" by fastforce
  define k where "k = posted d"
  note idle = assms(1) [unfolded idle_def calm_def cm fst_conv snd_conv, folded k_def n_def]
  obtain a where a: "ServerRequestIrpList c = [new_item a (exchange_call k (int (length (mdl m k))))]" "blocks m = {a}"
    using idle by blast
  obtain tag where tag: "pool {a} = Some tag" "0 < tag" "tag < 2 ^ 64" "tag \<noteq> a"
    using pool_full_gives [OF assms(2)] by blast
  define c1 where "c1 = c\<lparr>ServerRequestIrpList := []\<rparr>"
  define m1 where "m1 = IoSetCancelRoutine (exchange_call k (int (length (mdl m k)))) False
      (m\<lparr>mdl := (mdl m)(n := io), blocks := {tag, a}\<rparr>)"
  define item where "item = (new_item a (exchange_call k (int (length (mdl m k)))))\<lparr>MemoryIrp := None,
      MappedBuffer := Some k, MappedBufferSize := int (length (mdl m k))\<rparr>"
  have nk: "n \<noteq> k" using idle by simp
  have m1: "mdl m1 = (mdl m)(n := io)" "Cancel m1 = Cancel m" "completed m1 = completed m" "blocks m1 = {tag, a}"
    by (simp_all add: m1_def IoSetCancelRoutine_def)
  have z: "0 < length (mdl m k)" using idle by (auto simp: PROXY_HEADER_SIZE_def)
  have call: "snd (DevIoDrvDispatchClientRequest pool (client_call n mj off (length io)) (with_pages n io (driver d))) =
      snd (send_mapped k (new_item tag (client_call n mj off (length io))) item (c1, m1))"
  proof -
    have r: "DevIoDrvReserveMemoryIrp (exchange_call k (int (length (mdl m k)))) (c1, m1) =
        ((STATUS_SUCCESS, None, Some k, int (length (mdl m k))), (c1, m1))"
      using z by (simp add: DevIoDrvReserveMemoryIrp_def exchange_call_def)
    obtain cs ss s2 where s2: "send_mapped k (new_item tag (client_call n mj off (length io))) item (c1, m1) = ((cs, ss), s2)"
      by (metis prod.exhaust)
    obtain y where y: "Server c = Some y" using idle by blast
    have "MappedBuffer (new_item a j) = None" "Irp (new_item a j) = j" for j by (simp_all add: new_item_def)
    then show ?thesis
      using y idle a tag(1) r s2
      by (simp add: DevIoDrvDispatchClientRequest_def with_pages_def cm Let_def c1_def [symmetric] m1_def [symmetric]
          DevIoDrvSendClientRequestToServer_def item_def [symmetric])
  qed
  have sd: "sendable mj off (length io) tag n k item (c1, m1)"
    using assms(3-6) tag nk idle m1 by (auto simp: sendable_def item_def c1_def new_item_def exchange_call_def)
  have drv: "snd (send_mapped k (new_item tag (client_call n mj off (length io))) item (c1, m1)) = driver d'"
    using call by (simp add: d'_def)
  have io: "mdl m1 n = io" and sz: "length (mdl m1 k) = size0"
    using nk by (simp_all add: m1 size0_def cm k_def)
  obtain bs where bs:
    "call_done (ListEntry item) k (if PROXY_HEADER_SIZE + length io \<le> size0 then STATUS_SUCCESS else STATUS_BUFFER_TOO_SMALL) bs
      (if PROXY_HEADER_SIZE + length io \<le> size0 then [] else [new_item tag (client_call n mj off (length io))])
      (if PROXY_HEADER_SIZE + length io \<le> size0 then [new_item tag (client_call n mj off (length io))] else []) (c1, m1) (driver d')"
    "PROXY_HEADER_SIZE + length io \<le> size0 \<longrightarrow> holds_request tag (client_call n mj off (length io)) io bs"
    using send_cases [OF sd] unfolding drv io sz by blast
  have "under_way (PROXY_HEADER_SIZE + length io \<le> size0) tag n (client_call n mj off (length io)) io
      (d\<lparr>driver := driver d', posted := k, next_irp := n + 1\<rparr>) \<and> length (mdl (snd (driver d')) k) = length (mdl m1 k)"
  proof (rule call_done_under_way [OF bs(1)])
    show "Server c1 \<noteq> None" "ServerMemoryIrpList c1 = []" "ServerRequestIrpList c1 = []" "Cancel m1 = (\<lambda>_. False)"
      "blocks m1 - {ListEntry item} = {tag}" using idle a tag by (auto simp: c1_def m1 item_def new_item_def)
    show "PROXY_HEADER_SIZE \<le> length (mdl m1 k)" using idle sz by (simp add: size0_def cm k_def)
    show "k < n + 1" "k \<notin> fst ` set (completed m1)" using idle by (simp_all add: m1)
    show "\<forall>e\<in>set (completed m1). fst e < n + 1" using idle by (simp add: m1 less_SucI)
    show "n \<notin> fst ` set (completed m1)" using idle by (force simp: m1)
  qed (use bs(2) tag nk io in \<open>simp_all add: client_call_def\<close>)
  moreover have "d\<lparr>driver := driver d', posted := k, next_irp := n + 1\<rparr> = d'" "posted d' = k" by (simp_all add: d'_def k_def)
  ultimately show ?thesis
    using sz by metis
qed

lemma posted_call:
  assumes "PROXY_HEADER_SIZE \<le> length bs"
  shows "DevIoDrvDispatchServerIORequest pool (exchange_call k (int (length bs))) (with_pages k bs (c, m)) =
     (let tag = qword 8 bs; m' = m\<lparr>mdl := (mdl m)(k := bs)\<rparr>;
          fail = (\<lambda>status (c, m). (status, (c, DevIoDrvCompleteIrp (exchange_call k (int (length bs))) status 0 m)))
      in case (if tag = 0 then (None, c) else DevIoDrvGetSentClientRequest tag c) of
           (client, c) \<Rightarrow>
             if tag \<noteq> 0 \<and> client = None then fail STATUS_INVALID_PARAMETER (c, m')
             else case server_answer bs (int (length bs)) client (c, m') of
               (Some status, s) \<Rightarrow> fail status s
             | (None, s) \<Rightarrow> server_next pool (exchange_call k (int (length bs))) None k (int (length bs)) s)"
proof -
  have l: "0 < int (length bs)" "\<not> int (length bs) < int PROXY_HEADER_SIZE"
    using assms by (auto simp: PROXY_HEADER_SIZE_def)
  have r: "DevIoDrvReserveMemoryIrp (exchange_call k (int (length bs))) (c, m\<lparr>mdl := (mdl m)(k := bs)\<rparr>) =
      ((STATUS_SUCCESS, None, Some k, int (length bs)), (c, m\<lparr>mdl := (mdl m)(k := bs)\<rparr>))"
    using l by (simp add: DevIoDrvReserveMemoryIrp_def exchange_call_def)
  show ?thesis
    using l r
    by (simp add: DevIoDrvDispatchServerIORequest_def with_pages_def Let_def DevIoDrvQueueMemoryIrp_def
        exchange_call_def cong: prod.case_cong if_cong option.case_cong)
qed


text \<open>A cleared buffer answers no request and takes the waiting one.\<close>

lemma cleared_qword: "p + 8 \<le> L \<Longrightarrow> qword p (replicate L 0) = 0"
proof -
  assume "p + 8 \<le> L"
  then have "take 8 (drop p (replicate L (0 :: byte))) = replicate 8 0" by simp
  then show ?thesis by (simp add: qword_def numeral_eq_Suc)
qed

definition is_transfer :: "fwd_irp \<Rightarrow> nat \<Rightarrow> bool" where
  "is_transfer i len \<longleftrightarrow> (\<exists>n mj off. i = client_call n mj off len \<and> (mj = IRP_MJ_READ \<or> mj = IRP_MJ_WRITE) \<and>
     0 \<le> off \<and> off < 2 ^ 63) \<and> len < 2 ^ 31"

lemma is_transferE:
  assumes "is_transfer i len" "irp i = n"
  obtains mj off where "i = client_call n mj off len" "mj = IRP_MJ_READ \<or> mj = IRP_MJ_WRITE" "0 \<le> off" "off < 2 ^ 63"
    "len < 2 ^ 31"
proof -
  obtain n' mj off where "i = client_call n' mj off len" "mj = IRP_MJ_READ \<or> mj = IRP_MJ_WRITE" "0 \<le> off" "off < 2 ^ 63"
    "len < 2 ^ 31" using assms(1) unfolding is_transfer_def by blast
  moreover from this(1) have "n' = n" using assms(2) by (simp add: client_call_def)
  ultimately show thesis using that by blast
qed

lemma server_retries:
  assumes "under_way False tag n i io d" "is_transfer i (length io)" "pool_full pool" "PROXY_HEADER_SIZE \<le> L"
  defines "d' \<equiv> snd (post pool (replicate L 0) d)"
  shows "under_way (PROXY_HEADER_SIZE + length io \<le> L) tag n i io d'"
    "length (mdl (snd (driver d')) (posted d')) = L" "image d' = image d" "size_of_image d' = size_of_image d"
proof -
  obtain c m where cm: "driver d = (c, m)" by fastforce
  define k where "k = next_irp d"
  note uw = assms(1) [unfolded under_way_def calm_def cm fst_conv snd_conv if_False, folded k_def]
  have "irp i = n" using uw by blast
  from assms(2) this obtain mj off where i: "i = client_call n mj off (length io)" "mj = IRP_MJ_READ \<or> mj = IRP_MJ_WRITE"
    "0 \<le> off" "off < 2 ^ 63" "length io < 2 ^ 31" by (rule is_transferE)
  obtain a where a: "pool (blocks m) = Some a"
  proof -
    have "blocks m = {tag}" using uw by blast
    then show thesis using pool_full_gives [OF assms(3), of tag] that by metis
  qed
  have "a \<noteq> tag" "blocks m = {tag}" using pool_full_gives [OF assms(3), of tag] a uw by auto
  define bs where "bs = replicate L (0 :: byte)"
  have bs: "length bs = L" "qword 0 bs = REQ_NULL" "qword 8 bs = 0" "PROXY_HEADER_SIZE \<le> length bs"
    using assms(4) by (simp_all add: bs_def cleared_qword PROXY_HEADER_SIZE_def REQ_NULL_def)
  define c1 where "c1 = c\<lparr>ClientReceivedIrpList := []\<rparr>"
  define m1 where "m1 = m\<lparr>mdl := (mdl m)(k := bs), blocks := {a, tag}\<rparr>"
  define item where "item = (new_item a (exchange_call k (int L)))\<lparr>MemoryIrp := None, MappedBuffer := Some k, MappedBufferSize := int L\<rparr>"
  have nk: "n \<noteq> k" and io: "mdl m n = io" using uw by simp_all
  have m1: "mdl m1 k = bs" "mdl m1 n = io" "Cancel m1 = Cancel m" "completed m1 = completed m" "blocks m1 = {a, tag}"
    using nk io by (simp_all add: m1_def)
  have send: "snd (DevIoDrvDispatchServerIORequest pool (exchange_call k (int L)) (with_pages k bs (c, m))) =
      snd (send_mapped k (new_item tag i) item (c1, m1))"
  proof -
    obtain cs ss s2 where s2: "send_mapped k (new_item tag i) item (c1, m1) = ((cs, ss), s2)"
      by (metis prod.exhaust)
    have "DevIoDrvDispatchServerIORequest pool (exchange_call k (int L)) (with_pages k bs (c, m)) =
        server_next pool (exchange_call k (int L)) None k (int L) (c, m\<lparr>mdl := (mdl m)(k := bs)\<rparr>)"
      using posted_call [OF bs(4), of pool k c m] bs by (simp add: server_answer_def REQ_NULL_def REQ_INFO_def)
    also have "\<dots> = (ss, s2)"
      using uw a s2 by (simp add: server_next_def Let_def DevIoDrvSendClientRequestToServer_def c1_def [symmetric]
          m1_def [symmetric] item_def [symmetric])
    finally show ?thesis using s2 by simp
  qed
  have d': "d' = d\<lparr>driver := snd (send_mapped k (new_item tag i) item (c1, m1)), posted := k, next_irp := k + 1\<rparr>"
    unfolding d'_def post_def bs_def [symmetric] k_def [symmetric] cm bs(1) send [symmetric] by (simp add: case_prod_beta)
  have sd: "sendable mj off (length io) tag n k item (c1, m1)"
    using i uw nk m1 bs by (auto simp: sendable_def item_def c1_def new_item_def exchange_call_def)
  obtain bs' where bs':
    "call_done (ListEntry item) k (if PROXY_HEADER_SIZE + length io \<le> L then STATUS_SUCCESS else STATUS_BUFFER_TOO_SMALL) bs'
      (if PROXY_HEADER_SIZE + length io \<le> L then [] else [new_item tag i])
      (if PROXY_HEADER_SIZE + length io \<le> L then [new_item tag i] else []) (c1, m1) (driver d')"
    "PROXY_HEADER_SIZE + length io \<le> L \<longrightarrow> holds_request tag i io bs'"
    using send_cases [OF sd] unfolding d' i(1) [symmetric] m1(1,2) bs(1) by auto
  have "under_way (PROXY_HEADER_SIZE + length io \<le> L) tag n i io
      (d\<lparr>driver := driver d', posted := k, next_irp := k + 1\<rparr>) \<and> length (mdl (snd (driver d')) k) = length (mdl m1 k)"
  proof (rule call_done_under_way [OF bs'(1)])
    show "Server c1 \<noteq> None" "ServerMemoryIrpList c1 = []" "ServerRequestIrpList c1 = []" "Cancel m1 = (\<lambda>_. False)"
      "blocks m1 - {ListEntry item} = {tag}" using uw \<open>a \<noteq> tag\<close> by (auto simp: c1_def m1 item_def new_item_def)
    show "PROXY_HEADER_SIZE \<le> length (mdl m1 k)" using bs by (simp add: m1)
    show "k < k + 1" "n < k + 1" by (use uw in simp_all)
    show "\<forall>e\<in>set (completed m1). fst e < k + 1" using uw by (simp add: m1 less_SucI)
    show "k \<notin> fst ` set (completed m1)" "n \<notin> fst ` set (completed m1)" using uw by (force simp: m1)+
  qed (use bs'(2) uw nk m1 in simp_all)
  then show "under_way (PROXY_HEADER_SIZE + length io \<le> L) tag n i io d'"
    "length (mdl (snd (driver d')) (posted d')) = L" "image d' = image d" "size_of_image d' = size_of_image d"
    using m1(1) bs(1) unfolding d' by (simp_all del: One_nat_def)
qed


section \<open>The answer\<close>

text \<open>\<open>bs\<close> answers the request \<open>i\<close> with tag \<open>tag\<close>; \<open>data\<close> is what a read is answered with.\<close>

definition answers_request :: "int \<Rightarrow> fwd_irp \<Rightarrow> byte list \<Rightarrow> byte list \<Rightarrow> bool" where
  "answers_request tag i data bs \<longleftrightarrow>
     qword 0 bs = code_of_major (MajorFunction i) \<and> qword 8 bs = tag \<and> qword 24 bs = 0 \<and> qword 32 bs = Length i \<and>
     (MajorFunction i = IRP_MJ_READ \<longrightarrow> slice PROXY_HEADER_SIZE (nat (Length i)) bs = data)"

lemma qword_put_qword:
  "p + 8 \<le> length v \<Longrightarrow> 0 \<le> x \<Longrightarrow> x < 2 ^ 64 \<Longrightarrow> qword p (put_qword p x v) = x"
  "p + 8 \<le> length v \<Longrightarrow> p + 8 \<le> q \<or> q + 8 \<le> p \<Longrightarrow> qword q (put_qword p x v) = qword q v"
  "p + 8 \<le> length v \<Longrightarrow> p + 8 \<le> q \<or> q + n \<le> p \<Longrightarrow> slice q n (put_qword p x v) = slice q n v"
  "p + 8 \<le> length v \<Longrightarrow> length (put_qword p x v) = length v"
  by (simp_all add: put_qword_def qword_put_same qword_put_other slice_put_other)

lemma server_reply_read:
  assumes "holds_request tag (client_call n IRP_MJ_READ off len) io v" "PROXY_HEADER_SIZE + len \<le> length v"
    "0 \<le> off" "off < 2 ^ 63" "len < 2 ^ 31"
  shows "\<exists>bs. server_reply f v = (bs, f) \<and> length bs = length v \<and>
           answers_request tag (client_call n IRP_MJ_READ off len) (mem_bytes f off len) bs"
proof -
  have q: "qword 0 v = REQ_READ" "qword 8 v = tag" "qword 24 v = REQ_READ" "qword 32 v = off" "qword 40 v = int len"
    using assms(1) by (simp_all add: holds_request_def client_call_def code_of_major_def)
  have off: "s64 off = off" using assms(3,4) by (simp add: s64_def)
  define w where "w = put_at PROXY_HEADER_SIZE (mem_bytes f off len) v"
  have w: "length w = length v" "qword 0 w = REQ_READ" "qword 8 w = tag" "slice PROXY_HEADER_SIZE len w = mem_bytes f off len"
    using assms(2) q by (simp_all add: w_def qword_put_other slice_put_same PROXY_HEADER_SIZE_def)
  have h: "4096 \<le> length v" using assms(2) by (simp add: PROXY_HEADER_SIZE_def)
  have "server_reply f v = (put_qword 32 (int len) (put_qword 24 0 w), f)"
    using q off by (simp add: server_reply_def w_def)
  moreover have "answers_request tag (client_call n IRP_MJ_READ off len) (mem_bytes f off len)
      (put_qword 32 (int len) (put_qword 24 0 w))"
    using w h assms(5)
    by (simp add: answers_request_def qword_put_qword client_call_def code_of_major_def PROXY_HEADER_SIZE_def)
  moreover have "length (put_qword 32 (int len) (put_qword 24 0 w)) = length v"
    using w h by (simp add: qword_put_qword)
  ultimately show ?thesis by blast
qed

lemma server_reply_write:
  assumes "holds_request tag (client_call n IRP_MJ_WRITE off len) io v" "PROXY_HEADER_SIZE + len \<le> length v"
    "0 \<le> off" "off < 2 ^ 63" "len < 2 ^ 31"
  shows "\<exists>bs. server_reply f v = (bs, mem_write f off io) \<and> length bs = length v \<and>
           answers_request tag (client_call n IRP_MJ_WRITE off len) data bs"
proof -
  have q: "qword 0 v = REQ_WRITE" "qword 8 v = tag" "qword 24 v = REQ_WRITE" "qword 32 v = off" "qword 40 v = int len"
      "slice PROXY_HEADER_SIZE len v = io"
    using assms(1) by (simp_all add: holds_request_def client_call_def code_of_major_def)
  have off: "s64 off = off" using assms(3,4) by (simp add: s64_def)
  have h: "4096 \<le> length v" using assms(2) by (simp add: PROXY_HEADER_SIZE_def)
  have "server_reply f v = (put_qword 32 (int len) (put_qword 24 0 v), mem_write f off io)"
    using q off by (simp add: server_reply_def REQ_READ_def REQ_WRITE_def)
  moreover have "answers_request tag (client_call n IRP_MJ_WRITE off len) data (put_qword 32 (int len) (put_qword 24 0 v))"
    using q h assms(5)
    by (simp add: answers_request_def qword_put_qword client_call_def code_of_major_def)
  moreover have "length (put_qword 32 (int len) (put_qword 24 0 v)) = length v"
    using h by (simp add: qword_put_qword)
  ultimately show ?thesis by blast
qed


text \<open>The driver's part: the request is completed and freed, the call becomes the next free one.\<close>

lemma answer_handled:
  assumes "answers_request tag i data bs" "i = client_call n mj off len" "mj = IRP_MJ_READ \<or> mj = IRP_MJ_WRITE"
    "PROXY_HEADER_SIZE + len \<le> length bs" "length bs < 2 ^ 63" "mj = IRP_MJ_READ \<longrightarrow> length data = len"
    "length (mdl m n) = len" "len < 2 ^ 31"
  shows "server_answer bs (int (length bs)) (Some (new_item tag i)) (c, m) =
     (None, (c, ExFreePool tag (DevIoDrvCompleteIrp i STATUS_SUCCESS (int len)
        (if mj = IRP_MJ_READ then m\<lparr>mdl := (mdl m)(n := data)\<rparr> else m))))"
proof -
  have q: "qword 0 bs = code_of_major mj" "qword 24 bs = 0" "qword 32 bs = int len"
    and r: "mj = IRP_MJ_READ \<Longrightarrow> slice PROXY_HEADER_SIZE len bs = data"
    using assms(1,2) by (simp_all add: answers_request_def client_call_def)
  have room: "u64 (int PROXY_HEADER_SIZE + int len) \<le> int (length bs)"
    using assms(4,5) by (simp add: u64_def)
  have cr: "client_result 0 (int len) (new_item tag i) (c, m') =
      (c, ExFreePool tag (DevIoDrvCompleteIrp i STATUS_SUCCESS (int len) m'))" for m'
    by (simp add: client_result_def DevIoDrvCompleteIrpQueueItem_def new_item_def)
  show ?thesis
  proof (cases "mj = IRP_MJ_READ")
    case True
    have st: "store_mdl n 0 (take len (drop PROXY_HEADER_SIZE bs)) m = m\<lparr>mdl := (mdl m)(n := data)\<rparr>"
      using r [OF True] assms(6,7) True by (simp add: slice_def store_mdl_mdl) (simp add: put_at_def)
    have em: "m\<lparr>mdl := (mdl m)(n := data)\<rparr> = m" if "len = 0"
      using that assms(6,7) True by (simp add: fun_upd_idem)
    have "answer_read bs (new_item tag i) (c, m) = (None, client_result 0 (int len) (new_item tag i)
        (c, m\<lparr>mdl := (mdl m)(n := data)\<rparr>))"
      using q st em assms(2) by (simp add: answer_read_def Let_def new_item_def client_call_def)
    then show ?thesis
      using q True room assms(2) cr
      by (simp add: server_answer_def Let_def new_item_def client_call_def code_of_major_def)
  next
    case False
    then have "mj = IRP_MJ_WRITE" using assms(3) by blast
    then show ?thesis
      using q assms(2) cr [of m]
      by (simp add: server_answer_def Let_def new_item_def client_call_def code_of_major_def)
  qed
qed

lemma server_answers:
  assumes "under_way True tag n i io d" "is_transfer i (length io)" "pool_full pool"
    "answers_request tag i data bs" "PROXY_HEADER_SIZE + length io \<le> length bs" "length bs < 2 ^ 63"
    "MajorFunction i = IRP_MJ_READ \<longrightarrow> length data = length io"
  defines "d' \<equiv> snd (post pool bs d)"
  shows "idle d'" "map_of (completed (snd (driver d'))) n = Some (STATUS_SUCCESS, int (length io))"
    "mdl (snd (driver d')) n = (if MajorFunction i = IRP_MJ_READ then data else io)"
    "length (mdl (snd (driver d')) (posted d')) = length bs" "image d' = image d" "size_of_image d' = size_of_image d"
proof -
  obtain c m where cm: "driver d = (c, m)" by fastforce
  define k where "k = next_irp d"
  note uw = assms(1) [unfolded under_way_def calm_def cm fst_conv snd_conv if_True, folded k_def]
  have "irp i = n" using uw by blast
  from assms(2) this obtain mj off where i: "i = client_call n mj off (length io)" "mj = IRP_MJ_READ \<or> mj = IRP_MJ_WRITE"
    "0 \<le> off" "off < 2 ^ 63" "length io < 2 ^ 31" by (rule is_transferE)
  have mj: "MajorFunction i = mj" by (simp add: i(1) client_call_def)
  have nk: "n \<noteq> k" and io: "mdl m n = io" and sent: "ClientSentIrpList c = [new_item tag i]" and tag: "0 < tag"
    and fin: "blocks m = {tag}" and nc: "n \<notin> fst ` set (completed m)" using uw by simp_all
  define c1 where "c1 = c\<lparr>ClientSentIrpList := []\<rparr>"
  define m0 where "m0 = m\<lparr>mdl := (mdl m)(k := bs)\<rparr>"
  define m1 where "m1 = ExFreePool tag (DevIoDrvCompleteIrp i STATUS_SUCCESS (int (length io))
        (if mj = IRP_MJ_READ then m0\<lparr>mdl := (mdl m0)(n := data)\<rparr> else m0))"
  have m1: "mdl m1 k = bs" "mdl m1 n = (if mj = IRP_MJ_READ then data else io)" "Cancel m1 = Cancel m"
    "completed m1 = completed m @ [(n, STATUS_SUCCESS, int (length io))]" "blocks m1 = {}"
    using nk io fin \<open>irp i = n\<close> by (simp_all add: m1_def m0_def ExFreePool_def DevIoDrvCompleteIrp_def)
  obtain a where a: "pool (blocks m1) = Some a"
    using pool_full_first [OF assms(3)] m1(5) by metis
  define x where "x = exchange_call k (int (length bs))"
  have get: "DevIoDrvGetSentClientRequest tag c = (Some (new_item tag i), c1)"
    by (simp add: DevIoDrvGetSentClientRequest_def sent c1_def List.extract_def new_item_def)
  have ans: "server_answer bs (int (length bs)) (Some (new_item tag i)) (c1, m0) = (None, (c1, m1))"
    unfolding m1_def by (rule answer_handled [OF assms(4) i(1,2) assms(5,6)])
      (use assms(7) mj io nk i(5) in \<open>simp_all add: m0_def\<close>)
  have tagq: "qword 8 bs = tag" using assms(4) by (simp add: answers_request_def)
  have len: "PROXY_HEADER_SIZE \<le> length bs" using assms(5) by simp
  define c2 where "c2 = c1\<lparr>ServerRequestIrpList := [new_item a x]\<rparr>"
  define m2 where "m2 = IoSetCancelRoutine x True (m1\<lparr>blocks := insert a (blocks m1)\<rparr>)"
  have "DevIoDrvDispatchServerIORequest pool x (with_pages k bs (c, m)) =
      server_next pool x None k (int (length bs)) (c1, m1)"
    using posted_call [OF len, of pool k c m] tagq tag get ans by (simp add: x_def m0_def Let_def)
  also have "\<dots> = (STATUS_PENDING, (c2, m2))"
    using a uw by (simp add: server_next_def c1_def c2_def m2_def DevIoDrvQueueMemoryIrpUnsafe_def Let_def)
  finally have d': "d' = d\<lparr>driver := (c2, m2), posted := k, next_irp := k + 1\<rparr>"
    by (simp add: d'_def post_def x_def k_def cm)
  have m2: "mdl m2 = mdl m1" "completed m2 = completed m1" "Cancel m2 = Cancel m1" "blocks m2 = insert a (blocks m1)"
    by (simp_all add: m2_def IoSetCancelRoutine_def)
  have old: "\<forall>e\<in>set (completed m). fst e < k" "n < k" using uw by simp_all
  have "calm d'"
    using uw m1 old by (simp add: calm_def d' m2 c2_def c1_def len less_SucI)
  moreover have "k \<notin> fst ` set (completed m2)"
    using old nk by (force simp: m2 m1)
  ultimately show "idle d'"
    using uw by (auto simp: idle_def d' m2 c2_def c1_def m1 x_def)
  have "map_of (completed m) n = None" using nc by (simp add: map_of_eq_None_iff)
  then show "map_of (completed (snd (driver d'))) n = Some (STATUS_SUCCESS, int (length io))"
    by (simp add: d' m2 m1 map_add_def)
  show "mdl (snd (driver d')) n = (if MajorFunction i = IRP_MJ_READ then data else io)"
    "length (mdl (snd (driver d')) (posted d')) = length bs" "image d' = image d" "size_of_image d' = size_of_image d"
    using m1 mj by (simp_all add: d' m2)
qed


section \<open>The server's turn\<close>

definition buffer_size_of :: "fwd_disk \<Rightarrow> nat" where
  "buffer_size_of d = length (mdl (snd (driver d)) (posted d))"

lemma reply_answers:
  assumes "under_way True tag n i io d" "is_transfer i (length io)" "PROXY_HEADER_SIZE + length io \<le> buffer_size_of d"
  shows "\<exists>bs data. server_reply (image d) (mdl (snd (driver d)) (posted d)) =
      (bs, if MajorFunction i = IRP_MJ_READ then image d else mem_write (image d) (ByteOffset i) io) \<and>
    length bs = buffer_size_of d \<and> answers_request tag i data bs \<and>
    (MajorFunction i = IRP_MJ_READ \<longrightarrow> data = mem_bytes (image d) (ByteOffset i) (length io))"
proof -
  have uw: "irp i = n" "holds_request tag i io (mdl (snd (driver d)) (posted d))"
    using assms(1) by (simp_all add: under_way_def)
  from assms(2) uw(1) obtain mj off where i: "i = client_call n mj off (length io)" "mj = IRP_MJ_READ \<or> mj = IRP_MJ_WRITE"
    "0 \<le> off" "off < 2 ^ 63" "length io < 2 ^ 31" by (rule is_transferE)
  from i(2) show ?thesis
  proof
    assume mj: "mj = IRP_MJ_READ"
    have h: "holds_request tag (client_call n IRP_MJ_READ off (length io)) io (mdl (snd (driver d)) (posted d))"
      using uw(2) unfolding i(1) mj .
    show ?thesis
      using server_reply_read [OF h _ i(3-5), of "image d"] assms(3)
      by (auto simp: i(1) mj client_call_def buffer_size_of_def)
  next
    assume mj: "mj = IRP_MJ_WRITE"
    have h: "holds_request tag (client_call n IRP_MJ_WRITE off (length io)) io (mdl (snd (driver d)) (posted d))"
      using uw(2) unfolding i(1) mj .
    show ?thesis
      using server_reply_write [OF h _ i(3-5), of "image d"] assms(3)
      by (fastforce simp: i(1) mj client_call_def buffer_size_of_def)
  qed
qed

definition served :: "nat \<Rightarrow> fwd_irp \<Rightarrow> byte list \<Rightarrow> fwd_disk \<Rightarrow> fwd_disk \<Rightarrow> bool" where
  "served n i io d d' \<longleftrightarrow>
     idle d' \<and> map_of (completed (snd (driver d'))) n = Some (STATUS_SUCCESS, int (length io)) \<and>
     mdl (snd (driver d')) n =
       (if MajorFunction i = IRP_MJ_READ then mem_bytes (image d) (ByteOffset i) (length io) else io) \<and>
     image d' = (if MajorFunction i = IRP_MJ_READ then image d else mem_write (image d) (ByteOffset i) io) \<and>
     size_of_image d' = size_of_image d \<and> buffer_size_of d' < 2 ^ 32"

lemma server_serves_now:
  assumes "under_way True tag n i io d" "is_transfer i (length io)" "pool_full pool"
    "PROXY_HEADER_SIZE + length io \<le> buffer_size_of d" "buffer_size_of d < 2 ^ 32"
  shows "\<exists>d'. server_turn (Suc fuel) pool d = Some d' \<and> served n i io d d'"
proof -
  obtain bs data where bs: "server_reply (image d) (mdl (snd (driver d)) (posted d)) =
      (bs, if MajorFunction i = IRP_MJ_READ then image d else mem_write (image d) (ByteOffset i) io)"
    "length bs = buffer_size_of d" "answers_request tag i data bs"
    "MajorFunction i = IRP_MJ_READ \<longrightarrow> data = mem_bytes (image d) (ByteOffset i) (length io)"
    using reply_answers [OF assms(1,2,4)] by blast
  define e where "e = d\<lparr>image := (if MajorFunction i = IRP_MJ_READ then image d else mem_write (image d) (ByteOffset i) io)\<rparr>"
  have uw: "under_way True tag n i io e"
    using assms(1) by (simp add: e_def under_way_def calm_def)
  obtain info where last_call: "map_of (completed (snd (driver d))) (posted d) = Some (STATUS_SUCCESS, info)"
    using assms(1) by (auto simp: under_way_def)
  have turn: "server_turn (Suc fuel) pool d = Some (snd (post pool bs e))"
    using last_call bs(1) by (simp add: e_def)
  note a = server_answers [OF uw assms(2,3) bs(3), unfolded bs(2), OF assms(4)]
  have "served n i io d (snd (post pool bs e))"
    using a bs(4) assms(5) by (auto simp: served_def e_def buffer_size_of_def)
  with turn show ?thesis by blast
qed

lemma server_serves:
  assumes "under_way (PROXY_HEADER_SIZE + length io \<le> buffer_size_of d) tag n i io d" "is_transfer i (length io)"
    "pool_full pool" "PROXY_HEADER_SIZE \<le> buffer_size_of d" "buffer_size_of d < 2 ^ 32"
    "PROXY_HEADER_SIZE + length io \<le> 2 ^ fuel * buffer_size_of d"
  shows "\<exists>d'. server_turn (Suc fuel) pool d = Some d' \<and> served n i io d d'"
  using assms
proof (induction fuel arbitrary: d)
  case (0 d)
  then show ?case using server_serves_now [of tag n i io d pool 0] by simp
next
  case (Suc fuel d)
  show ?case
  proof (cases "PROXY_HEADER_SIZE + length io \<le> buffer_size_of d")
    case True
    then show ?thesis using server_serves_now [of tag n i io d pool] Suc.prems by simp
  next
    case False
    define L where "L = grow_buffer (buffer_size_of d)"
    define e where "e = snd (post pool (replicate L 0) d)"
    have len: "length io < 2 ^ 31" using Suc.prems(2) by (simp add: is_transfer_def)
    have L: "PROXY_HEADER_SIZE \<le> L" "L < 2 ^ 32" "PROXY_HEADER_SIZE + length io \<le> 2 ^ fuel * L"
    proof -
      show "PROXY_HEADER_SIZE \<le> L" "L < 2 ^ 32"
        using Suc.prems(4) by (simp_all add: L_def grow_buffer_def PROXY_HEADER_SIZE_def min_def)
      show "PROXY_HEADER_SIZE + length io \<le> 2 ^ fuel * L"
      proof (cases "2 * buffer_size_of d \<le> 4294963200")
        case True
        then show ?thesis using Suc.prems(6) by (simp add: L_def grow_buffer_def ac_simps)
      next
        case False
        then have "L = 4294963200" by (simp add: L_def grow_buffer_def)
        then have "PROXY_HEADER_SIZE + length io \<le> L" using len by (simp add: PROXY_HEADER_SIZE_def)
        also have "L \<le> 2 ^ fuel * L" by simp
        finally show ?thesis .
      qed
    qed
    have uw: "under_way False tag n i io d" using Suc.prems(1) False by simp
    note r = server_retries [OF uw Suc.prems(2,3) L(1), folded e_def]
    have be: "buffer_size_of e = L" using r(2) by (simp add: buffer_size_of_def)
    have uwe: "under_way (PROXY_HEADER_SIZE + length io \<le> buffer_size_of e) tag n i io e"
      using r(1) be by simp
    obtain d' where d': "server_turn (Suc fuel) pool e = Some d'" "served n i io e d'"
      using Suc.IH [OF uwe Suc.prems(2,3)] L be by auto
    obtain info where info: "map_of (completed (snd (driver d))) (posted d) = Some (STATUS_BUFFER_TOO_SMALL, info)"
      using uw by (auto simp: under_way_def)
    have "server_turn (Suc (Suc fuel)) pool d = server_turn (Suc fuel) pool e"
      unfolding server_turn.simps(2) [of "Suc fuel"] info
      by (simp add: e_def L_def buffer_size_of_def del: server_turn.simps)
    moreover have "served n i io d d'" using d'(2) r(3,4) by (simp add: served_def)
    ultimately show ?thesis using d'(1) by metis
  qed
qed

lemma client_io_serves:
  assumes "idle d" "pool_full pool" "buffer_size_of d < 2 ^ 32" "mj = IRP_MJ_READ \<or> mj = IRP_MJ_WRITE"
    "0 \<le> off" "off < 2 ^ 63" "length io < 2 ^ 31"
  shows "\<exists>d'. client_io 64 pool mj d io off =
      Some (int (length io), if mj = IRP_MJ_READ then mem_bytes (image d) off (length io) else io, d') \<and>
    idle d' \<and> buffer_size_of d' < 2 ^ 32 \<and> size_of_image d' = size_of_image d \<and>
    image d' = (if mj = IRP_MJ_READ then image d else mem_write (image d) off io)"
proof -
  define n where "n = next_irp d"
  define i where "i = client_call n mj off (length io)"
  define e where "e = d\<lparr>driver := snd (DevIoDrvDispatchClientRequest pool i (with_pages n io (driver d))), next_irp := n + 1\<rparr>"
  obtain tag where tag: "under_way (PROXY_HEADER_SIZE + length io \<le> buffer_size_of d) tag n i io e"
    "buffer_size_of e = buffer_size_of d"
    using client_arrives [OF assms(1,2,4-7)] unfolding buffer_size_of_def e_def i_def n_def by blast
  have tr: "is_transfer i (length io)" using assms(4-7) by (auto simp: is_transfer_def i_def)
  have mf: "MajorFunction i = mj" "ByteOffset i = off" by (simp_all add: i_def client_call_def)
  have h: "PROXY_HEADER_SIZE \<le> buffer_size_of e"
    using assms(1) tag(2) by (simp add: idle_def calm_def buffer_size_of_def)
  have "PROXY_HEADER_SIZE + length io \<le> 2 ^ 63 * buffer_size_of e"
  proof -
    have "PROXY_HEADER_SIZE + length io \<le> 2 ^ 63 * PROXY_HEADER_SIZE" using assms(7) by (simp add: PROXY_HEADER_SIZE_def)
    also have "\<dots> \<le> 2 ^ 63 * buffer_size_of e" using h by simp
    finally show ?thesis .
  qed
  with server_serves [of io e tag n i pool 63] tag tr assms(2,3) h
  obtain d' where d': "server_turn (Suc 63) pool e = Some d'" "served n i io e d'" by auto
  have ie: "image e = image d" "size_of_image e = size_of_image d" by (simp_all add: e_def)
  have "Suc 63 = 64" by simp
  then have turn: "server_turn 64 pool e = Some d'" using d'(1) by metis
  have "client_io 64 pool mj d io off = Some (int (length io), mdl (snd (driver d')) n, d')"
    using turn d'(2) unfolding client_io_def Let_def n_def [symmetric] i_def [symmetric] e_def [symmetric]
    by (simp add: served_def)
  then show ?thesis using d'(2) mf ie by (simp add: served_def)
qed

section \<open>The disk\<close>

definition disk_inv :: "pool \<Rightarrow> fwd_disk \<Rightarrow> bool" where
  "disk_inv pool d \<longleftrightarrow> pool_full pool \<and> idle d \<and> buffer_size_of d < 2 ^ 32 \<and> size_of_image d < 2 ^ 63"

interpretation fwd: disk_store "client_read_io pool" image size_of_image "disk_inv pool" "client_write_io pool" for pool
proof unfold_locales
  fix s off and io :: "byte list"
  assume a: "disk_inv pool s" "fits (size_of_image s) off (length io)"
  then have "0 \<le> off" "off < 2 ^ 63" "length io < 2 ^ 31" by (auto simp: disk_inv_def fits_def)
  with a client_io_serves [of s pool IRP_MJ_READ off io]
  show "\<exists>s'. client_read_io pool s io off = Some (int (length io), mem_bytes (image s) off (length io), s') \<and>
      disk_inv pool s' \<and> image s' = image s \<and> size_of_image s' = size_of_image s"
    by (auto simp: client_read_io_def disk_inv_def)
  from \<open>0 \<le> off\<close> \<open>off < 2 ^ 63\<close> \<open>length io < 2 ^ 31\<close> a client_io_serves [of s pool IRP_MJ_WRITE off io]
  show "\<exists>s'. client_write_io pool s io off = Some (int (length io), s') \<and>
      disk_inv pool s' \<and> image s' = mem_write (image s) off io \<and> size_of_image s' = size_of_image s"
    by (auto simp: client_write_io_def disk_inv_def)
qed


text \<open>A new file: the server has opened it and posted a first call, with a cleared buffer of \<open>z\<close> bytes.\<close>

definition new_disk :: "pool \<Rightarrow> string \<Rightarrow> (int \<Rightarrow> byte) \<Rightarrow> int \<Rightarrow> nat \<Rightarrow> fwd_disk" where
  "new_disk pool name f size_f z =
     snd (post pool (replicate z 0)
       \<lparr>driver = (new_context name 1, new_machine (\<lambda>_. []) (\<lambda>_. [])), image = f, size_of_image = size_f,
        posted = 0, next_irp = 1\<rparr>)"

lemma new_disk_inv:
  assumes "pool_full pool" "PROXY_HEADER_SIZE \<le> z" "z < 2 ^ 32" "size_f < 2 ^ 63"
  shows "disk_inv pool (new_disk pool name f size_f z)" "image (new_disk pool name f size_f z) = f"
    "size_of_image (new_disk pool name f size_f z) = size_f"
proof -
  define bs where "bs = replicate z (0 :: byte)"
  have bs: "length bs = z" "qword 0 bs = REQ_NULL" "qword 8 bs = 0" "PROXY_HEADER_SIZE \<le> length bs"
    using assms(2) by (simp_all add: bs_def cleared_qword PROXY_HEADER_SIZE_def REQ_NULL_def)
  obtain a where a: "pool {} = Some a" using pool_full_first [OF assms(1)] .
  define x where "x = exchange_call 1 (int z)"
  define c m where "c = new_context name 1" and "m = new_machine (\<lambda>_. []) (\<lambda>_. [])"
  define m1 where "m1 = IoSetCancelRoutine x True (m\<lparr>mdl := (mdl m)(1 := bs), blocks := {a}\<rparr>)"
  have "DevIoDrvDispatchServerIORequest pool x (with_pages 1 bs (c, m)) =
      server_next pool x None 1 (int z) (c, m\<lparr>mdl := (mdl m)(1 := bs)\<rparr>)"
    using posted_call [OF bs(4), of pool 1 c m] bs by (simp add: server_answer_def REQ_NULL_def REQ_INFO_def x_def)
  also have "\<dots> = (STATUS_PENDING, (c\<lparr>ServerRequestIrpList := [new_item a x]\<rparr>, m1))"
    using a by (simp add: server_next_def c_def m_def m1_def new_context_def new_machine_def DevIoDrvQueueMemoryIrpUnsafe_def Let_def)
  finally have n: "new_disk pool name f size_f z = \<lparr>driver = (c\<lparr>ServerRequestIrpList := [new_item a x]\<rparr>, m1),
      image = f, size_of_image = size_f, posted = 1, next_irp = 2\<rparr>"
    by (simp add: new_disk_def post_def x_def bs_def [symmetric] bs(1) c_def m_def)
  show "disk_inv pool (new_disk pool name f size_f z)"
    using assms bs(1) unfolding n disk_inv_def idle_def calm_def buffer_size_of_def
    by (auto simp: c_def m1_def m_def new_context_def new_machine_def x_def IoSetCancelRoutine_def)
  show "image (new_disk pool name f size_f z) = f" "size_of_image (new_disk pool name f size_f z) = size_f"
    by (simp_all add: n)
qed



end
