(* ===== verification/Fwd_Table.thy ===== *)
theory Fwd_Table
  imports Fwd_Run Devio_Comm
begin

text \<open>
  The table of virtual files (\<open>deviodrv/filetable.cpp\<close>): the server creates an entry, clients open it by
  name, the last close removes it. The table is under a lock that is only tried: \<open>busy\<close> says that
  another thread holds it. \<open>upcase\<close> is the system's upper case table.
\<close>

section \<open>File objects and the table\<close>

record file_object =
  FileName :: string
  FsContext2 :: "nat option"
  ReadAccess :: bool
  WriteAccess :: bool
  CurrentByteOffset :: int

text \<open>The list of entries from its head, the entries in memory by address, the file objects.\<close>

record file_table =
  FileTable :: "nat list"
  contexts :: "nat \<Rightarrow> object_context option"
  file_objects :: "nat \<Rightarrow> file_object"

definition same_name :: "(char \<Rightarrow> char) \<Rightarrow> string \<Rightarrow> string \<Rightarrow> bool" where
  "same_name upcase a b \<longleftrightarrow> map upcase a = map upcase b"

definition context_at :: "nat \<Rightarrow> file_table \<Rightarrow> object_context" where
  "context_at a t = the (contexts t a)"

definition update_context :: "nat \<Rightarrow> (object_context \<Rightarrow> object_context) \<Rightarrow> file_table \<Rightarrow> file_table" where
  "update_context a f t = t\<lparr>contexts := (contexts t)(a := map_option f (contexts t a))\<rparr>"

definition update_file :: "nat \<Rightarrow> (file_object \<Rightarrow> file_object) \<Rightarrow> file_table \<Rightarrow> file_table" where
  "update_file f g t = t\<lparr>file_objects := (file_objects t)(f := g (file_objects t f))\<rparr>"

definition find_context :: "(char \<Rightarrow> char) \<Rightarrow> string \<Rightarrow> file_table \<Rightarrow> nat option" where
  "find_context upcase name t = find (\<lambda>a. same_name upcase name (Name (context_at a t))) (FileTable t)"

definition InterlockedIncrement :: "int \<Rightarrow> int" where "InterlockedIncrement x = s32 (x + 1)"
definition InterlockedDecrement :: "int \<Rightarrow> int" where "InterlockedDecrement x = s32 (x - 1)"

section \<open>Closing\<close>

definition leave_context :: "nat \<Rightarrow> object_context \<Rightarrow> object_context" where
  "leave_context f c =
     (let c = (if Some f = Server c then c\<lparr>Server := None\<rparr>
               else if Some f = Client c then c\<lparr>Client := None\<rparr> else c)
      in c\<lparr>RefCount := InterlockedDecrement (RefCount c)\<rparr>)"

definition DevIoDrvCloseFileTableEntry :: "bool \<Rightarrow> nat \<Rightarrow> file_table \<Rightarrow> ntstatus \<times> file_table" where
  "DevIoDrvCloseFileTableEntry busy f t =
     (if busy then (STATUS_RESOURCE_IN_USE, t)
      else let a = the (FsContext2 (file_objects t f)); t = update_context a (leave_context f) t in
      if 0 < RefCount (context_at a t) then (STATUS_SUCCESS, t)
      else (STATUS_SUCCESS,
            update_file f (\<lambda>fo. fo\<lparr>FsContext2 := None\<rparr>)
              (t\<lparr>FileTable := remove1 a (FileTable t), contexts := (contexts t)(a := None)\<rparr>)))"

section \<open>Opening\<close>

definition check_attributes_only :: "int \<Rightarrow> bool" where
  "check_attributes_only DesiredAccess \<longleftrightarrow> DesiredAccess AND 0xF001017F = 0"

definition requests_write_access :: "int \<Rightarrow> bool" where
  "requests_write_access DesiredAccess \<longleftrightarrow> DesiredAccess AND 0x50000002 \<noteq> 0"

text \<open>What is decided after the table has been unlocked, \<open>ref_number\<close> being the new number of references.\<close>

definition open_status :: "int \<Rightarrow> int \<Rightarrow> object_context \<Rightarrow> ntstatus" where
  "open_status DesiredAccess ref_number c =
     (if check_attributes_only DesiredAccess \<and> FileSize c = 0 then STATUS_OBJECT_NAME_NOT_FOUND
      else if \<not> check_attributes_only DesiredAccess \<and> ref_number \<noteq> 2 then STATUS_SHARING_VIOLATION
      else if requests_write_access DesiredAccess \<and> ServiceFlags c AND FSCRYPTDPROXY_FLAG_RO \<noteq> 0
      then STATUS_MEDIA_WRITE_PROTECTED
      else STATUS_SUCCESS)"

definition DevIoDrvOpenFileTableEntry ::
    "(char \<Rightarrow> char) \<Rightarrow> bool \<Rightarrow> bool \<Rightarrow> nat \<Rightarrow> int \<Rightarrow> file_table \<Rightarrow> ntstatus \<times> file_table" where
  "DevIoDrvOpenFileTableEntry upcase busy busy_close f DesiredAccess t =
     (if busy then (STATUS_DEVICE_BUSY, t)
      else case find_context upcase (FileName (file_objects t f)) t of
        None \<Rightarrow> (STATUS_OBJECT_NAME_NOT_FOUND, t)
      | Some a \<Rightarrow>
          let ref_number = InterlockedIncrement (RefCount (context_at a t));
              t = update_context a (\<lambda>c. c\<lparr>RefCount := ref_number,
                     Client := if ref_number = 2 then Some f else Client c\<rparr>) t;
              t = update_file f (\<lambda>fo. fo\<lparr>FsContext2 := Some a\<rparr>) t;
              status = open_status DesiredAccess ref_number (context_at a t) in
          if status = STATUS_SUCCESS
          then (status,
                if check_attributes_only DesiredAccess then t
                else update_file f (\<lambda>fo. fo\<lparr>ReadAccess := True,
                       WriteAccess := WriteAccess fo \<or> requests_write_access DesiredAccess\<rparr>) t)
          else (status, if 0 < ref_number then snd (DevIoDrvCloseFileTableEntry busy_close f t) else t))"

section \<open>Creating\<close>

text \<open>\<open>context_pool\<close> is the address of the block for the context, if there is one; \<open>name_pool\<close> says
  whether there is one for the name.\<close>

definition DevIoDrvCreateFileTableEntry ::
    "(char \<Rightarrow> char) \<Rightarrow> bool \<Rightarrow> nat option \<Rightarrow> bool \<Rightarrow> nat \<Rightarrow> file_table \<Rightarrow> ntstatus \<times> file_table" where
  "DevIoDrvCreateFileTableEntry upcase busy context_pool name_pool f t =
     (if busy then (STATUS_DEVICE_BUSY, t)
      else if find_context upcase (FileName (file_objects t f)) t \<noteq> None then (STATUS_OBJECT_NAME_COLLISION, t)
      else case context_pool of
        None \<Rightarrow> (STATUS_INSUFFICIENT_RESOURCES, t)
      | Some a \<Rightarrow>
          if \<not> name_pool then (STATUS_INSUFFICIENT_RESOURCES, t)
          else (STATUS_SUCCESS,
                update_file f (\<lambda>fo. fo\<lparr>FsContext2 := Some a, ReadAccess := True, WriteAccess := True\<rparr>)
                  (t\<lparr>FileTable := a # FileTable t,
                     contexts := (contexts t)(a := Some (new_context (FileName (file_objects t f)) f))\<rparr>)))"

end
