(* ===== verification/Fwd_Handles.thy ===== *)
theory Fwd_Handles
  imports Fwd_Table
begin

text \<open>
  Runs of the table of virtual files: which handles are open, what the reference counts say about them,
  and who may be a client. \<open>leak\<close> counts, for each entry, the references of opens that failed while
  another thread held the lock.
\<close>

section \<open>Well-formed tables\<close>

definition handles :: "nat \<Rightarrow> nat list \<Rightarrow> file_table \<Rightarrow> nat list" where
  "handles a opened t = filter (\<lambda>f. FsContext2 (file_objects t f) = Some a) opened"

definition has_access :: "nat \<Rightarrow> file_table \<Rightarrow> bool" where
  "has_access f t \<longleftrightarrow> ReadAccess (file_objects t f) \<or> WriteAccess (file_objects t f)"

text \<open>A connected entry: its server has a handle and at most one other handle has access.\<close>

definition connected_ok :: "nat \<Rightarrow> nat list \<Rightarrow> file_table \<Rightarrow> bool" where
  "connected_ok a opened t \<longleftrightarrow>
     (\<forall>s. Server (context_at a t) = Some s \<longrightarrow>
        s \<in> set (handles a opened t) \<and>
        (\<forall>f \<in> set (handles a opened t). \<forall>g \<in> set (handles a opened t).
           f \<noteq> s \<longrightarrow> g \<noteq> s \<longrightarrow> has_access f t \<longrightarrow> has_access g t \<longrightarrow> f = g))"

definition entry_ok :: "nat \<Rightarrow> nat \<Rightarrow> nat list \<Rightarrow> file_table \<Rightarrow> bool" where
  "entry_ok leak a opened t \<longleftrightarrow>
     int (length (handles a opened t)) + int leak = RefCount (context_at a t) \<and>
     0 < RefCount (context_at a t) \<and> RefCount (context_at a t) < 2147483648 \<and> connected_ok a opened t"

definition table_ok :: "(char \<Rightarrow> char) \<Rightarrow> (nat \<Rightarrow> nat) \<Rightarrow> nat list \<Rightarrow> file_table \<Rightarrow> bool" where
  "table_ok upcase leak opened t \<longleftrightarrow>
     distinct (FileTable t) \<and> set (FileTable t) = dom (contexts t) \<and> distinct opened \<and>
     distinct (map (\<lambda>a. map upcase (Name (context_at a t))) (FileTable t)) \<and>
     (\<forall>f \<in> set opened. \<exists>a \<in> set (FileTable t). FsContext2 (file_objects t f) = Some a) \<and>
     (\<forall>a \<in> set (FileTable t). entry_ok (leak a) a opened t)"

section \<open>Basic facts\<close>

lemma update_simps [simp]:
  "FileTable (update_context a g t) = FileTable t" "file_objects (update_context a g t) = file_objects t"
  "FileTable (update_file f h t) = FileTable t" "contexts (update_file f h t) = contexts t"
  "file_objects (update_file f h t) = (file_objects t)(f := h (file_objects t f))"
  "context_at a (update_file f h t) = context_at a t"
  "dom (contexts (update_context a g t)) = dom (contexts t)"
  by (auto simp: update_context_def update_file_def context_at_def dom_def)

lemma context_at_update [simp]:
  "a \<in> dom (contexts t) \<Longrightarrow> context_at b (update_context a g t) = (if b = a then g (context_at a t) else context_at b t)"
  by (auto simp: update_context_def context_at_def)

lemma handles_update [simp]: "handles a opened (update_context b g t) = handles a opened t"
  by (simp add: handles_def)

lemma has_access_update [simp]: "has_access f (update_context b g t) = has_access f t"
  by (simp add: has_access_def)

lemma find_context_SomeD:
  "find_context upcase name t = Some a \<Longrightarrow> a \<in> set (FileTable t) \<and> same_name upcase name (Name (context_at a t))"
  by (auto simp: find_context_def find_Some_iff)

text \<open>What the handlers of \<open>irpfwd.cpp\<close> may do to an entry.\<close>

definition keeps_handles :: "object_context \<Rightarrow> object_context \<Rightarrow> bool" where
  "keeps_handles c c' \<longleftrightarrow> Name c' = Name c \<and> RefCount c' = RefCount c \<and> Client c' = Client c \<and>
     (Server c' = Server c \<or> Server c' = None)"

lemma table_ok_served:
  assumes "table_ok upcase leak opened t" "a \<in> set (FileTable t)" "keeps_handles (context_at a t) (g (context_at a t))"
  shows "table_ok upcase leak opened (update_context a g t)"
proof -
  have a: "a \<in> dom (contexts t)" using assms(1,2) by (simp add: table_ok_def)
  have n: "map (\<lambda>b. map upcase (Name (context_at b (update_context a g t)))) (FileTable t) =
      map (\<lambda>b. map upcase (Name (context_at b t))) (FileTable t)"
    using assms(3) a by (simp add: keeps_handles_def)
  have "entry_ok (leak b) b opened (update_context a g t)" if "b \<in> set (FileTable t)" for b
  proof -
    have "entry_ok (leak b) b opened t" using assms(1) that by (simp add: table_ok_def)
    then show ?thesis
      using assms(3) a by (cases "b = a") (auto simp: entry_ok_def connected_ok_def keeps_handles_def)
  qed
  then show ?thesis
    using assms(1) unfolding table_ok_def update_simps n by blast
qed

section \<open>Opening\<close>

text \<open>The new handle is counted; it has no access yet.\<close>

definition enter_context :: "nat \<Rightarrow> nat \<Rightarrow> file_table \<Rightarrow> file_table" where
  "enter_context a f t =
     (let ref_number = InterlockedIncrement (RefCount (context_at a t)) in
      update_file f (\<lambda>fo. fo\<lparr>FsContext2 := Some a\<rparr>)
        (update_context a (\<lambda>c. c\<lparr>RefCount := ref_number, Client := if ref_number = 2 then Some f else Client c\<rparr>) t))"

lemma handles_enter:
  "f \<notin> set opened \<Longrightarrow> handles b (f # opened) (enter_context a f t) = (if b = a then f # handles b opened t else handles b opened t)"
  by (auto simp: handles_def enter_context_def Let_def intro!: filter_cong)

lemma table_ok_enter:
  assumes "table_ok upcase leak opened t" "a \<in> set (FileTable t)" "f \<notin> set opened" "\<not> has_access f t"
    "RefCount (context_at a t) < 2147483647"
  shows "table_ok upcase leak (f # opened) (enter_context a f t)"
proof -
  have a: "a \<in> dom (contexts t)" using assms(1,2) by (simp add: table_ok_def)
  have ref: "InterlockedIncrement (RefCount (context_at a t)) = RefCount (context_at a t) + 1"
  proof -
    have "entry_ok (leak a) a opened t" using assms(1,2) by (simp add: table_ok_def)
    then show ?thesis using assms(5) by (simp add: InterlockedIncrement_def entry_ok_def s32_id)
  qed
  have ctx: "context_at b (enter_context a f t) =
      (if b = a then context_at a t\<lparr>RefCount := RefCount (context_at a t) + 1,
         Client := if RefCount (context_at a t) + 1 = 2 then Some f else Client (context_at a t)\<rparr> else context_at b t)" for b
    using a ref by (simp add: enter_context_def Let_def)
  have acc: "has_access g (enter_context a f t) = has_access g t" for g
    by (simp add: has_access_def enter_context_def Let_def)
  have ft: "FileTable (enter_context a f t) = FileTable t" "dom (contexts (enter_context a f t)) = dom (contexts t)"
    by (simp_all add: enter_context_def Let_def)
  have n: "map (\<lambda>b. map upcase (Name (context_at b (enter_context a f t)))) (FileTable t) =
      map (\<lambda>b. map upcase (Name (context_at b t))) (FileTable t)" by (simp add: ctx)
  have con: "connected_ok b (f # opened) (enter_context a f t)" if "b \<in> set (FileTable t)" for b
  proof -
    have "connected_ok b opened t" using assms(1) that by (simp add: table_ok_def entry_ok_def)
    then show ?thesis
      using assms(3,4) by (auto simp: connected_ok_def handles_enter acc ctx)
  qed
  have "entry_ok (leak b) b (f # opened) (enter_context a f t)" if "b \<in> set (FileTable t)" for b
  proof -
    have "entry_ok (leak b) b opened t" using assms(1) that by (simp add: table_ok_def)
    moreover have "connected_ok b (f # opened) (enter_context a f t)" by (rule con [OF that])
    ultimately show ?thesis
      using assms(5) by (cases "b = a") (simp_all add: entry_ok_def handles_enter [OF assms(3)] ctx)
  qed
  moreover have "\<exists>b \<in> set (FileTable t). FsContext2 (file_objects (enter_context a f t) g) = Some b" if "g \<in> set (f # opened)" for g
    using assms(1,2) that by (auto simp: table_ok_def enter_context_def Let_def)
  ultimately show ?thesis
    using assms(1,3) by (simp add: table_ok_def ft n)
qed

section \<open>Closing\<close>

lemma table_ok_close:
  assumes "table_ok upcase leak opened t" "f \<in> set opened"
  shows "table_ok upcase leak (remove1 f opened) (snd (DevIoDrvCloseFileTableEntry False f t))"
proof -
  have d: "distinct opened" "distinct (FileTable t)" "set (FileTable t) = dom (contexts t)"
    using assms(1) by (simp_all add: table_ok_def)
  obtain a where a: "FsContext2 (file_objects t f) = Some a" "a \<in> set (FileTable t)" "a \<in> dom (contexts t)"
    using assms by (auto simp: table_ok_def)
  define c where "c = context_at a t"
  define t1 where "t1 = update_context a (leave_context f) t"
  have e: "entry_ok (leak a) a opened t" using assms(1) a(2) by (simp add: table_ok_def)
  have f: "f \<in> set (handles a opened t)" using assms(2) a(1) by (simp add: handles_def)
  have ref: "RefCount (leave_context f c) = RefCount c - 1"
    using e by (simp add: leave_context_def Let_def InterlockedDecrement_def s32_id entry_ok_def c_def)
  have h: "handles b (remove1 f opened) t = (if b = a then remove1 f (handles a opened t) else handles b opened t)" for b
    using a(1) d(1) by (auto simp: handles_def filter_remove1 remove1_idem)
  have "0 < length (handles a opened t)" using f by auto
  then have len: "int (length (remove1 f (handles a opened t))) = int (length (handles a opened t)) - 1"
    "0 < length (handles a opened t)"
    using f by (auto simp: length_remove1 of_nat_diff Suc_le_eq)
  have srv: "Server (leave_context f c) = (if Server c = Some f then None else Server c)" "Name (leave_context f c) = Name c"
    by (auto simp: leave_context_def Let_def)
  have con: "connected_ok b (remove1 f opened) t1" if "b \<in> set (FileTable t)" for b
  proof -
    have "connected_ok b opened t" using assms(1) that by (simp add: table_ok_def entry_ok_def)
    moreover have "g \<in> set (handles b (remove1 f opened) t1) \<longleftrightarrow> g \<in> set (handles b opened t) \<and> g \<noteq> f" for g
      using d(1) by (auto simp: t1_def handles_def)
    moreover have "Server (context_at b t1) = (if b = a \<and> Server c = Some f then None else Server (context_at b t))"
      using a(3) srv(1) by (simp add: t1_def c_def)
    moreover have "Server (context_at b t) \<noteq> Some f" if "b \<noteq> a"
      using calculation(1) that a(1) by (auto simp: connected_ok_def handles_def)
    moreover have "has_access g t1 = has_access g t" for g by (simp add: t1_def)
    ultimately show ?thesis
      unfolding connected_ok_def by (auto simp: c_def split: if_splits)
  qed
  have en: "entry_ok (leak b) b (remove1 f opened) t1" if "b \<in> set (FileTable t)" "b = a \<longrightarrow> 1 < RefCount c" for b
  proof -
    have eb: "entry_ok (leak b) b opened t" using assms(1) that(1) by (simp add: table_ok_def)
    have c1: "context_at g t1 = (if g = a then leave_context f c else context_at g t)" for g
      using a(3) by (simp add: t1_def c_def)
    have h1: "handles g (remove1 f opened) t1 = handles g (remove1 f opened) t" for g by (simp add: t1_def)
    show ?thesis
      using con [OF that(1)] that(2) ref len e eb
      by (cases "b = a") (auto simp: entry_ok_def h h1 c1 c_def [symmetric])
  qed
  have n: "map (\<lambda>b. map upcase (Name (context_at b t1))) (FileTable t) =
      map (\<lambda>b. map upcase (Name (context_at b t))) (FileTable t)"
    using a(3) srv(2) by (simp add: t1_def c_def)
  show ?thesis
  proof (cases "1 < RefCount c")
    case True
    then have "DevIoDrvCloseFileTableEntry False f t = (STATUS_SUCCESS, t1)"
      using a ref by (simp add: DevIoDrvCloseFileTableEntry_def Let_def t1_def c_def)
    moreover have "\<exists>b \<in> set (FileTable t). FsContext2 (file_objects t1 g) = Some b" if "g \<in> set (remove1 f opened)" for g
      using assms(1) that by (auto simp: table_ok_def t1_def dest: notin_set_remove1 set_remove1_subset [THEN subsetD])
    moreover have "FileTable t1 = FileTable t" "dom (contexts t1) = dom (contexts t)" by (simp_all add: t1_def)
    moreover have "distinct (map (\<lambda>b. map upcase (Name (context_at b t1))) (FileTable t))"
      unfolding n using assms(1) by (simp add: table_ok_def)
    ultimately show ?thesis
      using d True en unfolding table_ok_def snd_conv by simp
  next
    case False
    then have one: "RefCount c = 1" using e by (simp add: entry_ok_def c_def)
    define t2 where "t2 = update_file f (\<lambda>fo. fo\<lparr>FsContext2 := None\<rparr>)
        (t1\<lparr>FileTable := remove1 a (FileTable t1), contexts := (contexts t1)(a := None)\<rparr>)"
    have t2: "DevIoDrvCloseFileTableEntry False f t = (STATUS_SUCCESS, t2)"
      using a ref one by (simp add: DevIoDrvCloseFileTableEntry_def Let_def t1_def c_def t2_def)
    have only: "handles a opened t = [f]"
    proof -
      obtain g gs where g: "handles a opened t = g # gs" using len(2) by (cases "handles a opened t") auto
      then have "int (length gs) + int (leak a) = 0" using e one by (simp add: entry_ok_def c_def)
      then have "gs = []" by (metis length_0_conv of_nat_0_eq_iff of_nat_add add_is_0)
      with f g show ?thesis by simp
    qed
    have "dom (contexts t1) = dom (contexts t)" by (simp add: t1_def)
    then have ft: "FileTable t2 = remove1 a (FileTable t)" "dom (contexts t2) = dom (contexts t) - {a}"
      by (simp_all add: t2_def) (simp add: t1_def)
    have ctx: "context_at b t2 = context_at b t1" if "b \<noteq> a" for b
      using that by (simp add: t2_def context_at_def)
    have fo: "file_objects t2 g = file_objects t g" if "g \<noteq> f" for g
      using that by (simp add: t2_def t1_def)
    have h2: "handles b (remove1 f opened) t2 = handles b (remove1 f opened) t1" for b
      using d(1) fo by (auto simp: handles_def t1_def intro!: filter_cong)
    have "entry_ok (leak b) b (remove1 f opened) t2" if "b \<in> set (FileTable t2)" for b
    proof -
      have b: "b \<in> set (FileTable t)" "b \<noteq> a" using that d(2) by (auto simp: ft)
      have acc: "has_access g t2 = has_access g t1" if "g \<in> set (handles b (remove1 f opened) t1)" for g
        using that fo [of g] d(1) by (auto simp: has_access_def t1_def handles_def)
      have "entry_ok (leak b) b (remove1 f opened) t1" using en [OF b(1)] b(2) by blast
      then show ?thesis
        unfolding entry_ok_def connected_ok_def h2 ctx [OF b(2)] using acc by metis
    qed
    moreover have "\<exists>b \<in> set (FileTable t2). FsContext2 (file_objects t2 g) = Some b" if "g \<in> set (remove1 f opened)" for g
    proof -
      have g: "g \<in> set opened" "g \<noteq> f" using that d(1) by auto
      obtain b where b: "b \<in> set (FileTable t)" "FsContext2 (file_objects t g) = Some b"
        using assms(1) g(1) by (auto simp: table_ok_def)
      have "g \<in> set (handles b opened t)" using b(2) g(1) by (simp add: handles_def)
      then have "b \<noteq> a" using only g(2) by auto
      then show ?thesis using b fo [OF g(2)] d(2) by (auto simp: ft)
    qed
    moreover have "distinct (map (\<lambda>b. map upcase (Name (context_at b t2))) (FileTable t2))"
    proof -
      have "map (\<lambda>b. map upcase (Name (context_at b t2))) (FileTable t2) =
          map (\<lambda>b. map upcase (Name (context_at b t))) (remove1 a (FileTable t))"
        unfolding ft using d(2) a(3) by (auto simp: ctx t1_def)
      then show ?thesis
        using assms(1) d(2) by (auto simp: table_ok_def distinct_map intro: inj_on_subset)
    qed
    ultimately show ?thesis
      using d unfolding table_ok_def t2 snd_conv by (simp add: ft)
  qed
qed


section \<open>The operations\<close>

lemma open_cases:
  fixes access :: int
  assumes "find_context upcase (FileName (file_objects t f)) t = Some a" "a \<in> dom (contexts t)"
  defines "ref_number \<equiv> InterlockedIncrement (RefCount (context_at a t))"
  defines "status \<equiv> open_status access ref_number (context_at a (enter_context a f t))"
  shows "DevIoDrvOpenFileTableEntry upcase False busy_close f access t =
     (status,
      if status = STATUS_SUCCESS
      then if check_attributes_only access then enter_context a f t
           else update_file f (\<lambda>fo. fo\<lparr>ReadAccess := True, WriteAccess := WriteAccess fo \<or> requests_write_access access\<rparr>)
                  (enter_context a f t)
      else if 0 < ref_number then snd (DevIoDrvCloseFileTableEntry busy_close f (enter_context a f t))
      else enter_context a f t)"
  using assms(1) by (simp add: DevIoDrvOpenFileTableEntry_def Let_def status_def ref_number_def enter_context_def)

lemma at_most_two:
  assumes "length xs \<le> 2" "s \<in> set xs" "x \<in> set xs" "y \<in> set xs" "x \<noteq> s" "y \<noteq> s"
  shows "x = y"
  using assms by (cases xs; cases "tl xs") auto

text \<open>Access is given only to the second reference.\<close>

lemma table_ok_grant:
  assumes "table_ok upcase leak (f # opened) t" "FsContext2 (file_objects t f) = Some a"
    "RefCount (context_at a t) = 2" "\<And>fo. FsContext2 (h fo) = FsContext2 fo"
  shows "table_ok upcase leak (f # opened) (update_file f h t)"
proof -
  have h: "handles b (f # opened) (update_file f h t) = handles b (f # opened) t" for b
    using assms(4) by (auto simp: handles_def intro!: filter_cong)
  have other: "has_access g (update_file f h t) = has_access g t" if "g \<noteq> f" for g
    using that by (simp add: has_access_def)
  have a: "a \<in> set (FileTable t)" using assms(1,2) by (auto simp: table_ok_def)
  have f: "f \<in> set (handles b (f # opened) t) \<longleftrightarrow> b = a" for b using assms(2) by (auto simp: handles_def)
  have "entry_ok (leak b) b (f # opened) (update_file f h t)" if "b \<in> set (FileTable t)" for b
  proof -
    have e: "entry_ok (leak b) b (f # opened) t" using assms(1) that by (simp add: table_ok_def)
    have "connected_ok b (f # opened) (update_file f h t)"
    proof (cases "b = a")
      case True
      have "length (handles a (f # opened) t) \<le> 2"
        using e assms(3) True by (simp add: entry_ok_def)
      moreover have "distinct (handles a (f # opened) t)"
        using assms(1) by (simp add: table_ok_def handles_def)
      moreover have "s \<in> set (handles a (f # opened) t)" if "Server (context_at a t) = Some s" for s
        using e True that by (simp add: entry_ok_def connected_ok_def)
      ultimately show ?thesis
        using True by (auto simp: connected_ok_def h intro: at_most_two)
    next
      case False
      then have "f \<notin> set (handles b (f # opened) t)" using f by simp
      then show ?thesis using e False by (auto simp: entry_ok_def connected_ok_def h) (metis other)
    qed
    then show ?thesis using e by (simp add: entry_ok_def h)
  qed
  moreover have "FsContext2 (file_objects (update_file f h t) g) = FsContext2 (file_objects t g)" for g
    using assms(4) by simp
  ultimately show ?thesis using assms(1) unfolding table_ok_def update_simps(3,4,6) by metis
qed


text \<open>A failed open whose close finds the lock taken leaves its reference.\<close>

lemma table_ok_lose:
  assumes "table_ok upcase leak opened t" "a \<in> set (FileTable t)" "f \<notin> set opened" "\<not> has_access f t"
    "RefCount (context_at a t) < 2147483647"
  shows "table_ok upcase (leak(a := leak a + 1)) opened (enter_context a f t)"
proof -
  note t = table_ok_enter [OF assms]
  have h: "handles b opened (enter_context a f t) = handles b opened t" for b
    using assms(3) by (auto simp: handles_def enter_context_def Let_def intro!: filter_cong)
  have ft: "FileTable (enter_context a f t) = FileTable t"
    by (simp add: enter_context_def Let_def)
  have a: "a \<in> dom (contexts t)" using assms(1,2) by (simp add: table_ok_def)
  have srv: "Server (context_at b (enter_context a f t)) = Server (context_at b t)" for b
    using a by (simp add: enter_context_def Let_def)
  have acc: "has_access g (enter_context a f t) = has_access g t" for g
    by (simp add: has_access_def enter_context_def Let_def)
  have "entry_ok ((leak(a := leak a + 1)) b) b opened (enter_context a f t)" if "b \<in> set (FileTable t)" for b
  proof -
    have e: "entry_ok (leak b) b (f # opened) (enter_context a f t)"
      using t that by (simp add: table_ok_def ft)
    have "entry_ok (leak b) b opened t" using assms(1) that by (simp add: table_ok_def)
    then have c: "connected_ok b opened (enter_context a f t)"
      by (simp add: entry_ok_def connected_ok_def h srv acc)
    show ?thesis
    proof (cases "b = a")
      case True
      have "int (length (handles a (f # opened) (enter_context a f t))) = int (length (handles a opened t)) + 1"
        by (simp add: handles_enter [OF assms(3)])
      then show ?thesis using e c True by (simp add: entry_ok_def h)
    next
      case False
      then have "handles b (f # opened) (enter_context a f t) = handles b opened t"
        by (simp add: handles_enter [OF assms(3)])
      then show ?thesis using e c False by (simp add: entry_ok_def h)
    qed
  qed
  then show ?thesis using t unfolding table_ok_def ft by (metis distinct.simps(2) list.set_intros(2))
qed

lemma table_ok_open:
  assumes "table_ok upcase leak opened t" "f \<notin> set opened" "\<not> has_access f t"
    "\<forall>a \<in> set (FileTable t). RefCount (context_at a t) < 2147483647"
    "DevIoDrvOpenFileTableEntry upcase busy busy_close f access t = (status, t')"
  shows "\<exists>leak'. table_ok upcase leak' (if status = STATUS_SUCCESS then f # opened else opened) t' \<and>
           (\<not> busy_close \<longrightarrow> leak' = leak)"
proof (cases "busy \<or> find_context upcase (FileName (file_objects t f)) t = None")
  case True
  then have "DevIoDrvOpenFileTableEntry upcase busy busy_close f access t =
      (if busy then STATUS_DEVICE_BUSY else STATUS_OBJECT_NAME_NOT_FOUND, t)"
    by (cases busy) (simp_all add: DevIoDrvOpenFileTableEntry_def)
  then have "status \<noteq> STATUS_SUCCESS" "t' = t" using assms(5) by (auto split: if_splits)
  then show ?thesis using assms(1) by auto
next
  case False
  then obtain a where a: "find_context upcase (FileName (file_objects t f)) t = Some a" and nb: "\<not> busy" by auto
  have at: "a \<in> set (FileTable t)" "a \<in> dom (contexts t)"
    using find_context_SomeD [OF a] assms(1) by (auto simp: table_ok_def)
  have lim: "RefCount (context_at a t) < 2147483647" using assms(4) at by blast
  have pos: "0 < RefCount (context_at a t)" using assms(1) at by (simp add: table_ok_def entry_ok_def)
  have ref: "InterlockedIncrement (RefCount (context_at a t)) = RefCount (context_at a t) + 1"
    using lim pos by (simp add: InterlockedIncrement_def s32_id)
  define t1 where "t1 = enter_context a f t"
  have t1: "table_ok upcase leak (f # opened) t1"
    unfolding t1_def by (rule table_ok_enter [OF assms(1) at(1) assms(2,3) lim])
  have c1: "FsContext2 (file_objects t1 f) = Some a" "RefCount (context_at a t1) = RefCount (context_at a t) + 1"
    using at(2) ref by (simp_all add: t1_def enter_context_def Let_def)
  note r = open_cases [OF a at(2), of busy_close access, folded t1_def, unfolded ref]
  show ?thesis
  proof (cases "open_status access (RefCount (context_at a t) + 1) (context_at a t1) = STATUS_SUCCESS")
    case True
    then have st: "status = STATUS_SUCCESS" using assms(5) r nb by simp
    show ?thesis
    proof (cases "check_attributes_only access")
      case True
      then have "t' = t1" using assms(5) r nb st by (simp split: if_splits)
      then show ?thesis using t1 st by auto
    next
      case False
      then have "RefCount (context_at a t) + 1 = 2"
        using True by (simp add: open_status_def split: if_splits)
      then have "table_ok upcase leak (f # opened) (update_file f
          (\<lambda>fo. fo\<lparr>ReadAccess := True, WriteAccess := WriteAccess fo \<or> requests_write_access access\<rparr>) t1)"
        by (intro table_ok_grant [OF t1 c1(1)]) (simp_all add: c1)
      moreover have "t' = update_file f
          (\<lambda>fo. fo\<lparr>ReadAccess := True, WriteAccess := WriteAccess fo \<or> requests_write_access access\<rparr>) t1"
        using assms(5) r nb st False by (simp split: if_splits)
      ultimately show ?thesis using st by auto
    qed
  next
    case False
    then have st: "status \<noteq> STATUS_SUCCESS" "t' = snd (DevIoDrvCloseFileTableEntry busy_close f t1)"
      using assms(5) r nb pos by auto
    show ?thesis
    proof (cases busy_close)
      case True
      then have "t' = t1" using st(2) by (simp add: DevIoDrvCloseFileTableEntry_def)
      then show ?thesis
        using table_ok_lose [OF assms(1) at(1) assms(2,3) lim] st(1) True unfolding t1_def [symmetric] by auto
    next
      case False
      then have "table_ok upcase leak opened t'"
        using table_ok_close [OF t1, of f] st(2) by simp
      then show ?thesis using st(1) by auto
    qed
  qed
qed

lemma table_ok_create:
  assumes "table_ok upcase leak opened t" "f \<notin> set opened" "\<And>a. context_pool = Some a \<Longrightarrow> contexts t a = None"
    "DevIoDrvCreateFileTableEntry upcase busy context_pool name_pool f t = (status, t')"
  shows "\<exists>leak'. table_ok upcase leak' (if status = STATUS_SUCCESS then f # opened else opened) t' \<and>
           ((\<forall>b. leak b = 0) \<longrightarrow> (\<forall>b. leak' b = 0))"
proof (cases "status = STATUS_SUCCESS")
  case False
  then have "t' = t" using assms(4) by (auto simp: DevIoDrvCreateFileTableEntry_def split: if_splits option.splits)
  then show ?thesis using assms(1) False by auto
next
  case True
  then obtain a where a: "context_pool = Some a" "find_context upcase (FileName (file_objects t f)) t = None"
    "t' = update_file f (\<lambda>fo. fo\<lparr>FsContext2 := Some a, ReadAccess := True, WriteAccess := True\<rparr>)
            (t\<lparr>FileTable := a # FileTable t,
               contexts := (contexts t)(a := Some (new_context (FileName (file_objects t f)) f))\<rparr>)"
    using assms(4) by (auto simp: DevIoDrvCreateFileTableEntry_def split: if_splits option.splits)
  have new: "a \<notin> set (FileTable t)" using assms(1,3) a(1) by (auto simp: table_ok_def)
  have ft: "FileTable t' = a # FileTable t" "dom (contexts t') = insert a (dom (contexts t))"
    using a(3) by (auto simp: update_file_def dom_def)
  have ctx: "context_at b t' = (if b = a then new_context (FileName (file_objects t f)) f else context_at b t)" for b
    using a(3) by (simp add: context_at_def update_file_def)
  have fo: "FsContext2 (file_objects t' g) = (if g = f then Some a else FsContext2 (file_objects t g))"
      "g \<noteq> f \<Longrightarrow> has_access g t' = has_access g t" for g
    using a(3) by (simp_all add: update_file_def has_access_def)
  have no: "FsContext2 (file_objects t g) \<noteq> Some a" if "g \<in> set opened" for g
    using assms(1) that new by (auto simp: table_ok_def)
  have h: "handles b (f # opened) t' = (if b = a then [f] else handles b opened t)" for b
    using assms(2) no by (auto simp: handles_def fo intro!: filter_cong simp: filter_empty_conv)
  have fresh: "map upcase (FileName (file_objects t f)) \<noteq> map upcase (Name (context_at b t))" if "b \<in> set (FileTable t)" for b
    using a(2) that by (auto simp: find_context_def find_None_iff same_name_def)
  define leak' where "leak' = leak(a := 0)"
  have "entry_ok (leak' b) b (f # opened) t'" if "b \<in> set (a # FileTable t)" for b
  proof (cases "b = a")
    case True
    then show ?thesis
      by (simp add: entry_ok_def connected_ok_def h ctx new_context_def leak'_def)
  next
    case False
    then have "entry_ok (leak b) b opened t" using assms(1) that by (simp add: table_ok_def)
    moreover have "has_access g t' = has_access g t" if "g \<in> set (handles b opened t)" for g
      using that assms(2) fo(2) [of g] by (auto simp: handles_def)
    moreover have "handles b (f # opened) t' = handles b opened t" "context_at b t' = context_at b t" "leak' b = leak b"
      using False by (simp_all add: h ctx leak'_def)
    ultimately show ?thesis unfolding entry_ok_def connected_ok_def by metis
  qed
  moreover have "distinct (map (\<lambda>b. map upcase (Name (context_at b t'))) (a # FileTable t))"
  proof -
    have m: "map (\<lambda>b. map upcase (Name (context_at b t'))) (FileTable t) = map (\<lambda>b. map upcase (Name (context_at b t))) (FileTable t)"
      using new by (auto simp: ctx)
    have n: "map upcase (Name (context_at a t')) = map upcase (FileName (file_objects t f))"
      by (simp add: ctx new_context_def)
    have "distinct (map (\<lambda>b. map upcase (Name (context_at b t))) (FileTable t))"
      using assms(1) by (simp add: table_ok_def)
    moreover have "map upcase (FileName (file_objects t f)) \<notin> set (map (\<lambda>b. map upcase (Name (context_at b t))) (FileTable t))"
      using fresh by auto
    ultimately show ?thesis unfolding list.map distinct.simps m n by blast
  qed
  moreover have "\<exists>b \<in> set (a # FileTable t). FsContext2 (file_objects t' g) = Some b" if "g \<in> set (f # opened)" for g
    using assms(1) that by (cases "g = f") (auto simp: fo(1) table_ok_def)
  moreover have "distinct (a # FileTable t)" "distinct (f # opened)" "set (a # FileTable t) = insert a (dom (contexts t))"
    using assms(1,2) new by (auto simp: table_ok_def)
  ultimately have "table_ok upcase leak' (f # opened) t'"
    unfolding table_ok_def ft by blast
  then show ?thesis using True by (auto simp: leak'_def)
qed

end
