(* ===== verification/Fwd_Dispatch.thy ===== *)
theory Fwd_Dispatch
  imports Fwd_Handles
begin

text \<open>
  The dispatch routines of the request forwarding driver (\<open>deviodrv/dispatch.cpp\<close>) and its loading and
  unloading (\<open>deviodrv.cpp\<close>): they check a request against the file object and its entry in the table
  and complete it, or hand it to the queues.
\<close>

type_synonym devio = "file_table \<times> machine"

definition IoCompleteRequest :: "nat \<Rightarrow> ntstatus \<Rightarrow> int \<Rightarrow> devio \<Rightarrow> devio" where
  "IoCompleteRequest n status info s = (fst s, (snd s)\<lparr>completed := completed (snd s) @ [(n, status, info)]\<rparr>)"

definition with_context :: "nat \<Rightarrow> (fwd \<Rightarrow> 'r \<times> fwd) \<Rightarrow> devio \<Rightarrow> 'r \<times> devio" where
  "with_context a h s =
     (case h (context_at a (fst s), snd s) of (r, (c, m)) \<Rightarrow> (r, (update_context a (\<lambda>_. c) (fst s), m)))"

definition store_system :: "nat \<Rightarrow> byte list \<Rightarrow> devio \<Rightarrow> devio" where
  "store_system n bs s =
     (fst s, (snd s)\<lparr>SystemBuffer := (SystemBuffer (snd s))(n := put_at 0 bs (SystemBuffer (snd s) n))\<rparr>)"

section \<open>Create, close, cleanup\<close>

text \<open>What the rest of the system contributes to a create request: whether another thread has the table,
  when it is tried first and when a failed open closes; the pool's blocks.\<close>

record create_env =
  table_busy :: bool
  close_busy :: bool
  context_pool :: "nat option"
  name_pool :: bool

definition FILE_OPEN :: int where "FILE_OPEN = 1"
definition FILE_CREATE :: int where "FILE_CREATE = 2"
definition FILE_OPENED :: int where "FILE_OPENED = 1"
definition FILE_CREATED :: int where "FILE_CREATED = 2"
definition FILE_EXISTS :: int where "FILE_EXISTS = 4"
definition FILE_DOES_NOT_EXIST :: int where "FILE_DOES_NOT_EXIST = 5"

definition CreateDisposition :: "int \<Rightarrow> int" where
  "CreateDisposition options = drop_bit 24 (u32 options)"

definition DevIoDrvDispatchCreate ::
    "(char \<Rightarrow> char) \<Rightarrow> create_env \<Rightarrow> nat \<Rightarrow> nat \<Rightarrow> int \<Rightarrow> int \<Rightarrow> devio \<Rightarrow> ntstatus \<times> devio" where
  "DevIoDrvDispatchCreate upcase env n f options DesiredAccess s =
     (case (if CreateDisposition options = FILE_CREATE
            then (case DevIoDrvCreateFileTableEntry upcase (table_busy env) (context_pool env) (name_pool env) f (fst s) of
                    (status, t) \<Rightarrow>
                      (status, if status = STATUS_SUCCESS then FILE_CREATED
                               else if status = STATUS_OBJECT_NAME_COLLISION then FILE_EXISTS else 0, t))
            else if CreateDisposition options = FILE_OPEN
            then (case DevIoDrvOpenFileTableEntry upcase (table_busy env) (close_busy env) f DesiredAccess (fst s) of
                    (status, t) \<Rightarrow>
                      (status, if status = STATUS_SUCCESS then FILE_OPENED
                               else if status = STATUS_OBJECT_NAME_NOT_FOUND \<or> status = STATUS_SHARING_VIOLATION
                               then FILE_DOES_NOT_EXIST else 0, t))
            else (STATUS_INVALID_DEVICE_REQUEST, 0, fst s)) of
        (status, info, t) \<Rightarrow> (status, IoCompleteRequest n status info (t, snd s)))"

text \<open>Closing tries the table until it is free; \<open>None\<close>: it was taken every time so far.\<close>

fun close_until :: "bool list \<Rightarrow> nat \<Rightarrow> file_table \<Rightarrow> file_table option" where
  "close_until [] f t = None"
| "close_until (busy # later) f t =
     (case DevIoDrvCloseFileTableEntry busy f t of
        (status, t) \<Rightarrow> if NT_SUCCESS status then Some t else close_until later f t)"

definition DevIoDrvDispatchClose :: "bool list \<Rightarrow> nat \<Rightarrow> nat \<Rightarrow> devio \<Rightarrow> (ntstatus \<times> devio) option" where
  "DevIoDrvDispatchClose busy n f s =
     (case (if FsContext2 (file_objects (fst s) f) \<noteq> None then close_until busy f (fst s) else Some (fst s)) of
        None \<Rightarrow> None
      | Some t \<Rightarrow> Some (STATUS_SUCCESS, IoCompleteRequest n STATUS_SUCCESS 0 (t, snd s)))"

definition FSCRYPTDPROXY_FLAG_SUPPORTS_UNMAP :: int where "FSCRYPTDPROXY_FLAG_SUPPORTS_UNMAP = 2"
definition FSCRYPTDPROXY_FLAG_SUPPORTS_ZERO :: int where "FSCRYPTDPROXY_FLAG_SUPPORTS_ZERO = 4"
definition FSCRYPTDPROXY_FLAG_KEEP_OPEN :: int where "FSCRYPTDPROXY_FLAG_KEEP_OPEN = 32"

definition FlagOn :: "int \<Rightarrow> int \<Rightarrow> bool" where
  "FlagOn flags flag \<longleftrightarrow> flags AND flag \<noteq> 0"

text \<open>The end of the server's handle, and of a client's unless the file is to be kept open, ends the
  connection.\<close>

definition ends_connection :: "nat \<Rightarrow> file_table \<Rightarrow> bool" where
  "ends_connection f t \<longleftrightarrow>
     (case FsContext2 (file_objects t f) of
        None \<Rightarrow> False
      | Some a \<Rightarrow>
          Some f = Server (context_at a t) \<or>
          (\<not> FlagOn (ServiceFlags (context_at a t)) FSCRYPTDPROXY_FLAG_KEEP_OPEN \<and>
           (ReadAccess (file_objects t f) \<or> WriteAccess (file_objects t f))))"

definition DevIoDrvDispatchCleanup :: "nat \<Rightarrow> nat \<Rightarrow> devio \<Rightarrow> ntstatus \<times> devio" where
  "DevIoDrvDispatchCleanup n f s =
     (STATUS_SUCCESS,
      IoCompleteRequest n STATUS_SUCCESS 0
        (if ends_connection f (fst s)
         then snd (with_context (the (FsContext2 (file_objects (fst s) f))) (\<lambda>x. ((), DevIoDrvCancelAll x)) s)
         else s))"

section \<open>Control requests\<close>

text \<open>The input of a trim request names its number of ranges; all of them have to be there.\<close>

definition trim_input_ok :: "int \<Rightarrow> byte list \<Rightarrow> bool" where
  "trim_input_ok input_len bs \<longleftrightarrow>
     24 \<le> input_len \<and> u64 (8 + le_of (take 4 (drop 4 bs)) * 16) \<le> input_len"

definition zero_input_ok :: "int \<Rightarrow> byte list \<Rightarrow> bool" where
  "zero_input_ok input_len bs \<longleftrightarrow> input_len = 16 \<and> s64 (qword 0 bs) \<le> s64 (qword 8 bs)"

definition DevIoDrvDispatchControl :: "pool \<Rightarrow> fwd_irp \<Rightarrow> devio \<Rightarrow> ntstatus \<times> devio" where
  "DevIoDrvDispatchControl pool i s =
     (let fo = file_objects (fst s) (FileObject i); input = SystemBuffer (snd s) (irp i);
          finish = (\<lambda>status info. (status, IoCompleteRequest (irp i) status info s)) in
      case FsContext2 fo of
        None \<Rightarrow> finish STATUS_INVALID_DEVICE_REQUEST 0
      | Some a \<Rightarrow>
          let c = context_at a (fst s) in
          if \<not> (ReadAccess fo \<or> WriteAccess fo) \<or>
             (MajorFunction i \<noteq> IRP_MJ_DEVICE_CONTROL \<and>
              \<not> (MajorFunction i = IRP_MJ_FILE_SYSTEM_CONTROL \<and> MinorFunctionOk i))
          then finish STATUS_INVALID_DEVICE_REQUEST 0
          else (case IoControlCode i of
            FSCTL_SET_ZERO_DATA \<Rightarrow>
              if \<not> FlagOn (ServiceFlags c) FSCRYPTDPROXY_FLAG_SUPPORTS_ZERO then finish STATUS_INVALID_DEVICE_REQUEST 0
              else if \<not> zero_input_ok (InputBufferLength i) input then finish STATUS_INVALID_PARAMETER 0
              else with_context a (DevIoDrvDispatchClientRequest pool i) s
          | FSCTL_FILE_LEVEL_TRIM \<Rightarrow>
              if \<not> FlagOn (ServiceFlags c) FSCRYPTDPROXY_FLAG_SUPPORTS_UNMAP then finish STATUS_INVALID_DEVICE_REQUEST 0
              else if \<not> trim_input_ok (InputBufferLength i) input then finish STATUS_INVALID_PARAMETER 0
              else with_context a (DevIoDrvDispatchClientRequest pool i) s
          | IOCTL_DEVIODRV_EXCHANGE_IO \<Rightarrow>
              if Server c \<noteq> Some (FileObject i) then finish STATUS_INVALID_DEVICE_REQUEST 0
              else with_context a (DevIoDrvDispatchServerIORequest pool i) s
          | IOCTL_DEVIODRV_LOCK_MEMORY \<Rightarrow>
              if Server c \<noteq> Some (FileObject i) then finish STATUS_INVALID_DEVICE_REQUEST 0
              else with_context a (DevIoDrvDispatchServerLockMemory pool i) s
          | IOCTL_DISK_GET_LENGTH_INFO \<Rightarrow>
              if OutputBufferLength i < 8 then finish STATUS_BUFFER_TOO_SMALL 0
              else (STATUS_SUCCESS,
                    IoCompleteRequest (irp i) STATUS_SUCCESS 8 (store_system (irp i) (to_le 8 (u64 (FileSize c))) s))
          | FS_CODE_OTHER \<Rightarrow> finish STATUS_INVALID_DEVICE_REQUEST 0))"

section \<open>Reads and writes\<close>

definition DevIoDrvDispatchReadWrite :: "pool \<Rightarrow> fwd_irp \<Rightarrow> devio \<Rightarrow> ntstatus \<times> devio" where
  "DevIoDrvDispatchReadWrite pool i s =
     (let fo = file_objects (fst s) (FileObject i);
          finish = (\<lambda>status. (status, IoCompleteRequest (irp i) status 0 s)) in
      if ByteOffset i < 0 \<or> s64 (ByteOffset i + Length i) < 0 then finish STATUS_INVALID_PARAMETER
      else case FsContext2 fo of
        None \<Rightarrow> finish STATUS_ACCESS_DENIED
      | Some a \<Rightarrow>
          let c = context_at a (fst s) in
          if (MajorFunction i = IRP_MJ_READ \<and> \<not> ReadAccess fo) \<or> (MajorFunction i = IRP_MJ_WRITE \<and> \<not> WriteAccess fo)
          then finish STATUS_ACCESS_DENIED
          else if Server c = None then finish STATUS_DEVICE_DOES_NOT_EXIST
          else if MajorFunction i = IRP_MJ_READ \<and> Length i = 0 \<and> ByteOffset i < FileSize c then finish STATUS_SUCCESS
          else if MajorFunction i = IRP_MJ_WRITE \<and> FlagOn (ServiceFlags c) FSCRYPTDPROXY_FLAG_RO
          then finish STATUS_MEDIA_WRITE_PROTECTED
          else if MajorFunction i = IRP_MJ_WRITE \<and> Length i = 0 \<and> ByteOffset i < FileSize c then finish STATUS_SUCCESS
          else if Client c = Some (FileObject i) \<or> Server c = Some (FileObject i)
          then with_context a (DevIoDrvDispatchClientRequest pool i) s
          else finish STATUS_INTERNAL_ERROR)"

section \<open>Information\<close>

datatype information_class =
    FileStandardInformation | FileNetworkOpenInformation | FilePositionInformation
  | FileBasicInformation | FileDispositionInformation | FileValidDataLengthInformation | FileOtherInformation

text \<open>The bytes of the answer: sizes at their places, everything else zero.\<close>

definition DevIoDrvDispatchQueryInformation ::
    "nat \<Rightarrow> nat \<Rightarrow> information_class \<Rightarrow> int \<Rightarrow> devio \<Rightarrow> ntstatus \<times> devio" where
  "DevIoDrvDispatchQueryInformation n f cls len s =
     (let fo = file_objects (fst s) f;
          file_size = (case FsContext2 fo of None \<Rightarrow> 0 | Some a \<Rightarrow> FileSize (context_at a (fst s)));
          sizes = to_le 8 (u64 file_size) @ to_le 8 (u64 file_size);
          finish = (\<lambda>status info s. (status, IoCompleteRequest n status info s));
          answer = (\<lambda>bs. if len < int (length bs) then finish STATUS_BUFFER_TOO_SMALL 0 s
                         else finish STATUS_SUCCESS (int (length bs)) (store_system n bs s)) in
      case cls of
        FileStandardInformation \<Rightarrow> answer (sizes @ replicate 8 0)
      | FileNetworkOpenInformation \<Rightarrow> answer (replicate 32 0 @ sizes @ replicate 8 0)
      | FilePositionInformation \<Rightarrow> answer (to_le 8 (u64 (CurrentByteOffset fo)))
      | _ \<Rightarrow> finish STATUS_INVALID_DEVICE_REQUEST 0 s)"

definition DevIoDrvDispatchSetInformation ::
    "nat \<Rightarrow> nat \<Rightarrow> information_class \<Rightarrow> int \<Rightarrow> devio \<Rightarrow> ntstatus \<times> devio" where
  "DevIoDrvDispatchSetInformation n f cls len s =
     (let finish = (\<lambda>status s. (status, IoCompleteRequest n status 0 s)) in
      case cls of
        FilePositionInformation \<Rightarrow>
          if len < 8 then finish STATUS_INVALID_PARAMETER s
          else finish STATUS_SUCCESS
                 (update_file f (\<lambda>fo. fo\<lparr>CurrentByteOffset := s64 (qword 0 (SystemBuffer (snd s) n))\<rparr>) (fst s), snd s)
      | FileBasicInformation \<Rightarrow> finish STATUS_SUCCESS s
      | FileDispositionInformation \<Rightarrow> finish STATUS_SUCCESS s
      | FileValidDataLengthInformation \<Rightarrow> finish STATUS_SUCCESS s
      | _ \<Rightarrow> finish STATUS_INVALID_DEVICE_REQUEST s)"

definition DevIoDrvDispatchFlushBuffers :: "nat \<Rightarrow> devio \<Rightarrow> ntstatus \<times> devio" where
  "DevIoDrvDispatchFlushBuffers n s = (STATUS_SUCCESS, IoCompleteRequest n STATUS_SUCCESS 0 s)"

section \<open>Loading and unloading\<close>

datatype devio_routine =
    DispatchCreate | DispatchClose | DispatchCleanup | DispatchReadWrite | DispatchControl
  | DispatchQueryInformation | DispatchFlushBuffers

datatype devio_major =
    MJ_CREATE | MJ_CLOSE | MJ_CLEANUP | MJ_READ | MJ_WRITE | MJ_DEVICE_CONTROL | MJ_FILE_SYSTEM_CONTROL
  | MJ_QUERY_INFORMATION | MJ_SET_INFORMATION | MJ_FLUSH_BUFFERS

record devio_driver =
  devices :: nat
  direct_io :: bool
  symlinks :: nat
  routine :: "devio_major \<Rightarrow> devio_routine option"
  table_at_start :: "nat list"

text \<open>The arguments: the statuses of creating the device and its symbolic link.\<close>

definition DriverEntry_devio :: "ntstatus \<Rightarrow> ntstatus \<Rightarrow> devio_driver \<Rightarrow> ntstatus \<times> devio_driver" where
  "DriverEntry_devio device_status link_status d =
     (let d = d\<lparr>table_at_start := []\<rparr> in
      if \<not> NT_SUCCESS device_status then (device_status, d)
      else if \<not> NT_SUCCESS link_status then (link_status, d)
      else (STATUS_SUCCESS,
            d\<lparr>devices := devices d + 1, symlinks := symlinks d + 1, direct_io := True,
              routine := (routine d)(MJ_CREATE \<mapsto> DispatchCreate, MJ_CLOSE \<mapsto> DispatchClose,
                MJ_CLEANUP \<mapsto> DispatchCleanup, MJ_READ \<mapsto> DispatchReadWrite, MJ_WRITE \<mapsto> DispatchReadWrite,
                MJ_DEVICE_CONTROL \<mapsto> DispatchControl, MJ_FILE_SYSTEM_CONTROL \<mapsto> DispatchControl,
                MJ_QUERY_INFORMATION \<mapsto> DispatchQueryInformation, MJ_FLUSH_BUFFERS \<mapsto> DispatchFlushBuffers)\<rparr>))"

definition DevIoDrvUnload :: "ntstatus \<Rightarrow> devio_driver \<Rightarrow> devio_driver" where
  "DevIoDrvUnload link_status d =
     d\<lparr>symlinks := (if NT_SUCCESS link_status then symlinks d - 1 else symlinks d), devices := 0\<rparr>"

end
