(* ===== verification/Fwd_Life.thy ===== *)
theory Fwd_Life
  imports Fwd_Dispatch
begin

text \<open>
  The life of virtual files: runs of the whole forwarding driver, from handles being opened to the last
  close. Reference counts are exact in every run in which no failed open finds the table taken; a
  connected file has at most one client; in a run with such an open the file's name is lost.
\<close>

section \<open>The queues leave the handles alone\<close>

definition same_entry :: "fwd \<Rightarrow> fwd \<Rightarrow> bool" where
  "same_entry s s' \<longleftrightarrow> Name (fst s') = Name (fst s) \<and> RefCount (fst s') = RefCount (fst s) \<and>
     Client (fst s') = Client (fst s) \<and> Server (fst s') = Server (fst s)"

lemma same_entry_refl [simp]: "same_entry s s"
  by (simp add: same_entry_def)

lemma same_entry_trans: "same_entry s s' \<Longrightarrow> same_entry s' s'' \<Longrightarrow> same_entry s s''"
  by (simp add: same_entry_def)

lemma same_entry_keeps: "same_entry s s' \<Longrightarrow> keeps_handles (fst s) (fst s')"
  by (simp add: same_entry_def keeps_handles_def)

lemma same_entry_lists:
  "same_entry (c\<lparr>ServerMemoryIrpList := x\<rparr>, m) s' = same_entry (c, m) s'"
  "same_entry (c\<lparr>ServerRequestIrpList := y\<rparr>, m) s' = same_entry (c, m) s'"
  "same_entry (c\<lparr>ClientReceivedIrpList := z\<rparr>, m) s' = same_entry (c, m) s'"
  "same_entry (c\<lparr>ClientSentIrpList := z\<rparr>, m) s' = same_entry (c, m) s'"
  "same_entry s (c\<lparr>ServerMemoryIrpList := x\<rparr>, m) = same_entry s (c, m)"
  "same_entry s (c\<lparr>ServerRequestIrpList := y\<rparr>, m) = same_entry s (c, m)"
  "same_entry s (c\<lparr>ClientReceivedIrpList := z\<rparr>, m) = same_entry s (c, m)"
  "same_entry s (c\<lparr>ClientSentIrpList := z\<rparr>, m) = same_entry s (c, m)"
  "same_entry (c, m) (c, m')"
  by (simp_all add: same_entry_def)

lemma same_queue: "same_entry s (DevIoDrvQueueMemoryIrp mi s)"
  by (auto simp: DevIoDrvQueueMemoryIrp_def DevIoDrvQueueMemoryIrpUnsafe_def same_entry_def split: option.splits prod.splits)

lemma same_queue_unsafe: "same_entry s (DevIoDrvQueueMemoryIrpUnsafe mi s)"
  by (auto simp: DevIoDrvQueueMemoryIrpUnsafe_def same_entry_def split: option.splits prod.splits)

lemma same_complete: "same_entry s (DevIoDrvCompleteIrpQueueItem item status len s)"
proof -
  obtain c m where s: "s = (c, m)" by fastforce
  obtain c1 m1 where q: "DevIoDrvQueueMemoryIrp (MemoryIrp item) (c, m) = (c1, m1)" by fastforce
  have "same_entry (c, m) (c1, m1)" using same_queue [of "(c, m)" "MemoryIrp item"] q by simp
  then show ?thesis
    using q by (cases "MemoryIrp item") (auto simp: s DevIoDrvCompleteIrpQueueItem_def same_entry_def)
qed

lemma same_reserve: "same_entry s (snd (DevIoDrvReserveMemoryIrp i s))"
  by (auto simp: DevIoDrvReserveMemoryIrp_def same_entry_def Let_def split: option.splits prod.splits)

lemma same_send_mapped: "same_entry s (snd (send_mapped b ci si s))"
proof (cases s)
  case (Pair c m)
  have same: "same_entry (c, m) (DevIoDrvCompleteIrpQueueItem it st l (c', m'))"
    if "same_entry (c, m) (c', m')" for it st l c' m'
    using same_entry_trans [OF that same_complete] .
  have same2: "same_entry (c, m) (DevIoDrvCompleteIrpQueueItem it st l (DevIoDrvCompleteIrpQueueItem it2 st2 l2 (c, m')))"
    for it st l it2 st2 l2 m'
    by (rule same_entry_trans [OF same_entry_trans [OF _ same_complete] same_complete]) (simp add: same_entry_lists)
  show ?thesis
    unfolding Pair send_mapped_def prod.case Let_def
    by (auto split: option.splits prod.splits if_splits simp: same_entry_lists intro!: same same2)
qed

lemma same_send: "same_entry s (snd (DevIoDrvSendClientRequestToServer ci si s))"
proof (cases "MappedBuffer si")
  case None
  obtain st mi buf len s1 where r: "DevIoDrvReserveMemoryIrp (Irp si) s = ((st, mi, buf, len), s1)" by (metis prod.exhaust)
  have s1: "same_entry s s1" using same_reserve [of s "Irp si"] r by simp
  show ?thesis
  proof (cases buf)
    case None
    then show ?thesis
      using \<open>MappedBuffer si = None\<close> r same_entry_trans [OF same_entry_trans [OF s1 same_complete] same_complete]
      by (simp add: DevIoDrvSendClientRequestToServer_def Let_def)
  next
    case (Some b)
    then show ?thesis
      using \<open>MappedBuffer si = None\<close> r same_entry_trans [OF s1 same_send_mapped]
      by (simp add: DevIoDrvSendClientRequestToServer_def Let_def)
  qed
qed (simp add: DevIoDrvSendClientRequestToServer_def same_send_mapped)

lemma same_client: "same_entry s (snd (DevIoDrvDispatchClientRequest pool i s))"
proof (cases s)
  case (Pair c m)
  have send: "same_entry (c, m) s'" if "DevIoDrvSendClientRequestToServer ci si (c\<lparr>ServerRequestIrpList := x\<rparr>, m') = (r, s')" for ci si x m' r s'
    using same_send [of "(c\<lparr>ServerRequestIrpList := x\<rparr>, m')" ci si] that by (simp add: same_entry_def)
  show ?thesis
    unfolding Pair DevIoDrvDispatchClientRequest_def prod.case Let_def
    by (auto split: option.splits prod.splits list.splits if_splits simp: same_entry_lists dest: send)
qed

lemma same_lock: "same_entry s (snd (DevIoDrvDispatchServerLockMemory pool i s))"
proof (cases s)
  case (Pair c m)
  have "same_entry (c, m) (DevIoDrvQueueMemoryIrp mi (c, m'))" for mi m'
    using same_queue [of "(c, m')" mi] by (simp add: same_entry_def)
  then show ?thesis
    by (simp add: Pair DevIoDrvDispatchServerLockMemory_def Let_def same_entry_lists split: option.splits)
qed

lemma same_complete_c: "same_entry (c, m) (DevIoDrvCompleteIrpQueueItem item status len (c, m'))"
  using same_complete [of "(c, m')" item status len] by (simp add: same_entry_def)

lemma same_answer_read: "same_entry s (snd (answer_read buffer item s))"
  by (cases s) (simp add: answer_read_def Let_def client_result_def same_complete_c)

lemma same_answer_trim: "same_entry s (answer_trim buffer item s)"
  by (cases s) (simp add: answer_trim_def Let_def same_complete_c)

lemma same_server_answer: "same_entry s (snd (server_answer buffer size' client s))"
proof (cases client)
  case None
  have "same_entry (c, m) (server_info buffer c, m)" for c m by (simp add: same_entry_def server_info_def)
  then show ?thesis using None by (cases s) (simp add: server_answer_def Let_def)
next
  case (Some item)
  then show ?thesis
    by (cases s) (simp add: server_answer_def Let_def same_complete_c client_result_def same_answer_read same_answer_trim)
qed

lemma same_server_next: "same_entry s (snd (server_next pool i mi b size' s))"
proof (cases s)
  case (Pair c m)
  have q: "same_entry (c, m) (DevIoDrvQueueMemoryIrp mi (c, m'))" for mi m'
    using same_queue [of "(c, m')" mi] by (simp add: same_entry_def)
  have u: "same_entry (c, m) (c'\<lparr>ServerRequestIrpList := x\<rparr>, m3)" if "DevIoDrvQueueMemoryIrpUnsafe mi (c, m') = (c', m'')" for mi m' c' m'' x m3
    using same_queue_unsafe [of "(c, m')" mi] that by (simp add: same_entry_def)
  have send: "same_entry (c, m) s'" if "DevIoDrvSendClientRequestToServer ci si (c\<lparr>ClientReceivedIrpList := x\<rparr>, m') = (r, s')" for ci si x m' r s'
    using same_send [of "(c\<lparr>ClientReceivedIrpList := x\<rparr>, m')" ci si] that by (simp add: same_entry_def)
  show ?thesis
    unfolding Pair server_next_def prod.case Let_def
    by (auto split: option.splits prod.splits list.splits simp: same_entry_lists q dest: send u)
qed

lemma same_server: "same_entry s (snd (DevIoDrvDispatchServerIORequest pool i s))"
proof -
  obtain st mi buf len c m where r: "DevIoDrvReserveMemoryIrp i s = ((st, mi, buf, len), (c, m))" by (metis prod.exhaust)
  have s1: "same_entry s (c, m)" using same_reserve [of s i] r by simp
  have q: "same_entry s (DevIoDrvQueueMemoryIrp mi (c', m'))" if "same_entry s (c', m')" for c' m'
    using same_entry_trans [OF that same_queue] .
  have n: "same_entry s (snd (server_next pool i mi b len s'))" if "same_entry s s'" for b s'
    using same_entry_trans [OF that same_server_next] .
  show ?thesis
  proof (cases buf)
    case None
    then show ?thesis
      using r s1 by (auto simp: DevIoDrvDispatchServerIORequest_def same_entry_def)
  next
    case (Some b)
    define g where "g = (if qword 8 (mdl m b) = 0 then (None, c) else DevIoDrvGetSentClientRequest (qword 8 (mdl m b)) c)"
    obtain cl c1 where g: "g = (cl, c1)" by fastforce
    have c1: "same_entry s (c1, m')" for m'
      using g s1 by (auto simp: g_def DevIoDrvGetSentClientRequest_def same_entry_def split: if_splits option.splits)
    obtain stat c2 m2 where a: "server_answer (mdl m b) len cl (c1, m) = (stat, (c2, m2))" by (metis prod.exhaust)
    have a2: "same_entry s (c2, m')" for m'
      using same_entry_trans [OF c1 [of m] same_server_answer [of "(c1, m)" "mdl m b" len cl]] a by (simp add: same_entry_def)
    have step: "snd (DevIoDrvDispatchServerIORequest pool i s) =
        (if 0 < OutputBufferLength i \<and> OutputBufferLength i < int PROXY_HEADER_SIZE
         then (fst s, DevIoDrvCompleteIrp i STATUS_BUFFER_TOO_SMALL 0 (snd s))
         else if qword 8 (mdl m b) \<noteq> 0 \<and> cl = None
         then DevIoDrvQueueMemoryIrp mi (c1, DevIoDrvCompleteIrp i STATUS_INVALID_PARAMETER 0 m)
         else case stat of Some st \<Rightarrow> DevIoDrvQueueMemoryIrp mi (c2, DevIoDrvCompleteIrp i st 0 m2)
              | None \<Rightarrow> snd (server_next pool i mi b len (c2, m2)))"
    proof (cases "qword 8 (mdl m b) = 0")
      case True
      then have "cl = None" "c1 = c" using g by (simp_all add: g_def)
      then show ?thesis
        using r Some a True by (cases stat) (simp_all add: DevIoDrvDispatchServerIORequest_def Let_def)
    next
      case False
      then have "DevIoDrvGetSentClientRequest (qword 8 (mdl m b)) c = (cl, c1)" using g by (simp add: g_def)
      then show ?thesis
        using r Some a False by (cases stat) (simp_all add: DevIoDrvDispatchServerIORequest_def Let_def)
    qed
    have "same_entry s (fst s, m')" for m' by (simp add: same_entry_def)
    then show ?thesis
      unfolding step using q [OF c1] q [OF a2] n [OF a2] by (auto split: option.splits)
  qed
qed

lemma keeps_cancel_all: "keeps_handles (fst s) (fst (DevIoDrvCancelAll s))"
proof -
  have item: "same_entry s (cancel_item it s)" for it s
    by (cases s) (simp add: cancel_item_def Let_def same_complete_c split: option.split)
  have reqs: "same_entry s (cancel_requests l s)" for l s
  proof (induction l arbitrary: s)
    case (Cons it l)
    obtain c m where s: "s = (c, m)" by fastforce
    have "same_entry s (cancel_item it (c\<lparr>ServerRequestIrpList := l\<rparr>, m))"
      using item [of "(c\<lparr>ServerRequestIrpList := l\<rparr>, m)" it] by (simp add: s same_entry_def)
    then show ?case using same_entry_trans [OF _ Cons.IH] by (simp add: s)
  qed simp
  have mems: "same_entry s (cancel_memory l s)" for l s
  proof (induction l arbitrary: s)
    case (Cons it l)
    obtain c m where s: "s = (c, m)" by fastforce
    have "same_entry s (cancel_item (memory_queue_item it) (c\<lparr>ServerMemoryIrpList := l\<rparr>, m))"
      using item [of "(c\<lparr>ServerMemoryIrpList := l\<rparr>, m)" "memory_queue_item it"] by (simp add: s same_entry_def)
    then show ?case using same_entry_trans [OF _ Cons.IH] by (simp add: s)
  qed simp
  have clients: "same_entry s (cancel_clients l s)" for l s
  proof (induction l arbitrary: s)
    case (Cons it l)
    from same_entry_trans [OF same_complete Cons.IH] show ?case by (simp add: cancel_clients_def)
  qed (simp add: cancel_clients_def)
  obtain c0 m0 where s: "s = (c0, m0)" by fastforce
  obtain c1 m1 where 1: "cancel_requests (ServerRequestIrpList c0) (c0\<lparr>Server := None\<rparr>, m0) = (c1, m1)" by fastforce
  obtain c2 m2 where 2: "cancel_memory (ServerMemoryIrpList c1) (c1, m1) = (c2, m2)" by fastforce
  have "same_entry (c0\<lparr>Server := None\<rparr>, m0) (DevIoDrvCancelAll s)"
    using reqs [of "(c0\<lparr>Server := None\<rparr>, m0)" "ServerRequestIrpList c0"] mems [of "(c1, m1)" "ServerMemoryIrpList c1"]
      clients [of "(c2\<lparr>ClientReceivedIrpList := [], ClientSentIrpList := []\<rparr>, m2)" "ClientReceivedIrpList c2"]
      clients [of "cancel_clients (ClientReceivedIrpList c2) (c2\<lparr>ClientReceivedIrpList := [], ClientSentIrpList := []\<rparr>, m2)"
        "ClientSentIrpList c2"] 1 2
    by (simp add: s DevIoDrvCancelAll_def same_entry_def)
  then show ?thesis by (simp add: same_entry_def keeps_handles_def s)
qed


section \<open>Runs of the driver\<close>

datatype life_event =
    Creates create_env nat nat int int string
  | Cleans nat nat | Closes "bool list" nat nat
  | Controls fwd_irp | ReadsWrites fwd_irp
  | Queries nat nat information_class int | Flushes nat

definition new_file :: "nat \<Rightarrow> string \<Rightarrow> devio \<Rightarrow> devio" where
  "new_file f name s =
     (update_file f (\<lambda>_. \<lparr>FileName = name, FsContext2 = None, ReadAccess = False, WriteAccess = False, CurrentByteOffset = 0\<rparr>)
        (fst s), snd s)"

text \<open>The state: the open file objects, and the driver. A block the pool gives is not in use; fewer than
  \<open>2 ^ 31\<close> file objects are open at a time.\<close>

inductive life_step :: "(char \<Rightarrow> char) \<Rightarrow> pool \<Rightarrow> nat list \<times> devio \<Rightarrow> life_event \<Rightarrow> nat list \<times> devio \<Rightarrow> bool"
  for upcase pool where
  create: "f \<notin> set opened \<Longrightarrow> (\<And>a. context_pool env = Some a \<Longrightarrow> contexts (fst s) a = None) \<Longrightarrow>
    \<forall>a \<in> set (FileTable (fst s)). RefCount (context_at a (fst s)) < 2147483647 \<Longrightarrow>
    DevIoDrvDispatchCreate upcase env n f options access (new_file f name s) = (status, s') \<Longrightarrow>
    life_step upcase pool (opened, s) (Creates env n f options access name)
      (if status = STATUS_SUCCESS then f # opened else opened, s')"
| cleanup: "f \<in> set opened \<Longrightarrow>
    life_step upcase pool (opened, s) (Cleans n f) (opened, snd (DevIoDrvDispatchCleanup n f s))"
| close: "f \<in> set opened \<Longrightarrow> DevIoDrvDispatchClose busy n f s = Some (status, s') \<Longrightarrow>
    life_step upcase pool (opened, s) (Closes busy n f) (remove1 f opened, s')"
| control: "FileObject i \<in> set opened \<Longrightarrow>
    life_step upcase pool (opened, s) (Controls i) (opened, snd (DevIoDrvDispatchControl pool i s))"
| read_write: "FileObject i \<in> set opened \<Longrightarrow>
    life_step upcase pool (opened, s) (ReadsWrites i) (opened, snd (DevIoDrvDispatchReadWrite pool i s))"
| query: "f \<in> set opened \<Longrightarrow>
    life_step upcase pool (opened, s) (Queries n f cls len) (opened, snd (DevIoDrvDispatchQueryInformation n f cls len s))"
| flush: "life_step upcase pool (opened, s) (Flushes n) (opened, snd (DevIoDrvDispatchFlushBuffers n s))"

inductive_cases life_stepE: "life_step upcase pool st e st'"

inductive life_run :: "(life_event \<Rightarrow> bool) \<Rightarrow> (char \<Rightarrow> char) \<Rightarrow> pool \<Rightarrow> nat list \<times> devio \<Rightarrow> nat list \<times> devio \<Rightarrow> bool"
  for P upcase pool where
  refl: "life_run P upcase pool st st"
| step: "life_run P upcase pool st st' \<Longrightarrow> P e \<Longrightarrow> life_step upcase pool st' e st'' \<Longrightarrow> life_run P upcase pool st st''"

text \<open>No failed open finds the table taken when it closes.\<close>

fun quiet :: "life_event \<Rightarrow> bool" where
  "quiet (Creates env n f options access name) = (\<not> close_busy env)"
| "quiet _ = True"

definition no_files :: file_table where
  "no_files = \<lparr>FileTable = [], contexts = (\<lambda>_. None),
     file_objects = (\<lambda>_. \<lparr>FileName = [], FsContext2 = None, ReadAccess = False, WriteAccess = False, CurrentByteOffset = 0\<rparr>)\<rparr>"

section \<open>Every step keeps the table well formed\<close>

lemma table_ok_unopened:
  assumes "table_ok upcase leak opened t" "f \<notin> set opened"
  shows "table_ok upcase leak opened (update_file f h t)"
proof -
  have same: "file_objects (update_file f h t) g = file_objects t g" if "g \<in> set opened" for g
    using that assms(2) by auto
  have hd: "handles a opened (update_file f h t) = handles a opened t" for a
    unfolding handles_def by (rule filter_cong) (use same in auto)
  have acc: "has_access g (update_file f h t) = has_access g t" if "g \<in> set (handles a opened t)" for a g
    using same [of g] that by (simp add: has_access_def handles_def)
  have "connected_ok a opened (update_file f h t) = connected_ok a opened t" for a
    unfolding connected_ok_def hd using acc by auto
  then have "entry_ok l a opened (update_file f h t) = entry_ok l a opened t" for l a
    by (simp add: entry_ok_def hd)
  moreover have "(\<forall>g \<in> set opened. \<exists>a \<in> set (FileTable t). FsContext2 (file_objects (update_file f h t) g) = Some a) =
      (\<forall>g \<in> set opened. \<exists>a \<in> set (FileTable t). FsContext2 (file_objects t g) = Some a)"
    using same by simp
  ultimately show ?thesis
    using assms(1) unfolding table_ok_def update_simps(3,4,6) by metis
qed

lemma table_ok_with_context:
  assumes "table_ok upcase leak opened (fst s)" "a \<in> set (FileTable (fst s))"
    "\<And>x. keeps_handles (fst x) (fst (snd (h x)))"
  shows "table_ok upcase leak opened (fst (snd (with_context a h s)))"
proof -
  obtain r c m where h: "h (context_at a (fst s), snd s) = (r, (c, m))" by (metis prod.exhaust)
  have "keeps_handles (context_at a (fst s)) c" using assms(3) [of "(context_at a (fst s), snd s)"] h by simp
  then show ?thesis
    using table_ok_served [OF assms(1,2), of "\<lambda>_. c"] h by (simp add: with_context_def)
qed

lemmas handlers_keep =
  same_client [THEN same_entry_keeps] same_server [THEN same_entry_keeps] same_lock [THEN same_entry_keeps]

lemma fst_complete [simp]: "fst (IoCompleteRequest n status info s) = fst s"
  by (simp add: IoCompleteRequest_def)

lemma close_until_keeps:
  assumes "close_until busy f t = Some t'"
  shows "t' = snd (DevIoDrvCloseFileTableEntry False f t)"
  using assms
proof (induction busy)
  case (Cons b busy)
  then show ?case
    by (cases b) (auto simp: DevIoDrvCloseFileTableEntry_def NT_SUCCESS_def Let_def split: if_splits)
qed simp

lemma table_ok_creates:
  assumes "table_ok upcase leak opened (fst s)" "f \<notin> set opened" "\<And>a. context_pool env = Some a \<Longrightarrow> contexts (fst s) a = None"
    "\<forall>a \<in> set (FileTable (fst s)). RefCount (context_at a (fst s)) < 2147483647"
    "DevIoDrvDispatchCreate upcase env n f options access (new_file f name s) = (status, s')"
  shows "\<exists>leak'. table_ok upcase leak' (if status = STATUS_SUCCESS then f # opened else opened) (fst s') \<and>
           (\<not> close_busy env \<longrightarrow> (\<forall>a. leak a = 0) \<longrightarrow> (\<forall>a. leak' a = 0))"
proof -
  define t where "t = fst (new_file f name s)"
  have t: "table_ok upcase leak opened t"
    unfolding t_def new_file_def fst_conv by (rule table_ok_unopened [OF assms(1,2)])
  have acc: "\<not> has_access f t" by (simp add: t_def new_file_def has_access_def)
  have lim: "\<forall>a \<in> set (FileTable t). RefCount (context_at a t) < 2147483647"
    using assms(4) by (simp add: t_def new_file_def)
  have fresh: "contexts t a = None" if "context_pool env = Some a" for a
    using assms(3) that by (simp add: t_def new_file_def)
  consider (new) "CreateDisposition options = FILE_CREATE"
    | (old) "CreateDisposition options = FILE_OPEN" "CreateDisposition options \<noteq> FILE_CREATE"
    | (other) "CreateDisposition options \<noteq> FILE_CREATE" "CreateDisposition options \<noteq> FILE_OPEN" by blast
  then show ?thesis
  proof cases
    case new
    have "DevIoDrvCreateFileTableEntry upcase (table_busy env) (context_pool env) (name_pool env) f t = (status, fst s')"
      using assms(5) new by (auto simp: DevIoDrvDispatchCreate_def t_def split: prod.splits)
    from table_ok_create [OF t assms(2) fresh this] show ?thesis by blast
  next
    case old
    have "DevIoDrvOpenFileTableEntry upcase (table_busy env) (close_busy env) f access t = (status, fst s')"
      using assms(5) old by (auto simp: DevIoDrvDispatchCreate_def t_def split: prod.splits)
    from table_ok_open [OF t assms(2) acc lim this] show ?thesis by blast
  next
    case other
    then have "status \<noteq> STATUS_SUCCESS" "fst s' = t"
      using assms(5) by (auto simp: DevIoDrvDispatchCreate_def t_def)
    then show ?thesis using t by auto
  qed
qed

lemma opened_context:
  assumes "table_ok upcase leak opened t" "f \<in> set opened"
  obtains a where "FsContext2 (file_objects t f) = Some a" "a \<in> set (FileTable t)"
  using assms by (auto simp: table_ok_def)

lemma table_ok_cleans:
  assumes "table_ok upcase leak opened (fst s)" "f \<in> set opened"
  shows "table_ok upcase leak opened (fst (snd (DevIoDrvDispatchCleanup n f s)))"
proof -
  obtain a where a: "FsContext2 (file_objects (fst s) f) = Some a" "a \<in> set (FileTable (fst s))"
    using opened_context [OF assms] .
  have "table_ok upcase leak opened (fst (snd (with_context a (\<lambda>x. ((), DevIoDrvCancelAll x)) s)))"
    by (rule table_ok_with_context [OF assms(1) a(2)]) (simp add: keeps_cancel_all)
  then show ?thesis using assms(1) a by (simp add: DevIoDrvDispatchCleanup_def)
qed

lemma table_ok_closes:
  assumes "table_ok upcase leak opened (fst s)" "f \<in> set opened" "DevIoDrvDispatchClose busy n f s = Some (status, s')"
  shows "table_ok upcase leak (remove1 f opened) (fst s')"
proof -
  have "FsContext2 (file_objects (fst s) f) \<noteq> None" using opened_context [OF assms(1,2)] by auto
  then obtain t where "close_until busy f (fst s) = Some t" "fst s' = t"
    using assms(3) by (auto simp: DevIoDrvDispatchClose_def split: option.splits)
  then show ?thesis using close_until_keeps table_ok_close [OF assms(1,2)] by simp
qed

lemma table_ok_controls:
  assumes "table_ok upcase leak opened (fst s)" "FileObject i \<in> set opened"
  shows "table_ok upcase leak opened (fst (snd (DevIoDrvDispatchControl pool i s)))"
proof -
  obtain a where a: "FsContext2 (file_objects (fst s) (FileObject i)) = Some a" "a \<in> set (FileTable (fst s))"
    using opened_context [OF assms] .
  note k = table_ok_with_context [OF assms(1) a(2)]
  show ?thesis
    using assms(1) a k [OF handlers_keep(1) [where pool = pool and i = i]] k [OF handlers_keep(2) [where pool = pool and i = i]] k [OF handlers_keep(3) [where pool = pool and i = i]]
    by (cases "IoControlCode i") (simp_all add: DevIoDrvDispatchControl_def Let_def store_system_def)
qed

lemma table_ok_reads_writes:
  assumes "table_ok upcase leak opened (fst s)" "FileObject i \<in> set opened"
  shows "table_ok upcase leak opened (fst (snd (DevIoDrvDispatchReadWrite pool i s)))"
proof -
  obtain a where a: "FsContext2 (file_objects (fst s) (FileObject i)) = Some a" "a \<in> set (FileTable (fst s))"
    using opened_context [OF assms] .
  show ?thesis
    using assms(1) a table_ok_with_context [OF assms(1) a(2) handlers_keep(1) [where pool = pool and i = i]]
    by (simp add: DevIoDrvDispatchReadWrite_def Let_def)
qed

lemma table_ok_queries:
  "table_ok upcase leak opened (fst s) \<Longrightarrow> table_ok upcase leak opened (fst (snd (DevIoDrvDispatchQueryInformation n f cls len s)))"
  by (cases cls) (simp_all add: DevIoDrvDispatchQueryInformation_def Let_def store_system_def)

lemma table_ok_step:
  assumes "life_step upcase pool (opened, s) e (opened', s')" "table_ok upcase leak opened (fst s)"
  shows "\<exists>leak'. table_ok upcase leak' opened' (fst s') \<and> (quiet e \<longrightarrow> (\<forall>a. leak a = 0) \<longrightarrow> (\<forall>a. leak' a = 0))"
proof -
  have keep: ?thesis if "table_ok upcase leak opened' (fst s')" using that by blast
  from assms(1) show ?thesis
  proof (rule life_stepE, goal_cases)
    case (1 f opened1 env s1 n options access name status s2)
    then show ?thesis using table_ok_creates [OF assms(2), of f env n options access name status s2] by auto
  qed (use assms(2) keep table_ok_cleans table_ok_closes table_ok_controls table_ok_reads_writes table_ok_queries
      in \<open>auto simp: DevIoDrvDispatchFlushBuffers_def\<close>)
qed

lemma table_ok_run:
  assumes "life_run P upcase pool st st'" "table_ok upcase leak (fst st) (fst (snd st))"
  shows "\<exists>leak'. table_ok upcase leak' (fst st') (fst (snd st')) \<and>
           ((\<forall>e. P e \<longrightarrow> quiet e) \<longrightarrow> (\<forall>a. leak a = 0) \<longrightarrow> (\<forall>a. leak' a = 0))"
  using assms
proof (induction rule: life_run.induct)
  case (step st st' e st'')
  then obtain leak1 where l1: "table_ok upcase leak1 (fst st') (fst (snd st'))"
    "(\<forall>e. P e \<longrightarrow> quiet e) \<longrightarrow> (\<forall>a. leak a = 0) \<longrightarrow> (\<forall>a. leak1 a = 0)" by blast
  obtain o1 s1 o2 s2 where "st' = (o1, s1)" "st'' = (o2, s2)" by (metis prod.exhaust)
  with table_ok_step [of upcase pool o1 s1 e o2 s2 leak1] step.hyps l1 show ?case by auto
qed blast

lemma no_files_ok: "table_ok upcase leak [] no_files"
  by (simp add: table_ok_def no_files_def dom_def)


section \<open>Handles and references\<close>

text \<open>C37. References are handles: in every run of the forwarding driver in which no failed open finds the
  table taken when it closes, the entries of the table are exactly the files with an open handle, each
  open handle leads to an entry, and an entry's reference count is the number of its handles. So the
  last close removes the file.\<close>

theorem references_are_handles:
  assumes "life_run quiet upcase pool ([], (no_files, m)) (opened, (t, m'))"
  shows "set (FileTable t) = {a. \<exists>f \<in> set opened. FsContext2 (file_objects t f) = Some a} \<and>
     (\<forall>a \<in> set (FileTable t). RefCount (context_at a t) = int (length (handles a opened t))) \<and>
     (opened = [] \<longrightarrow> FileTable t = [])"
proof -
  obtain leak where l: "table_ok upcase leak opened t" "\<forall>a. leak a = 0"
    using table_ok_run [OF assms, of "\<lambda>_. 0"] no_files_ok by auto
  have e: "entry_ok 0 a opened t" if "a \<in> set (FileTable t)" for a
    using l that unfolding table_ok_def by metis
  have "\<exists>f \<in> set opened. FsContext2 (file_objects t f) = Some a" if "a \<in> set (FileTable t)" for a
  proof -
    have "handles a opened t \<noteq> []" using e [OF that] by (auto simp: entry_ok_def)
    then show ?thesis by (auto simp: handles_def filter_empty_conv)
  qed
  moreover have "a \<in> set (FileTable t)" if "f \<in> set opened" "FsContext2 (file_objects t f) = Some a" for f a
    using l(1) that by (auto simp: table_ok_def)
  ultimately have all: "set (FileTable t) = {a. \<exists>f \<in> set opened. FsContext2 (file_objects t f) = Some a}" by blast
  moreover have "\<forall>a \<in> set (FileTable t). RefCount (context_at a t) = int (length (handles a opened t))"
    using e by (simp add: entry_ok_def)
  moreover have "FileTable t = []" if "opened = []"
  proof -
    have "set (FileTable t) = {}" unfolding all that by simp
    then show ?thesis by simp
  qed
  ultimately show ?thesis by blast
qed

text \<open>A sample: the server creates a file (object 1), a client opens it for reading (2), another cannot (3)
  while a third thread has the table; both close.\<close>

definition plain_env :: "bool \<Rightarrow> nat option \<Rightarrow> create_env" where
  "plain_env busy pool = \<lparr>table_busy = False, close_busy = busy, context_pool = pool, name_pool = True\<rparr>"

definition sample_create :: "create_env \<Rightarrow> nat \<Rightarrow> int \<Rightarrow> devio \<Rightarrow> ntstatus \<times> devio" where
  "sample_create env f options s = DevIoDrvDispatchCreate id env f f options 0x80000000 (new_file f ''f'' s)"

definition "devio0 = (no_files, new_machine (\<lambda>_. []) (\<lambda>_. []))"
definition "devio1 = snd (sample_create (plain_env False (Some 5)) 1 0x2000000 devio0)"
definition "devio2 = snd (sample_create (plain_env False None) 2 0x1000000 devio1)"
definition "devio3 = snd (sample_create (plain_env True None) 3 0x1000000 devio2)"
definition "devio4 = snd (the (DevIoDrvDispatchClose [True, False] 4 2 devio3))"
definition "devio5 = snd (the (DevIoDrvDispatchClose [False] 5 1 devio4))"

lemma sample_statuses:
  "fst (sample_create (plain_env False (Some 5)) 1 0x2000000 devio0) = STATUS_SUCCESS"
  "fst (sample_create (plain_env False None) 2 0x1000000 devio1) = STATUS_SUCCESS"
  "fst (sample_create (plain_env True None) 3 0x1000000 devio2) = STATUS_SHARING_VIOLATION"
  "DevIoDrvDispatchClose [True, False] 4 2 devio3 \<noteq> None"
  "DevIoDrvDispatchClose [False] 5 1 devio4 \<noteq> None"
  "fst (sample_create (plain_env False (Some 6)) 4 0x2000000 devio5) = STATUS_OBJECT_NAME_COLLISION"
  by code_simp+

lemma sample_tables:
  "contexts (fst devio0) 5 = None"
  "\<forall>a \<in> set (FileTable (fst devio0)). RefCount (context_at a (fst devio0)) < 2147483647"
  "\<forall>a \<in> set (FileTable (fst devio1)). RefCount (context_at a (fst devio1)) < 2147483647"
  "\<forall>a \<in> set (FileTable (fst devio2)). RefCount (context_at a (fst devio2)) < 2147483647"
  "FileTable (fst devio2) = [5]" "RefCount (context_at 5 (fst devio2)) = 2" "FileTable (fst devio5) = [5]"
  by code_simp+


lemma sample_step:
  assumes "f \<notin> set opened" "\<And>a. pool_at = Some a \<Longrightarrow> contexts (fst s) a = None"
    "\<forall>a \<in> set (FileTable (fst s)). RefCount (context_at a (fst s)) < 2147483647"
  shows "life_step id pool (opened, s) (Creates (plain_env b pool_at) f f options 0x80000000 ''f'')
     (if fst (sample_create (plain_env b pool_at) f options s) = STATUS_SUCCESS then f # opened else opened,
      snd (sample_create (plain_env b pool_at) f options s))"
proof -
  obtain st s' where c: "sample_create (plain_env b pool_at) f options s = (st, s')" by (metis prod.exhaust)
  have "life_step id pool (opened, s) (Creates (plain_env b pool_at) f f options 0x80000000 ''f'')
     (if st = STATUS_SUCCESS then f # opened else opened, s')"
    using assms c by (intro life_step.create) (simp_all add: plain_env_def sample_create_def)
  then show ?thesis by (simp add: c)
qed

lemma sample_steps:
  "life_step id pool ([], devio0) (Creates (plain_env False (Some 5)) 1 1 0x2000000 0x80000000 ''f'') ([1], devio1)"
  "life_step id pool ([1], devio1) (Creates (plain_env False None) 2 2 0x1000000 0x80000000 ''f'') ([2, 1], devio2)"
  "life_step id pool ([2, 1], devio2) (Creates (plain_env True None) 3 3 0x1000000 0x80000000 ''f'') ([2, 1], devio3)"
  using sample_step [where f = 1 and opened = "[]" and pool_at = "Some 5" and s = devio0 and b = False and options = "0x2000000" and pool = pool]
    sample_step [where f = 2 and opened = "[1]" and pool_at = "None" and s = devio1 and b = False and options = "0x1000000" and pool = pool]
    sample_step [where f = 3 and opened = "[2, 1]" and pool_at = "None" and s = devio2 and b = True and options = "0x1000000" and pool = pool] sample_statuses sample_tables
  by (simp_all add: devio1_def [symmetric] devio2_def [symmetric] devio3_def [symmetric] del: One_nat_def)

lemma sample_closes:
  "life_step id pool ([2, 1], devio3) (Closes [True, False] 4 2) ([1], devio4)"
  "life_step id pool ([1], devio4) (Closes [False] 5 1) ([], devio5)"
proof -
  obtain r4 r5 where r: "DevIoDrvDispatchClose [True, False] 4 2 devio3 = Some r4"
      "DevIoDrvDispatchClose [False] 5 1 devio4 = Some r5"
    using sample_statuses by auto
  then have "DevIoDrvDispatchClose [True, False] 4 2 devio3 = Some (fst r4, devio4)"
      "DevIoDrvDispatchClose [False] 5 1 devio4 = Some (fst r5, devio5)"
    by (simp_all add: devio4_def devio5_def)
  from life_step.close [OF _ this(1), of "[2, 1]"] life_step.close [OF _ this(2), of "[1]"]
  show "life_step id pool ([2, 1], devio3) (Closes [True, False] 4 2) ([1], devio4)"
    "life_step id pool ([1], devio4) (Closes [False] 5 1) ([], devio5)" by simp_all
qed

lemma sample_run: "life_run quiet id pool ([], devio0) ([2, 1], devio2)"
  by (rule life_run.step [OF life_run.step [OF life_run.refl _ sample_steps(1)] _ sample_steps(2)])
    (simp_all add: plain_env_def)

theorem references_are_handles_witness:
  "life_run quiet id two_blocks ([], devio0) ([2, 1], devio2) \<and>
   FileTable (fst devio2) = [5] \<and> RefCount (context_at 5 (fst devio2)) = 2"
proof -
  obtain t m where d: "devio2 = (t, m)" by fastforce
  have r: "life_run quiet id two_blocks ([], (no_files, new_machine (\<lambda>_. []) (\<lambda>_. []))) ([2, 1], (t, m))"
    using sample_run [of two_blocks] by (simp add: d devio0_def)
  have "handles 5 [2, 1] t = [2, 1]"
  proof -
    have "handles 5 [2, 1] (fst devio2) = [2, 1]" by code_simp
    then show ?thesis by (simp add: d)
  qed
  moreover have "FileTable t = [5]" using sample_tables(5) by (simp add: d)
  ultimately have "RefCount (context_at 5 t) = 2"
    using references_are_handles [OF r] by simp
  then show ?thesis using sample_run [of two_blocks] \<open>FileTable t = [5]\<close> by (simp only: d fst_conv)
qed

text \<open>C38. One client: while a virtual file's server is connected, at most one handle other than the server's
  may read or write, in every run of the driver, whatever the order of opens, closes and cleanups and
  whatever threads have the table.\<close>

theorem one_client:
  assumes "life_run (\<lambda>_. True) upcase pool ([], (no_files, m)) (opened, (t, m'))"
    "a \<in> set (FileTable t)" "Server (context_at a t) = Some s"
    "{f, g} \<subseteq> set (handles a opened t) - {s}" "has_access f t" "has_access g t"
  shows "f = g"
proof -
  obtain leak where "table_ok upcase leak opened t"
    using table_ok_run [OF assms(1), of "\<lambda>_. 0"] no_files_ok by auto
  then have "connected_ok a opened t" using assms(2) by (simp add: table_ok_def entry_ok_def)
  then show ?thesis using assms(3-6) by (auto simp: connected_ok_def)
qed

theorem one_client_witness:
  "\<exists>!f. f \<in> set (handles 5 [2, 1] (fst devio2)) - {1} \<and> has_access f (fst devio2)"
proof (intro ex1I conjI)
  have "life_run (\<lambda>_. True) id two_blocks ([], devio0) ([2, 1], devio2)"
    by (rule life_run.step [OF life_run.step [OF life_run.refl _ sample_steps(1)] _ sample_steps(2)]) simp_all
  then have r: "life_run (\<lambda>_. True) id two_blocks ([], (no_files, new_machine (\<lambda>_. []) (\<lambda>_. []))) ([2, 1], (fst devio2, snd devio2))"
    by (simp add: devio0_def)
  have srv: "Server (context_at 5 (fst devio2)) = Some 1" by code_simp
  show mem: "2 \<in> set (handles 5 [2, 1] (fst devio2)) - {1}" and acc: "has_access 2 (fst devio2)" by code_simp+
  have t: "5 \<in> set (FileTable (fst devio2))" using sample_tables(5) by simp
  fix f
  assume f: "f \<in> set (handles 5 [2, 1] (fst devio2)) - {1} \<and> has_access f (fst devio2)"
  then have "{f, 2} \<subseteq> set (handles 5 [2, 1] (fst devio2)) - {1}" using mem by simp
  from one_client [OF r t srv this _ acc] f show "f = 2" by blast
qed


text \<open>A client can end the server's call: a request to zero a range sent as a device control passes the
  dispatch routine, but the queues know it only as a file system control, so the waiting call of the
  server is completed with an error together with the request.\<close>

lemma zero_by_device_control_fails_server:
  assumes "FsContext2 (file_objects t (FileObject i)) = Some a" "ReadAccess (file_objects t (FileObject i))"
    "a \<in> dom (contexts t)" "MajorFunction i = IRP_MJ_DEVICE_CONTROL" "IoControlCode i = FSCTL_SET_ZERO_DATA"
    "FlagOn (ServiceFlags (context_at a t)) FSCRYPTDPROXY_FLAG_SUPPORTS_ZERO"
    "zero_input_ok (InputBufferLength i) (SystemBuffer m (irp i))"
    "Server (context_at a t) = Some srv" "pool (blocks m) = Some b"
    "ServerRequestIrpList (context_at a t) = [new_item e call]" "\<not> Cancel m (irp call)"
    "0 < OutputBufferLength call" "MdlMaps call"
  shows "fst (DevIoDrvDispatchControl pool i (t, m)) = STATUS_INTERNAL_ERROR \<and>
     completed (snd (snd (DevIoDrvDispatchControl pool i (t, m)))) =
       completed m @ [(irp i, STATUS_INTERNAL_ERROR, 0), (irp call, STATUS_INTERNAL_ERROR, 0)]"
proof -
  define c m0 where "c = context_at a t" and "m0 = IoSetCancelRoutine call False (m\<lparr>blocks := insert b (blocks m)\<rparr>)"
  define c0 where "c0 = c\<lparr>ServerRequestIrpList := []\<rparr>"
  have r: "DevIoDrvReserveMemoryIrp call (c0, m0) =
      ((STATUS_SUCCESS, None, Some (irp call), OutputBufferLength call), (c0, m0))"
    using assms(12,13) by (simp add: DevIoDrvReserveMemoryIrp_def)
  have room: "client_room x i = None" for x by (simp add: client_room_def assms(4))
  have "DevIoDrvDispatchControl pool i (t, m) = with_context a (DevIoDrvDispatchClientRequest pool i) (t, m)"
    using assms(1-8) by (simp add: DevIoDrvDispatchControl_def)
  moreover have "fst (DevIoDrvDispatchClientRequest pool i (c, m)) = STATUS_INTERNAL_ERROR \<and>
      completed (snd (snd (DevIoDrvDispatchClientRequest pool i (c, m)))) =
        completed m @ [(irp i, STATUS_INTERNAL_ERROR, 0), (irp call, STATUS_INTERNAL_ERROR, 0)]"
  proof -
    have pages: "completed (store_qword x p v y) = completed y" for x p v y
      by (simp add: store_qword_def store_mdl_def)
    have "MappedBuffer (new_item e j) = None" "Irp (new_item e j) = j" "MemoryIrp (new_item e j) = None" for e j
      by (simp_all add: new_item_def)
    then show ?thesis
      using assms(8-11) r room
      by (simp add: DevIoDrvDispatchClientRequest_def Let_def c_def [symmetric] c0_def [symmetric] m0_def [symmetric]
          DevIoDrvSendClientRequestToServer_def send_mapped_def DevIoDrvCompleteIrpQueueItem_def DevIoDrvCompleteIrp_def
          ExFreePool_def pages) (simp add: m0_def IoSetCancelRoutine_def)
  qed
  ultimately show ?thesis
    by (simp add: with_context_def c_def split: prod.split) (metis fst_conv snd_conv)
qed


definition zero_call :: fwd_irp where
  "zero_call = \<lparr>irp = 8, FileObject = 2, MajorFunction = IRP_MJ_DEVICE_CONTROL, MinorFunctionOk = False,
     IoControlCode = FSCTL_SET_ZERO_DATA, ByteOffset = 0, Length = 0, InputBufferLength = 16, OutputBufferLength = 0,
     MdlMaps = False\<rparr>"

definition waiting_table :: file_table where
  "waiting_table = \<lparr>FileTable = [5],
     contexts = [5 \<mapsto> new_context ''f'' 1\<lparr>ServiceFlags := 4, ServerRequestIrpList := [new_item 4096 (server_call 7)]\<rparr>],
     file_objects = (\<lambda>_. \<lparr>FileName = ''f'', FsContext2 = Some 5, ReadAccess = True, WriteAccess = True, CurrentByteOffset = 0\<rparr>)\<rparr>"

definition waiting_machine :: machine where
  "waiting_machine = new_machine (\<lambda>_. replicate 8192 0) (\<lambda>_. replicate 16 0)"

lemma zero_by_device_control_fails_server_witness:
  "completed (snd (snd (DevIoDrvDispatchControl two_blocks zero_call (waiting_table, waiting_machine)))) =
     [(8, STATUS_INTERNAL_ERROR, 0), (7, STATUS_INTERNAL_ERROR, 0)]"
proof -
  have z: "zero_input_ok 16 (replicate 16 0)" "FlagOn 4 FSCRYPTDPROXY_FLAG_SUPPORTS_ZERO" by code_simp+
  show ?thesis
    using zero_by_device_control_fails_server [of waiting_table zero_call 5 waiting_machine 1 two_blocks 4096 4096 "server_call 7"] z
    by (simp add: waiting_table_def waiting_machine_def zero_call_def context_at_def new_context_def new_machine_def
        two_blocks_def server_call_def)
qed

end
