(* ===== verification/Spec2Isabelle.thy ===== *)
theory Spec2Isabelle
  imports FD_Prelude FD_Store Devio_Image Devio_Vhd Safeio Devio_Comm Devio_Main Awe_Context Awe_File Awe_Refine Awe_Handlers Awe_Theorems Awe_Locks Awe_Driver
    Drv_Mbr Drv_Parts Drv_Round Drv_Files Drv_Files_Props Drv_Registry
    Sys_Common Sys_Proxy Sys_Proxy_Props Sys_Device Sys_Device_Props Sys_Bounds Sys_Awe Sys_Registry Sys_Registry_Props
    Sys_Control Sys_Worker Sys_Create Sys_Create_Props Sys_Created Sys_Created_Props Sys_Run Sys_Control_Props
    Fwd_Queue Fwd_Server Fwd_Held Fwd_Moves Fwd_Cancel Fwd_Run Fwd_Disk Fwd_Table Fwd_Handles Fwd_Dispatch Fwd_Life
begin

text \<open>
  FscryptDisk: a virtual disk driver for Windows with its user-mode image server (\<open>devio\<close>), a
  physical-memory backing driver (\<open>awefsalloc\<close>), a control library (\<open>cpl/drvio.c\<close>) and a command
  line tool (\<open>cli/fscryptdisk.c\<close>).
\<close>

end
